(* ===== verification/Js_Prelude.thy ===== *)
theory Js_Prelude
  imports Main "HOL-Library.Sublist"
begin

text \<open>
  What every theory of the development shares: the exceptions the services throw, the
  state-and-exception reading of an \<open>async\<close> method, the string and array functions of the
  language that the sources call, and the operations on the rows of a table.

  A string is a list of code units below 256, and the case mappings are those of ASCII.
\<close>

section \<open>Collections of facts\<close>

named_theorems io_simps \<open>evaluation of the state-and-exception combinators\<close>
named_theorems io_iffs \<open>inversion of a run of the combinators that returned or threw\<close>
named_theorems str_simps \<open>evaluation of the string functions\<close>

section \<open>Exceptions\<close>

text \<open>
  The HTTP exceptions of the services with their messages, \<open>PlainError\<close> for a thrown
  \<open>Error\<close>, and \<open>PrismaError\<close> for a known request error of the database client with its
  code (\<open>P2002\<close> a unique constraint failed, \<open>P2025\<close> no row to update or delete).
\<close>

datatype exn =
    BadRequest string
  | Unauthorized string
  | Forbidden string
  | NotFound string
  | Conflict string
  | TooManyRequests string
  | InternalServerError string
  | BadGateway string
  | ServiceUnavailable string
  | PlainError string
  | PrismaError string

section \<open>Methods as state transformers that may throw\<close>

text \<open>
  A method takes the state and gives back its result or the exception, together with the
  state it left behind: what was written before a \<open>throw\<close> stays written.
\<close>

type_synonym ('s, 'a) io = "'s \<Rightarrow> (exn + 'a) \<times> 's"

definition ret :: "'a \<Rightarrow> ('s, 'a) io" where
  "ret a = (\<lambda>s. (Inr a, s))"

definition throw :: "exn \<Rightarrow> ('s, 'a) io" where
  "throw e = (\<lambda>s. (Inl e, s))"

definition bnd :: "('s, 'a) io \<Rightarrow> ('a \<Rightarrow> ('s, 'b) io) \<Rightarrow> ('s, 'b) io" where
  "bnd m k = (\<lambda>s. case m s of (Inl e, s') \<Rightarrow> (Inl e, s') | (Inr a, s') \<Rightarrow> k a s')"

definition throw_if :: "bool \<Rightarrow> exn \<Rightarrow> ('s, unit) io" where
  "throw_if b e = (if b then throw e else ret ())"

definition lift :: "exn + 'a \<Rightarrow> ('s, 'a) io" where
  "lift r = (\<lambda>s. (r, s))"

definition asks :: "('s \<Rightarrow> 'a) \<Rightarrow> ('s, 'a) io" where
  "asks f = (\<lambda>s. (Inr (f s), s))"

definition modify :: "('s \<Rightarrow> 's) \<Rightarrow> ('s, unit) io" where
  "modify f = (\<lambda>s. (Inr (), f s))"

definition try_catch :: "('s, 'a) io \<Rightarrow> (exn \<Rightarrow> ('s, 'a) io) \<Rightarrow> ('s, 'a) io" where
  "try_catch m h = (\<lambda>s. case m s of (Inl e, s') \<Rightarrow> h e s' | (Inr a, s') \<Rightarrow> (Inr a, s'))"

definition require :: "exn \<Rightarrow> 'a option \<Rightarrow> ('s, 'a) io" where
  "require e x = (case x of None \<Rightarrow> throw e | Some a \<Rightarrow> ret a)"

lemma ret_eq [io_simps, simp]: "ret a s = (Inr a, s)"
  by (simp add: ret_def)

lemma throw_eq [io_simps, simp]: "throw e s = (Inl e, s)"
  by (simp add: throw_def)

lemma asks_eq [io_simps, simp]: "asks f s = (Inr (f s), s)"
  by (simp add: asks_def)

lemma modify_eq [io_simps, simp]: "modify f s = (Inr (), f s)"
  by (simp add: modify_def)

lemma lift_eq [io_simps, simp]: "lift r s = (r, s)"
  by (simp add: lift_def)

lemma throw_if_eq [io_simps]: "throw_if b e s = (if b then (Inl e, s) else (Inr (), s))"
  by (simp add: throw_if_def)

lemma require_eq [io_simps]:
  "require e x s = (case x of None \<Rightarrow> (Inl e, s) | Some a \<Rightarrow> (Inr a, s))"
  by (simp add: require_def split: option.split)

lemma bnd_eq [io_simps]:
  "bnd m k s = (case m s of (Inl e, s') \<Rightarrow> (Inl e, s') | (Inr a, s') \<Rightarrow> k a s')"
  by (simp add: bnd_def)

lemma try_catch_eq [io_simps]:
  "try_catch m h s = (case m s of (Inl e, s') \<Rightarrow> h e s' | (Inr a, s') \<Rightarrow> (Inr a, s'))"
  by (simp add: try_catch_def)

lemma bnd_Inr_iff [io_iffs]:
  "bnd m k s = (Inr b, t) \<longleftrightarrow> (\<exists>a s'. m s = (Inr a, s') \<and> k a s' = (Inr b, t))"
  by (auto simp: bnd_def split: prod.split sum.split)

lemma bnd_Inl_iff [io_iffs]:
  "bnd m k s = (Inl e, t) \<longleftrightarrow>
     m s = (Inl e, t) \<or> (\<exists>a s'. m s = (Inr a, s') \<and> k a s' = (Inl e, t))"
  by (auto simp: bnd_def split: prod.split sum.split)

lemma throw_if_Inr_iff [io_iffs]: "throw_if b e s = (Inr u, t) \<longleftrightarrow> \<not> b \<and> t = s"
  by (auto simp: throw_if_def)

lemma throw_if_Inl_iff [io_iffs]: "throw_if b e s = (Inl e', t) \<longleftrightarrow> b \<and> e' = e \<and> t = s"
  by (auto simp: throw_if_def)

lemma require_Inr_iff [io_iffs]: "require e x s = (Inr a, t) \<longleftrightarrow> x = Some a \<and> t = s"
  by (auto simp: io_simps split: option.split)

lemma require_Inl_iff [io_iffs]: "require e x s = (Inl e', t) \<longleftrightarrow> x = None \<and> e' = e \<and> t = s"
  by (auto simp: io_simps split: option.split)

text \<open>Left unit, right unit and associativity: the combinators sequence as \<open>await\<close> does.\<close>

lemma bnd_ret_left [simp]: "bnd (ret a) k = k a"
  by (simp add: bnd_def fun_eq_iff)

lemma bnd_ret_right [simp]: "bnd m ret = m"
  by (auto simp: bnd_def fun_eq_iff split: prod.split sum.split)

lemma bnd_assoc: "bnd (bnd m k) h = bnd m (\<lambda>a. bnd (k a) h)"
  by (auto simp: bnd_def fun_eq_iff split: prod.split sum.split)

lemma bnd_throw [simp]: "bnd (throw e) k = throw e"
  by (simp add: bnd_def fun_eq_iff)

section \<open>Methods that only read\<close>

text \<open>A method is read-only when every run leaves the state as it was.\<close>

definition read_only :: "('s, 'a) io \<Rightarrow> bool" where
  "read_only m \<longleftrightarrow> (\<forall>s. snd (m s) = s)"

named_theorems read_only_intros \<open>methods that leave the state as it was\<close>

lemma read_only_ret [read_only_intros]: "read_only (ret a)"
  by (simp add: read_only_def)

lemma read_only_throw [read_only_intros]: "read_only (throw e)"
  by (simp add: read_only_def)

lemma read_only_throw_if [read_only_intros]: "read_only (throw_if b e)"
  by (simp add: read_only_def io_simps)

lemma read_only_asks [read_only_intros]: "read_only (asks f)"
  by (simp add: read_only_def)

lemma read_only_lift [read_only_intros]: "read_only (lift r)"
  by (simp add: read_only_def)

lemma read_only_require [read_only_intros]: "read_only (require e x)"
  by (simp add: read_only_def io_simps split: option.split)

lemma read_only_bnd [read_only_intros]:
  "read_only m \<Longrightarrow> (\<And>a. read_only (k a)) \<Longrightarrow> read_only (bnd m k)"
  by (auto simp: read_only_def bnd_def split: prod.split sum.split) (metis snd_conv)+

lemma read_only_if [read_only_intros]:
  "read_only m \<Longrightarrow> read_only n \<Longrightarrow> read_only (if b then m else n)"
  by simp

lemma read_only_state: "read_only m \<Longrightarrow> m s = (r, t) \<Longrightarrow> t = s"
  by (metis read_only_def snd_conv)

section \<open>Methods that keep an invariant\<close>

text \<open>Whether it returns or throws, a method that starts in the invariant ends in it.\<close>

definition preserves :: "('s \<Rightarrow> bool) \<Rightarrow> ('s, 'a) io \<Rightarrow> bool" where
  "preserves P m \<longleftrightarrow> (\<forall>s. P s \<longrightarrow> P (snd (m s)))"

named_theorems preserves_intros \<open>methods that keep an invariant\<close>

lemma preservesI: "(\<And>s r t. P s \<Longrightarrow> m s = (r, t) \<Longrightarrow> P t) \<Longrightarrow> preserves P m"
  unfolding preserves_def by (metis prod.collapse)

lemma preservesD: "preserves P m \<Longrightarrow> P s \<Longrightarrow> m s = (r, t) \<Longrightarrow> P t"
  unfolding preserves_def by (metis snd_conv)

lemma preserves_read_only: "read_only m \<Longrightarrow> preserves P m"
  by (simp add: preserves_def read_only_def)

lemma preserves_modify: "(\<And>s. P s \<Longrightarrow> P (f s)) \<Longrightarrow> preserves P (modify f)"
  by (simp add: preserves_def)

lemma preserves_basic [preserves_intros]:
  "preserves P (ret a)" "preserves P (throw e)" "preserves P (throw_if b e)" "preserves P (asks f)"
  "preserves P (lift r)" "preserves P (require e x)"
  by (simp_all add: preserves_read_only read_only_intros)

lemma preserves_bnd [preserves_intros]:
  "preserves P m \<Longrightarrow> (\<And>a. preserves P (k a)) \<Longrightarrow> preserves P (bnd m k)"
  by (auto simp: preserves_def bnd_def split: prod.split sum.split)

lemma preserves_if [preserves_intros]:
  "preserves P m \<Longrightarrow> preserves P n \<Longrightarrow> preserves P (if b then m else n)"
  by simp

lemma preserves_option [preserves_intros]:
  "preserves P m \<Longrightarrow> (\<And>a. preserves P (k a)) \<Longrightarrow> preserves P (case x of None \<Rightarrow> m | Some a \<Rightarrow> k a)"
  by (cases x) simp_all

lemma preserves_sum [preserves_intros]:
  "(\<And>e. preserves P (h e)) \<Longrightarrow> (\<And>a. preserves P (k a)) \<Longrightarrow> preserves P (case x of Inl e \<Rightarrow> h e | Inr a \<Rightarrow> k a)"
  by (cases x) simp_all

lemma preserves_prod [preserves_intros]:
  "(\<And>a b. preserves P (k a b)) \<Longrightarrow> preserves P (case x of (a, b) \<Rightarrow> k a b)"
  by (cases x) simp

lemma preserves_Let [preserves_intros]: "(\<And>a. preserves P (k a)) \<Longrightarrow> preserves P (let a = x in k a)"
  by (simp add: Let_def)

lemma preserves_try [preserves_intros]:
  "preserves P m \<Longrightarrow> (\<And>e. preserves P (h e)) \<Longrightarrow> preserves P (try_catch m h)"
  by (auto simp: preserves_def try_catch_def split: prod.split sum.split)

section \<open>Strings\<close>

definition is_ws :: "char \<Rightarrow> bool" where
  "is_ws c \<longleftrightarrow> (let n = of_char c :: nat in 9 \<le> n \<and> n \<le> 13 \<or> n = 32 \<or> n = 160)"

definition trim :: "string \<Rightarrow> string" where
  "trim s = rev (dropWhile is_ws (rev (dropWhile is_ws s)))"

text \<open>\<open>s.replace(/\s+/g, " ")\<close>.\<close>

fun collapse_ws :: "string \<Rightarrow> string" where
  "collapse_ws [] = []"
| "collapse_ws (c # cs) =
     (if is_ws c then (case cs of d # _ \<Rightarrow> if is_ws d then collapse_ws cs else CHR '' '' # collapse_ws cs | [] \<Rightarrow> '' '')
      else c # collapse_ws cs)"

definition to_lower_char :: "char \<Rightarrow> char" where
  "to_lower_char c = (let n = of_char c :: nat in if 65 \<le> n \<and> n \<le> 90 then char_of (n + 32) else c)"

definition to_upper_char :: "char \<Rightarrow> char" where
  "to_upper_char c = (let n = of_char c :: nat in if 97 \<le> n \<and> n \<le> 122 then char_of (n - 32) else c)"

definition toLowerCase :: "string \<Rightarrow> string" where
  "toLowerCase = map to_lower_char"

definition toUpperCase :: "string \<Rightarrow> string" where
  "toUpperCase = map to_upper_char"

definition is_digit :: "char \<Rightarrow> bool" where
  "is_digit c \<longleftrightarrow> (let n = of_char c :: nat in 48 \<le> n \<and> n \<le> 57)"

definition is_alpha :: "char \<Rightarrow> bool" where
  "is_alpha c \<longleftrightarrow> (let n = of_char c :: nat in 65 \<le> n \<and> n \<le> 90 \<or> 97 \<le> n \<and> n \<le> 122)"

definition starts_with :: "string \<Rightarrow> string \<Rightarrow> bool" where
  "starts_with s p \<longleftrightarrow> take (length p) s = p"

definition ends_with :: "string \<Rightarrow> string \<Rightarrow> bool" where
  "ends_with s p \<longleftrightarrow> length p \<le> length s \<and> drop (length s - length p) s = p"

fun str_includes :: "string \<Rightarrow> string \<Rightarrow> bool" where
  "str_includes [] p \<longleftrightarrow> p = []"
| "str_includes (c # cs) p \<longleftrightarrow> starts_with (c # cs) p \<or> str_includes cs p"

fun split_on :: "char \<Rightarrow> string \<Rightarrow> string list" where
  "split_on d [] = [[]]"
| "split_on d (c # cs) =
     (if c = d then [] # split_on d cs
      else case split_on d cs of [] \<Rightarrow> [[c]] | w # ws \<Rightarrow> (c # w) # ws)"

fun join_with :: "string \<Rightarrow> string list \<Rightarrow> string" where
  "join_with d [] = []"
| "join_with d [w] = w"
| "join_with d (w # v # ws) = w @ d @ join_with d (v # ws)"

text \<open>\<open>a || b\<close> on strings, and on strings that may be undefined or null.\<close>

definition or_str :: "string \<Rightarrow> string \<Rightarrow> string" where
  "or_str a b = (if a = [] then b else a)"

definition or_opt :: "string option \<Rightarrow> string \<Rightarrow> string" where
  "or_opt a b = (case a of None \<Rightarrow> b | Some x \<Rightarrow> or_str x b)"

definition truthy :: "string option \<Rightarrow> bool" where
  "truthy a \<longleftrightarrow> (case a of None \<Rightarrow> False | Some x \<Rightarrow> x \<noteq> [])"

definition nullish :: "'a option \<Rightarrow> 'a \<Rightarrow> 'a" where
  "nullish a d = (case a of None \<Rightarrow> d | Some x \<Rightarrow> x)"

lemma or_opt_simps [simp]:
  "or_opt None b = b" "or_opt (Some a) b = (if a = [] then b else a)"
  by (simp_all add: or_opt_def or_str_def)

lemma truthy_simps [simp]:
  "\<not> truthy None" "truthy (Some x) \<longleftrightarrow> x \<noteq> []"
  by (simp_all add: truthy_def)

lemma nullish_simps [simp]:
  "nullish None d = d" "nullish (Some x) d = x"
  by (simp_all add: nullish_def)

lemma split_on_not_Nil [simp]: "split_on d s \<noteq> []"
  by (induction s) (auto split: list.split)

lemma split_on_append:
  "d \<notin> set a \<Longrightarrow> split_on d (a @ d # b) = a # split_on d b"
  by (induction a) auto

lemma split_on_single: "d \<notin> set a \<Longrightarrow> split_on d a = [a]"
  by (induction a) auto

lemma split_on_no_delim: "w \<in> set (split_on d s) \<Longrightarrow> d \<notin> set w"
proof (induction s arbitrary: w)
  case Nil
  then show ?case by simp
next
  case (Cons c cs)
  then show ?case
    by (cases "split_on d cs") (auto split: if_splits)
qed

lemma starts_with_append [simp]: "starts_with (p @ s) p"
  by (simp add: starts_with_def)

lemma starts_with_iff: "starts_with s p \<longleftrightarrow> (\<exists>r. s = p @ r)"
proof
  assume "starts_with s p"
  then have "s = p @ drop (length p) s"
    by (metis append_take_drop_id starts_with_def)
  then show "\<exists>r. s = p @ r" by blast
qed auto

lemma ends_with_iff: "ends_with s p \<longleftrightarrow> (\<exists>r. s = r @ p)"
proof
  assume "ends_with s p"
  then have "s = take (length s - length p) s @ p"
    by (metis append_take_drop_id ends_with_def)
  then show "\<exists>r. s = r @ p" by blast
qed (auto simp: ends_with_def)

lemma str_includes_iff: "str_includes s p \<longleftrightarrow> (\<exists>a b. s = a @ p @ b)"
proof (induction s)
  case Nil
  then show ?case by auto
next
  case (Cons c cs)
  show ?case
  proof
    assume "str_includes (c # cs) p"
    then consider "starts_with (c # cs) p" | "str_includes cs p" by auto
    then show "\<exists>a b. c # cs = a @ p @ b"
    proof cases
      case 1
      then show ?thesis by (metis append_Nil starts_with_iff)
    next
      case 2
      then show ?thesis using Cons.IH by (metis append_Cons)
    qed
  next
    assume "\<exists>a b. c # cs = a @ p @ b"
    then obtain a b where ab: "c # cs = a @ p @ b" by blast
    then show "str_includes (c # cs) p"
    proof (cases a)
      case Nil
      then have "starts_with (c # cs) p" using ab by (auto simp: starts_with_iff)
      then show ?thesis by simp
    next
      case (Cons d a')
      then show ?thesis using ab \<open>str_includes cs p \<longleftrightarrow> (\<exists>a b. cs = a @ p @ b)\<close> by auto
    qed
  qed
qed

text \<open>Decimal numerals, as \<open>String(n)\<close> and a template string print an integer.\<close>

fun show_nat :: "nat \<Rightarrow> string" where
  "show_nat n = (if n < 10 then [char_of (48 + n)] else show_nat (n div 10) @ [char_of (48 + n mod 10)])"

declare show_nat.simps [simp del]

definition show_int :: "int \<Rightarrow> string" where
  "show_int i = (if i < 0 then CHR ''-'' # show_nat (nat (- i)) else show_nat (nat i))"

lemma is_digit_char_of [simp]: "n < (10 :: nat) \<Longrightarrow> is_digit (char_of (48 + n))"
  by (simp add: is_digit_def)

lemma show_nat_digits: "\<forall>c \<in> set (show_nat n). is_digit c"
proof (induction n rule: show_nat.induct)
  case (1 n)
  then show ?case
    by (subst show_nat.simps) auto
qed

lemma show_nat_not_Nil [simp]: "show_nat n \<noteq> []"
  by (subst show_nat.simps) simp

lemma dropWhile_none: "(\<forall>c \<in> set s. \<not> p c) \<Longrightarrow> dropWhile p s = s"
  by (cases s) simp_all

lemma trim_no_ws: "(\<forall>c \<in> set s. \<not> is_ws c) \<Longrightarrow> trim s = s"
  by (simp add: trim_def dropWhile_none)

lemma trim_show_nat [simp]: "trim (show_nat n) = show_nat n"
  using show_nat_digits [of n] by (intro trim_no_ws) (auto simp: is_ws_def is_digit_def Let_def)

section \<open>Rows of a table\<close>

text \<open>
  A table is the list of its rows in the order they were written. The functions read the
  clauses of a query: \<open>find\<close> a first row, \<open>updateMany\<close> and \<open>deleteMany\<close> on the rows a
  \<open>where\<close> selects, \<open>count\<close> and the \<open>_sum\<close> of an \<open>aggregate\<close>.
\<close>

definition update_many :: "('r \<Rightarrow> bool) \<Rightarrow> ('r \<Rightarrow> 'r) \<Rightarrow> 'r list \<Rightarrow> 'r list" where
  "update_many p f t = map (\<lambda>r. if p r then f r else r) t"

definition delete_many :: "('r \<Rightarrow> bool) \<Rightarrow> 'r list \<Rightarrow> 'r list" where
  "delete_many p t = filter (\<lambda>r. \<not> p r) t"

definition count_rows :: "('r \<Rightarrow> bool) \<Rightarrow> 'r list \<Rightarrow> nat" where
  "count_rows p t = length (filter p t)"

definition sum_rows :: "('r \<Rightarrow> int) \<Rightarrow> ('r \<Rightarrow> bool) \<Rightarrow> 'r list \<Rightarrow> int" where
  "sum_rows f p t = (\<Sum>r\<leftarrow>filter p t. f r)"

lemma count_rows_simps [simp]:
  "count_rows p [] = 0"
  "count_rows p (r # t) = (if p r then Suc (count_rows p t) else count_rows p t)"
  "count_rows p (t @ u) = count_rows p t + count_rows p u"
  by (simp_all add: count_rows_def)

lemma sum_rows_simps [simp]:
  "sum_rows f p [] = 0"
  "sum_rows f p (r # t) = (if p r then f r + sum_rows f p t else sum_rows f p t)"
  "sum_rows f p (t @ u) = sum_rows f p t + sum_rows f p u"
  by (simp_all add: sum_rows_def)

lemma update_many_simps [simp]:
  "update_many p f [] = []"
  "update_many p f (r # t) = (if p r then f r else r) # update_many p f t"
  "update_many p f (t @ u) = update_many p f t @ update_many p f u"
  by (simp_all add: update_many_def)

lemma delete_many_simps [simp]:
  "delete_many p [] = []"
  "delete_many p (r # t) = (if p r then delete_many p t else r # delete_many p t)"
  by (simp_all add: delete_many_def)

lemma length_update_many [simp]: "length (update_many p f t) = length t"
  by (simp add: update_many_def)

lemma set_update_many: "set (update_many p f t) = (\<lambda>r. if p r then f r else r) ` set t"
  by (simp add: update_many_def)

lemma set_delete_many [simp]: "set (delete_many p t) = {r \<in> set t. \<not> p r}"
  by (simp add: delete_many_def)

lemma update_many_none: "(\<And>r. r \<in> set t \<Longrightarrow> \<not> p r) \<Longrightarrow> update_many p f t = t"
  by (simp add: update_many_def map_idI)

lemma count_rows_mono:
  "(\<And>r. r \<in> set t \<Longrightarrow> p r \<Longrightarrow> q r) \<Longrightarrow> count_rows p t \<le> count_rows q t"
  by (induction t) (auto simp: le_Suc_eq)

lemma sum_rows_mono:
  "(\<And>r. r \<in> set t \<Longrightarrow> p r \<Longrightarrow> q r) \<Longrightarrow> (\<And>r. r \<in> set t \<Longrightarrow> 0 \<le> f r) \<Longrightarrow>
     sum_rows f p t \<le> sum_rows f q t"
  by (induction t) (auto simp: add_increasing)

lemma sum_rows_nonneg: "(\<And>r. r \<in> set t \<Longrightarrow> 0 \<le> f r) \<Longrightarrow> 0 \<le> sum_rows f p t"
  by (induction t) auto

lemma find_Some_set: "List.find p t = Some r \<Longrightarrow> r \<in> set t \<and> p r"
  by (auto simp: find_Some_iff)

lemma find_append:
  "List.find p (t @ u) = (case List.find p t of None \<Rightarrow> List.find p u | Some r \<Rightarrow> Some r)"
  by (induction t) auto

text \<open>
  An interface several tables share: the rows have a key, and an update of the code writes
  other columns only. Then an \<open>updateMany\<close> keeps the keys, and what a lookup by key finds
  afterwards is the updated row.
\<close>

locale key_preserving =
  fixes key :: "'r \<Rightarrow> 'k" and f :: "'r \<Rightarrow> 'r"
  assumes key_kept: "key (f r) = key r"
begin

lemma map_key_update: "map key (update_many p f t) = map key t"
  by (simp add: update_many_def key_kept)

lemma distinct_update: "distinct (map key t) \<Longrightarrow> distinct (map key (update_many p f t))"
  by (simp add: map_key_update)

lemma find_update:
  "List.find (\<lambda>r. key r = k) (update_many p f t) =
     map_option (\<lambda>r. if p r then f r else r) (List.find (\<lambda>r. key r = k) t)"
  by (induction t) (auto simp: key_kept)

lemma find_update_key:
  "List.find (\<lambda>r. key r = k) (update_many (\<lambda>r. key r = k') f t) =
     (if k = k' then map_option f (List.find (\<lambda>r. key r = k) t)
      else List.find (\<lambda>r. key r = k) t)"
proof -
  have "\<And>r. List.find (\<lambda>r. key r = k) t = Some r \<Longrightarrow> key r = k"
    by (auto dest: find_Some_set)
  then show ?thesis
    by (cases "List.find (\<lambda>r. key r = k) t") (auto simp: find_update)
qed

end

lemma distinct_snoc:
  "distinct (map g t) \<Longrightarrow> (\<And>x. x \<in> set t \<Longrightarrow> g x \<noteq> g r) \<Longrightarrow> distinct (map g (t @ [r]))"
  by (auto simp: image_iff) (metis)

text \<open>Writing a value into a unique column of the one row with a key keeps it unique if no other row has it.\<close>

lemma distinct_update_column:
  assumes "distinct (map key t)" "distinct (map g t)" "\<And>r. key r = k \<Longrightarrow> g (f r) = c"
    and "\<And>r. r \<in> set t \<Longrightarrow> key r = k \<or> g r \<noteq> c"
  shows "distinct (map g (update_many (\<lambda>r. key r = k) f t))"
  using assms
proof (induction t)
  case (Cons r t)
  let ?h = "\<lambda>x. if key x = k then f x else x"
  have "g (?h r) \<noteq> g (?h x)" if x: "x \<in> set t" for x
  proof -
    have "key r \<noteq> key x" "g r \<noteq> g x" using Cons.prems(1,2) x by auto
    then show ?thesis using Cons.prems(3) [of r] Cons.prems(3) [of x] Cons.prems(4) [of r] Cons.prems(4) [of x] x
      by auto
  qed
  then have "g (?h r) \<notin> g ` set (update_many (\<lambda>r. key r = k) f t)"
    unfolding set_update_many by blast
  moreover have "distinct (map g (update_many (\<lambda>r. key r = k) f t))"
    using Cons.IH Cons.prems by simp
  ultimately show ?case by simp
qed simp

lemma distinct_key_find:
  "distinct (map key t) \<Longrightarrow> r \<in> set t \<Longrightarrow> List.find (\<lambda>x. key x = key r) t = Some r"
  by (induction t) auto

lemma distinct_key_eq:
  "distinct (map key t) \<Longrightarrow> r \<in> set t \<Longrightarrow> r' \<in> set t \<Longrightarrow> key r = key r' \<Longrightarrow> r = r'"
  by (metis distinct_key_find option.inject)

end
