(* ===== verification/Cloud_Schema.thy ===== *)
theory Cloud_Schema
  imports Js_Prelude Complex_Main
begin

text \<open>
  The database: the enums and models of \<open>services/*/prisma/schema.prisma\<close>, which is the
  same file in the five services, as datatypes and records, a database as the record of its
  tables, and the unique constraints as one predicate.

  Every service has a database of its own with these tables. A field carries the initial of
  its table. Times are milliseconds since the epoch, a \<open>Float\<close> column is the rational the
  double stands for, an optional column is an \<open>option\<close>. The \<open>updatedAt\<close> columns, which the
  modelled code never reads, and the \<open>Notification\<close> model, which nothing uses, are left
  out.
\<close>

type_synonym time = int
type_synonym id = string

section \<open>Enums\<close>

datatype Role = USER | ADMIN

datatype VmStatus = PENDING | RUNNING | STOPPED | SUSPENDED | ERROR | DELETED

fun role_name :: "Role \<Rightarrow> string" where
  "role_name USER = ''USER''"
| "role_name ADMIN = ''ADMIN''"

fun status_name :: "VmStatus \<Rightarrow> string" where
  "status_name PENDING = ''PENDING''"
| "status_name RUNNING = ''RUNNING''"
| "status_name STOPPED = ''STOPPED''"
| "status_name SUSPENDED = ''SUSPENDED''"
| "status_name ERROR = ''ERROR''"
| "status_name DELETED = ''DELETED''"

lemma role_name_inject [simp]: "role_name r = role_name r' \<longleftrightarrow> r = r'"
  by (cases r; cases r') simp_all

lemma role_name_ADMIN [simp]: "role_name r = ''ADMIN'' \<longleftrightarrow> r = ADMIN"
  by (cases r) simp_all

lemma status_name_inject [simp]: "status_name s = status_name s' \<longleftrightarrow> s = s'"
  by (cases s; cases s') simp_all

section \<open>Rows\<close>

record user_row =
  u_id :: id
  u_email :: string
  u_googleId :: "string option"
  u_password :: string
  u_firstName :: string
  u_lastName :: string
  u_role :: Role
  u_isActive :: bool
  u_mfaEnabled :: bool
  u_mfaSecret :: "string option"
  u_mfaEnabledAt :: "time option"
  u_mfaRecoveryCodeHashes :: "string list"
  u_mfaRecoveryCodesGeneratedAt :: "time option"
  u_studentEmailVerified :: bool
  u_studentEmailVerifiedAt :: "time option"
  u_createdAt :: time

record refresh_row =
  r_id :: id
  r_token :: string
  r_userId :: id
  r_expiresAt :: time
  r_createdAt :: time

record ssh_row =
  k_id :: id
  k_name :: string
  k_publicKey :: string
  k_fingerprint :: string
  k_userId :: id
  k_createdAt :: time

record vm_row =
  v_id :: id
  v_name :: string
  v_oneVmId :: "int option"
  v_status :: VmStatus
  v_cpu :: int
  v_ramMb :: int
  v_diskGb :: int
  v_ipAddress :: "string option"
  v_osTemplate :: string
  v_userId :: id
  v_planId :: "string option"
  v_sshHost :: "string option"
  v_sshPort :: "int option"
  v_sshUsername :: "string option"
  v_sshPrivateKeyEncrypted :: "string option"
  v_stoppedAt :: "time option"
  v_createdAt :: time

record quota_row =
  q_id :: id
  q_userId :: id
  q_planId :: "string option"
  q_maxVms :: int
  q_maxCpu :: int
  q_maxRamMb :: int
  q_maxDiskGb :: int

record payment_row =
  p_id :: id
  p_userId :: id
  p_planId :: "string option"
  p_amount :: rat
  p_currency :: string
  p_status :: string
  p_method :: "string option"
  p_createdAt :: time

record audit_row =
  a_id :: id
  a_userId :: id
  a_action :: string
  a_ip :: "string option"
  a_userAgent :: "string option"
  a_metadata :: "(string \<times> string) list option"
  a_createdAt :: time

record verification_row =
  s_id :: id
  s_userId :: id
  s_email :: string
  s_codeHash :: string
  s_expiresAt :: time
  s_createdAt :: time

record webhook_row =
  w_id :: id
  w_eventId :: string
  w_eventType :: string
  w_createdAt :: time

record plan_row =
  c_id :: id
  c_planId :: string
  c_amountDt :: rat
  c_rank :: int
  c_vmHoursMonthly :: int
  c_maxVms :: int
  c_maxCpu :: int
  c_maxRamMb :: int
  c_maxDiskGb :: int

record university_row =
  n_id :: id
  n_name :: string
  n_emailDomain :: string
  n_isActive :: bool
  n_createdBy :: string
  n_createdAt :: time

section \<open>The tables of one database\<close>

text \<open>
  The state of a service extends this record with what else the service keeps, so the same
  queries apply to every service.
\<close>

record db =
  users :: "user_row list"
  refreshTokens :: "refresh_row list"
  sshKeys :: "ssh_row list"
  virtualMachines :: "vm_row list"
  userQuotas :: "quota_row list"
  payments :: "payment_row list"
  mfaAuditLogs :: "audit_row list"
  studentEmailVerifications :: "verification_row list"
  stripeWebhookEvents :: "webhook_row list"
  planConfigs :: "plan_row list"
  universities :: "university_row list"

definition empty_db :: db where
  "empty_db = \<lparr>users = [], refreshTokens = [], sshKeys = [], virtualMachines = [],
     userQuotas = [], payments = [], mfaAuditLogs = [], studentEmailVerifications = [],
     stripeWebhookEvents = [], planConfigs = [], universities = []\<rparr>"

section \<open>Lookups by key\<close>

definition find_user :: "id \<Rightarrow> 'a db_scheme \<Rightarrow> user_row option" where
  "find_user i s = List.find (\<lambda>u. u_id u = i) (users s)"

definition find_user_email :: "string \<Rightarrow> 'a db_scheme \<Rightarrow> user_row option" where
  "find_user_email e s = List.find (\<lambda>u. u_email u = e) (users s)"

definition find_vm :: "id \<Rightarrow> 'a db_scheme \<Rightarrow> vm_row option" where
  "find_vm i s = List.find (\<lambda>v. v_id v = i) (virtualMachines s)"

definition find_quota :: "id \<Rightarrow> 'a db_scheme \<Rightarrow> quota_row option" where
  "find_quota u s = List.find (\<lambda>q. q_userId q = u) (userQuotas s)"

lemma find_vm_Some: "find_vm i s = Some v \<Longrightarrow> v \<in> set (virtualMachines s) \<and> v_id v = i"
  by (auto simp: find_vm_def dest: find_Some_set)

lemma find_user_Some: "find_user i s = Some u \<Longrightarrow> u \<in> set (users s) \<and> u_id u = i"
  by (auto simp: find_user_def dest: find_Some_set)

lemma find_quota_Some: "find_quota i s = Some q \<Longrightarrow> q \<in> set (userQuotas s) \<and> q_userId q = i"
  by (auto simp: find_quota_def dest: find_Some_set)

section \<open>Unique constraints\<close>

text \<open>
  The \<open>@id\<close>, \<open>@unique\<close> and \<open>@@unique\<close> attributes of the tables that the invariants of the
  services speak about. A null \<open>googleId\<close> is not compared.
\<close>

definition vm_keys_ok :: "vm_row list \<Rightarrow> bool" where
  "vm_keys_ok t \<longleftrightarrow> distinct (map v_id t) \<and> distinct (map (\<lambda>v. (v_userId v, v_name v)) t)"

definition quota_keys_ok :: "quota_row list \<Rightarrow> bool" where
  "quota_keys_ok t \<longleftrightarrow> distinct (map q_id t) \<and> distinct (map q_userId t)"

definition same_account :: "user_row \<Rightarrow> user_row \<Rightarrow> bool" where
  "same_account x y \<longleftrightarrow> u_email x = u_email y \<or> u_googleId x \<noteq> None \<and> u_googleId x = u_googleId y"

definition user_keys_ok :: "user_row list \<Rightarrow> bool" where
  "user_keys_ok t \<longleftrightarrow> distinct (map u_id t) \<and>
     (\<forall>x \<in> set t. \<forall>y \<in> set t. same_account x y \<longrightarrow> u_id x = u_id y)"

lemma same_account_sym: "same_account x y \<Longrightarrow> same_account y x"
  unfolding same_account_def by metis

definition university_keys_ok :: "university_row list \<Rightarrow> bool" where
  "university_keys_ok t \<longleftrightarrow> distinct (map n_id t) \<and> distinct (map n_name t) \<and>
     distinct (map n_emailDomain t)"

end
