(* ===== verification/Internal_Api.thy ===== *)
theory Internal_Api
  imports Cloud_Schema
begin

text \<open>
  The calls between the services: the configuration that names the user service and the
  shared token, the outcome of a \<open>fetch\<close>, the shapes of the two snapshots that the user
  service answers with, and the check of the token on the answering side.

  The network is a parameter: a function from the URL and the token of a request to what
  the \<open>fetch\<close> gives.
\<close>

section \<open>Configuration\<close>

type_synonym process_env = "string \<Rightarrow> string option"

definition getUserServiceUrl :: "process_env \<Rightarrow> exn + string" where
  "getUserServiceUrl pe =
     (let url = trim (or_opt (pe ''USER_SERVICE_URL'') ''http://user:3003'') in
      if url = [] then Inl (InternalServerError ''Missing USER_SERVICE_URL configuration'')
      else Inr url)"

definition getInterServiceSyncToken :: "process_env \<Rightarrow> exn + string" where
  "getInterServiceSyncToken pe =
     (let token = trim (or_opt (pe ''INTER_SERVICE_SYNC_TOKEN'') []) in
      if token = [] then Inl (InternalServerError ''Missing INTER_SERVICE_SYNC_TOKEN configuration'')
      else Inr token)"

text \<open>\<open>encodeURIComponent\<close> on code units below 128.\<close>

definition hex_digit :: "nat \<Rightarrow> char" where
  "hex_digit n = (if n < 10 then char_of (48 + n) else char_of (55 + n))"

definition uri_char :: "char \<Rightarrow> string" where
  "uri_char c =
     (if is_alpha c \<or> is_digit c \<or> c \<in> set ''-_.!~*()'' \<or> of_char c = (39 :: nat) then [c]
      else [CHR ''%'', hex_digit (of_char c div 16), hex_digit (of_char c mod 16)])"

definition encodeURIComponent :: "string \<Rightarrow> string" where
  "encodeURIComponent s = concat (map uri_char s)"

section \<open>What a request gives\<close>

text \<open>
  \<open>FetchFail\<close> is a network error or the abort after five seconds. A response has its status,
  its body as text, and the value \<open>json()\<close> gives, \<open>None\<close> where it rejects.
\<close>

datatype 'a fetch_result = FetchFail | Response nat string "'a option"

type_synonym 'a endpoint = "string \<Rightarrow> string \<Rightarrow> 'a fetch_result"

definition response_ok :: "nat \<Rightarrow> bool" where
  "response_ok st \<longleftrightarrow> 200 \<le> st \<and> st \<le> 299"

definition json_body :: "'a option \<Rightarrow> exn + 'a" where
  "json_body b = (case b of None \<Rightarrow> Inl (PlainError ''SyntaxError'') | Some a \<Rightarrow> Inr a)"

section \<open>Snapshots of the user service\<close>

record quota_limits =
  l_maxVms :: int
  l_maxCpu :: int
  l_maxRamMb :: int
  l_maxDiskGb :: int

record quota_snapshot =
  hasActiveSubscription :: bool
  sn_planId :: "string option"
  sn_quota :: "quota_limits option"

record access_snapshot =
  activePlanId :: "string option"
  canPurchaseSameOrLower :: bool
  usageRatio :: rat
  cycleEndsAt :: "time option"
  vmHoursUsed :: "rat option"
  vmHoursIncluded :: "rat option"

section \<open>The check of the shared token\<close>

text \<open>
  \<open>timingSafeEqual\<close> on buffers of one length is equality of their bytes.
\<close>

definition assertSyncToken :: "process_env \<Rightarrow> string option \<Rightarrow> exn + unit" where
  "assertSyncToken pe syncToken =
     (let expected = trim (or_opt (pe ''INTER_SERVICE_SYNC_TOKEN'') []) in
      if expected = [] \<or> \<not> truthy syncToken then Inl (Unauthorized ''Invalid sync token'')
      else if length expected \<noteq> length (the syncToken) \<or> expected \<noteq> the syncToken
      then Inl (Unauthorized ''Invalid sync token'')
      else Inr ())"

lemma assertSyncToken_ok_iff:
  "assertSyncToken pe t = Inr () \<longleftrightarrow>
     (\<exists>k. t = Some k \<and> k \<noteq> [] \<and> k = trim (or_opt (pe ''INTER_SERVICE_SYNC_TOKEN'') []))"
  by (cases t) (auto simp: assertSyncToken_def Let_def)

lemma sync_token_accepted:
  "getInterServiceSyncToken pe = Inr t \<Longrightarrow> assertSyncToken pe (Some t) = Inr ()"
  by (auto simp: getInterServiceSyncToken_def assertSyncToken_def Let_def split: if_splits)

end
