(* ===== verification/Vm_Ssh_Key.thy ===== *)
theory Vm_Ssh_Key
  imports Base64 Internal_Api
begin

text \<open>
  \<open>services/vm/src/vm/vm-ssh-key.crypto.ts\<close> and the key pair of \<open>vm.service.ts\<close>: how the
  private key of a machine is encrypted for the database and decrypted again.

  The primitives of the \<open>crypto\<close> module and of \<open>sshpk\<close> are a record of functions, and what
  the code relies on is \<open>aead_correct\<close>: decryption with the same key, nonce and tag gives
  the plaintext back.
\<close>

text \<open>
  \<open>hkdf secret salt info n\<close> is \<open>hkdfSync\<close> with SHA-256, \<open>gcm_encrypt key iv plain\<close> the
  ciphertext and the tag of AES-256-GCM, \<open>gcm_decrypt key iv tag cipher\<close> the plaintext or
  \<open>None\<close> where \<open>final\<close> throws, \<open>sshpk_ssh pem\<close> the OpenSSH line of a public key.
\<close>

record crypto =
  hkdf :: "string \<Rightarrow> string \<Rightarrow> string \<Rightarrow> nat \<Rightarrow> string"
  gcm_encrypt :: "string \<Rightarrow> string \<Rightarrow> string \<Rightarrow> string \<times> string"
  gcm_decrypt :: "string \<Rightarrow> string \<Rightarrow> string \<Rightarrow> string \<Rightarrow> string option"
  sshpk_ssh :: "string \<Rightarrow> string option"

definition aead_correct :: "crypto \<Rightarrow> bool" where
  "aead_correct C \<longleftrightarrow>
     (\<forall>key iv plain. case gcm_encrypt C key iv plain of
        (cipher, tag) \<Rightarrow> gcm_decrypt C key iv tag cipher = Some plain \<and> length tag = 16 \<and>
          length cipher = length plain)"

lemma aead_correctD:
  "aead_correct C \<Longrightarrow> gcm_encrypt C key iv plain = (cipher, tag) \<Longrightarrow>
     gcm_decrypt C key iv tag cipher = Some plain \<and> length tag = 16 \<and> length cipher = length plain"
  unfolding aead_correct_def by (drule spec [of _ key], drule spec [of _ iv], drule spec [of _ plain]) simp

definition getEncryptionKey :: "crypto \<Rightarrow> process_env \<Rightarrow> exn + string" where
  "getEncryptionKey C pe =
     (let secret = (case pe ''VM_SSH_KEY_SECRET'' of None \<Rightarrow> [] | Some v \<Rightarrow> trim v) in
      if secret = [] then Inl (PlainError ''Missing VM_SSH_KEY_SECRET'')
      else Inr (hkdf C secret ''cloudvm-vm-ssh-key-salt'' ''cloudvm-vm-ssh-key-encryption'' 32))"

definition encryptVmPrivateKey :: "crypto \<Rightarrow> process_env \<Rightarrow> string \<Rightarrow> string \<Rightarrow> exn + string" where
  "encryptVmPrivateKey C pe iv plainTextPem =
     (case getEncryptionKey C pe of
        Inl e \<Rightarrow> Inl e
      | Inr key \<Rightarrow> (case gcm_encrypt C key iv plainTextPem of
          (encrypted, authTag) \<Rightarrow>
            Inr (join_with ''.'' [b64_encode iv, b64_encode authTag, b64_encode encrypted])))"

text \<open>
  \<open>createDecipheriv\<close> and \<open>setAuthTag\<close> reject an empty nonce and a tag of another length by
  throwing; both are part of \<open>gcm_decrypt\<close> being \<open>None\<close>.
\<close>

definition decryptVmPrivateKey :: "crypto \<Rightarrow> process_env \<Rightarrow> string \<Rightarrow> exn + string" where
  "decryptVmPrivateKey C pe cipherPayload =
     (let ws = split_on CHR ''.'' cipherPayload;
          part = (\<lambda>i. if i < length ws then ws ! i else []) in
      if part 0 = [] \<or> part 1 = [] \<or> part 2 = []
      then Inl (PlainError ''Invalid encrypted VM private key payload format'')
      else case getEncryptionKey C pe of
          Inl e \<Rightarrow> Inl e
        | Inr key \<Rightarrow>
            (case gcm_decrypt C key (b64_decode (part 0)) (b64_decode (part 1)) (b64_decode (part 2)) of
               None \<Rightarrow> Inl (PlainError ''Unsupported state or unable to authenticate data'')
             | Some plain \<Rightarrow> Inr plain))"

text \<open>The generated pair is the private key in PKCS1 PEM and the public key as a \<open>ssh-rsa\<close> line.\<close>

definition generateVmSshKeyPair :: "crypto \<Rightarrow> string \<times> string \<Rightarrow> exn + (string \<times> string)" where
  "generateVmSshKeyPair C pair =
     (case sshpk_ssh C (snd pair) of
        None \<Rightarrow> Inl (InternalServerError ''Failed to generate a valid SSH public key'')
      | Some line \<Rightarrow> (let publicKeySsh = trim line in
          if publicKeySsh = [] \<or> \<not> starts_with publicKeySsh ''ssh-rsa''
          then Inl (InternalServerError ''Generated public key does not look like a valid ssh-rsa key'')
          else Inr (fst pair, publicKeySsh)))"

lemma encrypted_parts:
  "split_on CHR ''.'' (join_with ''.'' [b64_encode a, b64_encode b, b64_encode c]) =
     [b64_encode a, b64_encode b, b64_encode c]"
  by (simp add: split_on_append split_on_single b64_encode_no_dot)

text \<open>What encryption wrote, decryption with the same secret reads back.\<close>

lemma decrypt_encrypt:
  assumes "aead_correct C" "iv \<noteq> []" "pem \<noteq> []"
    and "encryptVmPrivateKey C pe iv pem = Inr w"
  shows "decryptVmPrivateKey C pe w = Inr pem"
proof -
  obtain key where key: "getEncryptionKey C pe = Inr key"
    using assms(4) by (auto simp: encryptVmPrivateKey_def split: sum.splits)
  obtain cipher tag where ct: "gcm_encrypt C key iv pem = (cipher, tag)" by fastforce
  then have w: "w = join_with ''.'' [b64_encode iv, b64_encode tag, b64_encode cipher]"
    using assms(4) key by (simp add: encryptVmPrivateKey_def)
  have law: "gcm_decrypt C key iv tag cipher = Some pem" "length tag = 16" "length cipher = length pem"
    using aead_correctD [OF assms(1) ct] by auto
  then have "tag \<noteq> []" "cipher \<noteq> []" using assms(3) by auto
  then show ?thesis
    using assms(2) law(1) key unfolding decryptVmPrivateKey_def w encrypted_parts
    by simp
qed

lemma encrypt_not_Nil:
  "encryptVmPrivateKey C pe iv pem = Inr w \<Longrightarrow> w \<noteq> []"
  by (auto simp: encryptVmPrivateKey_def split: sum.splits prod.splits)

text \<open>A cipher that satisfies the law, for concrete runs.\<close>

definition sample_crypto :: crypto where
  "sample_crypto = \<lparr>hkdf = (\<lambda>s _ _ n. take n (s @ replicate n (CHR ''k''))),
     gcm_encrypt = (\<lambda>key iv plain. (rev plain, replicate 16 (CHR ''t''))),
     gcm_decrypt = (\<lambda>key iv tag cipher. if tag = replicate 16 (CHR ''t'') then Some (rev cipher) else None),
     sshpk_ssh = (\<lambda>pem. Some (''ssh-rsa '' @ pem))\<rparr>"

lemma sample_crypto_correct: "aead_correct sample_crypto"
  by (simp add: aead_correct_def sample_crypto_def)

end
