(* ===== verification/Paging.thy ===== *)
theory Paging
  imports Cloud_Schema
begin

text \<open>
  What the listings of the services share: the numbers a query string gives, the
  case-insensitive search, and the page that \<open>skip\<close> and \<open>take\<close> cut out of the ordered rows.
\<close>

text \<open>A number a query string gave: \<open>parseInt\<close> may give no number.\<close>

datatype js_int = NaN | Fin int

fun js_min :: "js_int \<Rightarrow> int \<Rightarrow> js_int" where
  "js_min NaN _ = NaN"
| "js_min (Fin a) b = Fin (min a b)"

definition contains_ci :: "string \<Rightarrow> string \<Rightarrow> bool" where
  "contains_ci s p \<longleftrightarrow> str_includes (toLowerCase s) (toLowerCase p)"

text \<open>A negative \<open>take\<close> counts from the end of the order.\<close>

definition page_rows :: "int \<Rightarrow> int \<Rightarrow> 'r list \<Rightarrow> 'r list" where
  "page_rows skip lmt t =
     (if 0 \<le> lmt then take (nat lmt) (drop (nat skip) t)
      else rev (take (nat (- lmt)) (drop (nat skip) (rev t))))"

record 'r list_page =
  pg_data :: "'r list"
  pg_total :: nat
  pg_page :: int
  pg_limit :: int
  pg_totalPages :: "int option"

lemma set_page_rows: "set (page_rows sk lmt t) \<subseteq> set t"
  by (auto simp: page_rows_def dest!: in_set_takeD in_set_dropD)

lemma length_page_rows: "int (length (page_rows sk lmt t)) \<le> \<bar>lmt\<bar>"
  by (auto simp: page_rows_def)

lemma js_min_le: "js_min a b = Fin c \<Longrightarrow> c \<le> b"
  by (cases a) auto

text \<open>The row at position \<open>k\<close> of the order is on page \<open>k div lmt + 1\<close>.\<close>

lemma page_rows_covers:
  assumes "v \<in> set t" "0 < lmt"
  shows "\<exists>pg \<ge> 1. pg \<le> - ((- int (length t)) div lmt) \<and> v \<in> set (page_rows ((pg - 1) * lmt) lmt t)"
proof -
  obtain k where k: "k < length t" "t ! k = v" using assms(1) by (auto simp: in_set_conv_nth)
  define pg where "pg = int k div lmt + 1"
  have lo: "(pg - 1) * lmt \<le> int k" and hi: "int k < (pg - 1) * lmt + lmt"
    using div_mult_mod_eq [of "int k" lmt] pos_mod_bound [OF assms(2), of "int k"]
      pos_mod_sign [OF assms(2), of "int k"] unfolding pg_def add_diff_cancel_right' by linarith+
  have pg1: "pg \<ge> 1" using assms(2) by (simp add: pg_def pos_imp_zdiv_nonneg_iff)
  then have nn: "0 \<le> (pg - 1) * lmt" using assms(2) by simp
  have "v \<in> set (take (nat lmt) (drop (nat ((pg - 1) * lmt)) t))"
  proof -
    let ?j = "k - nat ((pg - 1) * lmt)"
    have "?j < nat lmt" "?j < length t - nat ((pg - 1) * lmt)" "nat ((pg - 1) * lmt) + ?j = k"
      using lo hi nn k assms(2) by linarith+
    then have "take (nat lmt) (drop (nat ((pg - 1) * lmt)) t) ! ?j = v"
      "?j < length (take (nat lmt) (drop (nat ((pg - 1) * lmt)) t))"
      using k by (simp_all add: nth_append)
    then show ?thesis by (metis nth_mem)
  qed
  moreover have "pg \<le> - ((- int (length t)) div lmt)"
  proof -
    have "(pg - 1) * lmt < int (length t)" using lo k by linarith
    then have "- int (length t) < - (pg - 1) * lmt" by (simp only: mult_minus_left neg_less_iff_less)
    then have "(- int (length t)) div lmt * lmt < - (pg - 1) * lmt"
      using div_mult_mod_eq [of "- int (length t)" lmt] pos_mod_sign [OF assms(2), of "- int (length t)"]
      by linarith
    then have "(- int (length t)) div lmt < - (pg - 1)"
      using assms(2) by (simp only: mult_less_cancel_right_pos)
    then show ?thesis by simp
  qed
  ultimately show ?thesis using pg1 assms(2) by (auto simp: page_rows_def)
qed

end
