(* ===== verification/Vm_Service.thy ===== *)
theory Vm_Service
  imports Vm_Ssh_Key Paging
begin

text \<open>
  \<open>services/vm/src/vm/vm.service.ts\<close> with its request objects: creating, listing, reading,
  acting on and deleting virtual machines, the quota check inside the transaction, and the
  messages to the worker that \<open>nats.service.ts\<close> publishes.
\<close>

section \<open>State and messages\<close>

datatype vm_msg =
    MsgCreate id string int int int string id "string option" "string option" string
  | MsgAction id "int option" string id
  | MsgDelete id "int option" id

fun subject_of :: "vm_msg \<Rightarrow> string" where
  "subject_of (MsgCreate _ _ _ _ _ _ _ _ _ _) = ''vm.create''"
| "subject_of (MsgAction _ _ _ _) = ''vm.action''"
| "subject_of (MsgDelete _ _ _) = ''vm.delete''"

text \<open>
  The service's database, whether the NATS connection was made, and the messages published
  so far, oldest first.
\<close>

record vm_state = db +
  nats_connected :: bool
  published :: "vm_msg list"

text \<open>
  What one call takes from outside: the configuration, the clock, the identifiers and random
  bytes it draws, the cryptographic primitives, the user service behind the network, whether
  the database aborts the transaction for a serialization conflict and whether JetStream
  refuses the message.
\<close>

record vm_deps =
  penv :: process_env
  clock :: time
  vm_uuid :: id
  quota_uuid :: id
  rsa_pair :: "string \<times> string"
  iv_bytes :: string
  crypto_of :: crypto
  quota_endpoint :: "quota_snapshot endpoint"
  access_endpoint :: "access_snapshot endpoint"
  tx_abort :: bool
  js_refuses :: bool

section \<open>Request objects\<close>

record create_dto =
  d_name :: string
  d_cpu :: int
  d_ramMb :: int
  d_diskGb :: int
  d_osTemplate :: string
  d_planId :: "string option"
  d_sshPublicKey :: "string option"
  d_vmUsername :: "string option"
  d_vmPassword :: "string option"

definition opt_all :: "('a \<Rightarrow> bool) \<Rightarrow> 'a option \<Rightarrow> bool" where
  "opt_all p x = (case x of None \<Rightarrow> True | Some a \<Rightarrow> p a)"

definition ssh_key_line :: "string \<Rightarrow> bool" where
  "ssh_key_line s \<longleftrightarrow>
     (\<exists>alg \<in> set [''ssh-rsa'', ''ssh-ed25519'', ''ecdsa-sha2-nistp256''].
        starts_with s alg \<and>
        (let r = drop (length alg) s in
         r \<noteq> [] \<and> is_ws (hd r) \<and> dropWhile is_ws r \<noteq> []))"

definition valid_create_dto :: "create_dto \<Rightarrow> bool" where
  "valid_create_dto d \<longleftrightarrow>
     1 \<le> length (d_name d) \<and> length (d_name d) \<le> 64 \<and>
     list_all (\<lambda>c. is_alpha c \<or> is_digit c \<or> c = CHR ''-'') (d_name d) \<and>
     1 \<le> d_cpu d \<and> d_cpu d \<le> 32 \<and>
     512 \<le> d_ramMb d \<and> d_ramMb d \<le> 65536 \<and>
     5 \<le> d_diskGb d \<and> d_diskGb d \<le> 400 \<and>
     1 \<le> length (d_osTemplate d) \<and> length (d_osTemplate d) \<le> 100 \<and>
     list_all (\<lambda>c. c \<noteq> CHR ''<'' \<and> c \<noteq> CHR ''>'') (d_osTemplate d) \<and>
     opt_all (\<lambda>p. p \<in> set [''student'', ''pro'', ''enterprise'', ''unlimited'']) (d_planId d) \<and>
     opt_all (\<lambda>k. 32 \<le> length k \<and> length k \<le> 4096 \<and> ssh_key_line k) (d_sshPublicKey d) \<and>
     opt_all (\<lambda>u. 1 \<le> length u \<and> length u \<le> 32 \<and>
        list_all (\<lambda>c. is_alpha c \<or> is_digit c \<or> c = CHR ''_'' \<or> c = CHR ''-'') u) (d_vmUsername d) \<and>
     opt_all (\<lambda>p. 1 \<le> length p \<and> length p \<le> 128) (d_vmPassword d)"

section \<open>Publishing\<close>

definition JS_SUBJECTS :: "string list" where
  "JS_SUBJECTS = [''vm.create'', ''vm.action'', ''vm.delete'']"

definition publish :: "vm_deps \<Rightarrow> vm_msg \<Rightarrow> (vm_state, unit) io" where
  "publish D m =
     bnd (asks nats_connected) (\<lambda>up.
       if \<not> up then ret ()
       else if subject_of m \<in> set JS_SUBJECTS then
         bnd (throw_if (js_refuses D) (PlainError ''JetStream publish failed'')) (\<lambda>_.
         modify (\<lambda>s. s\<lparr>published := published s @ [m]\<rparr>))
       else modify (\<lambda>s. s\<lparr>published := published s @ [m]\<rparr>))"

section \<open>The user service\<close>

definition fetchWithTimeout :: "'a endpoint \<Rightarrow> string \<Rightarrow> string \<Rightarrow> string \<Rightarrow> exn + (nat \<times> 'a option)" where
  "fetchWithTimeout net url token errorMessage =
     (case net url token of
        FetchFail \<Rightarrow> Inl (InternalServerError errorMessage)
      | Response st _ body \<Rightarrow> Inr (st, body))"

definition fetch_snapshot ::
    "process_env \<Rightarrow> 'a endpoint \<Rightarrow> string \<Rightarrow> string \<Rightarrow> id \<Rightarrow> exn + 'a option" where
  "fetch_snapshot pe net path errorMessage userId =
     (case getUserServiceUrl pe of
        Inl e \<Rightarrow> Inl e
      | Inr base \<Rightarrow> (case getInterServiceSyncToken pe of
          Inl e \<Rightarrow> Inl e
        | Inr token \<Rightarrow>
            (case fetchWithTimeout net (base @ path @ encodeURIComponent userId) token errorMessage of
               Inl e \<Rightarrow> Inl e
             | Inr (st, body) \<Rightarrow>
                 if st = 404 then Inr None
                 else if \<not> response_ok st then Inl (InternalServerError errorMessage)
                 else map_sum id Some (json_body body))))"

definition fetchInternalQuotaSnapshot :: "vm_deps \<Rightarrow> id \<Rightarrow> exn + quota_snapshot option" where
  "fetchInternalQuotaSnapshot D userId =
     fetch_snapshot (penv D) (quota_endpoint D) ''/users/internal/quota/''
       ''Failed to load user quota snapshot'' userId"

definition fetchInternalSubscriptionAccessSnapshot :: "vm_deps \<Rightarrow> id \<Rightarrow> exn + access_snapshot option" where
  "fetchInternalSubscriptionAccessSnapshot D userId =
     fetch_snapshot (penv D) (access_endpoint D) ''/users/internal/subscription-access/''
       ''Failed to load subscription access snapshot'' userId"

section \<open>Creating a machine\<close>

definition MAX_SAFE_INTEGER :: int where
  "MAX_SAFE_INTEGER = 9007199254740991"

definition active_of :: "id \<Rightarrow> vm_row \<Rightarrow> bool" where
  "active_of u v \<longleftrightarrow> v_userId v = u \<and> v_status v \<noteq> DELETED"

definition upsert_quota :: "vm_deps \<Rightarrow> id \<Rightarrow> quota_limits \<Rightarrow> vm_state \<Rightarrow> vm_state" where
  "upsert_quota D userId l s =
     s\<lparr>userQuotas :=
        (if find_quota userId s \<noteq> None
         then update_many (\<lambda>q. q_userId q = userId)
                (\<lambda>q. q\<lparr>q_maxVms := l_maxVms l, q_maxCpu := l_maxCpu l,
                       q_maxRamMb := l_maxRamMb l, q_maxDiskGb := l_maxDiskGb l\<rparr>) (userQuotas s)
         else userQuotas s @
                [\<lparr>q_id = quota_uuid D, q_userId = userId, q_planId = None, q_maxVms = l_maxVms l,
                  q_maxCpu = l_maxCpu l, q_maxRamMb = l_maxRamMb l, q_maxDiskGb = l_maxDiskGb l\<rparr>])\<rparr>"

definition limit_of :: "bool \<Rightarrow> (quota_row \<Rightarrow> int) \<Rightarrow> quota_row option \<Rightarrow> int" where
  "limit_of isAdmin f q = (if isAdmin then MAX_SAFE_INTEGER else case q of None \<Rightarrow> 0 | Some r \<Rightarrow> f r)"

definition over_msg :: "string \<Rightarrow> string \<Rightarrow> int \<Rightarrow> int \<Rightarrow> int \<Rightarrow> exn" where
  "over_msg what u used req mx =
     Forbidden (what @ '' quota exceeded. Used: '' @ show_int used @ u @ '', Requested: '' @
       show_int req @ u @ '', Max: '' @ show_int mx @ u)"

definition new_vm :: "vm_deps \<Rightarrow> create_dto \<Rightarrow> id \<Rightarrow> string option \<Rightarrow> vm_row" where
  "new_vm D d userId enc =
     \<lparr>v_id = vm_uuid D, v_name = d_name d, v_oneVmId = None, v_status = PENDING,
      v_cpu = d_cpu d, v_ramMb = d_ramMb d, v_diskGb = d_diskGb d, v_ipAddress = None,
      v_osTemplate = d_osTemplate d, v_userId = userId,
      v_planId = (if truthy (d_planId d) then d_planId d else None),
      v_sshHost = None, v_sshPort = Some 22,
      v_sshUsername = Some (or_opt (map_option trim (d_vmUsername d)) ''cloudvm''),
      v_sshPrivateKeyEncrypted = enc, v_stoppedAt = None, v_createdAt = clock D\<rparr>"

text \<open>An insert fails on the primary key and on \<open>@@unique([userId, name])\<close>.\<close>

definition insert_vm :: "vm_row \<Rightarrow> (vm_state, vm_row) io" where
  "insert_vm v =
     bnd (asks virtualMachines) (\<lambda>t.
     bnd (throw_if (\<exists>r \<in> set t. v_id r = v_id v \<or> v_userId r = v_userId v \<and> v_name r = v_name v)
            (PrismaError ''P2002'')) (\<lambda>_.
     bnd (modify (\<lambda>s. s\<lparr>virtualMachines := t @ [v]\<rparr>)) (\<lambda>_. ret v)))"

text \<open>The body of the transaction.\<close>

definition create_tx ::
    "vm_deps \<Rightarrow> create_dto \<Rightarrow> id \<Rightarrow> bool \<Rightarrow> quota_snapshot option \<Rightarrow> string option \<Rightarrow> (vm_state, vm_row) io" where
  "create_tx D d userId isAdmin remoteQuota enc =
     bnd (case remoteQuota of
            Some rq \<Rightarrow> (case sn_quota rq of
                Some l \<Rightarrow> if \<not> isAdmin \<and> hasActiveSubscription rq then modify (upsert_quota D userId l) else ret ()
              | None \<Rightarrow> ret ())
          | None \<Rightarrow> ret ()) (\<lambda>_.
     bnd (asks (find_quota userId)) (\<lambda>quota.
     bnd (asks (\<lambda>s. int (count_rows (active_of userId) (virtualMachines s)))) (\<lambda>activeVms.
     let maxVms = limit_of isAdmin q_maxVms quota; maxCpu = limit_of isAdmin q_maxCpu quota;
         maxRamMb = limit_of isAdmin q_maxRamMb quota; maxDiskGb = limit_of isAdmin q_maxDiskGb quota in
     bnd (throw_if (activeVms \<ge> maxVms)
            (Forbidden (''VM quota exceeded. Maximum '' @ show_int maxVms @ '' VMs allowed.''))) (\<lambda>_.
     bnd (asks (\<lambda>s. sum_rows v_cpu (active_of userId) (virtualMachines s))) (\<lambda>usedCpu.
     bnd (asks (\<lambda>s. sum_rows v_ramMb (active_of userId) (virtualMachines s))) (\<lambda>usedRam.
     bnd (asks (\<lambda>s. sum_rows v_diskGb (active_of userId) (virtualMachines s))) (\<lambda>usedDisk.
     bnd (throw_if (usedCpu + d_cpu d > maxCpu) (over_msg ''CPU'' [] usedCpu (d_cpu d) maxCpu)) (\<lambda>_.
     bnd (throw_if (usedRam + d_ramMb d > maxRamMb) (over_msg ''RAM'' ''MB'' usedRam (d_ramMb d) maxRamMb)) (\<lambda>_.
     bnd (throw_if (usedDisk + d_diskGb d > maxDiskGb) (over_msg ''Disk'' ''GB'' usedDisk (d_diskGb d) maxDiskGb)) (\<lambda>_.
     insert_vm (new_vm D d userId enc)))))))))))"

text \<open>
  A transaction that throws leaves the database as it was. It is serializable and holds an
  advisory lock on the user, so it runs at one point of the sequence of operations or is
  aborted as a whole.
\<close>

definition transaction :: "bool \<Rightarrow> ('s, 'a) io \<Rightarrow> ('s, 'a) io" where
  "transaction aborted m =
     (\<lambda>s. if aborted then (Inl (PrismaError ''P2034''), s)
          else case m s of (Inl e, _) \<Rightarrow> (Inl e, s) | (Inr a, t) \<Rightarrow> (Inr a, t))"

definition ssh_key_of :: "vm_deps \<Rightarrow> create_dto \<Rightarrow> exn + (string \<times> string option \<times> string option)" where
  "ssh_key_of D d =
     (let provided = or_opt (map_option trim (d_sshPublicKey d)) [] in
      if provided \<noteq> [] then Inr (provided, None, None)
      else case generateVmSshKeyPair (crypto_of D) (rsa_pair D) of
          Inl e \<Rightarrow> Inl e
        | Inr (pem, pub) \<Rightarrow> (case encryptVmPrivateKey (crypto_of D) (penv D) (iv_bytes D) pem of
            Inl e \<Rightarrow> Inl e
          | Inr enc \<Rightarrow> Inr (pub, Some pem, Some enc)))"

definition createVm ::
    "vm_deps \<Rightarrow> create_dto \<Rightarrow> id \<Rightarrow> string \<Rightarrow> (vm_state, vm_row \<times> string option) io" where
  "createVm D d userId role =
     (let isAdmin = (role = ''ADMIN'') in
     bnd (lift (if isAdmin then Inr None else fetchInternalQuotaSnapshot D userId)) (\<lambda>remoteQuota.
     bnd (throw_if (\<not> isAdmin \<and> \<not> (case remoteQuota of None \<Rightarrow> False | Some rq \<Rightarrow> hasActiveSubscription rq))
            (Forbidden ''No active subscription found. Please purchase a plan before creating VMs.'')) (\<lambda>_.
     bnd (lift (ssh_key_of D d)) (\<lambda>(pub, pem, enc).
     bnd (try_catch (transaction (tx_abort D) (create_tx D d userId isAdmin remoteQuota enc))
            (\<lambda>e. throw (if e = PrismaError ''P2002'' then Conflict ''You already have a VM with this name'' else e))) (\<lambda>vm.
     bnd (publish D (MsgCreate (v_id vm) (v_name vm) (v_cpu vm) (v_ramMb vm) (v_diskGb vm)
            (v_osTemplate vm) userId (v_sshUsername vm) (d_vmPassword d) pub)) (\<lambda>_.
     ret (vm, pem)))))))"

section \<open>Reading\<close>

record list_query =
  lq_status :: "string option"
  lq_search :: "string option"
  lq_page :: "js_int option"
  lq_limit :: "js_int option"

definition status_of_name :: "string \<Rightarrow> VmStatus option" where
  "status_of_name n = List.find (\<lambda>s. status_name s = n) [PENDING, RUNNING, STOPPED, SUSPENDED, ERROR, DELETED]"

text \<open>The \<open>where\<close> object as a predicate; \<open>None\<close> where the client rejects the status.\<close>

definition list_where :: "id \<Rightarrow> string \<Rightarrow> list_query \<Rightarrow> (vm_row \<Rightarrow> bool) option" where
  "list_where userId role q =
     (let own = (\<lambda>v. role \<noteq> ''ADMIN'' \<longrightarrow> v_userId v = userId);
          found = (\<lambda>v. truthy (lq_search q) \<longrightarrow>
             contains_ci (v_name v) (the (lq_search q)) \<or>
             (case v_ipAddress v of None \<Rightarrow> False | Some ip \<Rightarrow> contains_ci ip (the (lq_search q)))) in
      if truthy (lq_status q) then
        (case status_of_name (the (lq_status q)) of
           None \<Rightarrow> None
         | Some st \<Rightarrow> Some (\<lambda>v. own v \<and> v_status v = st \<and> found v))
      else Some (\<lambda>v. own v \<and> v_status v \<noteq> DELETED \<and> found v))"

text \<open>\<open>totalPages\<close> is \<open>None\<close> where the division by a limit of zero gives no finite number.\<close>

definition listVms :: "id \<Rightarrow> string \<Rightarrow> list_query \<Rightarrow> (vm_state, vm_row list_page) io" where
  "listVms userId role q =
     (case (nullish (lq_page q) (Fin 1), js_min (nullish (lq_limit q) (Fin 20)) 100) of
        (Fin pg, Fin lmt) \<Rightarrow>
          (let skip = (pg - 1) * lmt in
           case list_where userId role q of
             None \<Rightarrow> throw (PrismaError ''validation'')
           | Some p \<Rightarrow>
               bnd (throw_if (skip < 0) (PrismaError ''validation'')) (\<lambda>_.
               bnd (asks (\<lambda>s. filter p (virtualMachines s))) (\<lambda>rows.
               ret \<lparr>pg_data = page_rows skip lmt (sort_key (\<lambda>v. - v_createdAt v) rows),
                    pg_total = length rows, pg_page = pg, pg_limit = lmt,
                    pg_totalPages = (if lmt = 0 then None else Some (- ((- int (length rows)) div lmt)))\<rparr>)))
      | _ \<Rightarrow> throw (PrismaError ''validation''))"

definition getVm :: "id \<Rightarrow> id \<Rightarrow> string \<Rightarrow> (vm_state, vm_row) io" where
  "getVm vmId userId role =
     bnd (asks (find_vm vmId)) (\<lambda>r.
     bnd (require (NotFound ''Virtual machine not found'') r) (\<lambda>vm.
     bnd (throw_if (role \<noteq> ''ADMIN'' \<and> v_userId vm \<noteq> userId) (Forbidden ''Access denied'')) (\<lambda>_.
     ret vm)))"

definition getVmSshPrivateKey ::
    "vm_deps \<Rightarrow> id \<Rightarrow> id \<Rightarrow> string \<Rightarrow> (vm_state, id \<times> string \<times> string) io" where
  "getVmSshPrivateKey D vmId userId role =
     bnd (asks (find_vm vmId)) (\<lambda>r.
     bnd (require (NotFound ''Virtual machine not found'') r) (\<lambda>vm.
     bnd (throw_if (role \<noteq> ''ADMIN'' \<and> v_userId vm \<noteq> userId) (Forbidden ''Access denied'')) (\<lambda>_.
     bnd (throw_if (\<not> truthy (v_sshPrivateKeyEncrypted vm))
            (NotFound ''SSH private key is not available for this VM'')) (\<lambda>_.
     case decryptVmPrivateKey (crypto_of D) (penv D) (the (v_sshPrivateKeyEncrypted vm)) of
       Inl _ \<Rightarrow> throw (InternalServerError ''Failed to decrypt SSH private key'')
     | Inr privateKey \<Rightarrow> ret (v_id vm, v_name vm, privateKey)))))"

section \<open>Acting on a machine\<close>

definition validTransitions :: "string \<Rightarrow> VmStatus list option" where
  "validTransitions action =
     (if action = ''start'' then Some [STOPPED, SUSPENDED, ERROR]
      else if action = ''stop'' then Some [RUNNING]
      else if action = ''restart'' then Some [RUNNING]
      else if action = ''delete'' then Some [RUNNING, STOPPED, SUSPENDED, ERROR, PENDING]
      else None)"

definition hours_exhausted :: "access_snapshot \<Rightarrow> bool" where
  "hours_exhausted a \<longleftrightarrow>
     activePlanId a \<noteq> Some ''unlimited'' \<and>
     (case (vmHoursIncluded a, vmHoursUsed a) of (Some inc, Some used) \<Rightarrow> used \<ge> inc | _ \<Rightarrow> False)"

definition check_subscription :: "vm_deps \<Rightarrow> id \<Rightarrow> (vm_state, unit) io" where
  "check_subscription D userId =
     bnd (lift (fetchInternalSubscriptionAccessSnapshot D userId)) (\<lambda>access.
     case access of
       None \<Rightarrow> throw (Forbidden ''No active subscription found. Please purchase a plan.'')
     | Some a \<Rightarrow>
         bnd (throw_if (\<not> truthy (activePlanId a))
                (Forbidden ''No active subscription found. Please purchase a plan.'')) (\<lambda>_.
         throw_if (hours_exhausted a)
           (Forbidden ''VM-hour limit reached for the current billing cycle. Stop VMs or upgrade your plan.'')))"

definition refusal_text :: "string \<Rightarrow> VmStatus \<Rightarrow> string" where
  "refusal_text action st =
     ''Cannot perform '' @ [CHR 0x27] @ action @ [CHR 0x27] @ '' on a VM with status '' @
     [CHR 0x27] @ status_name st @ [CHR 0x27]"

definition queued_text :: "string \<Rightarrow> string \<Rightarrow> string" where
  "queued_text action name =
     ''Action '' @ [CHR 0x27] @ action @ [CHR 0x27] @ '' queued for VM '' @ name"

definition vmAction :: "vm_deps \<Rightarrow> id \<Rightarrow> string \<Rightarrow> id \<Rightarrow> string \<Rightarrow> (vm_state, string) io" where
  "vmAction D vmId action userId role =
     bnd (getVm vmId userId role) (\<lambda>vm.
     bnd (if role \<noteq> ''ADMIN'' \<and> (action = ''start'' \<or> action = ''restart'')
          then check_subscription D userId else ret ()) (\<lambda>_.
     bnd (throw_if (case validTransitions action of None \<Rightarrow> True | Some allowed \<Rightarrow> v_status vm \<notin> set allowed)
            (BadRequest (refusal_text action (v_status vm)))) (\<lambda>_.
     bnd (publish D (MsgAction (v_id vm) (v_oneVmId vm) action userId)) (\<lambda>_.
     ret (queued_text action (v_name vm))))))"

definition deleteVm :: "vm_deps \<Rightarrow> id \<Rightarrow> id \<Rightarrow> string \<Rightarrow> (vm_state, string) io" where
  "deleteVm D vmId userId role =
     bnd (getVm vmId userId role) (\<lambda>vm.
     bnd (throw_if (v_status vm = DELETED)
            (BadRequest (''VM '' @ [CHR 0x27] @ v_name vm @ [CHR 0x27] @
               '' is already deleted''))) (\<lambda>_.
     bnd (publish D (MsgDelete (v_id vm) (v_oneVmId vm) userId)) (\<lambda>_.
     ret (''VM '' @ [CHR 0x27] @ v_name vm @ [CHR 0x27] @ '' deletion queued''))))"

text \<open>
  \<open>request\<close> of \<open>nats.service.ts\<close> gives \<open>None\<close> without a connection and on a timeout; the
  reply of the worker is the argument.
\<close>

definition nats_request :: "'a option \<Rightarrow> (vm_state, 'a option) io" where
  "nats_request reply = bnd (asks nats_connected) (\<lambda>up. ret (if up then reply else None))"

definition getTemplates :: "(int \<times> string) list option \<Rightarrow> (vm_state, (int \<times> string) list) io" where
  "getTemplates reply = bnd (nats_request reply) (\<lambda>r. ret (nullish r []))"

record vm_stats =
  st_total :: nat
  st_running :: nat
  st_stopped :: nat
  st_pending :: nat
  st_error :: nat
  st_cpu :: int
  st_ramMb :: int
  st_diskGb :: int

definition getStats :: "id \<Rightarrow> string \<Rightarrow> (vm_state, vm_stats) io" where
  "getStats userId role =
     asks (\<lambda>s. let w = (\<lambda>v. role = ''ADMIN'' \<or> v_userId v = userId); t = virtualMachines s;
                   used = (\<lambda>v. w v \<and> v_status v \<in> set [RUNNING, STOPPED, PENDING]) in
       \<lparr>st_total = count_rows (\<lambda>v. w v \<and> v_status v \<noteq> DELETED) t,
        st_running = count_rows (\<lambda>v. w v \<and> v_status v = RUNNING) t,
        st_stopped = count_rows (\<lambda>v. w v \<and> v_status v = STOPPED) t,
        st_pending = count_rows (\<lambda>v. w v \<and> v_status v = PENDING) t,
        st_error = count_rows (\<lambda>v. w v \<and> v_status v = ERROR) t,
        st_cpu = sum_rows v_cpu used t, st_ramMb = sum_rows v_ramMb used t,
        st_diskGb = sum_rows v_diskGb used t\<rparr>)"

section \<open>Runs of the building blocks\<close>

lemma transaction_Inr_iff [io_iffs]:
  "transaction ab m s = (Inr a, t) \<longleftrightarrow> \<not> ab \<and> m s = (Inr a, t)"
  by (auto simp: transaction_def split: prod.split sum.split)

lemma transaction_Inl_state: "transaction ab m s = (Inl e, t) \<Longrightarrow> t = s"
  by (auto simp: transaction_def split: if_splits prod.splits sum.splits)

lemma try_catch_throw_Inr_iff [io_iffs]:
  "try_catch m (\<lambda>e. throw (g e)) s = (Inr a, t) \<longleftrightarrow> m s = (Inr a, t)"
  by (auto simp: try_catch_def split: prod.split sum.split)

lemma try_catch_throw_Inl_iff [io_iffs]:
  "try_catch m (\<lambda>e. throw (g e)) s = (Inl e, t) \<longleftrightarrow> (\<exists>e'. m s = (Inl e', t) \<and> e = g e')"
  by (auto simp: try_catch_def split: prod.split sum.split)

lemma subject_of_JS [simp]: "subject_of m \<in> set JS_SUBJECTS"
  by (cases m) (simp_all add: JS_SUBJECTS_def)

definition enqueued :: "vm_msg \<Rightarrow> vm_state \<Rightarrow> vm_state" where
  "enqueued m s = (if nats_connected s then s\<lparr>published := published s @ [m]\<rparr> else s)"

lemma enqueued_simps [simp]:
  "virtualMachines (enqueued m s) = virtualMachines s"
  "userQuotas (enqueued m s) = userQuotas s"
  "nats_connected (enqueued m s) = nats_connected s"
  "published (enqueued m s) = published s @ (if nats_connected s then [m] else [])"
  by (simp_all add: enqueued_def)

lemma find_enqueued [simp]:
  "find_quota u (enqueued m s) = find_quota u s" "find_vm i (enqueued m s) = find_vm i s"
  by (simp_all add: find_quota_def find_vm_def)

lemma publish_Inr_iff [io_iffs]:
  "publish D m s = (Inr u, t) \<longleftrightarrow> \<not> (nats_connected s \<and> js_refuses D) \<and> t = enqueued m s"
  by (auto simp: publish_def enqueued_def io_simps)

lemma publish_Inl_iff [io_iffs]:
  "publish D m s = (Inl e, t) \<longleftrightarrow>
     nats_connected s \<and> js_refuses D \<and> e = PlainError ''JetStream publish failed'' \<and> t = s"
  by (auto simp: publish_def io_simps)

section \<open>The quota check\<close>

text \<open>The four limits of a user against what the user's machines that are not deleted take.\<close>

definition within_quota :: "id \<Rightarrow> 'a db_scheme \<Rightarrow> bool" where
  "within_quota u s \<longleftrightarrow>
     (let q = find_quota u s; t = virtualMachines s in
      int (count_rows (active_of u) t) \<le> limit_of False q_maxVms q \<and>
      sum_rows v_cpu (active_of u) t \<le> limit_of False q_maxCpu q \<and>
      sum_rows v_ramMb (active_of u) t \<le> limit_of False q_maxRamMb q \<and>
      sum_rows v_diskGb (active_of u) t \<le> limit_of False q_maxDiskGb q)"

definition refreshed :: "vm_deps \<Rightarrow> id \<Rightarrow> bool \<Rightarrow> quota_snapshot option \<Rightarrow> vm_state \<Rightarrow> vm_state" where
  "refreshed D u isAdmin rq s =
     (case rq of
        Some r \<Rightarrow> (case sn_quota r of
            Some l \<Rightarrow> if \<not> isAdmin \<and> hasActiveSubscription r then upsert_quota D u l s else s
          | None \<Rightarrow> s)
      | None \<Rightarrow> s)"

lemma refreshed_simps [simp]:
  "virtualMachines (refreshed D u adm rq s) = virtualMachines s"
  "nats_connected (refreshed D u adm rq s) = nats_connected s"
  "published (refreshed D u adm rq s) = published s"
  by (simp_all add: refreshed_def upsert_quota_def split: option.split)

interpretation quota_update: key_preserving q_userId
  "\<lambda>q. q\<lparr>q_maxVms := l_maxVms l, q_maxCpu := l_maxCpu l, q_maxRamMb := l_maxRamMb l,
         q_maxDiskGb := l_maxDiskGb l\<rparr>" for l
  by unfold_locales simp

lemma find_quota_upsert:
  "find_quota u' (upsert_quota D u l s) =
     (if u' = u then Some (case find_quota u s of
          Some q \<Rightarrow> q\<lparr>q_maxVms := l_maxVms l, q_maxCpu := l_maxCpu l, q_maxRamMb := l_maxRamMb l,
                     q_maxDiskGb := l_maxDiskGb l\<rparr>
        | None \<Rightarrow> \<lparr>q_id = quota_uuid D, q_userId = u, q_planId = None, q_maxVms = l_maxVms l,
                   q_maxCpu = l_maxCpu l, q_maxRamMb = l_maxRamMb l, q_maxDiskGb = l_maxDiskGb l\<rparr>)
      else find_quota u' s)"
  by (auto simp: find_quota_def upsert_quota_def quota_update.find_update_key find_append
      split: option.split)

lemma find_quota_refreshed_other: "u' \<noteq> u \<Longrightarrow> find_quota u' (refreshed D u adm rq s) = find_quota u' s"
  by (simp add: refreshed_def find_quota_upsert split: option.split)

lemma insert_vm_Inr_iff [io_iffs]:
  "insert_vm v s = (Inr w, t) \<longleftrightarrow>
     w = v \<and> t = s\<lparr>virtualMachines := virtualMachines s @ [v]\<rparr> \<and>
     (\<forall>r \<in> set (virtualMachines s). v_id r \<noteq> v_id v \<and> (v_userId r, v_name r) \<noteq> (v_userId v, v_name v))"
  by (auto simp: insert_vm_def io_simps)

lemma new_vm_simps [simp]:
  "v_id (new_vm D d u enc) = vm_uuid D" "v_name (new_vm D d u enc) = d_name d"
  "v_status (new_vm D d u enc) = PENDING" "v_userId (new_vm D d u enc) = u"
  "v_cpu (new_vm D d u enc) = d_cpu d" "v_ramMb (new_vm D d u enc) = d_ramMb d"
  "v_diskGb (new_vm D d u enc) = d_diskGb d" "v_osTemplate (new_vm D d u enc) = d_osTemplate d"
  "v_sshPrivateKeyEncrypted (new_vm D d u enc) = enc" "v_stoppedAt (new_vm D d u enc) = None"
  "v_createdAt (new_vm D d u enc) = clock D"
  by (simp_all add: new_vm_def)

text \<open>When the transaction commits, every check passed and the row was appended.\<close>

definition fits :: "bool \<Rightarrow> id \<Rightarrow> create_dto \<Rightarrow> vm_state \<Rightarrow> bool" where
  "fits isAdmin u d s \<longleftrightarrow>
     (let q = find_quota u s; t = virtualMachines s in
      int (count_rows (active_of u) t) < limit_of isAdmin q_maxVms q \<and>
      sum_rows v_cpu (active_of u) t + d_cpu d \<le> limit_of isAdmin q_maxCpu q \<and>
      sum_rows v_ramMb (active_of u) t + d_ramMb d \<le> limit_of isAdmin q_maxRamMb q \<and>
      sum_rows v_diskGb (active_of u) t + d_diskGb d \<le> limit_of isAdmin q_maxDiskGb q)"

definition no_clash :: "vm_row \<Rightarrow> vm_state \<Rightarrow> bool" where
  "no_clash v s \<longleftrightarrow>
     (\<forall>r \<in> set (virtualMachines s). v_id r \<noteq> v_id v \<and> (v_userId r, v_name r) \<noteq> (v_userId v, v_name v))"

lemma refresh_step:
  "(case rq of
      Some r \<Rightarrow> (case sn_quota r of
          Some l \<Rightarrow> if \<not> adm \<and> hasActiveSubscription r then modify (upsert_quota D u l) else ret ()
        | None \<Rightarrow> ret ())
    | None \<Rightarrow> ret ()) s = (Inr (), refreshed D u adm rq s)"
  by (simp add: refreshed_def split: option.split)

lemma create_tx_Inr_iff [io_iffs]:
  "create_tx D d u adm rq enc s = (Inr v, t) \<longleftrightarrow>
     v = new_vm D d u enc \<and> fits adm u d (refreshed D u adm rq s) \<and> no_clash v s \<and>
     t = (refreshed D u adm rq s)\<lparr>virtualMachines := virtualMachines s @ [v]\<rparr>"
  unfolding create_tx_def Let_def bnd_Inr_iff refresh_step
  by (auto simp: io_iffs fits_def no_clash_def Let_def)

lemma fits_imp_within:
  assumes "fits False u d s" "v = new_vm D d u enc"
  shows "within_quota u (s\<lparr>virtualMachines := virtualMachines s @ [v]\<rparr>)"
  using assms by (simp add: fits_def within_quota_def active_of_def Let_def find_quota_def)

text \<open>Success of the whole handler, inverted once for all the properties that follow.\<close>

definition create_msg :: "create_dto \<Rightarrow> vm_row \<Rightarrow> string \<Rightarrow> vm_msg" where
  "create_msg d vm pub =
     MsgCreate (v_id vm) (v_name vm) (v_cpu vm) (v_ramMb vm) (v_diskGb vm) (v_osTemplate vm)
       (v_userId vm) (v_sshUsername vm) (d_vmPassword d) pub"

lemma createVm_InrE:
  assumes "createVm D d u role s = (Inr (vm, pem), t)"
  obtains rq pub enc where
    "role \<noteq> ''ADMIN'' \<Longrightarrow> fetchInternalQuotaSnapshot D u = Inr (Some rq) \<and> hasActiveSubscription rq"
    "ssh_key_of D d = Inr (pub, pem, enc)"
    "vm = new_vm D d u enc" "no_clash vm s"
    "fits (role = ''ADMIN'') u d (refreshed D u (role = ''ADMIN'') (if role = ''ADMIN'' then None else Some rq) s)"
    "t = enqueued (create_msg d vm pub)
           ((refreshed D u (role = ''ADMIN'') (if role = ''ADMIN'' then None else Some rq) s)
              \<lparr>virtualMachines := virtualMachines s @ [vm]\<rparr>)"
proof -
  have "\<exists>rq pub enc.
      (role \<noteq> ''ADMIN'' \<longrightarrow> fetchInternalQuotaSnapshot D u = Inr (Some rq) \<and> hasActiveSubscription rq) \<and>
      ssh_key_of D d = Inr (pub, pem, enc) \<and> vm = new_vm D d u enc \<and> no_clash vm s \<and>
      fits (role = ''ADMIN'') u d (refreshed D u (role = ''ADMIN'') (if role = ''ADMIN'' then None else Some rq) s) \<and>
      t = enqueued (create_msg d vm pub)
           ((refreshed D u (role = ''ADMIN'') (if role = ''ADMIN'' then None else Some rq) s)
              \<lparr>virtualMachines := virtualMachines s @ [vm]\<rparr>)"
    using assms unfolding createVm_def Let_def
    by (fastforce simp: io_iffs create_msg_def split: option.splits if_splits)
  then show ?thesis using that by blast
qed

section \<open>Properties of creation\<close>

text \<open>
  C1: a machine that a user who is no administrator creates fits all four limits of the
  user's quota as the transaction refreshed it, together with everything the user already
  has; the user had an active subscription; the new row is pending, belongs to the user, and
  is the only change to the machines; and exactly one creation message for it is published
  while NATS is connected.
\<close>

theorem createVm_within_quota:
  assumes "createVm D d u role s = (Inr (vm, pem), t)" "role \<noteq> ''ADMIN''"
  shows "within_quota u t \<and> virtualMachines t = virtualMachines s @ [vm] \<and>
    v_userId vm = u \<and> v_status vm = PENDING \<and> v_name vm = d_name d \<and>
    (v_cpu vm, v_ramMb vm, v_diskGb vm) = (d_cpu d, d_ramMb d, d_diskGb d) \<and>
    (\<exists>rq. fetchInternalQuotaSnapshot D u = Inr (Some rq) \<and> hasActiveSubscription rq) \<and>
    (\<exists>pub. published t = published s @ (if nats_connected s then [create_msg d vm pub] else []))"
  using assms(1)
proof (rule createVm_InrE)
  fix rq pub enc
  let ?s = "refreshed D u (role = ''ADMIN'') (if role = ''ADMIN'' then None else Some rq) s"
  assume sub: "role \<noteq> ''ADMIN'' \<Longrightarrow> fetchInternalQuotaSnapshot D u = Inr (Some rq) \<and> hasActiveSubscription rq"
    and vm: "vm = new_vm D d u enc" and fit: "fits (role = ''ADMIN'') u d ?s"
    and t: "t = enqueued (create_msg d vm pub) (?s\<lparr>virtualMachines := virtualMachines s @ [vm]\<rparr>)"
  have "within_quota u (?s\<lparr>virtualMachines := virtualMachines ?s @ [vm]\<rparr>)"
    using fits_imp_within [OF _ vm, of ?s] fit assms(2) by (simp del: refreshed_simps)
  then have "within_quota u t" by (simp add: t within_quota_def)
  then show ?thesis using sub assms(2) by (auto simp: t vm)
qed

text \<open>
  A creation that fails changes nothing, whichever check, fetch, key generation or
  constraint failed, with one exception: when JetStream refuses the message after the commit
  the pending row stays behind, with no message for it.
\<close>

theorem createVm_failure_atomic:
  assumes "createVm D d u role s = (Inl e, t)"
  shows "t = s \<or>
    nats_connected s \<and> js_refuses D \<and> e = PlainError ''JetStream publish failed'' \<and>
    published t = published s \<and>
    (\<exists>enc. virtualMachines t = virtualMachines s @ [new_vm D d u enc])"
  using assms unfolding createVm_def Let_def
  by (auto simp: io_iffs split: option.splits if_splits dest!: transaction_Inl_state) blast

section \<open>Who may touch a machine\<close>

text \<open>
  The contract that the handlers on one machine share: nothing is found under an unknown
  identifier, and a stranger who is no administrator is refused before anything happens.
\<close>

locale owner_guarded =
  fixes run :: "id \<Rightarrow> id \<Rightarrow> string \<Rightarrow> (vm_state, 'a) io"
  assumes missing: "find_vm i s = None \<Longrightarrow> run i u role s = (Inl (NotFound ''Virtual machine not found''), s)"
    and foreign: "find_vm i s = Some vm \<Longrightarrow> role \<noteq> ''ADMIN'' \<Longrightarrow> v_userId vm \<noteq> u \<Longrightarrow>
      run i u role s = (Inl (Forbidden ''Access denied''), s)"
begin

lemma success_owner:
  assumes "run i u role s = (Inr a, t)"
  shows "\<exists>vm. find_vm i s = Some vm \<and> (role = ''ADMIN'' \<or> v_userId vm = u)"
  using assms missing [of i s u role] foreign [of i s _ role u] by (cases "find_vm i s") fastforce+

lemma refused_unchanged:
  assumes "\<nexists>vm. find_vm i s = Some vm \<and> (role = ''ADMIN'' \<or> v_userId vm = u)"
  shows "snd (run i u role s) = s"
  using assms missing [of i s u role] foreign [of i s _ role u] by (cases "find_vm i s") fastforce+

end

interpretation getVm_guard: owner_guarded getVm
  by unfold_locales (simp_all add: getVm_def io_simps)

interpretation sshKey_guard: owner_guarded "getVmSshPrivateKey D" for D
  by unfold_locales (simp_all add: getVmSshPrivateKey_def io_simps)

interpretation vmAction_guard: owner_guarded "\<lambda>i. vmAction D i action" for D action
  by unfold_locales (simp_all add: vmAction_def io_simps getVm_guard.missing getVm_guard.foreign)

interpretation deleteVm_guard: owner_guarded "deleteVm D" for D
  by unfold_locales (simp_all add: deleteVm_def io_simps getVm_guard.missing getVm_guard.foreign)

text \<open>
  A machine of somebody else is out of reach of a user who is no administrator: reading
  it, reading its private key, acting on it and deleting it are all refused with the same
  answer, and nothing is published or changed.
\<close>

theorem foreign_vm_denied:
  assumes "find_vm i s = Some vm" "role \<noteq> ''ADMIN''" "v_userId vm \<noteq> u"
  shows "getVm i u role s = (Inl (Forbidden ''Access denied''), s) \<and>
    getVmSshPrivateKey D i u role s = (Inl (Forbidden ''Access denied''), s) \<and>
    vmAction D i action u role s = (Inl (Forbidden ''Access denied''), s) \<and>
    deleteVm D i u role s = (Inl (Forbidden ''Access denied''), s)"
  using assms
  by (simp add: getVm_guard.foreign sshKey_guard.foreign vmAction_guard.foreign deleteVm_guard.foreign)

lemma getVm_Inr_iff [io_iffs]:
  "getVm i u role s = (Inr vm, t) \<longleftrightarrow>
     find_vm i s = Some vm \<and> (role = ''ADMIN'' \<or> v_userId vm = u) \<and> t = s"
  by (auto simp: getVm_def io_iffs)

lemma getVm_Inl_state: "getVm i u role s = (Inl e, t) \<Longrightarrow> t = s"
  by (auto simp: getVm_def io_iffs)

section \<open>Actions\<close>

definition may_start :: "vm_deps \<Rightarrow> id \<Rightarrow> bool" where
  "may_start D u \<longleftrightarrow>
     (\<exists>a. fetchInternalSubscriptionAccessSnapshot D u = Inr (Some a) \<and> truthy (activePlanId a) \<and>
        \<not> hours_exhausted a)"

text \<open>The life of a machine as the user sees it: what may be asked of it in which status.\<close>

definition action_allowed :: "string \<Rightarrow> VmStatus \<Rightarrow> bool" where
  "action_allowed action st \<longleftrightarrow>
     action = ''start'' \<and> st \<in> {STOPPED, SUSPENDED, ERROR} \<or>
     action \<in> {''stop'', ''restart''} \<and> st = RUNNING \<or>
     action = ''delete'' \<and> st \<noteq> DELETED"

lemma check_subscription_Inr_iff [io_iffs]:
  "check_subscription D u s = (Inr x, t) \<longleftrightarrow> may_start D u \<and> t = s"
  by (auto simp: check_subscription_def may_start_def io_iffs split: option.splits)

lemma check_subscription_state: "check_subscription D u s = (r, t) \<Longrightarrow> t = s"
  by (auto simp: check_subscription_def io_simps split: option.splits if_splits sum.splits prod.splits)

lemma start_gate [io_iffs]:
  "(if role \<noteq> ''ADMIN'' \<and> (action = ''start'' \<or> action = ''restart'')
    then check_subscription D u else ret ()) s = (Inr x, t) \<longleftrightarrow>
     (if role \<noteq> ''ADMIN'' \<and> action \<in> {''start'', ''restart''} then may_start D u else True) \<and> t = s"
  by (auto simp: check_subscription_Inr_iff)

lemma not_action_allowed:
  "(case validTransitions action of None \<Rightarrow> True | Some allowed \<Rightarrow> st \<notin> set allowed) \<longleftrightarrow>
     \<not> action_allowed action st"
  by (cases st) (simp_all add: action_allowed_def validTransitions_def)

text \<open>
  C6: an action is accepted exactly when the machine exists and is the caller's or the caller
  is an administrator, the machine's status allows the action (a start from stopped, suspended or
  failed, a stop or restart from running, a deletion unless deleted already), a
  start or restart by anybody else than an administrator finds an active plan with hours
  left, and JetStream does not refuse the message. With a connection to NATS the state then gains that one message and nothing
  else. Without one the action is accepted and answered as queued all the same, and no message is ever sent.
\<close>

theorem vmAction_accepted_iff:
  "vmAction D i action u role s = (Inr msg, t) \<longleftrightarrow>
     (\<exists>vm. find_vm i s = Some vm \<and> (role = ''ADMIN'' \<or> v_userId vm = u) \<and>
        action_allowed action (v_status vm) \<and>
        (if role \<noteq> ''ADMIN'' \<and> action \<in> {''start'', ''restart''} then may_start D u else True) \<and>
        msg = queued_text action (v_name vm) \<and>
        (if nats_connected s
         then \<not> js_refuses D \<and> t = s\<lparr>published := published s @ [MsgAction (v_id vm) (v_oneVmId vm) action u]\<rparr>
         else t = s))"
proof -
  have msg: "\<not> (nats_connected s \<and> js_refuses D) \<and> t = enqueued m s \<longleftrightarrow>
      (if nats_connected s then \<not> js_refuses D \<and> t = s\<lparr>published := published s @ [m]\<rparr> else t = s)" for m
    by (simp add: enqueued_def)
  show ?thesis
    unfolding vmAction_def bnd_Inr_iff getVm_Inr_iff start_gate not_action_allowed throw_if_Inr_iff publish_Inr_iff ret_eq
      msg [symmetric]
    by (rule iffI; elim exE conjE; simp; blast)
qed

section \<open>The private key\<close>

lemma ssh_key_of_generated:
  assumes "ssh_key_of D d = Inr (pub, Some pem, enc)"
  shows "\<exists>w. enc = Some w \<and> encryptVmPrivateKey (crypto_of D) (penv D) (iv_bytes D) pem = Inr w \<and>
    pem = fst (rsa_pair D)"
  using assms
  by (auto simp: ssh_key_of_def generateVmSshKeyPair_def Let_def split: if_splits sum.splits option.splits)

lemma find_vm_appended:
  "no_clash vm s \<Longrightarrow> virtualMachines t = virtualMachines s @ [vm] \<Longrightarrow> find_vm (v_id vm) t = Some vm"
  by (auto simp: find_vm_def find_append no_clash_def find_None_iff split: option.split dest: find_Some_set)

text \<open>
  C7: the private key that the creation of a machine returns to its owner is the one the
  owner reads back later: it was stored encrypted, and decrypting it with the same secret
  gives the same key.
\<close>

theorem ssh_key_roundtrip:
  assumes "aead_correct (crypto_of D)" "iv_bytes D \<noteq> []" "fst (rsa_pair D) \<noteq> []"
    and "crypto_of D' = crypto_of D" "penv D' = penv D"
    and "createVm D d u role s = (Inr (vm, Some pem), t)"
  shows "getVmSshPrivateKey D' (v_id vm) u role t = (Inr (v_id vm, v_name vm, pem), t)"
  using assms(6)
proof (rule createVm_InrE)
  fix rq pub enc
  let ?s = "refreshed D u (role = ''ADMIN'') (if role = ''ADMIN'' then None else Some rq) s"
  assume key: "ssh_key_of D d = Inr (pub, Some pem, enc)" and vm: "vm = new_vm D d u enc"
    and nc: "no_clash vm s"
    and t: "t = enqueued (create_msg d vm pub) (?s\<lparr>virtualMachines := virtualMachines s @ [vm]\<rparr>)"
  obtain w where w: "enc = Some w" "pem \<noteq> []"
    "encryptVmPrivateKey (crypto_of D) (penv D) (iv_bytes D) pem = Inr w"
    using ssh_key_of_generated [OF key] assms(3) by auto
  then have "decryptVmPrivateKey (crypto_of D') (penv D') w = Inr pem" "w \<noteq> []"
    using decrypt_encrypt [OF assms(1,2)] encrypt_not_Nil assms(4,5) by auto
  moreover have "find_vm (v_id vm) t = Some vm"
    using find_vm_appended [OF nc, of t] by (simp add: t)
  ultimately show ?thesis
    using w by (simp add: getVmSshPrivateKey_def io_simps vm)
qed

section \<open>Listing\<close>

lemma listVms_Inr_iff:
  "listVms u role q s = (Inr r, t) \<longleftrightarrow>
     (\<exists>pg lmt p. nullish (lq_page q) (Fin 1) = Fin pg \<and> js_min (nullish (lq_limit q) (Fin 20)) 100 = Fin lmt \<and>
        list_where u role q = Some p \<and> 0 \<le> (pg - 1) * lmt \<and> t = s \<and>
        r = \<lparr>pg_data = page_rows ((pg - 1) * lmt) lmt
                (sort_key (\<lambda>v. - v_createdAt v) (filter p (virtualMachines s))),
             pg_total = length (filter p (virtualMachines s)), pg_page = pg, pg_limit = lmt,
             pg_totalPages = (if lmt = 0 then None
                else Some (- ((- int (length (filter p (virtualMachines s)))) div lmt)))\<rparr>)"
  by (auto simp: listVms_def Let_def io_iffs split: js_int.splits option.splits)

lemma status_of_name_Some: "status_of_name n = Some st \<Longrightarrow> status_name st = n"
  unfolding status_of_name_def by (blast dest: find_Some_set)

lemma list_where_own:
  "list_where u role q = Some p \<Longrightarrow> p v \<Longrightarrow>
     (role = ''ADMIN'' \<or> v_userId v = u) \<and> (truthy (lq_status q) \<or> v_status v \<noteq> DELETED) \<and>
     (truthy (lq_status q) \<longrightarrow> lq_status q = Some (status_name (v_status v)))"
  unfolding list_where_def Let_def
  by (cases "lq_status q") (auto split: if_splits option.splits dest: status_of_name_Some)

text \<open>
  A listing shows a user who is no administrator only the user's own machines; without a
  status filter no deleted machine is shown and with one only machines of that status; a page
  never has more rows than its limit, and never more than 100 for a limit that is not
  negative.
\<close>

theorem listVms_visible:
  assumes "listVms u role q s = (Inr r, t)" "v \<in> set (pg_data r)"
  shows "v \<in> set (virtualMachines s) \<and> (role = ''ADMIN'' \<or> v_userId v = u) \<and>
    (if truthy (lq_status q) then lq_status q = Some (status_name (v_status v))
     else v_status v \<noteq> DELETED) \<and>
    int (length (pg_data r)) \<le> \<bar>pg_limit r\<bar> \<and> pg_limit r \<le> 100 \<and> t = s"
proof -
  obtain pg lmt p where r: "js_min (nullish (lq_limit q) (Fin 20)) 100 = Fin lmt"
    "list_where u role q = Some p" "t = s" "pg_limit r = lmt"
    "pg_data r = page_rows ((pg - 1) * lmt) lmt (sort_key (\<lambda>v. - v_createdAt v) (filter p (virtualMachines s)))"
    using assms(1) by (auto simp: listVms_Inr_iff)
  then have "v \<in> set (virtualMachines s)" "p v"
    using assms(2) set_page_rows [of "(pg - 1) * lmt" lmt] by fastforce+
  then show ?thesis
    using list_where_own [OF r(2)] js_min_le [OF r(1)] r length_page_rows by auto
qed

lemma list_where_page: "list_where u role (q\<lparr>lq_page := x\<rparr>) = list_where u role q"
  by (cases q) (simp add: list_where_def cong: option.case_cong)

text \<open>
  Paging loses nothing: for a positive limit, every machine the filter selects is on one
  of the pages numbered from 1 to the \<open>totalPages\<close> that every page reports.
\<close>

theorem listVms_pages_cover:
  assumes "list_where u role q = Some p" "v \<in> set (virtualMachines s)" "p v"
    and "lq_limit q = Some (Fin l)" "0 < l"
  shows "\<exists>pg r n. listVms u role (q\<lparr>lq_page := Some (Fin pg)\<rparr>) s = (Inr r, s) \<and>
    v \<in> set (pg_data r) \<and> pg_totalPages r = Some n \<and> 1 \<le> pg \<and> pg \<le> n"
proof -
  let ?t = "sort_key (\<lambda>v. - v_createdAt v) (filter p (virtualMachines s))" and ?l = "min l 100"
  have "v \<in> set ?t" "0 < ?l" using assms by simp_all
  from page_rows_covers [OF this] obtain pg where pg: "1 \<le> pg" "pg \<le> - ((- int (length ?t)) div ?l)"
    "v \<in> set (page_rows ((pg - 1) * ?l) ?l ?t)"
    by auto
  have "list_where u role (q\<lparr>lq_page := Some (Fin pg)\<rparr>) = Some p"
    using assms(1) by (simp add: list_where_page)
  then show ?thesis using pg assms(4,5) by (force simp: listVms_Inr_iff)
qed

section \<open>Statistics\<close>

lemma count_rows_status_split:
  "count_rows (\<lambda>v. w v \<and> v_status v \<noteq> DELETED) t =
     count_rows (\<lambda>v. w v \<and> v_status v = RUNNING) t + count_rows (\<lambda>v. w v \<and> v_status v = STOPPED) t +
     count_rows (\<lambda>v. w v \<and> v_status v = PENDING) t + count_rows (\<lambda>v. w v \<and> v_status v = ERROR) t +
     count_rows (\<lambda>v. w v \<and> v_status v = SUSPENDED) t"
proof (induction t)
  case (Cons v t)
  then show ?case by (cases "v_status v") auto
qed simp

text \<open>
  The figures of the statistics add up: the total is the running, stopped, pending and
  failed machines plus the suspended ones, which have no figure of their own; and no user's
  resource figures exceed what the quota check counts for that user.
\<close>

theorem getStats_consistent:
  assumes "getStats u role s = (Inr r, t)" "role \<noteq> ''ADMIN''"
    and "\<forall>v \<in> set (virtualMachines s). 0 \<le> v_cpu v \<and> 0 \<le> v_ramMb v \<and> 0 \<le> v_diskGb v"
  shows "st_total r = st_running r + st_stopped r + st_pending r + st_error r +
      count_rows (\<lambda>v. v_userId v = u \<and> v_status v = SUSPENDED) (virtualMachines s) \<and>
    st_total r = count_rows (active_of u) (virtualMachines s) \<and>
    st_cpu r \<le> sum_rows v_cpu (active_of u) (virtualMachines s) \<and>
    st_ramMb r \<le> sum_rows v_ramMb (active_of u) (virtualMachines s) \<and>
    st_diskGb r \<le> sum_rows v_diskGb (active_of u) (virtualMachines s)"
proof -
  have "active_of u = (\<lambda>v. v_userId v = u \<and> v_status v \<noteq> DELETED)"
    by (simp add: fun_eq_iff active_of_def)
  then show ?thesis
    using assms count_rows_status_split [of "\<lambda>v. v_userId v = u" "virtualMachines s"]
    by (auto simp: getStats_def Let_def intro!: sum_rows_mono)
qed

section \<open>Concrete runs\<close>

definition sample_env :: process_env where
  "sample_env = [''INTER_SERVICE_SYNC_TOKEN'' \<mapsto> ''tok'', ''VM_SSH_KEY_SECRET'' \<mapsto> ''secret'']"

definition sample_deps :: vm_deps where
  "sample_deps = \<lparr>penv = sample_env, clock = 1000, vm_uuid = ''vm-1'', quota_uuid = ''q-1'',
     rsa_pair = (''PEM'', ''SPKI''), iv_bytes = ''0123456789ab'', crypto_of = sample_crypto,
     quota_endpoint = (\<lambda>url token. Response 200 [] (Some \<lparr>hasActiveSubscription = True,
        sn_planId = Some ''pro'', sn_quota = Some \<lparr>l_maxVms = 2, l_maxCpu = 4, l_maxRamMb = 4096,
        l_maxDiskGb = 50\<rparr>\<rparr>)),
     access_endpoint = (\<lambda>url token. FetchFail), tx_abort = False, js_refuses = False\<rparr>"

definition sample_dto :: create_dto where
  "sample_dto = \<lparr>d_name = ''web'', d_cpu = 2, d_ramMb = 1024, d_diskGb = 10, d_osTemplate = ''ubuntu'',
     d_planId = None, d_sshPublicKey = None, d_vmUsername = None, d_vmPassword = None\<rparr>"

definition sample_vm :: vm_row where
  "sample_vm = new_vm sample_deps sample_dto ''alice''
     (Some ''MDEyMzQ1Njc4OWFi.dHR0dHR0dHR0dHR0dHR0dA==.TUVQ'')"

definition fresh_state :: vm_state where
  "fresh_state = db.extend empty_db \<lparr>nats_connected = True, published = []\<rparr>"

definition one_vm_state :: vm_state where
  "one_vm_state = snd (createVm sample_deps sample_dto ''alice'' ''USER'' fresh_state)"

lemma sample_create:
  "createVm sample_deps sample_dto ''alice'' ''USER'' fresh_state = (Inr (sample_vm, Some ''PEM''), one_vm_state)"
  by code_simp

theorem createVm_within_quota_witness:
  "createVm sample_deps sample_dto ''alice'' ''USER'' fresh_state = (Inr (sample_vm, Some ''PEM''), one_vm_state) \<and>
   within_quota ''alice'' one_vm_state \<and> published one_vm_state \<noteq> []"
  using createVm_within_quota [OF sample_create] sample_create
  by (auto simp: fresh_state_def db.extend_def)

lemma sample_create_refused:
  "createVm (sample_deps\<lparr>vm_uuid := ''vm-2''\<rparr>) sample_dto ''alice'' ''USER'' one_vm_state =
     (Inl (Conflict ''You already have a VM with this name''), one_vm_state)"
  by code_simp

theorem createVm_failure_atomic_witness:
  "\<exists>e. createVm (sample_deps\<lparr>vm_uuid := ''vm-2''\<rparr>) sample_dto ''alice'' ''USER'' one_vm_state =
     (Inl e, one_vm_state) \<and> \<not> js_refuses (sample_deps\<lparr>vm_uuid := ''vm-2''\<rparr>)"
  using createVm_failure_atomic [OF sample_create_refused] sample_create_refused
  by (simp add: sample_deps_def)

lemma sample_find: "find_vm ''vm-1'' one_vm_state = Some sample_vm"
  by code_simp

theorem foreign_vm_denied_witness:
  "deleteVm sample_deps ''vm-1'' ''mallory'' ''USER'' one_vm_state =
     (Inl (Forbidden ''Access denied''), one_vm_state)"
  using foreign_vm_denied [OF sample_find, of "''USER''" "''mallory''" sample_deps]
  by (simp add: sample_vm_def)

theorem ssh_key_roundtrip_witness:
  "getVmSshPrivateKey sample_deps ''vm-1'' ''alice'' ''USER'' one_vm_state =
     (Inr (''vm-1'', ''web'', ''PEM''), one_vm_state)"
  using ssh_key_roundtrip [OF _ _ _ refl refl sample_create] sample_crypto_correct
  by (simp add: sample_deps_def sample_vm_def sample_dto_def)

definition sample_query :: list_query where
  "sample_query = \<lparr>lq_status = None, lq_search = Some ''WE'', lq_page = None, lq_limit = Some (Fin 5)\<rparr>"

definition sample_page :: "vm_row list_page" where
  "sample_page = \<lparr>pg_data = [sample_vm], pg_total = 1, pg_page = 1, pg_limit = 5, pg_totalPages = Some 1\<rparr>"

lemma sample_list: "listVms ''alice'' ''USER'' sample_query one_vm_state = (Inr sample_page, one_vm_state)"
  by code_simp

theorem listVms_visible_witness:
  "sample_vm \<in> set (pg_data sample_page) \<and> v_userId sample_vm = ''alice'' \<and> v_status sample_vm \<noteq> DELETED"
  using listVms_visible [OF sample_list, of sample_vm] by (simp add: sample_page_def sample_query_def)

theorem listVms_pages_cover_witness:
  "\<exists>pg r n. listVms ''alice'' ''USER'' (sample_query\<lparr>lq_page := Some (Fin pg)\<rparr>) one_vm_state = (Inr r, one_vm_state) \<and>
     sample_vm \<in> set (pg_data r) \<and> pg_totalPages r = Some n \<and> 1 \<le> pg \<and> pg \<le> n"
proof (rule listVms_pages_cover)
  let ?p = "the (list_where ''alice'' ''USER'' sample_query)"
  show "list_where ''alice'' ''USER'' sample_query = Some ?p"
    by (simp add: list_where_def sample_query_def)
  show "sample_vm \<in> set (virtualMachines one_vm_state)" by code_simp
  show "?p sample_vm" by code_simp
  show "lq_limit sample_query = Some (Fin 5)" by (simp add: sample_query_def)
qed simp

theorem getStats_consistent_witness:
  "\<exists>r. getStats ''alice'' ''USER'' one_vm_state = (Inr r, one_vm_state) \<and> st_total r = 1 \<and>
     st_total r = st_running r + st_stopped r + st_pending r + st_error r +
       count_rows (\<lambda>v. v_userId v = ''alice'' \<and> v_status v = SUSPENDED) (virtualMachines one_vm_state)"
proof -
  obtain r where r: "getStats ''alice'' ''USER'' one_vm_state = (Inr r, one_vm_state)"
    by (simp add: getStats_def)
  have "\<forall>v \<in> set (virtualMachines one_vm_state). 0 \<le> v_cpu v \<and> 0 \<le> v_ramMb v \<and> 0 \<le> v_diskGb v"
    by code_simp
  moreover have "count_rows (active_of ''alice'') (virtualMachines one_vm_state) = 1" by code_simp
  ultimately show ?thesis using getStats_consistent [OF r] r by simp
qed

end
