(* ===== verification/Vm_Lifecycle.thy ===== *)
theory Vm_Lifecycle
  imports Vm_Service
begin

text \<open>
  \<open>services/vm/src/nats/nats.service.ts\<close>: what a status update of the worker writes, and the
  life of the machines as a step relation whose steps are the handlers of \<open>Vm_Service\<close> and
  these updates, in any order and any number. The invariants are proved by rule induction.
\<close>

section \<open>Status updates\<close>

text \<open>
  A message of \<open>vm.status.update\<close> after \<open>JSON.parse\<close>. Any field may be absent; a \<open>where\<close> whose
  \<open>id\<close> is undefined puts no condition on the rows, as the database client documents.
\<close>

record status_msg =
  m_vmId :: "id option"
  m_status :: string
  m_userId :: "id option"
  m_ipAddress :: "string option"
  m_oneVmId :: "int option"
  m_sshHost :: "string option"
  m_sshPort :: "int option"

definition addressed :: "status_msg \<Rightarrow> vm_row \<Rightarrow> bool" where
  "addressed m v \<longleftrightarrow> (case m_vmId m of None \<Rightarrow> True | Some i \<Rightarrow> v_id v = i)"

definition DB_STATUSES :: "string list" where
  "DB_STATUSES = [''PENDING'', ''RUNNING'', ''STOPPED'', ''SUSPENDED'', ''ERROR'', ''DELETED'']"

definition set_if_str :: "string option \<Rightarrow> string option \<Rightarrow> string option" where
  "set_if_str new old = (if truthy new then new else old)"

definition set_if_int :: "int option \<Rightarrow> int option \<Rightarrow> int option" where
  "set_if_int new old = (if new \<noteq> None \<and> new \<noteq> Some 0 then new else old)"

definition status_update_data :: "time \<Rightarrow> status_msg \<Rightarrow> VmStatus \<Rightarrow> vm_row \<Rightarrow> vm_row" where
  "status_update_data now m st v =
     v\<lparr>v_status := st,
       v_stoppedAt := (if st \<in> set [STOPPED, SUSPENDED, ERROR] then Some now
                       else if st = RUNNING then None else v_stoppedAt v),
       v_ipAddress := set_if_str (m_ipAddress m) (v_ipAddress v),
       v_oneVmId := set_if_int (m_oneVmId m) (v_oneVmId v),
       v_sshHost := set_if_str (m_sshHost m) (v_sshHost v),
       v_sshPort := set_if_int (m_sshPort m) (v_sshPort v)\<rparr>"

definition mark_deleted :: "time \<Rightarrow> status_msg \<Rightarrow> vm_row list \<Rightarrow> vm_row list" where
  "mark_deleted now m t =
     (if count_rows (addressed m) t = 0 then t
      else update_many (\<lambda>v. addressed m v \<and> v_stoppedAt v = None) (\<lambda>v. v\<lparr>v_stoppedAt := Some now\<rparr>)
             (update_many (addressed m) (\<lambda>v. v\<lparr>v_status := DELETED\<rparr>) t))"

definition on_status_update :: "time \<Rightarrow> status_msg \<Rightarrow> vm_state \<Rightarrow> vm_state" where
  "on_status_update now m s =
     (if m_status m \<notin> set DB_STATUSES then s
      else if m_status m = ''DELETED''
      then s\<lparr>virtualMachines := mark_deleted now m (virtualMachines s)\<rparr>
      else case status_of_name (m_status m) of
          None \<Rightarrow> s
        | Some st \<Rightarrow> s\<lparr>virtualMachines :=
            update_many (addressed m) (status_update_data now m st) (virtualMachines s)\<rparr>)"

text \<open>\<open>subscribe\<close> logs and drops a message that is no JSON.\<close>

definition on_message :: "time \<Rightarrow> status_msg option \<Rightarrow> vm_state \<Rightarrow> vm_state" where
  "on_message now raw s = (case raw of None \<Rightarrow> s | Some m \<Rightarrow> on_status_update now m s)"

section \<open>What an update does to one row\<close>

text \<open>The whole update as one function on rows, so that every invariant is a fact about rows.\<close>

definition row_update :: "time \<Rightarrow> status_msg \<Rightarrow> vm_row \<Rightarrow> vm_row" where
  "row_update now m v =
     (if \<not> addressed m v then v
      else case status_of_name (m_status m) of
          None \<Rightarrow> v
        | Some st \<Rightarrow> if st = DELETED
            then v\<lparr>v_status := DELETED, v_stoppedAt := Some (nullish (v_stoppedAt v) now)\<rparr>
            else status_update_data now m st v)"

lemma status_of_name_simps [simp]:
  "status_of_name ''PENDING'' = Some PENDING" "status_of_name ''RUNNING'' = Some RUNNING"
  "status_of_name ''STOPPED'' = Some STOPPED" "status_of_name ''SUSPENDED'' = Some SUSPENDED"
  "status_of_name ''ERROR'' = Some ERROR" "status_of_name ''DELETED'' = Some DELETED"
  by (simp_all add: status_of_name_def)

lemma DB_STATUSES_iff: "n \<in> set DB_STATUSES \<longleftrightarrow> status_of_name n \<noteq> None"
proof
  assume "status_of_name n \<noteq> None"
  then obtain st where "status_name st = n" by (auto dest: status_of_name_Some)
  then show "n \<in> set DB_STATUSES" by (cases st) (auto simp: DB_STATUSES_def)
qed (auto simp: DB_STATUSES_def)

lemma status_of_name_DELETED: "status_of_name n = Some DELETED \<longleftrightarrow> n = ''DELETED''"
  by (auto dest: status_of_name_Some)

lemma addressed_update [simp]:
  "addressed m (v\<lparr>v_status := st\<rparr>) = addressed m v"
  by (simp add: addressed_def split: option.split)

lemma mark_deleted_eq:
  "mark_deleted now m t = map (\<lambda>v. if addressed m v
     then v\<lparr>v_status := DELETED, v_stoppedAt := Some (nullish (v_stoppedAt v) now)\<rparr> else v) t"
proof (cases "count_rows (addressed m) t = 0")
  case True
  then have "\<forall>v \<in> set t. \<not> addressed m v" by (simp add: count_rows_def filter_empty_conv)
  then show ?thesis using True by (simp add: mark_deleted_def map_idI)
next
  case False
  have "\<And>v. v_stoppedAt v \<noteq> None \<Longrightarrow> v\<lparr>v_status := DELETED, v_stoppedAt := v_stoppedAt v\<rparr> = v\<lparr>v_status := DELETED\<rparr>"
    by simp
  then show ?thesis using False by (auto simp: mark_deleted_def update_many_def nullish_def split: option.split)
qed

lemma on_status_update_eq:
  "on_status_update now m s = s\<lparr>virtualMachines := map (row_update now m) (virtualMachines s)\<rparr>"
proof (cases "status_of_name (m_status m)")
  case None
  then have "row_update now m = (\<lambda>v. v)" by (simp add: row_update_def fun_eq_iff)
  then show ?thesis using None by (simp add: on_status_update_def DB_STATUSES_iff)
next
  case (Some st)
  then show ?thesis
    by (cases "st = DELETED")
      (auto simp: on_status_update_def DB_STATUSES_iff mark_deleted_eq row_update_def update_many_def
        status_of_name_DELETED intro!: arg_cong [of _ _ "\<lambda>f. s\<lparr>virtualMachines := map f _\<rparr>"])
qed

lemma row_update_keeps [simp]:
  "v_id (row_update now m v) = v_id v" "v_userId (row_update now m v) = v_userId v"
  "v_name (row_update now m v) = v_name v" "v_cpu (row_update now m v) = v_cpu v"
  "v_ramMb (row_update now m v) = v_ramMb v" "v_diskGb (row_update now m v) = v_diskGb v"
  by (simp_all add: row_update_def status_update_data_def split: option.split)

lemma row_update_status:
  "v_status (row_update now m v) =
     (if addressed m v then nullish (status_of_name (m_status m)) (v_status v) else v_status v)"
  by (simp add: row_update_def status_update_data_def split: option.split)

text \<open>
  A status update writes the status it names into exactly the machines it addresses, when
  it is a status of the database, and never touches the owner, the name or the size of a
  machine. The stop time is set when the machine stops, fails or is suspended, cleared when it
  runs, kept while it is pending, and the first stop time is kept on deletion.
\<close>

theorem status_update_effect:
  assumes "find_vm i s = Some v" "m_vmId m = Some i"
  shows "\<exists>v'. find_vm i (on_status_update now m s) = Some v' \<and>
    (v_userId v', v_name v', v_cpu v', v_ramMb v', v_diskGb v') =
      (v_userId v, v_name v, v_cpu v, v_ramMb v, v_diskGb v) \<and>
    (case status_of_name (m_status m) of
       None \<Rightarrow> v' = v
     | Some st \<Rightarrow> v_status v' = st \<and>
         v_stoppedAt v' = (case st of
            RUNNING \<Rightarrow> None
          | PENDING \<Rightarrow> v_stoppedAt v
          | DELETED \<Rightarrow> Some (nullish (v_stoppedAt v) now)
          | _ \<Rightarrow> Some now)) \<and>
    (\<forall>j. j \<noteq> i \<longrightarrow> find_vm j (on_status_update now m s) = find_vm j s)"
proof -
  have find: "find_vm j (on_status_update now m s) = map_option (row_update now m) (find_vm j s)" for j
  proof -
    have "List.find (\<lambda>v. v_id v = j) (map (row_update now m) t) =
        map_option (row_update now m) (List.find (\<lambda>v. v_id v = j) t)" for t
      by (induction t) auto
    then show ?thesis by (simp add: find_vm_def on_status_update_eq)
  qed
  have "v_id v = i" using find_vm_Some [OF assms(1)] by simp
  then have "case status_of_name (m_status m) of
       None \<Rightarrow> row_update now m v = v
     | Some st \<Rightarrow> v_status (row_update now m v) = st \<and>
         v_stoppedAt (row_update now m v) = (case st of RUNNING \<Rightarrow> None | PENDING \<Rightarrow> v_stoppedAt v
          | DELETED \<Rightarrow> Some (nullish (v_stoppedAt v) now) | _ \<Rightarrow> Some now)"
    using assms(2)
    by (auto simp: row_update_def status_update_data_def addressed_def split: option.split VmStatus.split)
  moreover have "find_vm j (on_status_update now m s) = find_vm j s" if "j \<noteq> i" for j
  proof (cases "find_vm j s")
    case None
    then show ?thesis using find by simp
  next
    case (Some w)
    then have "v_id w = j" using find_vm_Some by fastforce
    then have "row_update now m w = w" using that assms(2) by (simp add: row_update_def addressed_def)
    then show ?thesis using find Some by simp
  qed
  ultimately show ?thesis using find [of i] assms(1) by simp
qed

section \<open>The life of the machines\<close>

text \<open>
  A status update is orderly when it names a machine and does not report a machine that is
  already deleted as anything else.
\<close>

definition orderly :: "status_msg \<Rightarrow> vm_state \<Rightarrow> bool" where
  "orderly m s \<longleftrightarrow> m_vmId m \<noteq> None \<and>
     (\<forall>v \<in> set (virtualMachines s). addressed m v \<and> v_status v = DELETED \<longrightarrow>
        status_of_name (m_status m) \<in> {None, Some DELETED})"

text \<open>
  The steps: a validated creation, an action, a deletion, each by a user with the role
  \<open>role_of\<close> gives, with any outcome and any outside world, and an orderly status update.
\<close>

inductive vm_step :: "(id \<Rightarrow> string) \<Rightarrow> vm_state \<Rightarrow> vm_state \<Rightarrow> bool" for role_of where
  create: "valid_create_dto d \<Longrightarrow> createVm D d u (role_of u) s = (r, t) \<Longrightarrow> vm_step role_of s t"
| action: "vmAction D i a u (role_of u) s = (r, t) \<Longrightarrow> vm_step role_of s t"
| delete: "deleteVm D i u (role_of u) s = (r, t) \<Longrightarrow> vm_step role_of s t"
| status: "orderly m s \<Longrightarrow> vm_step role_of s (on_status_update now m s)"

inductive vm_reachable :: "(id \<Rightarrow> string) \<Rightarrow> vm_state \<Rightarrow> bool" for role_of where
  start: "virtualMachines s = [] \<Longrightarrow> userQuotas s = [] \<Longrightarrow> published s = [] \<Longrightarrow> vm_reachable role_of s"
| step: "vm_reachable role_of s \<Longrightarrow> vm_step role_of s t \<Longrightarrow> vm_reachable role_of t"

inductive_cases vm_step_cases: "vm_step role_of s t"

text \<open>What the two handlers that only publish can do to the state.\<close>

lemma deleteVm_effect:
  "deleteVm D i u role s = (r, t) \<Longrightarrow> t = s \<or> (\<exists>m. t = enqueued m s \<and> subject_of m = ''vm.delete'')"
  by (cases r) (auto simp: deleteVm_def io_iffs dest: getVm_Inl_state)

lemma vmAction_effect:
  assumes "vmAction D i a u role s = (r, t)"
  shows "t = s \<or> (\<exists>m. t = enqueued m s \<and> subject_of m = ''vm.action'')"
proof (cases r)
  case (Inl e)
  have "(if b then check_subscription D u else ret ()) s' = (x, t') \<Longrightarrow> t' = s'" for b s' x t'
    by (auto split: if_splits dest: check_subscription_state)
  then show ?thesis using assms Inl unfolding vmAction_def
    by (auto simp: io_iffs dest: getVm_Inl_state)
next
  case (Inr x)
  from assms [unfolded this vmAction_def bnd_Inr_iff getVm_Inr_iff start_gate publish_Inr_iff throw_if_Inr_iff]
  show ?thesis by auto
qed

text \<open>The effect of a creation, whether it returned or threw.\<close>

definition created :: "vm_deps \<Rightarrow> create_dto \<Rightarrow> id \<Rightarrow> string \<Rightarrow> vm_state \<Rightarrow> vm_state \<Rightarrow> bool" where
  "created D d u role s t \<longleftrightarrow>
     (\<exists>rq enc ms. let vm = new_vm D d u enc; s' = refreshed D u (role = ''ADMIN'') rq s in
        no_clash vm s \<and> fits (role = ''ADMIN'') u d s' \<and>
        virtualMachines t = virtualMachines s @ [vm] \<and> userQuotas t = userQuotas s' \<and>
        published t = published s @ ms \<and> (ms = [] \<or> (\<exists>pub. ms = [create_msg d vm pub])))"

lemma createVm_effect:
  assumes "createVm D d u role s = (r, t)"
  shows "t = s \<or> created D d u role s t"
proof (cases r)
  case (Inl e)
  then show ?thesis using assms unfolding createVm_def Let_def
    by (auto simp: io_iffs created_def Let_def split: option.splits if_splits dest!: transaction_Inl_state)
      blast+
next
  case (Inr x)
  then obtain vm pem where "createVm D d u role s = (Inr (vm, pem), t)" using assms by (cases x) auto
  then show ?thesis
    by (rule createVm_InrE) (auto simp: created_def Let_def split: if_splits)
qed

section \<open>Invariants\<close>

lemma map_filter_append: "List.map_filter f (xs @ ys) = List.map_filter f xs @ List.map_filter f ys"
  by (induction xs) (simp_all add: map_filter_simps split: option.split)

text \<open>
  One machine: its name and its sizes are within what \<open>CreateVmDto\<close> admits, and the stop time agrees with the status.
\<close>

definition row_ok :: "vm_row \<Rightarrow> bool" where
  "row_ok v \<longleftrightarrow>
     1 \<le> length (v_name v) \<and> length (v_name v) \<le> 64 \<and> list_all (\<lambda>c. is_alpha c \<or> is_digit c \<or> c = CHR ''-'') (v_name v) \<and>
     1 \<le> v_cpu v \<and> v_cpu v \<le> 32 \<and> 512 \<le> v_ramMb v \<and> v_ramMb v \<le> 65536 \<and> 5 \<le> v_diskGb v \<and> v_diskGb v \<le> 400 \<and>
     (v_status v = RUNNING \<longrightarrow> v_stoppedAt v = None) \<and>
     (v_status v \<in> {STOPPED, SUSPENDED, ERROR, DELETED} \<longrightarrow> v_stoppedAt v \<noteq> None)"

fun created_id :: "vm_msg \<Rightarrow> id option" where
  "created_id (MsgCreate i _ _ _ _ _ _ _ _ _) = Some i"
| "created_id _ = None"

text \<open>The machine that a creation message announces to the worker.\<close>

fun announces :: "vm_msg \<Rightarrow> vm_row \<Rightarrow> bool" where
  "announces (MsgCreate i name cpu ram disk _ u _ _ _) v \<longleftrightarrow>
     v_id v = i \<and> v_name v = name \<and> v_cpu v = cpu \<and> v_ramMb v = ram \<and> v_diskGb v = disk \<and> v_userId v = u"
| "announces _ v \<longleftrightarrow> False"

text \<open>
  What holds whatever the worker reports: the keys are unique, every row is in order, no machine is announced twice, and every
  machine announced has its row, with this owner, name and size.
\<close>

definition rows_inv :: "vm_state \<Rightarrow> bool" where
  "rows_inv s \<longleftrightarrow>
     vm_keys_ok (virtualMachines s) \<and> (\<forall>v \<in> set (virtualMachines s). row_ok v) \<and>
     distinct (List.map_filter created_id (published s)) \<and>
     (\<forall>m \<in> set (published s). created_id m \<noteq> None \<longrightarrow> (\<exists>v \<in> set (virtualMachines s). announces m v))"

text \<open>And the quota of every user who is no administrator, as long as the updates are orderly.\<close>

definition vm_inv :: "(id \<Rightarrow> string) \<Rightarrow> vm_state \<Rightarrow> bool" where
  "vm_inv role_of s \<longleftrightarrow>
     rows_inv s \<and> distinct (map q_userId (userQuotas s)) \<and> (\<forall>u. role_of u \<noteq> ''ADMIN'' \<longrightarrow> within_quota u s)"

lemma row_ok_new: "valid_create_dto d \<Longrightarrow> row_ok (new_vm D d u enc)"
  by (simp add: row_ok_def valid_create_dto_def)

lemma row_ok_update: "row_ok v \<Longrightarrow> row_ok (row_update now m v)"
  by (auto simp: row_ok_def row_update_def status_update_data_def nullish_def split: option.splits)

lemma vm_keys_append: "vm_keys_ok t \<Longrightarrow>
    (\<forall>r \<in> set t. v_id r \<noteq> v_id v \<and> (v_userId r, v_name r) \<noteq> (v_userId v, v_name v)) \<Longrightarrow> vm_keys_ok (t @ [v])"
  by (auto simp: vm_keys_ok_def)

lemma vm_keys_update: "vm_keys_ok t \<Longrightarrow> vm_keys_ok (map (row_update now m) t)"
  by (simp add: vm_keys_ok_def comp_def)

text \<open>An orderly update never adds to what a user's active machines take.\<close>

lemma active_shrinks:
  assumes "orderly m s" "v \<in> set (virtualMachines s)" "active_of u (row_update now m v)"
  shows "active_of u v"
  using assms by (auto simp: active_of_def orderly_def row_update_status split: if_splits option.splits)

lemma usage_shrinks:
  assumes "\<And>v. v \<in> set t \<Longrightarrow> active_of u (g v) \<Longrightarrow> active_of u v"
    and "\<And>v. v \<in> set t \<Longrightarrow> 0 \<le> f v" "\<And>v. f (g v) = f v"
  shows "count_rows (active_of u) (map g t) \<le> count_rows (active_of u) t \<and>
    sum_rows f (active_of u) (map g t) \<le> sum_rows f (active_of u) t"
  using assms
proof (induction t)
  case (Cons v t)
  then have "count_rows (active_of u) (map g t) \<le> count_rows (active_of u) t \<and>
    sum_rows f (active_of u) (map g t) \<le> sum_rows f (active_of u) t" by simp
  moreover have "0 \<le> f v" "f (g v) = f v" "active_of u (g v) \<Longrightarrow> active_of u v"
    using Cons.prems by simp_all
  ultimately show ?case by auto
qed simp

lemma within_quota_status:
  assumes "within_quota u s" "orderly m s" "\<forall>v \<in> set (virtualMachines s). row_ok v"
  shows "within_quota u (on_status_update now m s)"
proof -
  let ?t = "virtualMachines s" and ?g = "row_update now m"
  have act: "\<And>v. v \<in> set ?t \<Longrightarrow> active_of u (?g v) \<Longrightarrow> active_of u v"
    using active_shrinks [OF assms(2)] by blast
  have pos: "\<And>v. v \<in> set ?t \<Longrightarrow> 0 \<le> v_cpu v \<and> 0 \<le> v_ramMb v \<and> 0 \<le> v_diskGb v"
    using assms(3) by (auto simp: row_ok_def)
  have "count_rows (active_of u) (map ?g ?t) \<le> count_rows (active_of u) ?t"
    "sum_rows v_cpu (active_of u) (map ?g ?t) \<le> sum_rows v_cpu (active_of u) ?t"
    "sum_rows v_ramMb (active_of u) (map ?g ?t) \<le> sum_rows v_ramMb (active_of u) ?t"
    "sum_rows v_diskGb (active_of u) (map ?g ?t) \<le> sum_rows v_diskGb (active_of u) ?t"
    using usage_shrinks [OF act, where f = v_cpu] usage_shrinks [OF act, where f = v_ramMb]
      usage_shrinks [OF act, where f = v_diskGb] pos by auto
  then show ?thesis
    using assms(1) by (auto simp: within_quota_def on_status_update_eq find_quota_def Let_def)
qed

lemma distinct_upsert:
  "distinct (map q_userId (userQuotas s)) \<Longrightarrow> distinct (map q_userId (userQuotas (upsert_quota D u l s)))"
  by (auto simp: upsert_quota_def quota_update.map_key_update find_quota_def find_None_iff)

lemma distinct_refreshed:
  "distinct (map q_userId (userQuotas s)) \<Longrightarrow> distinct (map q_userId (userQuotas (refreshed D u adm rq s)))"
  by (auto simp: refreshed_def distinct_upsert split: option.split)

text \<open>A creation by one user leaves every other user's usage and quota alone.\<close>

lemma within_quota_created:
  assumes "created D d u role s t" "u' = u \<Longrightarrow> role \<noteq> ''ADMIN''" "within_quota u' s"
  shows "within_quota u' t"
proof -
  obtain rq enc where c: "fits (role = ''ADMIN'') u d (refreshed D u (role = ''ADMIN'') rq s)"
    "virtualMachines t = virtualMachines s @ [new_vm D d u enc]"
    "userQuotas t = userQuotas (refreshed D u (role = ''ADMIN'') rq s)"
    using assms(1) by (auto simp: created_def Let_def)
  show ?thesis
  proof (cases "u' = u")
    case True
    then show ?thesis
      using c assms(2) by (simp add: fits_def within_quota_def find_quota_def active_of_def Let_def)
  next
    case False
    have "find_quota u' t = find_quota u' s"
      using find_quota_refreshed_other [OF False] c(3) by (metis find_quota_def)
    then show ?thesis
      using assms(3) False by (simp add: within_quota_def c(2) active_of_def Let_def)
  qed
qed

lemma announced_id: "created_id m = Some i \<Longrightarrow> announces m v \<Longrightarrow> v_id v = i"
  by (cases m) auto

lemma announces_update [simp]: "announces m' (row_update now m v) = announces m' v"
  by (cases m') auto

lemma announced_rows:
  assumes "rows_inv s" "i \<in> set (List.map_filter created_id (published s))"
  shows "i \<in> v_id ` set (virtualMachines s)"
proof -
  obtain m where "m \<in> set (published s)" "created_id m = Some i" using assms(2) by (auto simp: List.map_filter_def)
  then show ?thesis using assms(1) announced_id [of m i] unfolding rows_inv_def by fastforce
qed

lemma rows_inv_created:
  assumes "created D d u role s t" "valid_create_dto d" "rows_inv s"
  shows "rows_inv t"
proof -
  obtain enc ms where c: "no_clash (new_vm D d u enc) s" "virtualMachines t = virtualMachines s @ [new_vm D d u enc]"
    "published t = published s @ ms" "ms = [] \<or> (\<exists>pub. ms = [create_msg d (new_vm D d u enc) pub])"
    using assms(1) by (auto simp: created_def Let_def)
  have "vm_keys_ok (virtualMachines t)"
    using vm_keys_append assms(3) c(1,2) by (simp add: rows_inv_def no_clash_def)
  moreover have "vm_uuid D \<notin> set (List.map_filter created_id (published s))"
    using c(1) announced_rows [OF assms(3), of "vm_uuid D"] by (fastforce simp: no_clash_def)
  then have "distinct (List.map_filter created_id (published t))"
    using assms(3) c(3,4) by (auto simp: rows_inv_def map_filter_append map_filter_simps create_msg_def)
  moreover have "\<exists>v \<in> set (virtualMachines t). announces m v" if "m \<in> set (published t)" "created_id m \<noteq> None" for m
    using that assms(3) c(2-4) by (auto simp: rows_inv_def create_msg_def)
  ultimately show ?thesis using assms(2,3) c(2) row_ok_new [OF assms(2)] by (auto simp: rows_inv_def)
qed

lemma rows_inv_enqueued:
  assumes "rows_inv s" "created_id m = None"
  shows "rows_inv (enqueued m s)"
  using assms by (auto simp: rows_inv_def map_filter_append map_filter_simps)

lemma rows_inv_status: "rows_inv s \<Longrightarrow> rows_inv (on_status_update now m s)"
  by (auto simp: rows_inv_def on_status_update_eq vm_keys_update row_ok_update)

lemma vm_inv_created:
  assumes "created D d u (role_of u) s t" "valid_create_dto d" "vm_inv role_of s"
  shows "vm_inv role_of t"
proof -
  have "within_quota u' t" if "role_of u' \<noteq> ''ADMIN''" for u'
    using within_quota_created [OF assms(1), of u'] assms(3) that by (auto simp: vm_inv_def)
  moreover obtain rq where "userQuotas t = userQuotas (refreshed D u (role_of u = ''ADMIN'') rq s)"
    using assms(1) by (auto simp: created_def Let_def)
  ultimately show ?thesis
    using rows_inv_created [OF assms(1,2)] assms(3) distinct_refreshed [of s] by (auto simp: vm_inv_def)
qed

lemma vm_inv_enqueued:
  assumes "vm_inv role_of s" "created_id m = None"
  shows "vm_inv role_of (enqueued m s)"
  using assms rows_inv_enqueued [of s m] by (auto simp: vm_inv_def within_quota_def)

lemma vm_inv_status:
  assumes "vm_inv role_of s" "orderly m s"
  shows "vm_inv role_of (on_status_update now m s)"
proof -
  have "within_quota u (on_status_update now m s)" if "role_of u \<noteq> ''ADMIN''" for u
    using assms within_quota_status that by (auto simp: vm_inv_def rows_inv_def)
  then show ?thesis
    using assms(1) rows_inv_status [of s now m] by (auto simp: vm_inv_def on_status_update_eq)
qed

lemma created_id_subject: "subject_of m \<noteq> ''vm.create'' \<Longrightarrow> created_id m = None"
  by (cases m) simp_all

lemma vm_inv_step: "vm_step role_of s t \<Longrightarrow> vm_inv role_of s \<Longrightarrow> vm_inv role_of t"
proof (induction rule: vm_step.induct)
  case (create d D u s r t)
  then show ?case using createVm_effect vm_inv_created by blast
next
  case (action D i a u s r t)
  then show ?case using vmAction_effect [OF action(1)] vm_inv_enqueued created_id_subject by force
next
  case (delete D i u s r t)
  then show ?case using deleteVm_effect [OF delete(1)] vm_inv_enqueued created_id_subject by force
next
  case (status m s now)
  then show ?case by (simp add: vm_inv_status)
qed

lemma vm_inv_start:
  "virtualMachines s = [] \<Longrightarrow> userQuotas s = [] \<Longrightarrow> published s = [] \<Longrightarrow> vm_inv role_of s"
  by (simp add: vm_inv_def rows_inv_def vm_keys_ok_def within_quota_def find_quota_def limit_of_def map_filter_def)

lemma vm_inv_reachable: "vm_reachable role_of s \<Longrightarrow> vm_inv role_of s"
  by (induction rule: vm_reachable.induct) (auto intro: vm_inv_start vm_inv_step)

text \<open>
  All histories: users in whatever role, and any message on \<open>vm.status.update\<close>, also one that is no JSON, names no machine or
  reports a deleted machine as running.
\<close>

inductive vm_history :: "vm_state \<Rightarrow> bool" where
  empty: "virtualMachines s = [] \<Longrightarrow> published s = [] \<Longrightarrow> vm_history s"
| served: "vm_history s \<Longrightarrow> vm_step role_of s t \<Longrightarrow> vm_history t"
| reported: "vm_history s \<Longrightarrow> vm_history (on_message now raw s)"

lemma rows_inv_step: "vm_step role_of s t \<Longrightarrow> rows_inv s \<Longrightarrow> rows_inv t"
proof (induction rule: vm_step.induct)
  case (create d D u s r t)
  then show ?case using createVm_effect rows_inv_created by blast
next
  case (action D i a u s r t)
  then show ?case using vmAction_effect [OF action(1)] rows_inv_enqueued created_id_subject by force
next
  case (delete D i u s r t)
  then show ?case using deleteVm_effect [OF delete(1)] rows_inv_enqueued created_id_subject by force
next
  case (status m s now)
  then show ?case by (simp add: rows_inv_status)
qed

lemma rows_inv_history: "vm_history s \<Longrightarrow> rows_inv s"
proof (induction rule: vm_history.induct)
  case (empty s)
  then show ?case by (simp add: rows_inv_def vm_keys_ok_def map_filter_def)
next
  case (reported s now raw)
  then show ?case by (simp add: on_message_def rows_inv_status split: option.split)
qed (blast intro: rows_inv_step)

lemma reachable_history: "vm_reachable role_of s \<Longrightarrow> vm_history s"
  by (induction rule: vm_reachable.induct) (auto intro: vm_history.intros)

section \<open>Properties of every reachable state\<close>

text \<open>
  C2: the quota holds at all times: in every state the service reaches from an empty
  database, through any interleaving of creations, actions, deletions and orderly status
  updates, with any answers of the user service and any refusals of the outside world, no
  user who is no administrator has more machines, processors, memory or disk than the quota.
\<close>

theorem quota_never_exceeded:
  assumes "vm_reachable role_of s" "role_of u \<noteq> ''ADMIN''"
  shows "within_quota u s"
  using vm_inv_reachable [OF assms(1)] assms(2) by (simp add: vm_inv_def)

text \<open>
  C5: the table of machines is in order after every history of validated creations, actions, deletions and status messages, orderly
  or not: identifiers are unique and no user has two machines of one name; every name has 1 to 64 letters, digits and hyphens and
  every machine 1 to 32 processors, 512 to 65536 megabytes of memory and 5 to 400 gigabytes of disk, the bounds of \<open>CreateVmDto\<close>; a running machine
  has no stop time, and a stopped, suspended, failed or deleted one has one; no machine is announced to the worker twice,
  and every one announced has its row, with the announced owner, name and size.
\<close>

theorem machines_well_formed:
  assumes "vm_history s"
  shows "vm_keys_ok (virtualMachines s) \<and> (\<forall>v \<in> set (virtualMachines s). row_ok v) \<and>
    distinct (List.map_filter created_id (published s)) \<and>
    (\<forall>m \<in> set (published s). created_id m \<noteq> None \<longrightarrow> (\<exists>v \<in> set (virtualMachines s). announces m v))"
  using rows_inv_history [OF assms] by (simp add: rows_inv_def)

section \<open>Concrete histories\<close>

definition status_report :: "id \<Rightarrow> string \<Rightarrow> status_msg" where
  "status_report i st = \<lparr>m_vmId = Some i, m_status = st, m_userId = None, m_ipAddress = None,
     m_oneVmId = None, m_sshHost = None, m_sshPort = None\<rparr>"

definition user_only :: "id \<Rightarrow> string" where
  "user_only u = ''USER''"

text \<open>A plan with room for one machine.\<close>

definition one_vm_deps :: "id \<Rightarrow> vm_deps" where
  "one_vm_deps i = sample_deps\<lparr>vm_uuid := i,
     quota_endpoint := (\<lambda>url token. Response 200 [] (Some \<lparr>hasActiveSubscription = True,
        sn_planId = Some ''pro'', sn_quota = Some \<lparr>l_maxVms = 1, l_maxCpu = 4, l_maxRamMb = 4096,
        l_maxDiskGb = 50\<rparr>\<rparr>))\<rparr>"

definition history1 :: vm_state where
  "history1 = snd (createVm (one_vm_deps ''vm-1'') sample_dto ''alice'' ''USER'' fresh_state)"

definition history2 :: vm_state where
  "history2 = on_status_update 2000 (status_report ''vm-1'' ''DELETED'') history1"

definition history3 :: vm_state where
  "history3 = snd (createVm (one_vm_deps ''vm-2'') (sample_dto\<lparr>d_name := ''db''\<rparr>) ''alice'' ''USER'' history2)"

lemma sample_dto_valid: "valid_create_dto sample_dto" "valid_create_dto (sample_dto\<lparr>d_name := ''db''\<rparr>)"
  by code_simp+

lemma history1_reachable: "vm_reachable user_only history1"
proof (rule vm_reachable.step [OF vm_reachable.start])
  show "vm_step user_only fresh_state history1"
    unfolding history1_def
    by (rule vm_step.create [OF sample_dto_valid(1), where u = "''alice''"]) (simp add: user_only_def prod_eq_iff)
qed (simp_all add: fresh_state_def db.extend_def empty_db_def)

lemma history2_reachable: "vm_reachable user_only history2"
  using history1_reachable unfolding history2_def
  by (rule vm_reachable.step) (auto intro!: vm_step.status simp: orderly_def status_report_def)

lemma history3_reachable: "vm_reachable user_only history3"
  using history2_reachable unfolding history3_def
  by (rule vm_reachable.step)
    (auto intro!: vm_step.create [OF sample_dto_valid(2), where u = "''alice''"] simp: user_only_def prod_eq_iff)

lemma history3_machines:
  "map (\<lambda>v. (v_id v, v_status v)) (virtualMachines history3) = [(''vm-1'', DELETED), (''vm-2'', PENDING)]"
  "List.map_filter created_id (published history3) = [''vm-1'', ''vm-2'']"
  by code_simp+

theorem quota_never_exceeded_witness:
  "within_quota ''alice'' history3 \<and>
   map (\<lambda>v. (v_id v, v_status v)) (virtualMachines history3) = [(''vm-1'', DELETED), (''vm-2'', PENDING)]"
  using quota_never_exceeded [OF history3_reachable, of "''alice''"] history3_machines
  by (simp add: user_only_def)

theorem machines_well_formed_witness:
  "list_all row_ok (virtualMachines (on_message 3000 (Some (status_report ''vm-1'' ''RUNNING'')) history3)) \<and> length (virtualMachines history3) = 2"
proof -
  have "vm_history (on_message 3000 (Some (status_report ''vm-1'' ''RUNNING'')) history3)"
    using history3_reachable by (intro vm_history.reported reachable_history)
  moreover have "length (virtualMachines history3) = 2" using arg_cong [OF history3_machines(1), of length] by simp
  ultimately show ?thesis using machines_well_formed by (simp add: list_all_iff)
qed

lemma history1_find: "find_vm ''vm-1'' history1 \<noteq> None"
  by code_simp

theorem status_update_effect_witness:
  "\<exists>v. find_vm ''vm-1'' history2 = Some v \<and> v_status v = DELETED"
proof -
  obtain v where "find_vm ''vm-1'' history1 = Some v" using history1_find by blast
  from status_update_effect [OF this, of "status_report ''vm-1'' ''DELETED''" 2000]
  show ?thesis by (auto simp: history2_def status_report_def)
qed

section \<open>What a late update does\<close>

text \<open>
  Without the restriction to orderly updates the quota can be broken: a machine is
  created in a plan for one machine, reported deleted, another is created in its place, and
  then a late or repeated report that the first is running arrives. The handler writes it:
  the deleted machine is active again and the user has two.
\<close>

theorem late_update_breaks_quota:
  "vm_reachable user_only history3 \<and> within_quota ''alice'' history3 \<and>
   \<not> within_quota ''alice'' (on_status_update 3000 (status_report ''vm-1'' ''RUNNING'') history3)"
proof (intro conjI)
  show "vm_reachable user_only history3" by (rule history3_reachable)
  show "within_quota ''alice'' history3"
    using vm_inv_reachable [OF history3_reachable] by (simp add: vm_inv_def user_only_def)
  show "\<not> within_quota ''alice'' (on_status_update 3000 (status_report ''vm-1'' ''RUNNING'') history3)"
    by code_simp
qed

text \<open>
  A status message without a machine identifier addresses every machine of the database:
  one such message with the status \<open>DELETED\<close> marks all machines of all users deleted.
\<close>

theorem update_without_id_hits_all:
  assumes "m_vmId m = None" "m_status m = ''DELETED''"
  shows "\<forall>v \<in> set (virtualMachines (on_status_update now m s)). v_status v = DELETED"
  using assms by (simp add: on_status_update_eq row_update_status addressed_def)

theorem update_without_id_hits_all_witness:
  "list_all (\<lambda>v. v_status v = DELETED)
     (virtualMachines (on_status_update 5 ((status_report [] ''DELETED'')\<lparr>m_vmId := None\<rparr>) history3))"
  using update_without_id_hits_all [of "(status_report [] ''DELETED'')\<lparr>m_vmId := None\<rparr>" 5 history3]
  by (simp add: status_report_def list_all_iff)

end
