(* ===== verification/Request_Security.thy ===== *)
theory Request_Security
  imports Internal_Api
begin

text \<open>
  What the services share to authenticate a request: the client address, the fingerprint that
  binds a token to its client, and the cookie parser of
  \<open>common/security/request-security.util.ts\<close>; the validation of \<open>jwt.strategy.ts\<close>; the guard of
  \<open>roles.guard.ts\<close>; and the check of the secrets at start-up in \<open>main.ts\<close>. The utilities and the
  validation are the same in every service; the auth service reads its secret without the length check, which \<open>Auth_Controller\<close> models.

  Parameters: SHA-256, the verification of a signed token, and the extractor of the bearer
  header of \<open>passport-jwt\<close>.
\<close>

section \<open>Requests\<close>

text \<open>A header is absent, one string, or an array of strings.\<close>

datatype header = NoHeader | One string | Many "string list"

record request =
  x_forwarded_for :: header
  x_real_ip :: header
  req_ip :: "string option"
  remoteAddress :: "string option"
  user_agent :: header
  cookie :: "string option"
  authorization :: "string option"

text \<open>\<open>s.replace(p, "")\<close> with a string pattern removes the first occurrence.\<close>

fun remove_first :: "string \<Rightarrow> string \<Rightarrow> string" where
  "remove_first p [] = []"
| "remove_first p (c # cs) = (if starts_with (c # cs) p then drop (length p) (c # cs) else c # remove_first p cs)"

definition normalizeIp :: "string \<Rightarrow> string" where
  "normalizeIp rawIp =
     (if rawIp = [] then ''unknown''
      else let normalized = trim (remove_first ''::ffff:'' rawIp) in
        if normalized = ''::1'' \<or> normalized = ''127.0.0.1'' then ''127.0.0.1'' else normalized)"

fun firstHeaderValue :: "header \<Rightarrow> string option" where
  "firstHeaderValue NoHeader = None"
| "firstHeaderValue (One v) = (if trim v = [] then None else Some (trim v))"
| "firstHeaderValue (Many []) = None"
| "firstHeaderValue (Many (v # _)) = (if trim v = [] then None else Some (trim v))"

definition getClientIp :: "request \<Rightarrow> string" where
  "getClientIp req =
     (let forwarded = (case firstHeaderValue (x_forwarded_for req) of
            None \<Rightarrow> [] | Some f \<Rightarrow> hd (split_on CHR '','' f)) in
      normalizeIp (or_str forwarded (or_opt (firstHeaderValue (x_real_ip req))
        (or_opt (req_ip req) (or_opt (remoteAddress req) ''unknown'')))))"

definition getUserAgent :: "request \<Rightarrow> string" where
  "getUserAgent req =
     (case user_agent req of One ua \<Rightarrow> if trim ua = [] then ''unknown'' else trim ua | _ \<Rightarrow> ''unknown'')"

definition fingerprint_raw :: "request \<Rightarrow> string" where
  "fingerprint_raw req = getClientIp req @ ''|'' @ getUserAgent req"

definition buildRequestFingerprint :: "(string \<Rightarrow> string) \<Rightarrow> request \<Rightarrow> string" where
  "buildRequestFingerprint sha256 req = sha256 (fingerprint_raw req)"

section \<open>Cookies\<close>

text \<open>
  \<open>decodeURIComponent\<close> on escapes below 128; \<open>None\<close> where it throws \<open>URIError\<close>.
\<close>

definition hex_value :: "char \<Rightarrow> nat option" where
  "hex_value c = (let n = of_char c in
     if 48 \<le> n \<and> n \<le> 57 then Some (n - 48)
     else if 65 \<le> n \<and> n \<le> 70 then Some (n - 55)
     else if 97 \<le> n \<and> n \<le> 102 then Some (n - 87)
     else None)"

fun decodeURIComponent :: "string \<Rightarrow> string option" where
  "decodeURIComponent [] = Some []"
| "decodeURIComponent (c # cs) =
     (if c \<noteq> CHR ''%'' then map_option ((#) c) (decodeURIComponent cs)
      else case cs of
          h # l # r \<Rightarrow> (case (hex_value h, hex_value l) of
              (Some a, Some b) \<Rightarrow> if 16 * a + b < 128
                then map_option ((#) (char_of (16 * a + b))) (decodeURIComponent r) else None
            | _ \<Rightarrow> None)
        | _ \<Rightarrow> None)"

fun find_cookie :: "string \<Rightarrow> string list \<Rightarrow> exn + string option" where
  "find_cookie cookieName [] = Inr None"
| "find_cookie cookieName (item # items) =
     (let ws = split_on CHR ''='' (trim item) in
      if hd ws = cookieName then
        (case decodeURIComponent (join_with ''='' (tl ws)) of
           None \<Rightarrow> Inl (PlainError ''URIError'') | Some v \<Rightarrow> Inr (Some v))
      else find_cookie cookieName items)"

definition parseCookie :: "request \<Rightarrow> string \<Rightarrow> exn + string option" where
  "parseCookie req cookieName =
     (if truthy (cookie req) then find_cookie cookieName (split_on CHR '';'' (the (cookie req)))
      else Inr None)"

section \<open>Tokens\<close>

record jwt_payload =
  sub :: id
  jwt_email :: string
  jwt_role :: string
  fp :: "string option"

record auth_user =
  au_userId :: id
  au_email :: string
  au_role :: string

definition jwt_validate :: "(string \<Rightarrow> string) \<Rightarrow> request \<Rightarrow> jwt_payload \<Rightarrow> exn + auth_user" where
  "jwt_validate sha256 req p =
     (let expected = buildRequestFingerprint sha256 req in
      if \<not> truthy (fp p) \<or> fp p \<noteq> Some expected then Inl (Unauthorized ''Token fingerprint mismatch'')
      else Inr \<lparr>au_userId = sub p, au_email = jwt_email p, au_role = jwt_role p\<rparr>)"

text \<open>
  The constructor refuses a short secret. The guard takes the token of the bearer header, else
  of the \<open>accessToken\<close> cookie; \<open>verify secret token\<close> is the payload of a token whose signature
  and expiry are in order.
\<close>

definition jwt_secret :: "process_env \<Rightarrow> exn + string" where
  "jwt_secret pe =
     (let s = trim (or_opt (pe ''JWT_SECRET'') []) in
      if s = [] \<or> length s < 64 then Inl (PlainError ''JWT_SECRET is missing or too weak'') else Inr s)"

definition jwt_token :: "(string option \<Rightarrow> string option) \<Rightarrow> request \<Rightarrow> exn + string option" where
  "jwt_token bearer req =
     (case bearer (authorization req) of
        Some t \<Rightarrow> Inr (Some t)
      | None \<Rightarrow> (case parseCookie req ''accessToken'' of
          Inl e \<Rightarrow> Inl e
        | Inr c \<Rightarrow> Inr (if truthy c then c else None)))"

definition jwt_guard ::
    "(string \<Rightarrow> string) \<Rightarrow> (string \<Rightarrow> string \<Rightarrow> jwt_payload option) \<Rightarrow> (string option \<Rightarrow> string option) \<Rightarrow>
     process_env \<Rightarrow> request \<Rightarrow> exn + auth_user" where
  "jwt_guard sha256 verify bearer pe req =
     (case jwt_secret pe of
        Inl e \<Rightarrow> Inl e
      | Inr secret \<Rightarrow> (case jwt_token bearer req of
          Inl e \<Rightarrow> Inl e
        | Inr None \<Rightarrow> Inl (Unauthorized ''Unauthorized'')
        | Inr (Some t) \<Rightarrow> (case verify secret t of
            None \<Rightarrow> Inl (Unauthorized ''Unauthorized'')
          | Some p \<Rightarrow> jwt_validate sha256 req p)))"

section \<open>Roles\<close>

definition roles_canActivate :: "string list \<Rightarrow> auth_user option \<Rightarrow> exn + bool" where
  "roles_canActivate requiredRoles user =
     (if requiredRoles = [] then Inr True
      else case user of
          None \<Rightarrow> Inl (Unauthorized ''Missing authenticated user'')
        | Some u \<Rightarrow> Inr (au_role u \<in> set requiredRoles))"

section \<open>Secrets and origins at start-up\<close>

definition DEFAULT_SECRET_MARKERS :: "string list" where
  "DEFAULT_SECRET_MARKERS =
     [''super-secret-key'', ''super-secret-jwt-key-change-in-production'',
      ''super-secret-refresh-key-change-in-production'', ''change-in-production'']"

definition isWeakSecret :: "string \<Rightarrow> bool" where
  "isWeakSecret v \<longleftrightarrow> (\<exists>m \<in> set DEFAULT_SECRET_MARKERS. str_includes (toLowerCase v) m)"

definition validateJwtSecretsOrThrow :: "process_env \<Rightarrow> exn + unit" where
  "validateJwtSecretsOrThrow pe =
     (let jwtSecret = or_opt (pe ''JWT_SECRET'') []; jwtRefreshSecret = or_opt (pe ''JWT_REFRESH_SECRET'') [] in
      if length jwtSecret < 64 \<or> isWeakSecret jwtSecret
      then Inl (PlainError ''JWT_SECRET is weak. Use at least 64 chars and never default placeholders.'')
      else if length jwtRefreshSecret < 64 \<or> isWeakSecret jwtRefreshSecret
      then Inl (PlainError ''JWT_REFRESH_SECRET is weak. Use at least 64 chars and never default placeholders.'')
      else Inr ())"

definition getAllowedOrigins :: "process_env \<Rightarrow> string list" where
  "getAllowedOrigins pe =
     filter (\<lambda>w. w \<noteq> []) (map trim (split_on CHR '','' (or_opt (pe ''CORS_ORIGIN'') ''http://127.0.0.1:3000'')))"

section \<open>Cookies round trip\<close>

definition ascii :: "string \<Rightarrow> bool" where
  "ascii s \<longleftrightarrow> (\<forall>c \<in> set s. of_char c < (128 :: nat))"

lemma hex_value_digit: "n < 16 \<Longrightarrow> hex_value (hex_digit n) = Some n"
  by (auto simp: hex_value_def hex_digit_def Let_def)

lemma uri_char_percent: "uri_char CHR ''%'' = ''%25''"
  by code_simp

lemma decode_uri_char:
  assumes "of_char c < (128 :: nat)"
  shows "decodeURIComponent (uri_char c @ r) = map_option ((#) c) (decodeURIComponent r)"
proof (cases "uri_char c = [c]")
  case True
  then have "c \<noteq> CHR ''%''" using uri_char_percent by auto
  then show ?thesis using True by simp
next
  case False
  then have u: "uri_char c = [CHR ''%'', hex_digit (of_char c div 16), hex_digit (of_char c mod 16)]"
    by (auto simp: uri_char_def)
  have "of_char c div 16 < (16 :: nat)" "of_char c mod 16 < (16 :: nat)"
    "16 * (of_char c div 16) + of_char c mod 16 = (of_char c :: nat)"
    using assms by (simp_all add: less_mult_imp_div_less)
  then show ?thesis using assms by (simp add: u hex_value_digit)
qed

lemma decode_encode_uri: "ascii s \<Longrightarrow> decodeURIComponent (encodeURIComponent s) = Some s"
  by (induction s) (simp_all add: ascii_def encodeURIComponent_def decode_uri_char)

text \<open>The characters that mean something in a cookie header do not survive encoding.\<close>

definition cookie_safe :: "char \<Rightarrow> bool" where
  "cookie_safe c \<longleftrightarrow> \<not> is_ws c \<and> c \<noteq> CHR '';'' \<and> c \<noteq> CHR ''=''"

lemma cookie_safe_iff:
  "cookie_safe c \<longleftrightarrow> (of_char c :: nat) \<notin> {9, 10, 11, 12, 13, 32, 59, 61, 160}"
proof -
  have "c = CHR '';'' \<longleftrightarrow> of_char c = (of_char CHR '';'' :: nat)" "c = CHR ''='' \<longleftrightarrow> of_char c = (of_char CHR ''='' :: nat)"
    by (simp_all only: of_char_eq_iff)
  then show ?thesis by (auto simp: cookie_safe_def is_ws_def Let_def)
qed

lemma hex_digit_safe: "n < 16 \<Longrightarrow> cookie_safe (hex_digit n)"
  by (auto simp: cookie_safe_iff hex_digit_def)

lemma uri_char_safe:
  assumes "of_char c < (128 :: nat)"
  shows "list_all cookie_safe (uri_char c)"
proof (cases "uri_char c = [c]")
  case True
  have "cookie_safe CHR ''%''" by (simp add: cookie_safe_iff)
  moreover have "is_alpha c \<or> is_digit c \<or> c \<in> set ''-_.!~*()'' \<or> of_char c = (39 :: nat) \<or> c = CHR ''%''"
    using True by (auto simp: uri_char_def split: if_splits)
  ultimately have "cookie_safe c"
    by (auto simp: cookie_safe_iff is_alpha_def is_digit_def Let_def)
  then show ?thesis using True by simp
next
  case False
  then show ?thesis
    using assms by (auto simp: uri_char_def cookie_safe_iff [of "CHR ''%''"] hex_digit_safe less_mult_imp_div_less)
qed

lemma encode_safe: "ascii s \<Longrightarrow> list_all cookie_safe (encodeURIComponent s)"
  by (induction s) (simp_all add: ascii_def encodeURIComponent_def uri_char_safe)

lemma trim_space: "trim (CHR '' '' # s) = trim s"
  by (simp add: trim_def is_ws_def)

definition cookie_item :: "string \<times> string \<Rightarrow> string" where
  "cookie_item nv = fst nv @ ''='' @ encodeURIComponent (snd nv)"

definition cookie_header :: "(string \<times> string) list \<Rightarrow> string" where
  "cookie_header nvs = join_with ''; '' (map cookie_item nvs)"

definition cookie_ok :: "string \<times> string \<Rightarrow> bool" where
  "cookie_ok nv \<longleftrightarrow> list_all cookie_safe (fst nv) \<and> ascii (snd nv)"

lemma split_join_cookies:
  "(\<And>w. w \<in> set (x # xs) \<Longrightarrow> CHR '';'' \<notin> set w) \<Longrightarrow>
     split_on CHR '';'' (join_with ''; '' (x # xs)) = x # map ((#) (CHR '' '')) xs"
proof (induction xs arbitrary: x)
  case Nil
  then show ?case by (simp add: split_on_single)
next
  case (Cons y ys)
  have "split_on CHR '';'' (CHR '' '' # join_with ''; '' (y # ys)) = (CHR '' '' # y) # map ((#) (CHR '' '')) ys"
    using Cons.IH [of y] Cons.prems by simp
  then show ?case
    using Cons.prems [of x] by (simp add: split_on_append)
qed

lemma cookie_item_facts:
  assumes "cookie_ok nv"
  shows "CHR '';'' \<notin> set (cookie_item nv)" "trim (cookie_item nv) = cookie_item nv"
    "split_on CHR ''='' (cookie_item nv) = [fst nv, encodeURIComponent (snd nv)]"
proof -
  have a: "list_all cookie_safe (fst nv)" "list_all cookie_safe (encodeURIComponent (snd nv))"
    using assms encode_safe by (auto simp: cookie_ok_def)
  then have no: "\<And>c. c \<in> set (fst nv) \<union> set (encodeURIComponent (snd nv)) \<Longrightarrow> cookie_safe c"
    by (auto simp: list_all_iff)
  show "CHR '';'' \<notin> set (cookie_item nv)" using no by (auto simp: cookie_item_def cookie_safe_def)
  show "trim (cookie_item nv) = cookie_item nv"
    by (rule trim_no_ws) (use no in \<open>auto simp: cookie_item_def cookie_safe_def is_ws_def\<close>)
  have "CHR ''='' \<notin> set (fst nv)" "CHR ''='' \<notin> set (encodeURIComponent (snd nv))"
    using no by (auto simp: cookie_safe_def)
  then show "split_on CHR ''='' (cookie_item nv) = [fst nv, encodeURIComponent (snd nv)]"
    by (simp add: cookie_item_def split_on_append split_on_single)
qed

lemma find_cookie_items:
  "list_all cookie_ok nvs \<Longrightarrow> list_all2 (\<lambda>w nv. trim w = cookie_item nv) ws nvs \<Longrightarrow>
     find_cookie n ws = Inr (map_of nvs n)"
proof (induction nvs arbitrary: ws)
  case Nil
  then show ?case by simp
next
  case (Cons nv nvs)
  then obtain w ws' where ws: "ws = w # ws'" "trim w = cookie_item nv"
    "list_all2 (\<lambda>w nv. trim w = cookie_item nv) ws' nvs" by (auto simp: list_all2_Cons2)
  have "decodeURIComponent (encodeURIComponent (snd nv)) = Some (snd nv)"
    using Cons.prems(1) decode_encode_uri by (simp add: cookie_ok_def)
  then show ?case
    using Cons ws cookie_item_facts(3) [of nv] by (cases nv) simp
qed

text \<open>
  The cookie parser inverts the cookie header: from a header that lists cookies by name
  with encoded values, looking up a name gives the value of the first cookie of that name, and
  nothing for any other name.
\<close>

theorem parseCookie_roundtrip:
  assumes "nvs \<noteq> []" "list_all cookie_ok nvs"
  shows "parseCookie (req\<lparr>cookie := Some (cookie_header nvs)\<rparr>) n = Inr (map_of nvs n)"
proof -
  obtain nv nvs' where n: "nvs = nv # nvs'" using assms(1) by (cases nvs) auto
  have safe: "\<And>w. w \<in> set (map cookie_item nvs) \<Longrightarrow> CHR '';'' \<notin> set w"
    using assms(2) cookie_item_facts(1) by (auto simp: list_all_iff)
  have ne: "cookie_header nvs \<noteq> []"
    by (cases nvs') (auto simp: cookie_header_def n cookie_item_def)
  have "split_on CHR '';'' (cookie_header nvs) = cookie_item nv # map (\<lambda>x. CHR '' '' # cookie_item x) nvs'"
    using split_join_cookies [of "cookie_item nv" "map cookie_item nvs'"] safe
    by (simp add: cookie_header_def n comp_def)
  moreover have "list_all2 (\<lambda>w nv. trim w = cookie_item nv)
      (cookie_item nv # map (\<lambda>x. CHR '' '' # cookie_item x) nvs') nvs"
    using assms(2) cookie_item_facts(2)
    by (auto simp: n list_all_iff list_all2_map1 trim_space intro!: list.rel_refl_strong)
  ultimately show ?thesis
    using find_cookie_items [OF assms(2)] ne by (simp add: parseCookie_def del: find_cookie.simps)
qed

section \<open>Tokens are bound to their client\<close>

lemma jwt_validate_ok_iff:
  "jwt_validate sha256 req p = Inr u \<longleftrightarrow>
     truthy (fp p) \<and> fp p = Some (buildRequestFingerprint sha256 req) \<and>
     u = \<lparr>au_userId = sub p, au_email = jwt_email p, au_role = jwt_role p\<rparr>"
  by (auto simp: jwt_validate_def Let_def)

lemma jwt_guard_ok:
  assumes "jwt_guard sha256 verify bearer pe req = Inr u"
  shows "\<exists>secret t p. jwt_secret pe = Inr secret \<and> jwt_token bearer req = Inr (Some t) \<and>
    verify secret t = Some p \<and> jwt_validate sha256 req p = Inr u"
  using assms by (auto simp: jwt_guard_def split: sum.splits option.splits)

text \<open>
  C25: a request passes the guard only with a token that the service's secret, of at least 64
  characters, verifies, and only as the user and role that token names; and when one token
  passes from two requests, both come from the same address with the same user agent, as long
  as the hash does not collide on the two and the addresses contain no bar.
\<close>

theorem token_bound_to_client:
  assumes "jwt_guard sha256 verify bearer pe req = Inr u" "jwt_guard sha256 verify bearer pe req' = Inr u'"
    and "jwt_token bearer req = Inr (Some t)" "jwt_token bearer req' = Inr (Some t)"
    and "sha256 (fingerprint_raw req) = sha256 (fingerprint_raw req') \<Longrightarrow> fingerprint_raw req = fingerprint_raw req'"
    and "CHR ''|'' \<notin> set (getClientIp req)" "CHR ''|'' \<notin> set (getClientIp req')"
  shows "u = u' \<and> getClientIp req = getClientIp req' \<and> getUserAgent req = getUserAgent req' \<and>
    (\<exists>secret p. jwt_secret pe = Inr secret \<and> 64 \<le> length secret \<and> verify secret t = Some p \<and>
       au_userId u = sub p \<and> au_role u = jwt_role p)"
proof -
  obtain secret p where g: "jwt_secret pe = Inr secret" "verify secret t = Some p" "jwt_validate sha256 req p = Inr u"
    using jwt_guard_ok [OF assms(1)] assms(3) by auto
  moreover have "jwt_validate sha256 req' p = Inr u'"
    using jwt_guard_ok [OF assms(2)] assms(4) g by auto
  moreover have "64 \<le> length secret" using g(1) by (auto simp: jwt_secret_def Let_def split: if_splits)
  ultimately have u: "u = u'" "fingerprint_raw req = fingerprint_raw req'"
    and s: "\<exists>secret p. jwt_secret pe = Inr secret \<and> 64 \<le> length secret \<and> verify secret t = Some p \<and>
       au_userId u = sub p \<and> au_role u = jwt_role p"
    using assms(5) by (auto simp: jwt_validate_ok_iff buildRequestFingerprint_def)
  have "hd (split_on CHR ''|'' (fingerprint_raw r)) = getClientIp r"
    if "CHR ''|'' \<notin> set (getClientIp r)" for r
    using that by (simp add: fingerprint_raw_def split_on_append)
  then have "getClientIp req = getClientIp req'" using u(2) assms(6,7) by metis
  then show ?thesis using u s by (simp add: fingerprint_raw_def)
qed

text \<open>
  A token without a fingerprint claim is refused by every service, whoever sends it and
  whatever it says.
\<close>

theorem token_without_fp_refused:
  assumes "jwt_secret pe = Inr secret" "jwt_token bearer req = Inr (Some t)"
    and "verify secret t = Some p" "\<not> truthy (fp p)"
  shows "jwt_guard sha256 verify bearer pe req = Inl (Unauthorized ''Token fingerprint mismatch'')"
  using assms by (simp add: jwt_guard_def jwt_validate_def Let_def)

section \<open>Concrete requests\<close>

definition sample_request :: request where
  "sample_request = \<lparr>x_forwarded_for = One ''10.0.0.7, 10.0.0.1'', x_real_ip = NoHeader, req_ip = None,
     remoteAddress = Some ''::ffff:127.0.0.1'', user_agent = One ''curl'', cookie = Some ''accessToken=tok'',
     authorization = None\<rparr>"

definition sample_secret_env :: process_env where
  "sample_secret_env = [''JWT_SECRET'' \<mapsto> replicate 64 (CHR ''x'')]"

definition sample_payload :: "string option \<Rightarrow> jwt_payload" where
  "sample_payload f = \<lparr>sub = ''alice'', jwt_email = ''a@b.c'', jwt_role = ''USER'', fp = f\<rparr>"

lemma sample_secret: "jwt_secret sample_secret_env = Inr (replicate 64 (CHR ''x''))"
  by code_simp

lemma sample_token: "jwt_token (\<lambda>_. None) sample_request = Inr (Some ''tok'')"
  by code_simp

lemma sample_raw: "fingerprint_raw sample_request = ''10.0.0.7|curl''" "getClientIp sample_request = ''10.0.0.7''"
  by code_simp+

theorem parseCookie_roundtrip_witness:
  "parseCookie (sample_request\<lparr>cookie := Some (cookie_header [(''theme'', ''dark''), (''accessToken'', ''a=b; c'')])\<rparr>)
     ''accessToken'' = Inr (Some ''a=b; c'')"
proof -
  have "list_all cookie_ok [(''theme'', ''dark''), (''accessToken'', ''a=b; c'')]"
    by (simp add: cookie_ok_def cookie_safe_iff ascii_def)
  then show ?thesis using parseCookie_roundtrip by fastforce
qed

theorem token_bound_to_client_witness:
  "\<exists>u. jwt_guard id (\<lambda>s t. Some (sample_payload (Some ''10.0.0.7|curl''))) (\<lambda>_. None) sample_secret_env sample_request = Inr u \<and>
     au_userId u = ''alice''"
proof -
  let ?v = "\<lambda>s t. Some (sample_payload (Some ''10.0.0.7|curl''))"
  have "jwt_validate id sample_request (sample_payload (Some ''10.0.0.7|curl'')) =
      Inr \<lparr>au_userId = ''alice'', au_email = ''a@b.c'', au_role = ''USER''\<rparr>"
    by (simp add: jwt_validate_def buildRequestFingerprint_def sample_raw sample_payload_def)
  then have ok: "jwt_guard id ?v (\<lambda>_. None) sample_secret_env sample_request =
      Inr \<lparr>au_userId = ''alice'', au_email = ''a@b.c'', au_role = ''USER''\<rparr>"
    by (simp add: jwt_guard_def sample_secret sample_token)
  from token_bound_to_client [OF ok ok sample_token sample_token] show ?thesis
    using ok by (simp add: sample_raw)
qed

theorem token_without_fp_refused_witness:
  "jwt_guard id (\<lambda>s t. Some (sample_payload None)) (\<lambda>_. None) sample_secret_env sample_request =
     Inl (Unauthorized ''Token fingerprint mismatch'')"
  using token_without_fp_refused [OF sample_secret sample_token, of "\<lambda>s t. Some (sample_payload None)" _ id]
  by (simp add: sample_payload_def)

end
