(* ===== verification/Js_Map.thy ===== *)
theory Js_Map
  imports Js_Prelude
begin

text \<open>
  A \<open>Map\<close> of the language: its entries in the order of insertion. \<open>set\<close> on a key that is there
  keeps its place. The laws that the clients of a map use are a locale, with the map of this
  theory as its instance.
\<close>

type_synonym ('k, 'v) js_map = "('k \<times> 'v) list"

definition map_get :: "('k, 'v) js_map \<Rightarrow> 'k \<Rightarrow> 'v option" where
  "map_get m k = map_option snd (List.find (\<lambda>e. fst e = k) m)"

fun map_set :: "'k \<Rightarrow> 'v \<Rightarrow> ('k, 'v) js_map \<Rightarrow> ('k, 'v) js_map" where
  "map_set k v [] = [(k, v)]"
| "map_set k v (e # m) = (if fst e = k then (k, v) # m else e # map_set k v m)"

definition map_delete :: "'k \<Rightarrow> ('k, 'v) js_map \<Rightarrow> ('k, 'v) js_map" where
  "map_delete k m = filter (\<lambda>e. fst e \<noteq> k) m"

definition map_keys_ok :: "('k, 'v) js_map \<Rightarrow> bool" where
  "map_keys_ok m \<longleftrightarrow> distinct (map fst m)"

lemma map_get_Nil [simp]: "map_get [] k = None"
  by (simp add: map_get_def)

lemma map_get_set: "map_get (map_set k v m) k' = (if k' = k then Some v else map_get m k')"
  by (induction m) (auto simp: map_get_def)

lemma map_get_delete: "map_get (map_delete k m) k' = (if k' = k then None else map_get m k')"
  by (induction m) (auto simp: map_get_def map_delete_def)

lemma fst_map_set: "fst ` set (map_set k v m) = insert k (fst ` set m)"
  by (induction m) auto

lemma map_keys_set [simp]: "map_keys_ok m \<Longrightarrow> map_keys_ok (map_set k v m)"
  by (induction m) (auto simp: map_keys_ok_def fst_map_set)

lemma map_keys_delete [simp]: "map_keys_ok m \<Longrightarrow> map_keys_ok (map_delete k m)"
  by (simp add: map_keys_ok_def map_delete_def distinct_map_filter)

section \<open>The interface\<close>

locale keyed_store =
  fixes get :: "'m \<Rightarrow> 'k \<Rightarrow> 'v option" and put :: "'k \<Rightarrow> 'v \<Rightarrow> 'm \<Rightarrow> 'm" and remove :: "'k \<Rightarrow> 'm \<Rightarrow> 'm"
  assumes get_put: "get (put k v m) k' = (if k' = k then Some v else get m k')"
    and get_remove: "get (remove k m) k' = (if k' = k then None else get m k')"
begin

lemma put_other: "k' \<noteq> k \<Longrightarrow> get (put k v m) k' = get m k'"
  by (simp add: get_put)

lemma remove_other: "k' \<noteq> k \<Longrightarrow> get (remove k m) k' = get m k'"
  by (simp add: get_remove)

lemma removed: "get (remove k m) k = None"
  by (simp add: get_remove)

text \<open>A property of every entry is kept by a write that has it and by every removal.\<close>

lemma all_put: "(\<And>k v. get m k = Some v \<Longrightarrow> P k v) \<Longrightarrow> P k v \<Longrightarrow> get (put k v m) k' = Some v' \<Longrightarrow> P k' v'"
  by (auto simp: get_put split: if_splits)

lemma all_remove: "(\<And>k v. get m k = Some v \<Longrightarrow> P k v) \<Longrightarrow> get (remove k m) k' = Some v' \<Longrightarrow> P k' v'"
  by (auto simp: get_remove split: if_splits)

end

interpretation js_map: keyed_store map_get map_set map_delete
  by unfold_locales (simp_all add: map_get_set map_get_delete)

end
