(* ===== verification/Web_Socket.thy ===== *)
theory Web_Socket
  imports Request_Security Js_Map
begin

text \<open>
  What the three web-socket gateways of the vm service share: the handshake, the token it carries,
  the address and fingerprint of a socket. Each gateway has its own copy of these functions, with
  the same text. The fingerprint of a socket is compared with the one of a request, on which the
  tokens are issued.
\<close>

record socket =
  so_id :: string
  so_auth_token :: "string option"
  so_query_vmId :: "string option"
  so_forwarded_for :: header
  so_real_ip :: header
  so_user_agent :: header
  so_authorization :: "string option"
  so_cookie :: "string option"
  so_remoteAddress :: "string option"
  so_address :: string

definition extractCookieValue :: "string option \<Rightarrow> string \<Rightarrow> exn + string option" where
  "extractCookieValue rawCookie cookieName =
     (if truthy rawCookie then find_cookie cookieName (split_on CHR '';'' (the rawCookie)) else Inr None)"

fun first_of_header :: "header \<Rightarrow> string option" where
  "first_of_header NoHeader = None"
| "first_of_header (One v) = Some v"
| "first_of_header (Many []) = None"
| "first_of_header (Many (v # _)) = Some v"

definition getSocketClientIp :: "socket \<Rightarrow> string" where
  "getSocketClientIp client =
     (let forwarded = (case first_of_header (so_forwarded_for client) of
            Some f \<Rightarrow> if trim f \<noteq> [] then hd (split_on CHR '','' f) else [] | None \<Rightarrow> []);
          real = (case first_of_header (so_real_ip client) of Some r \<Rightarrow> r | None \<Rightarrow> []);
          raw = or_str forwarded (or_str real (or_opt (so_remoteAddress client) (or_str (so_address client) ''unknown'')));
          normalized = trim (remove_first ''::ffff:'' raw) in
      if normalized = ''::1'' \<or> normalized = ''127.0.0.1'' then ''127.0.0.1'' else normalized)"

definition socket_user_agent :: "socket \<Rightarrow> string" where
  "socket_user_agent client = trim (case so_user_agent client of One v \<Rightarrow> v | _ \<Rightarrow> ''unknown'')"

definition buildSocketFingerprint :: "(string \<Rightarrow> string) \<Rightarrow> socket \<Rightarrow> string" where
  "buildSocketFingerprint sha256 client = sha256 (getSocketClientIp client @ ''|'' @ socket_user_agent client)"

text \<open>The token: of the handshake, else of the header, else of the cookie.\<close>

definition socket_token :: "socket \<Rightarrow> exn + string option" where
  "socket_token client =
     (if truthy (so_auth_token client) then Inr (so_auth_token client)
      else let header = map_option (remove_first ''Bearer '') (so_authorization client) in
        if truthy header then Inr header else extractCookieValue (so_cookie client) ''accessToken'')"

text \<open>The check of the fingerprint, that \<open>TERMINAL_SKIP_FINGERPRINT_CHECK\<close> switches off.\<close>

definition skip_fingerprint :: "process_env \<Rightarrow> bool" where
  "skip_fingerprint pe \<longleftrightarrow> toLowerCase (or_opt (pe ''TERMINAL_SKIP_FINGERPRINT_CHECK'') []) = ''true''"

definition verify_socket :: "(string \<Rightarrow> string) \<Rightarrow> (string \<Rightarrow> jwt_payload option) \<Rightarrow> process_env \<Rightarrow> socket \<Rightarrow> string \<Rightarrow> jwt_payload option" where
  "verify_socket sha256 verify pe client token =
     (case verify token of
        None \<Rightarrow> None
      | Some user \<Rightarrow>
          if \<not> skip_fingerprint pe \<and> (\<not> truthy (fp user) \<or> fp user \<noteq> Some (buildSocketFingerprint sha256 client)) then None
          else Some user)"

definition socket_of :: "request \<Rightarrow> string \<Rightarrow> socket" where
  "socket_of req i = \<lparr>so_id = i, so_auth_token = None, so_query_vmId = None, so_forwarded_for = x_forwarded_for req,
     so_real_ip = x_real_ip req, so_user_agent = user_agent req, so_authorization = authorization req, so_cookie = cookie req,
     so_remoteAddress = remoteAddress req, so_address = or_opt (remoteAddress req) []\<rparr>"

section \<open>The fingerprint of a socket is that of a request\<close>

lemma hd_split_on: "hd (split_on c s) = takeWhile (\<lambda>x. x \<noteq> c) s"
  by (induction s) (auto split: list.split)

definition ws_only :: "string \<Rightarrow> bool" where
  "ws_only w \<longleftrightarrow> (\<forall>c \<in> set w. is_ws c)"

lemma trim_decompose: "\<exists>w w'. s = w @ trim s @ w' \<and> ws_only w \<and> ws_only w'"
proof -
  let ?r = "dropWhile is_ws s"
  have "s = takeWhile is_ws s @ ?r" by simp
  moreover have "rev ?r = takeWhile is_ws (rev ?r) @ dropWhile is_ws (rev ?r)" by simp
  then have "?r = rev (dropWhile is_ws (rev ?r)) @ rev (takeWhile is_ws (rev ?r))" by (metis rev_append rev_rev_ident)
  ultimately have "s = takeWhile is_ws s @ trim s @ rev (takeWhile is_ws (rev ?r))" by (simp add: trim_def)
  moreover have "ws_only (takeWhile is_ws s)" "ws_only (rev (takeWhile is_ws (rev ?r)))"
    by (auto simp: ws_only_def dest: set_takeWhileD)
  ultimately show ?thesis by blast
qed

lemma trim_ws: "ws_only w \<Longrightarrow> ws_only w' \<Longrightarrow> trim (w @ s @ w') = trim s"
proof -
  assume a: "ws_only w" "ws_only w'"
  have d: "dropWhile is_ws (v @ r) = dropWhile is_ws r" if "ws_only v" for v r
    using that by (induction v) (simp_all add: ws_only_def)
  have "trim (s @ w') = trim s"
  proof (cases "ws_only s")
    case True
    then have nil: "dropWhile is_ws s = []" "dropWhile is_ws (s @ w') = []" using a(2) by (auto simp: ws_only_def)
    show ?thesis unfolding trim_def nil by simp
  next
    case False
    then have "dropWhile is_ws (s @ w') = dropWhile is_ws s @ w'" by (auto simp: ws_only_def dropWhile_append)
    moreover have "ws_only (rev w')" using a(2) by (simp add: ws_only_def)
    ultimately show ?thesis using d [of "rev w'"] by (simp add: trim_def)
  qed
  then show ?thesis using d [OF a(1)] by (simp add: trim_def)
qed

text \<open>Removing a pattern without white space commutes with white space around the text.\<close>

lemma starts_with_ws:
  assumes "ws_only w" "\<And>c. c \<in> set p \<Longrightarrow> \<not> is_ws c"
  shows "starts_with (s @ w) p \<longleftrightarrow> starts_with s p"
proof
  assume "starts_with (s @ w) p"
  then obtain r where r: "s @ w = p @ r" by (auto simp: starts_with_iff)
  then consider us where "s = p @ us" | us where "p = s @ us" "w = us @ r" by (auto simp: append_eq_append_conv2)
  then show "starts_with s p"
  proof cases
    case 2
    then have "us = []" using assms by (cases us) (auto simp: ws_only_def)
    then show ?thesis using 2 by (simp add: starts_with_iff)
  qed (simp add: starts_with_iff)
qed (auto simp: starts_with_iff)

lemma remove_first_ws_right:
  assumes "ws_only w" "\<And>c. c \<in> set p \<Longrightarrow> \<not> is_ws c" "p \<noteq> []"
  shows "remove_first p (s @ w) = remove_first p s @ w"
proof (induction s)
  case Nil
  have "\<not> starts_with v p" if "ws_only v" for v
    using that assms(2,3) by (cases p) (auto simp: starts_with_iff ws_only_def)
  then have "remove_first p v = v" if "ws_only v" for v
    using that by (induction v) (auto simp: ws_only_def)
  then show ?case using assms(1) by simp
next
  case (Cons c s)
  have "starts_with (c # s @ w) p = starts_with (c # s) p" using starts_with_ws [of w p "c # s"] assms(1,2) by simp
  moreover have "drop (length p) (c # s @ w) = drop (length p) (c # s) @ w" if "starts_with (c # s) p"
    using that by (auto simp: starts_with_iff) (metis append_eq_conv_conj append.assoc append_Cons)
  ultimately show ?case using Cons by simp
qed

lemma remove_first_ws_left:
  assumes "ws_only w" "\<And>c. c \<in> set p \<Longrightarrow> \<not> is_ws c" "p \<noteq> []"
  shows "remove_first p (w @ s) = w @ remove_first p s"
  using assms(1)
proof (induction w)
  case (Cons c w)
  then have "\<not> starts_with (c # w @ s) p" using assms(2,3) by (cases p) (auto simp: starts_with_iff ws_only_def)
  then show ?case using Cons by (simp add: ws_only_def)
qed simp

lemma normalized_ws:
  assumes "ws_only w" "ws_only w'"
  shows "trim (remove_first ''::ffff:'' (w @ s @ w')) = trim (remove_first ''::ffff:'' s)"
proof -
  have p: "\<And>c. c \<in> set ''::ffff:'' \<Longrightarrow> \<not> is_ws c" by (auto simp: is_ws_def)
  show ?thesis
    unfolding remove_first_ws_left [where p = "''::ffff:''", OF assms(1) p, simplified]
      remove_first_ws_right [where p = "''::ffff:''", OF assms(2) p, simplified] by (rule trim_ws [OF assms])
qed

text \<open>
  Headers as a browser or a proxy sends them: the user agent is not blank, and the address headers
  are absent or start with an address.
\<close>

definition plain_headers :: "request \<Rightarrow> bool" where
  "plain_headers req \<longleftrightarrow>
     (case first_of_header (x_forwarded_for req) of None \<Rightarrow> True | Some f \<Rightarrow> trim (hd (split_on CHR '','' f)) \<noteq> []) \<and>
     (case first_of_header (x_real_ip req) of None \<Rightarrow> True | Some r \<Rightarrow> trim r \<noteq> []) \<and>
     (case user_agent req of One ua \<Rightarrow> trim ua \<noteq> [] | _ \<Rightarrow> True)"

lemma forwarded_part:
  assumes "trim (hd (split_on c f)) \<noteq> []" "\<not> is_ws c"
  shows "\<exists>w w'. ws_only w \<and> ws_only w' \<and> hd (split_on c f) = w @ hd (split_on c (trim f)) @ w'" "trim f \<noteq> []" "hd (split_on c (trim f)) \<noteq> []"
proof -
  obtain w w' where f: "f = w @ trim f @ w'" "ws_only w" "ws_only w'" using trim_decompose by blast
  let ?t = "takeWhile (\<lambda>x. x \<noteq> c)"
  have all: "?t v = v" if "ws_only v" for v using that assms(2) by (auto simp: ws_only_def takeWhile_eq_all_conv)
  have w: "?t (w @ r) = w @ ?t r" for r using all [OF f(2)] by (metis takeWhile_append2 takeWhile_eq_all_conv)
  have eq: "?t f = w @ ?t (trim f @ w')" using w [of "trim f @ w'"] f(1) by simp
  have "?t (trim f @ w') = ?t (trim f) @ (if c \<in> set (trim f) then [] else w')"
  proof (cases "c \<in> set (trim f)")
    case True
    then show ?thesis by (simp add: takeWhile_append1)
  next
    case False
    then have t: "?t (trim f) = trim f" "?t (trim f @ w') = trim f @ ?t w'" by (auto intro!: takeWhile_append2)
    show ?thesis by (simp only: t all [OF f(3)] False if_False)
  qed
  then have "?t f = w @ ?t (trim f) @ (if c \<in> set (trim f) then [] else w')" using eq by simp
  moreover have "ws_only (if c \<in> set (trim f) then [] else w')" using f(3) by (simp add: ws_only_def)
  ultimately obtain v where v: "ws_only v" "?t f = w @ ?t (trim f) @ v" by (rule that [rotated])
  then show "\<exists>w w'. ws_only w \<and> ws_only w' \<and> hd (split_on c f) = w @ hd (split_on c (trim f)) @ w'" unfolding hd_split_on by (intro exI [of _ w] exI [of _ v] conjI f(2))
  have e: "trim [] = []" by (simp add: trim_def)
  have nil: "trim (w @ v) = []" using trim_ws [OF f(2) v(1), of "[]"] by (simp only: e append_Nil)
  show "hd (split_on c (trim f)) \<noteq> []"
  proof
    assume "hd (split_on c (trim f)) = []"
    then have "?t f = w @ v" using v(2) by (simp only: hd_split_on append_Nil)
    then show False using assms(1) nil by (simp only: hd_split_on simp_thms)
  qed
  then show "trim f \<noteq> []" by (auto simp: hd_split_on)
qed

text \<open>
  C21: a token that was issued over HTTP fits the socket of the same client: with headers as browsers
  and proxies send them, the gateways compute for a socket the fingerprint that the request utilities
  compute for a request with the same headers.
\<close>

theorem socket_fingerprint_agrees:
  assumes "plain_headers req"
    and "first_of_header (x_forwarded_for req) \<noteq> None \<or> first_of_header (x_real_ip req) \<noteq> None \<or> req_ip req = remoteAddress req"
  shows "buildSocketFingerprint sha256 (socket_of req i) = buildRequestFingerprint sha256 req"
proof -
  have fh: "firstHeaderValue h = (case first_of_header h of None \<Rightarrow> None | Some v \<Rightarrow> if trim v = [] then None else Some (trim v))" for h
    by (cases h rule: firstHeaderValue.cases) auto
  have "getSocketClientIp (socket_of req i) = getClientIp req"
  proof (cases "first_of_header (x_forwarded_for req)")
    case (Some f)
    then have f: "trim (hd (split_on CHR '','' f)) \<noteq> []" using assms(1) by (simp add: plain_headers_def)
    have c: "\<not> is_ws CHR '',''" by (simp add: is_ws_def)
    obtain w w' where w: "ws_only w" "ws_only w'" "hd (split_on CHR '','' f) = w @ hd (split_on CHR '','' (trim f)) @ w'"
      using forwarded_part(1) [OF f c] by blast
    have "hd (split_on CHR '','' f) \<noteq> []" using f by (auto simp: trim_def)
    then show ?thesis
      using Some forwarded_part(2,3) [OF f c] normalized_ws [OF w(1,2), of "hd (split_on CHR '','' (trim f))"] w(3)
      by (simp add: getSocketClientIp_def getClientIp_def socket_of_def fh normalizeIp_def or_str_def Let_def)
  next
    case None
    show ?thesis
    proof (cases "first_of_header (x_real_ip req)")
      case (Some r)
      then have r: "trim r \<noteq> []" using assms(1) by (simp add: plain_headers_def)
      obtain w w' where w: "r = w @ trim r @ w'" "ws_only w" "ws_only w'" using trim_decompose by blast
      have "r \<noteq> []" using r by (auto simp: trim_def)
      moreover have "trim (remove_first ''::ffff:'' r) = trim (remove_first ''::ffff:'' (trim r))"
        using normalized_ws [OF w(2,3), of "trim r"] w(1) by simp
      ultimately show ?thesis
        using Some None r by (simp add: getSocketClientIp_def getClientIp_def socket_of_def fh normalizeIp_def or_str_def or_opt_def Let_def)
    next
      case None2: None
      have u: "trim (remove_first ''::ffff:'' ''unknown'') = ''unknown''" by code_simp
      have "req_ip req = remoteAddress req" using assms(2) None None2 by simp
      then show ?thesis
        using None None2 u by (auto simp: getSocketClientIp_def getClientIp_def socket_of_def fh normalizeIp_def or_str_def or_opt_def Let_def split: option.split)
    qed
  qed
  moreover have "trim ''unknown'' = ''unknown''" by code_simp
  then have "socket_user_agent (socket_of req i) = getUserAgent req"
    using assms(1) by (auto simp: socket_user_agent_def getUserAgent_def socket_of_def plain_headers_def split: header.splits)
  ultimately show ?thesis by (simp add: buildSocketFingerprint_def buildRequestFingerprint_def fingerprint_raw_def)
qed

theorem socket_fingerprint_agrees_witness:
  "buildSocketFingerprint (\<lambda>x. x) (socket_of sample_request ''k1'') = buildRequestFingerprint (\<lambda>x. x) sample_request"
proof -
  have "plain_headers sample_request" "first_of_header (x_forwarded_for sample_request) \<noteq> None" by code_simp+
  then show ?thesis using socket_fingerprint_agrees by blast
qed

end
