(* ===== verification/Vm_Events.thy ===== *)
theory Vm_Events
  imports Vm_Lifecycle Web_Socket
begin

text \<open>
  \<open>services/vm/src/vm/vm-events.gateway.ts\<close>: the sockets that listen to the machines' events, the
  rooms they join, and the broadcast of status updates and of generated private keys. The histories
  of the gateway are a step relation; the invariant says who is in which room.

  \<open>server.to(room).emit\<close> delivers to every socket of the room, once per call. A socket that is
  disconnected leaves its rooms. Parameters: SHA-256 and the verification of tokens.
\<close>

section \<open>Payloads and state\<close>

record status_payload = status_msg +
  m_error :: "string option"
  m_action :: "string option"

record ssh_ready_msg =
  k_vmId :: "id option"
  k_userId :: "id option"
  k_privateKey :: "string option"
  k_generatedSshPrivateKey :: "string option"
  k_sshPrivateKey :: "string option"

datatype vm_event =
    VmStatusEvent status_payload "string option"
  | VmSshKeyEvent id string

record events_state = db +
  joined :: "(string \<times> string) list"
  client_data :: "(string, id \<times> string) js_map"
  received :: "(string \<times> vm_event) list"

record events_deps =
  ev_env :: process_env
  ev_sha256 :: "string \<Rightarrow> string"
  ev_verify :: "string \<Rightarrow> jwt_payload option"

section \<open>Handlers\<close>

definition user_room :: "id \<Rightarrow> string" where
  "user_room u = ''user:'' @ u"

definition disconnect_socket :: "string \<Rightarrow> events_state \<Rightarrow> events_state" where
  "disconnect_socket i s = s\<lparr>joined := filter (\<lambda>e. fst e \<noteq> i) (joined s), client_data := map_delete i (client_data s)\<rparr>"

definition join_rooms :: "socket \<Rightarrow> jwt_payload \<Rightarrow> events_state \<Rightarrow> events_state" where
  "join_rooms client payload s =
     s\<lparr>joined := joined s @ [(so_id client, user_room (sub payload))] @
         (if jwt_role payload = ''ADMIN'' then [(so_id client, ''admin'')] else []),
       client_data := map_set (so_id client) (sub payload, jwt_role payload) (client_data s)\<rparr>"

definition events_handleConnection :: "events_deps \<Rightarrow> socket \<Rightarrow> events_state \<Rightarrow> events_state" where
  "events_handleConnection D client s =
     (case socket_token client of
        Inl _ \<Rightarrow> disconnect_socket (so_id client) s
      | Inr token \<Rightarrow>
          if \<not> truthy token then disconnect_socket (so_id client) s
          else case verify_socket (ev_sha256 D) (ev_verify D) (ev_env D) client (the token) of
              None \<Rightarrow> disconnect_socket (so_id client) s
            | Some payload \<Rightarrow> join_rooms client payload s)"

definition emit_to :: "string \<Rightarrow> vm_event \<Rightarrow> events_state \<Rightarrow> events_state" where
  "emit_to room ev s = s\<lparr>received := received s @ map (\<lambda>e. (fst e, ev)) (filter (\<lambda>e. snd e = room) (joined s))\<rparr>"

text \<open>A lookup without an identifier is refused by the database client and logged.\<close>

definition broadcastVmStatus :: "status_payload \<Rightarrow> events_state \<Rightarrow> events_state" where
  "broadcastVmStatus d s =
     (if truthy (m_userId d)
      then emit_to ''admin'' (VmStatusEvent d None) (emit_to (user_room (the (m_userId d))) (VmStatusEvent d None) s)
      else case m_vmId d of
          None \<Rightarrow> s
        | Some i \<Rightarrow> (case find_vm i s of
            None \<Rightarrow> s
          | Some vm \<Rightarrow>
              emit_to ''admin'' (VmStatusEvent d (Some (v_name vm)))
                (emit_to (user_room (v_userId vm)) (VmStatusEvent d (Some (v_name vm))) s)))"

definition ready_key :: "ssh_ready_msg \<Rightarrow> string option" where
  "ready_key d =
     (case k_privateKey d of Some k \<Rightarrow> Some k | None \<Rightarrow>
       (case k_generatedSshPrivateKey d of Some k \<Rightarrow> Some k | None \<Rightarrow> k_sshPrivateKey d))"

definition broadcastVmSshReady :: "ssh_ready_msg \<Rightarrow> events_state \<Rightarrow> events_state" where
  "broadcastVmSshReady d s =
     (if \<not> truthy (k_vmId d) \<or> \<not> truthy (ready_key d) then s
      else let ev = VmSshKeyEvent (the (k_vmId d)) (the (ready_key d)) in
        if truthy (k_userId d) then emit_to (user_room (the (k_userId d))) ev s
        else case find_vm (the (k_vmId d)) s of
            None \<Rightarrow> s
          | Some vm \<Rightarrow> emit_to (user_room (v_userId vm)) ev s)"

section \<open>Who is in which room\<close>

text \<open>A socket is in the room of the user of its token, and in the room of administrators with their role only.\<close>

definition rooms_ok :: "events_state \<Rightarrow> bool" where
  "rooms_ok s \<longleftrightarrow> list_all (\<lambda>(i, room). case map_get (client_data s) i of
       None \<Rightarrow> False | Some (u, role) \<Rightarrow> room = user_room u \<or> room = ''admin'' \<and> role = ''ADMIN'') (joined s)"

lemma user_room_admin [simp]: "user_room u \<noteq> ''admin''" "''admin'' \<noteq> user_room u" "user_room u = user_room v \<longleftrightarrow> u = v"
  by (simp_all add: user_room_def)

text \<open>
  A socket connects once in its life. Status updates, keys and changes of the table of machines come in
  any order.
\<close>

inductive events_step :: "events_state \<Rightarrow> events_state \<Rightarrow> bool" where
  connects: "map_get (client_data s) (so_id client) = None \<Longrightarrow> events_step s (events_handleConnection D client s)"
| leaves: "events_step s (disconnect_socket i s)"
| status: "events_step s (broadcastVmStatus d s)"
| key: "events_step s (broadcastVmSshReady k s)"
| machines: "events_step s (s\<lparr>virtualMachines := vms\<rparr>)"

definition events_start :: events_state where
  "events_start = db.extend empty_db \<lparr>joined = [], client_data = [], received = []\<rparr>"

lemma emit_to_simps [simp]:
  "joined (emit_to room ev s) = joined s" "client_data (emit_to room ev s) = client_data s"
  "virtualMachines (emit_to room ev s) = virtualMachines s"
  by (simp_all add: emit_to_def)

lemma rooms_ok_cong: "joined t = joined s \<Longrightarrow> client_data t = client_data s \<Longrightarrow> rooms_ok t \<longleftrightarrow> rooms_ok s"
  by (simp add: rooms_ok_def)

lemma broadcasts_rooms:
  "joined (broadcastVmStatus d s) = joined s" "client_data (broadcastVmStatus d s) = client_data s"
  "joined (broadcastVmSshReady k s) = joined s" "client_data (broadcastVmSshReady k s) = client_data s"
  by (auto simp: broadcastVmStatus_def broadcastVmSshReady_def Let_def split: option.split)

lemma rooms_ok_disconnect: "rooms_ok s \<Longrightarrow> rooms_ok (disconnect_socket i s)"
  by (auto simp: rooms_ok_def disconnect_socket_def list_all_iff map_get_delete)

lemma not_joined: "rooms_ok s \<Longrightarrow> map_get (client_data s) i = None \<Longrightarrow> (i, room) \<notin> set (joined s)"
  by (auto simp: rooms_ok_def list_all_iff)

lemma rooms_ok_connect:
  assumes "rooms_ok s" "map_get (client_data s) (so_id client) = None"
  shows "rooms_ok (events_handleConnection D client s)"
proof -
  have "rooms_ok (disconnect_socket (so_id client) s)" using rooms_ok_disconnect assms(1) .
  moreover have "rooms_ok (join_rooms client p s)" for p
    using assms not_joined [OF assms] by (auto simp: rooms_ok_def list_all_iff map_get_set join_rooms_def)
  ultimately show ?thesis by (simp add: events_handleConnection_def split: sum.split option.split)
qed

lemma events_step_rooms: "events_step s t \<Longrightarrow> rooms_ok s \<Longrightarrow> rooms_ok t"
proof (induction rule: events_step.induct)
  case (status s d)
  then show ?case using rooms_ok_cong [OF broadcasts_rooms(1,2)] by blast
next
  case (key s k)
  then show ?case using rooms_ok_cong [OF broadcasts_rooms(3,4)] by blast
qed (auto simp: rooms_ok_connect rooms_ok_disconnect intro: rooms_ok_cong [THEN iffD2])

lemma rooms_ok_start: "rooms_ok events_start"
  by (simp add: rooms_ok_def events_start_def db.extend_def empty_db_def)

lemma rooms_ok_reachable: "events_step\<^sup>*\<^sup>* events_start s \<Longrightarrow> rooms_ok s"
  by (induction rule: rtranclp_induct) (auto intro: rooms_ok_start events_step_rooms)

section \<open>Confidentiality\<close>

text \<open>The addressee of a key: the user that the message names, else the owner of the machine.\<close>

definition key_addressee :: "ssh_ready_msg \<Rightarrow> events_state \<Rightarrow> id option" where
  "key_addressee d s = (if truthy (k_userId d) then k_userId d else map_option v_userId (find_vm (the (k_vmId d)) s))"

lemma key_delivery:
  "\<exists>xs. received (broadcastVmSshReady d s) = received s @ xs \<and>
    (\<forall>i e. (i, e) \<in> set xs \<longleftrightarrow> truthy (k_vmId d) \<and> truthy (ready_key d) \<and> e = VmSshKeyEvent (the (k_vmId d)) (the (ready_key d)) \<and>
       (\<exists>u. key_addressee d s = Some u \<and> (i, user_room u) \<in> set (joined s)))"
  by (auto simp: broadcastVmSshReady_def key_addressee_def emit_to_def Let_def truthy_def image_iff split: option.splits)

text \<open>
  C20: a private key reaches its addressee and nobody else: in every state that the gateway reaches, a
  message with a machine and a key is delivered to the sockets in the room of the user it names, or
  else of the machine's owner, and each of them connected with a token of that user; no other socket
  receives anything, also not as an administrator.
\<close>

theorem vm_key_confidential:
  assumes "events_step\<^sup>*\<^sup>* events_start s"
  shows "\<exists>xs. received (broadcastVmSshReady d s) = received s @ xs \<and>
    (\<forall>i e. (i, e) \<in> set xs \<longleftrightarrow> truthy (k_vmId d) \<and> truthy (ready_key d) \<and> e = VmSshKeyEvent (the (k_vmId d)) (the (ready_key d)) \<and>
       (\<exists>u role. key_addressee d s = Some u \<and> (i, user_room u) \<in> set (joined s) \<and> map_get (client_data s) i = Some (u, role)))"
proof -
  have "\<exists>role. map_get (client_data s) i = Some (u, role)" if "(i, user_room u) \<in> set (joined s)" for i u
    using rooms_ok_reachable [OF assms] that by (auto simp: rooms_ok_def list_all_iff split: option.splits)
  then have "(\<exists>u. key_addressee d s = Some u \<and> (i, user_room u) \<in> set (joined s)) \<longleftrightarrow>
      (\<exists>u role. key_addressee d s = Some u \<and> (i, user_room u) \<in> set (joined s) \<and> map_get (client_data s) i = Some (u, role))" for i
    by blast
  then show ?thesis using key_delivery [of d s] by simp
qed

text \<open>
  A socket gets into a room only with a token that verifies and, unless the check is switched off,
  has the fingerprint of the socket; then its room is that of the token's user.
\<close>

lemma connection_needs_token:
  assumes "(so_id client, room) \<in> set (joined (events_handleConnection D client s))" "(so_id client, room) \<notin> set (joined s)"
  shows "\<exists>token p. socket_token client = Inr (Some token) \<and> ev_verify D token = Some p \<and>
    (skip_fingerprint (ev_env D) \<or> fp p = Some (buildSocketFingerprint (ev_sha256 D) client)) \<and>
    (room = user_room (sub p) \<or> room = ''admin'' \<and> jwt_role p = ''ADMIN'')"
  using assms
  by (auto simp: events_handleConnection_def join_rooms_def disconnect_socket_def verify_socket_def truthy_def
      split: sum.splits option.splits if_splits)

section \<open>A concrete socket\<close>

definition sample_events :: events_deps where
  "sample_events = \<lparr>ev_env = (\<lambda>_. None), ev_sha256 = (\<lambda>x. x), ev_verify = (\<lambda>_. Some (sample_payload (Some ''10.0.0.7|curl'')))\<rparr>"

definition sample_listening :: events_state where
  "sample_listening = events_handleConnection sample_events (socket_of sample_request ''k1'') events_start"

lemma sample_listening: "joined sample_listening = [(''k1'', ''user:alice'')]" "events_step\<^sup>*\<^sup>* events_start sample_listening" "received sample_listening = []"
proof -
  show "joined sample_listening = [(''k1'', ''user:alice'')]" by code_simp
  show "received sample_listening = []" by code_simp
  have "map_get (client_data events_start) (so_id (socket_of sample_request ''k1'')) = None" by code_simp
  then show "events_step\<^sup>*\<^sup>* events_start sample_listening"
    unfolding sample_listening_def by (blast intro: events_step.connects)
qed

theorem vm_key_confidential_witness:
  "(''k1'', VmSshKeyEvent ''v1'' ''KEY'') \<in> set (received (broadcastVmSshReady
     \<lparr>k_vmId = Some ''v1'', k_userId = Some ''alice'', k_privateKey = Some ''KEY'', k_generatedSshPrivateKey = None, k_sshPrivateKey = None\<rparr> sample_listening))"
proof -
  let ?d = "\<lparr>k_vmId = Some ''v1'', k_userId = Some ''alice'', k_privateKey = Some ''KEY'', k_generatedSshPrivateKey = None, k_sshPrivateKey = None\<rparr>"
  have a: "map_get (client_data sample_listening) ''k1'' = Some (''alice'', ''USER'')" by code_simp
  have b: "key_addressee ?d sample_listening = Some ''alice''" "ready_key ?d = Some ''KEY''" by (simp_all add: key_addressee_def ready_key_def truthy_def)
  have c: "(''k1'', user_room ''alice'') \<in> set (joined sample_listening)" by (simp add: sample_listening(1) user_room_def)
  have d: "truthy (k_vmId ?d)" "truthy (ready_key ?d)" "VmSshKeyEvent ''v1'' ''KEY'' = VmSshKeyEvent (the (k_vmId ?d)) (the (ready_key ?d))"
    by (simp_all add: b truthy_def)
  obtain xs where "received (broadcastVmSshReady ?d sample_listening) = received sample_listening @ xs" "(''k1'', VmSshKeyEvent ''v1'' ''KEY'') \<in> set xs"
    using vm_key_confidential [OF sample_listening(2), of ?d] a b(1) c d by blast
  then show ?thesis by simp
qed

end
