(* ===== verification/Js_Number.thy ===== *)
theory Js_Number
  imports Cloud_Schema "HOL-Library.Log_Nat"
begin

text \<open>
  The numbers of the language that the services calculate money and hours with: a finite
  double is the rational it stands for, \<open>fl\<close> rounds a rational to the nearest double with ties
  to the even one (53 significant bits, subnormal numbers included; no value the services
  reach is near the overflow threshold), every arithmetic operation rounds its exact result,
  and \<open>Number(x.toFixed(d))\<close>, \<open>Math.round\<close> and \<open>Number.MAX_SAFE_INTEGER\<close> are as the language
  defines them.
\<close>

section \<open>Rounding to a double\<close>

definition ilog2 :: "rat \<Rightarrow> int" where
  "ilog2 x = (case quotient_of x of (p, q) \<Rightarrow>
     let e = bitlen p - bitlen q in if 2 powi e \<le> x then e else e - 1)"

definition round_half_even :: "rat \<Rightarrow> int" where
  "round_half_even x =
     (let f = \<lfloor>x\<rfloor>; d = x - of_int f in
      if d < 1 / 2 then f else if d > 1 / 2 then f + 1 else if even f then f else f + 1)"

definition ulp_exp :: "rat \<Rightarrow> int" where
  "ulp_exp x = max (ilog2 \<bar>x\<bar> - 52) (- 1074)"

definition fl :: "rat \<Rightarrow> rat" where
  "fl x = (if x = 0 then 0 else of_int (round_half_even (x / 2 powi ulp_exp x)) * 2 powi ulp_exp x)"

definition js_add :: "rat \<Rightarrow> rat \<Rightarrow> rat" where
  "js_add a b = fl (a + b)"

definition js_sub :: "rat \<Rightarrow> rat \<Rightarrow> rat" where
  "js_sub a b = fl (a - b)"

definition js_mul :: "rat \<Rightarrow> rat \<Rightarrow> rat" where
  "js_mul a b = fl (a * b)"

definition js_div :: "rat \<Rightarrow> rat \<Rightarrow> rat" where
  "js_div a b = fl (a / b)"

section \<open>Decimal rounding\<close>

text \<open>
  \<open>toFixed(d)\<close> takes the integer nearest to \<open>x * 10^d\<close>, the larger one of two, on the absolute
  value; \<open>Number\<close> reads the numeral back as the nearest double.
\<close>

definition to_fixed_int :: "nat \<Rightarrow> rat \<Rightarrow> int" where
  "to_fixed_int d x = \<lfloor>\<bar>x\<bar> * 10 ^ d + 1 / 2\<rfloor>"

definition to_fixed_number :: "nat \<Rightarrow> rat \<Rightarrow> rat" where
  "to_fixed_number d x = fl ((if x < 0 then - 1 else 1) * of_int (to_fixed_int d x) / 10 ^ d)"

definition Math_round :: "rat \<Rightarrow> int" where
  "Math_round x = \<lfloor>x + 1 / 2\<rfloor>"

text \<open>The numeral \<open>toFixed(d)\<close> itself, for a number that is not negative.\<close>

definition pad_left :: "nat \<Rightarrow> string \<Rightarrow> string" where
  "pad_left n w = replicate (n - length w) (CHR ''0'') @ w"

text \<open>The pattern of six digits that the codes of every service have.\<close>

definition six_digits :: "string \<Rightarrow> bool" where
  "six_digits s \<longleftrightarrow> length s = 6 \<and> list_all is_digit s"

definition to_fixed_string :: "nat \<Rightarrow> rat \<Rightarrow> string" where
  "to_fixed_string d x =
     (let n = nat (to_fixed_int d x) in
      show_nat (n div 10 ^ d) @ (if d = 0 then [] else CHR ''.'' # pad_left d (show_nat (n mod 10 ^ d))))"

section \<open>Reading a number\<close>

text \<open>
  \<open>Number(raw)\<close> on decimal literals: an optional sign, digits with an optional fraction, an
  optional exponent; the empty string is zero, and any other text is no number here.
\<close>

definition digits_value :: "string \<Rightarrow> int" where
  "digits_value ds = foldl (\<lambda>n c. 10 * n + (int (of_char c) - 48)) 0 ds"

definition decimal_value :: "string \<Rightarrow> rat option" where
  "decimal_value w =
     (let whole = takeWhile is_digit w; r = dropWhile is_digit w;
          frac = (case r of c # cs \<Rightarrow> if c = CHR ''.'' then takeWhile is_digit cs else [] | [] \<Rightarrow> []);
          r' = (case r of c # cs \<Rightarrow> if c = CHR ''.'' then dropWhile is_digit cs else r | [] \<Rightarrow> []);
          m = (of_int (digits_value (whole @ frac)) / 10 ^ length frac :: rat) in
      if whole @ frac = [] then None
      else case r' of
          [] \<Rightarrow> Some m
        | c # cs \<Rightarrow>
            if c \<noteq> CHR ''e'' \<and> c \<noteq> CHR ''E'' then None
            else let neg = (case cs of d # _ \<Rightarrow> d = CHR ''-'' | [] \<Rightarrow> False);
                     ds = (case cs of d # t \<Rightarrow> if d = CHR ''-'' \<or> d = CHR ''+'' then t else cs | [] \<Rightarrow> []) in
              if ds = [] \<or> \<not> list_all is_digit ds then None
              else Some (if neg then m / 10 ^ nat (digits_value ds) else m * 10 ^ nat (digits_value ds)))"

definition js_Number :: "string \<Rightarrow> rat option" where
  "js_Number raw =
     (case trim raw of
        [] \<Rightarrow> Some 0
      | c # cs \<Rightarrow> map_option fl
          (if c = CHR ''-'' then map_option uminus (decimal_value cs)
           else if c = CHR ''+'' then decimal_value cs else decimal_value (c # cs)))"

section \<open>The exponent\<close>

lemma bitlen_bounds_rat:
  assumes "0 < p"
  shows "2 powi (bitlen p - 1) \<le> (of_int p :: rat)" "(of_int p :: rat) < 2 powi bitlen p"
proof -
  have b: "2 ^ nat (bitlen p - 1) \<le> p" "p < 2 ^ nat (bitlen p)" "1 \<le> bitlen p"
    using bitlen_bounds [OF assms] bitlen_ge_iff_power [of 1 p] assms by auto
  have "(of_int (2 ^ nat (bitlen p - 1)) :: rat) \<le> of_int p" "(of_int p :: rat) < of_int (2 ^ nat (bitlen p))"
    using b by (simp_all only: of_int_le_iff of_int_less_iff)
  then show "2 powi (bitlen p - 1) \<le> (of_int p :: rat)" "(of_int p :: rat) < 2 powi bitlen p"
    using b(3) by (simp_all add: power_int_def)
qed

lemma ilog2_bounds:
  assumes "0 < x"
  shows "2 powi ilog2 x \<le> x" "x < 2 powi (ilog2 x + 1)"
proof -
  obtain p q where pq: "quotient_of x = (p, q)" by fastforce
  have q: "0 < q" and x: "x = of_int p / of_int q"
    using pq quotient_of_denom_pos quotient_of_div by auto
  then have p: "0 < p" using assms by (simp add: zero_less_divide_iff)
  let ?e = "bitlen p - bitlen q"
  have lo: "2 powi (?e - 1) \<le> x"
  proof -
    have "2 powi (?e - 1) = (2 powi (bitlen p - 1) / 2 powi bitlen q :: rat)"
      by (simp add: power_int_diff [symmetric] algebra_simps)
    also have "\<dots> \<le> x"
      unfolding x using bitlen_bounds_rat [OF p] bitlen_bounds_rat [OF q] q p
      by (intro frac_le) auto
    finally show ?thesis .
  qed
  have hi: "x < 2 powi (?e + 1)"
  proof -
    have "x < 2 powi bitlen p / 2 powi (bitlen q - 1)"
      unfolding x using bitlen_bounds_rat [OF p] bitlen_bounds_rat [OF q] q p
      by (intro frac_less) auto
    also have "\<dots> = 2 powi (?e + 1)"
      by (simp add: power_int_diff [symmetric] algebra_simps)
    finally show ?thesis .
  qed
  show "2 powi ilog2 x \<le> x" "x < 2 powi (ilog2 x + 1)"
    using lo hi by (auto simp: ilog2_def pq Let_def)
qed

lemma ilog2_mono: "0 < x \<Longrightarrow> x \<le> y \<Longrightarrow> ilog2 x \<le> ilog2 y"
proof (rule ccontr)
  assume a: "0 < x" "x \<le> y" "\<not> ilog2 x \<le> ilog2 y"
  then have "y < 2 powi (ilog2 y + 1)" "(2 :: rat) powi (ilog2 y + 1) \<le> 2 powi ilog2 x" "2 powi ilog2 x \<le> x"
    using ilog2_bounds [of x] ilog2_bounds [of y] power_int_increasing [of "ilog2 y + 1" "ilog2 x" "2 :: rat"]
    by simp_all
  then show False using a(2) by linarith
qed

section \<open>Rounding is monotone\<close>

lemma round_half_even_lower: "of_int n \<le> x \<Longrightarrow> n \<le> round_half_even x"
  using le_floor_iff [of n x] by (auto simp: round_half_even_def Let_def)

lemma round_half_even_upper:
  assumes "x \<le> of_int n"
  shows "round_half_even x \<le> n"
proof (cases "x = of_int n")
  case True
  then show ?thesis by (simp add: round_half_even_def)
next
  case False
  then have "\<lfloor>x\<rfloor> < n" using assms by (simp add: floor_less_iff)
  then show ?thesis by (auto simp: round_half_even_def Let_def)
qed

lemma round_half_even_mono:
  assumes "x \<le> y"
  shows "round_half_even x \<le> round_half_even y"
proof (cases "\<lfloor>x\<rfloor> = \<lfloor>y\<rfloor>")
  case True
  then show ?thesis using assms by (auto simp: round_half_even_def Let_def)
next
  case False
  then have "\<lfloor>x\<rfloor> + 1 \<le> \<lfloor>y\<rfloor>" using floor_mono [OF assms] by simp
  moreover have "round_half_even x \<le> \<lfloor>x\<rfloor> + 1"
    by (auto simp: round_half_even_def Let_def)
  moreover have "\<lfloor>y\<rfloor> \<le> round_half_even y" by (auto simp: round_half_even_def Let_def)
  ultimately show ?thesis by simp
qed

lemma round_half_even_of_int [simp]: "round_half_even (of_int n) = n"
  by (simp add: round_half_even_def)

lemma round_half_even_minus: "round_half_even (- x) = - round_half_even x"
proof (cases "x = of_int \<lfloor>x\<rfloor>")
  case True
  then show ?thesis by (metis of_int_minus round_half_even_of_int)
next
  case False
  have lt: "of_int \<lfloor>x\<rfloor> < x" using False by (metis of_int_floor_le order_le_less)
  have gt: "x < of_int \<lfloor>x\<rfloor> + 1" by linarith
  have f: "\<lfloor>- x\<rfloor> = - \<lfloor>x\<rfloor> - 1" using lt gt by (intro floor_unique) auto
  show ?thesis
    by (auto simp: round_half_even_def Let_def f)
qed

text \<open>A power of two at or above the grid of \<open>x\<close> separates the rounded values.\<close>

lemma fl_grid_le:
  assumes "0 < x" "x \<le> 2 powi k" "ulp_exp x \<le> k"
  shows "fl x \<le> 2 powi k"
proof -
  let ?e = "ulp_exp x"
  have i: "2 powi (k - ?e) = (of_int (2 ^ nat (k - ?e)) :: rat)" using assms(3) by (simp add: power_int_def)
  have "x / 2 powi ?e \<le> 2 powi (k - ?e)" using assms(2) by (simp add: power_int_diff divide_right_mono)
  then have "round_half_even (x / 2 powi ?e) \<le> 2 ^ nat (k - ?e)"
    using round_half_even_upper i by simp
  then have "(of_int (round_half_even (x / 2 powi ?e)) :: rat) \<le> 2 powi (k - ?e)"
    unfolding i by (simp only: of_int_le_iff)
  then have "of_int (round_half_even (x / 2 powi ?e)) * 2 powi ?e \<le> (2 powi (k - ?e) * 2 powi ?e :: rat)"
    by (simp add: mult_right_mono)
  then show ?thesis using assms(1) by (simp add: fl_def power_int_add [symmetric])
qed

lemma fl_grid_ge:
  assumes "0 < x" "2 powi k \<le> x" "ulp_exp x \<le> k"
  shows "2 powi k \<le> fl x"
proof -
  let ?e = "ulp_exp x"
  have i: "2 powi (k - ?e) = (of_int (2 ^ nat (k - ?e)) :: rat)" using assms(3) by (simp add: power_int_def)
  have "2 powi (k - ?e) \<le> x / 2 powi ?e" using assms(2) by (simp add: power_int_diff divide_right_mono)
  then have "2 ^ nat (k - ?e) \<le> round_half_even (x / 2 powi ?e)"
    using round_half_even_lower [of "2 ^ nat (k - ?e)"] i by simp
  then have "2 powi (k - ?e) \<le> (of_int (round_half_even (x / 2 powi ?e)) :: rat)"
    unfolding i by (simp only: of_int_le_iff)
  then have "(2 powi (k - ?e) * 2 powi ?e :: rat) \<le> of_int (round_half_even (x / 2 powi ?e)) * 2 powi ?e"
    by (simp add: mult_right_mono)
  then show ?thesis using assms(1) by (simp add: fl_def power_int_add [symmetric])
qed

lemma fl_zero [simp]: "fl 0 = 0"
  by (simp add: fl_def)

lemma fl_minus: "fl (- x) = - fl x"
  by (simp add: fl_def ulp_exp_def round_half_even_minus)

lemma fl_nonneg: "0 \<le> x \<Longrightarrow> 0 \<le> fl x"
  using round_half_even_lower [of 0 "x / 2 powi ulp_exp x"] by (simp add: fl_def)

lemma fl_mono_pos:
  assumes "0 < x" "x \<le> y"
  shows "fl x \<le> fl y"
proof (cases "ulp_exp x = ulp_exp y")
  case True
  have "x / 2 powi ulp_exp y \<le> y / 2 powi ulp_exp y" using assms(2) by (simp add: divide_right_mono)
  then have "round_half_even (x / 2 powi ulp_exp y) \<le> round_half_even (y / 2 powi ulp_exp y)"
    by (rule round_half_even_mono)
  then show ?thesis using assms True by (simp add: fl_def mult_right_mono)
next
  case False
  have y: "0 < y" using assms by simp
  have "ulp_exp x \<le> ulp_exp y" using ilog2_mono [OF assms] assms by (simp add: ulp_exp_def max_def)
  then have lt: "ulp_exp x < ulp_exp y" using False by simp
  then have ey: "ulp_exp y = ilog2 y - 52" and "ilog2 x < ilog2 y"
    using assms y by (auto simp: ulp_exp_def max_def split: if_splits)
  then have "x \<le> 2 powi ilog2 y"
    using ilog2_bounds(2) [OF assms(1)] power_int_increasing [of "ilog2 x + 1" "ilog2 y" "2 :: rat"] by simp
  then have "fl x \<le> 2 powi ilog2 y" using lt ey assms(1) by (intro fl_grid_le) auto
  also have "\<dots> \<le> fl y" using ilog2_bounds(1) [OF y] ey y by (intro fl_grid_ge) auto
  finally show ?thesis .
qed

lemma fl_mono: "x \<le> y \<Longrightarrow> fl x \<le> fl y"
proof -
  assume le: "x \<le> y"
  consider "0 < x" | "x \<le> 0" "0 \<le> y" | "y < 0" by linarith
  then show ?thesis
  proof cases
    case 1
    then show ?thesis using fl_mono_pos le by blast
  next
    case 2
    then have "fl x \<le> 0" using fl_nonneg [of "- x"] by (simp add: fl_minus)
    then show ?thesis using fl_nonneg [OF 2(2)] by simp
  next
    case 3
    then have "fl (- y) \<le> fl (- x)" using fl_mono_pos [of "- y" "- x"] le by simp
    then show ?thesis by (simp add: fl_minus)
  qed
qed

text \<open>An integer of at most 53 bits is a double.\<close>

lemma fl_of_int:
  assumes "\<bar>n\<bar> < 2 ^ 53"
  shows "fl (of_int n) = of_int n"
proof (cases "n = 0")
  case False
  let ?x = "of_int n :: rat"
  have pos: "0 < \<bar>?x\<bar>" "1 \<le> \<bar>n\<bar>" using False by auto
  have "\<bar>?x\<bar> < 2 ^ 53" using assms by (metis of_int_abs of_int_less_iff of_int_numeral of_int_power)
  then have "2 powi ilog2 \<bar>?x\<bar> < (2 powi 53 :: rat)" using ilog2_bounds(1) [OF pos(1)] by (simp add: power_int_def)
  then have "ilog2 \<bar>?x\<bar> < 53" by (metis linorder_not_less one_le_numeral power_int_increasing)
  then have e: "ulp_exp ?x \<le> 0" by (simp add: ulp_exp_def)
  have "?x / 2 powi ulp_exp ?x = of_int (n * 2 ^ nat (- ulp_exp ?x))"
    using e by (simp add: power_int_def field_simps)
  then have "round_half_even (?x / 2 powi ulp_exp ?x) = n * 2 ^ nat (- ulp_exp ?x)"
    by (metis round_half_even_of_int)
  then show ?thesis using False e by (simp add: fl_def power_int_def field_simps)
qed simp

text \<open>Rounding twice is rounding once.\<close>

lemma fl_integer_multiple:
  assumes "0 < m" "m * 2 powi e = y" "m = of_int k" "ulp_exp y \<le> e"
  shows "fl y = (y :: rat)"
proof -
  have "y / 2 powi ulp_exp y = m * 2 powi (e - ulp_exp y)"
    using assms(2) by (simp add: power_int_diff field_simps)
  also have "\<dots> = of_int (k * 2 ^ nat (e - ulp_exp y))"
    using assms(3,4) by (simp add: power_int_def)
  finally have "round_half_even (y / 2 powi ulp_exp y) = k * 2 ^ nat (e - ulp_exp y)"
    by (metis round_half_even_of_int)
  moreover have "0 < y" using assms(1,2) by (metis zero_less_mult_iff zero_less_numeral zero_less_power_int)
  ultimately have "fl y = of_int (k * 2 ^ nat (e - ulp_exp y)) * 2 powi ulp_exp y"
    by (simp add: fl_def)
  also have "\<dots> = m * 2 powi (e - ulp_exp y) * 2 powi ulp_exp y"
    using assms(3,4) by (simp add: power_int_def)
  also have "\<dots> = y" using assms(2) by (simp add: power_int_diff)
  finally show ?thesis .
qed

lemma fl_fl_pos:
  assumes "0 < x"
  shows "fl (fl x) = fl x"
proof -
  let ?e = "ulp_exp x" and ?m = "round_half_even (x / 2 powi ulp_exp x)"
  have y: "of_int ?m * 2 powi ?e = fl x" using assms by (simp add: fl_def)
  have "x < 2 powi (ilog2 x + 1)" using ilog2_bounds(2) [OF assms] .
  also have "\<dots> \<le> 2 powi (?e + 53)" using assms by (intro power_int_increasing) (auto simp: ulp_exp_def)
  finally have "x / 2 powi ?e \<le> of_int (2 ^ 53)" by (simp add: power_int_add divide_le_eq)
  then have hi: "?m \<le> 2 ^ 53" by (rule round_half_even_upper)
  consider "?m \<le> 0" | "0 < ?m" "?m < 2 ^ 53" | "?m = 2 ^ 53" using hi by linarith
  then show ?thesis
  proof cases
    case 1
    then have "fl x \<le> 0" using y by (metis mult_nonpos_nonneg of_int_le_0_iff order_less_imp_le zero_less_numeral zero_less_power_int)
    then show ?thesis using fl_nonneg [of x] assms by simp
  next
    case 2
    have pos: "0 < fl x" using 2(1) y by (metis of_int_0_less_iff zero_less_mult_iff zero_less_numeral zero_less_power_int)
    have "(of_int ?m :: rat) < of_int (2 ^ 53)" using 2(2) by (simp only: of_int_less_iff)
    then have "fl x < 2 powi (53 + ?e)" unfolding y [symmetric] by (simp add: power_int_add)
    then have "2 powi ilog2 (fl x) < (2 powi (53 + ?e) :: rat)" using ilog2_bounds(1) [OF pos] by linarith
    then have "ilog2 (fl x) < 53 + ?e" by (metis linorder_not_less one_le_numeral power_int_increasing)
    then have "ulp_exp (fl x) \<le> ?e" using pos by (simp add: ulp_exp_def)
    then show ?thesis using fl_integer_multiple [OF _ y] 2(1) by simp
  next
    case 3
    then have yk: "fl x = 2 powi (53 + ?e)" unfolding y [symmetric] by (simp add: power_int_add)
    have pos: "0 < fl x" by (simp add: yk)
    have "2 powi ilog2 (fl x) \<le> (2 powi (53 + ?e) :: rat)" using ilog2_bounds(1) [OF pos] yk by simp
    then have "ilog2 (fl x) \<le> 53 + ?e"
      by (metis linorder_not_less one_less_numeral_iff power_int_strict_increasing semiring_norm(76))
    then have "ulp_exp (fl x) \<le> 53 + ?e" using pos by (auto simp: ulp_exp_def)
    then show ?thesis
      using fl_grid_le [OF pos, of "53 + ?e"] fl_grid_ge [OF pos, of "53 + ?e"] by (simp add: yk)
  qed
qed

lemma fl_fl [simp]: "fl (fl x) = fl x"
proof -
  consider "0 < x" | "x = 0" | "0 < - x" by linarith
  then show ?thesis
  proof cases
    case 3
    then show ?thesis using fl_fl_pos [OF 3] by (simp add: fl_minus)
  qed (simp_all add: fl_fl_pos)
qed

lemma fl_numeral_small [simp]: "fl 1 = 1"
  using fl_of_int [of 1] by simp

lemma to_fixed_nonneg: "0 \<le> x \<Longrightarrow> 0 \<le> to_fixed_number d x"
  by (simp add: to_fixed_number_def to_fixed_int_def fl_nonneg)

lemma to_fixed_mono: "0 \<le> x \<Longrightarrow> x \<le> y \<Longrightarrow> to_fixed_number d x \<le> to_fixed_number d y"
  by (auto simp: to_fixed_number_def to_fixed_int_def intro!: fl_mono divide_right_mono floor_mono mult_right_mono)

lemma to_fixed_zero [simp]: "to_fixed_number d 0 = 0"
proof -
  have "\<lfloor>1 / 2 :: rat\<rfloor> = 0" by (rule floor_unique) simp_all
  then show ?thesis by (simp add: to_fixed_number_def to_fixed_int_def)
qed

end
