(* ===== verification/Plan_Catalog.thy ===== *)
theory Plan_Catalog
  imports Js_Number Internal_Api
begin

text \<open>
  The catalog of plans that the user and the payment service keep in \<open>plan_configs\<close>: reading
  \<open>PLAN_CATALOG_JSON\<close>, seeding the table, building the catalog from its rows. The two services
  have the same code for it; \<open>user.service.ts\<close> adds the unlimited plan and
  \<open>payment.service.ts\<close> the labels and prices of the shop.

  \<open>JSON.parse\<close> is a parameter from strings to the values below, \<open>None\<close> where it throws.
\<close>

section \<open>Plans\<close>

datatype plan_id = STUDENT | PRO | ENTERPRISE | UNLIMITED

fun plan_name :: "plan_id \<Rightarrow> string" where
  "plan_name STUDENT = ''student''"
| "plan_name PRO = ''pro''"
| "plan_name ENTERPRISE = ''enterprise''"
| "plan_name UNLIMITED = ''unlimited''"

definition REQUIRED_PLAN_IDS :: "plan_id list" where
  "REQUIRED_PLAN_IDS = [STUDENT, PRO, ENTERPRISE]"

definition plan_of_name :: "string \<Rightarrow> plan_id option" where
  "plan_of_name n = List.find (\<lambda>p. plan_name p = n) [STUDENT, PRO, ENTERPRISE, UNLIMITED]"

lemma plan_name_inject [simp]: "plan_name p = plan_name q \<longleftrightarrow> p = q"
  by (cases p; cases q) simp_all

lemma plan_name_not_Nil [simp]: "plan_name p \<noteq> []"
  by (cases p) simp_all

lemma plan_of_name [simp]: "plan_of_name (plan_name p) = Some p"
  by (cases p) (simp_all add: plan_of_name_def)

lemma plan_of_name_Some: "plan_of_name n = Some p \<longleftrightarrow> n = plan_name p"
proof
  assume "plan_of_name n = Some p"
  then show "n = plan_name p" unfolding plan_of_name_def by (blast dest: find_Some_set)
qed simp

record plan_config =
  g_maxVms :: int
  g_maxCpu :: int
  g_maxRamMb :: int
  g_maxDiskGb :: int
  g_monthlyPriceDt :: rat
  g_vmHoursMonthly :: int
  g_rank :: int

type_synonym catalog = "plan_id \<Rightarrow> plan_config"

definition UNLIMITED_PLAN_CONFIG :: plan_config where
  "UNLIMITED_PLAN_CONFIG = \<lparr>g_maxVms = 9999, g_maxCpu = 9999, g_maxRamMb = 999999, g_maxDiskGb = 99999,
     g_monthlyPriceDt = 0, g_vmHoursMonthly = 9007199254740991, g_rank = 99\<rparr>"

section \<open>The configured catalog\<close>

text \<open>A JSON value; a numeral beyond the range of doubles is \<open>JNum None\<close>, which is not finite.\<close>

datatype json = JNull | JBool bool | JNum "rat option" | JStr string | JArr "json list" | JObj "(string \<times> json) list"

type_synonym json_parse = "string \<Rightarrow> json option"

text \<open>\<open>v?.[k]\<close>; of several members of one name the last counts.\<close>

fun member :: "json option \<Rightarrow> string \<Rightarrow> json option" where
  "member (Some (JObj kvs)) k = map_of (rev kvs) k"
| "member _ k = None"

fun falsy :: "json option \<Rightarrow> bool" where
  "falsy None \<longleftrightarrow> True"
| "falsy (Some JNull) \<longleftrightarrow> True"
| "falsy (Some (JBool b)) \<longleftrightarrow> \<not> b"
| "falsy (Some (JNum n)) \<longleftrightarrow> n = Some 0"
| "falsy (Some (JStr s)) \<longleftrightarrow> s = []"
| "falsy (Some _) \<longleftrightarrow> False"

fun finite_num :: "json option \<Rightarrow> rat option" where
  "finite_num (Some (JNum n)) = n"
| "finite_num _ = None"

definition at_least :: "rat \<Rightarrow> json option \<Rightarrow> bool" where
  "at_least m v = (case finite_num v of None \<Rightarrow> False | Some n \<Rightarrow> \<not> n < m)"

definition positive :: "json option \<Rightarrow> bool" where
  "positive v = (case finite_num v of None \<Rightarrow> False | Some n \<Rightarrow> \<not> n \<le> 0)"

record seed_config =
  e_amountDt :: rat
  e_rank :: rat
  e_vmHoursMonthly :: rat
  e_maxVms :: rat
  e_maxCpu :: rat
  e_maxRamMb :: rat
  e_maxDiskGb :: rat

definition valid_config :: "json option \<Rightarrow> bool" where
  "valid_config cfg \<longleftrightarrow>
     positive (member cfg ''amountDt'') \<and> at_least 1 (member cfg ''rank'') \<and>
     positive (member cfg ''vmHoursMonthly'') \<and> \<not> falsy (member cfg ''quota'') \<and>
     at_least 1 (member (member cfg ''quota'') ''maxVms'') \<and>
     at_least 1 (member (member cfg ''quota'') ''maxCpu'') \<and>
     at_least 512 (member (member cfg ''quota'') ''maxRamMb'') \<and>
     at_least 5 (member (member cfg ''quota'') ''maxDiskGb'')"

definition read_config :: "json option \<Rightarrow> seed_config" where
  "read_config cfg =
     (let num = (\<lambda>v. nullish (finite_num v) 0); quota = member cfg ''quota'' in
      \<lparr>e_amountDt = num (member cfg ''amountDt''), e_rank = num (member cfg ''rank''),
       e_vmHoursMonthly = num (member cfg ''vmHoursMonthly''), e_maxVms = num (member quota ''maxVms''),
       e_maxCpu = num (member quota ''maxCpu''), e_maxRamMb = num (member quota ''maxRamMb''),
       e_maxDiskGb = num (member quota ''maxDiskGb'')\<rparr>)"

fun check_configs :: "json option \<Rightarrow> plan_id list \<Rightarrow> exn + unit" where
  "check_configs record [] = Inr ()"
| "check_configs record (p # ps) =
     (let cfg = member record (plan_name p) in
      if falsy cfg
      then Inl (PlainError (''PLAN_CATALOG_JSON missing '' @ [CHR 0x27] @ plan_name p @ [CHR 0x27] @ '' config''))
      else if \<not> valid_config cfg
      then Inl (PlainError (''Invalid PLAN_CATALOG_JSON values for '' @ [CHR 0x27] @ plan_name p @ [CHR 0x27]))
      else check_configs record ps)"

definition loadManagedSubscriptionCatalogFromEnv :: "json_parse \<Rightarrow> process_env \<Rightarrow> exn + (plan_id \<Rightarrow> seed_config)" where
  "loadManagedSubscriptionCatalogFromEnv parse pe =
     (if \<not> truthy (pe ''PLAN_CATALOG_JSON'') then Inl (PlainError ''Missing PLAN_CATALOG_JSON'')
      else case parse (the (pe ''PLAN_CATALOG_JSON'')) of
          None \<Rightarrow> Inl (PlainError ''Invalid PLAN_CATALOG_JSON: must be valid JSON'')
        | Some v \<Rightarrow> (case check_configs (Some v) REQUIRED_PLAN_IDS of
            Inl e \<Rightarrow> Inl e
          | Inr _ \<Rightarrow> Inr (\<lambda>p. read_config (member (Some v) (plan_name p)))))"

section \<open>The table\<close>

text \<open>
  \<open>plan_table\<close> says whether the table exists yet: reading it before fails with \<open>P2021\<close>, and
  \<open>ensurePlanConfigTable\<close> creates it.
\<close>

record plan_state = db +
  plan_table :: bool

definition findPlanRows :: "('a plan_state_scheme, plan_row list) io" where
  "findPlanRows =
     bnd (asks plan_table) (\<lambda>there.
     bnd (throw_if (\<not> there) (PrismaError ''P2021'')) (\<lambda>_.
     asks (\<lambda>s. sort_key c_rank (planConfigs s))))"

definition ensurePlanConfigTable :: "('a plan_state_scheme, unit) io" where
  "ensurePlanConfigTable =
     modify (\<lambda>s. if plan_table s then s else s\<lparr>plan_table := True, planConfigs := []\<rparr>)"

text \<open>An \<open>Int\<close> column takes integers of 32 bits; the client rejects any other number.\<close>

definition int_column :: "rat \<Rightarrow> int option" where
  "int_column x = (if of_int \<lfloor>x\<rfloor> = x \<and> - (2 ^ 31) \<le> \<lfloor>x\<rfloor> \<and> \<lfloor>x\<rfloor> < 2 ^ 31 then Some \<lfloor>x\<rfloor> else None)"

definition seed_row :: "(plan_id \<Rightarrow> id) \<Rightarrow> plan_id \<Rightarrow> seed_config \<Rightarrow> plan_row option" where
  "seed_row uuid p e =
     (case (int_column (e_rank e), int_column (e_vmHoursMonthly e), int_column (e_maxVms e),
            int_column (e_maxCpu e), int_column (e_maxRamMb e), int_column (e_maxDiskGb e)) of
        (Some rk, Some h, Some v, Some c, Some m, Some d) \<Rightarrow>
          Some \<lparr>c_id = uuid p, c_planId = plan_name p, c_amountDt = e_amountDt e, c_rank = rk,
                c_vmHoursMonthly = h, c_maxVms = v, c_maxCpu = c, c_maxRamMb = m, c_maxDiskGb = d\<rparr>
      | _ \<Rightarrow> None)"

text \<open>\<open>createMany\<close> with \<open>skipDuplicates\<close> leaves out a row whose key is taken.\<close>

fun insert_skipping :: "plan_row list \<Rightarrow> plan_row list \<Rightarrow> plan_row list" where
  "insert_skipping [] t = t"
| "insert_skipping (r # rs) t =
     insert_skipping rs (if \<exists>x \<in> set t. c_id x = c_id r \<or> c_planId x = c_planId r then t else t @ [r])"

definition seedPlanConfigs :: "(plan_id \<Rightarrow> id) \<Rightarrow> (plan_id \<Rightarrow> seed_config) \<Rightarrow> ('a plan_state_scheme, unit) io" where
  "seedPlanConfigs uuid seed =
     (let rows = map (\<lambda>p. seed_row uuid p (seed p)) REQUIRED_PLAN_IDS in
      if None \<in> set rows then throw (PrismaError ''validation'')
      else modify (\<lambda>s. s\<lparr>planConfigs := insert_skipping (map the rows) (planConfigs s)\<rparr>))"

text \<open>
  \<open>new Map(rows.map(...))\<close> keeps the last row of a plan. The rows come in the order of their
  rank.
\<close>

definition row_of_plan :: "plan_row list \<Rightarrow> plan_id \<Rightarrow> plan_row option" where
  "row_of_plan rows p = List.find (\<lambda>r. c_planId r = plan_name p) (rev rows)"

definition missing_plans :: "plan_row list \<Rightarrow> plan_id list" where
  "missing_plans rows = filter (\<lambda>p. row_of_plan rows p = None) REQUIRED_PLAN_IDS"

definition config_of_row :: "plan_row \<Rightarrow> plan_config" where
  "config_of_row r =
     \<lparr>g_maxVms = c_maxVms r, g_maxCpu = c_maxCpu r, g_maxRamMb = c_maxRamMb r, g_maxDiskGb = c_maxDiskGb r,
      g_monthlyPriceDt = c_amountDt r, g_vmHoursMonthly = c_vmHoursMonthly r, g_rank = c_rank r\<rparr>"

definition buildPlanCatalogFromRows :: "plan_row list \<Rightarrow> exn + catalog" where
  "buildPlanCatalogFromRows rows =
     (if missing_plans rows \<noteq> []
      then Inl (InternalServerError (''Missing plan configs for: '' @
             join_with '', '' (map plan_name (missing_plans rows))))
      else Inr (\<lambda>p. if p = UNLIMITED then UNLIMITED_PLAN_CONFIG
                     else config_of_row (the (row_of_plan rows p))))"

section \<open>Loading\<close>

record plan_deps =
  json_of :: json_parse
  plan_env :: process_env
  plan_uuid :: "plan_id \<Rightarrow> id"

definition plan_rows :: "('a plan_state_scheme, plan_row list) io" where
  "plan_rows =
     try_catch findPlanRows (\<lambda>e.
       if e \<noteq> PrismaError ''P2021'' then throw e
       else bnd ensurePlanConfigTable (\<lambda>_. findPlanRows))"

definition getPlanCatalog :: "plan_deps \<Rightarrow> ('a plan_state_scheme, catalog) io" where
  "getPlanCatalog P =
     bnd plan_rows (\<lambda>rows.
     if rows \<noteq> [] then lift (buildPlanCatalogFromRows rows)
     else
       bnd (lift (loadManagedSubscriptionCatalogFromEnv (json_of P) (plan_env P))) (\<lambda>seed.
       bnd (seedPlanConfigs (plan_uuid P) seed) (\<lambda>_.
       bnd findPlanRows (\<lambda>seeded.
       bnd (throw_if (seeded = []) (InternalServerError ''Plan catalog seed failed'')) (\<lambda>_.
       lift (buildPlanCatalogFromRows seeded))))))"

section \<open>What loading does\<close>

definition table_there :: "'a plan_state_scheme \<Rightarrow> 'a plan_state_scheme" where
  "table_there s = (if plan_table s then s else s\<lparr>plan_table := True, planConfigs := []\<rparr>)"

lemma table_there_simps [simp]:
  "plan_table (table_there s)" "table_there (table_there s) = table_there s"
  by (simp_all add: table_there_def)

lemma plan_rows_eq: "plan_rows s = (Inr (sort_key c_rank (planConfigs (table_there s))), table_there s)"
  by (simp add: plan_rows_def findPlanRows_def ensurePlanConfigTable_def table_there_def io_simps)

lemma findPlanRows_eq: "plan_table s \<Longrightarrow> findPlanRows s = (Inr (sort_key c_rank (planConfigs s)), s)"
  by (simp add: findPlanRows_def io_simps)

lemma sort_key_Nil_iff [simp]: "sort_key f xs = [] \<longleftrightarrow> xs = []"
  by (metis length_0_conv length_sort)

definition plan_rows_present :: "'a plan_state_scheme \<Rightarrow> bool" where
  "plan_rows_present s \<longleftrightarrow> plan_table s \<and> planConfigs s \<noteq> []"

lemma getPlanCatalog_present:
  assumes "plan_rows_present s"
  shows "getPlanCatalog P s = (buildPlanCatalogFromRows (sort_key c_rank (planConfigs s)), s)"
  using assms by (simp add: getPlanCatalog_def bnd_eq plan_rows_eq table_there_def plan_rows_present_def)

lemma seedPlanConfigs_cases:
  "seedPlanConfigs uuid seed s = (r, t) \<Longrightarrow>
     (r = Inl (PrismaError ''validation'') \<and> t = s) \<or>
     (r = Inr () \<and> t = s\<lparr>planConfigs :=
        insert_skipping (map (\<lambda>p. the (seed_row uuid p (seed p))) REQUIRED_PLAN_IDS) (planConfigs s)\<rparr> \<and>
      (\<forall>p \<in> set REQUIRED_PLAN_IDS. seed_row uuid p (seed p) \<noteq> None))"
  unfolding seedPlanConfigs_def Let_def
  by (auto simp: image_iff comp_def eq_commute [of None] split: if_splits)

text \<open>Loading writes the table of plans and nothing else.\<close>

lemma getPlanCatalog_frame:
  assumes "getPlanCatalog P s = (r, t)"
  shows "t = s\<lparr>planConfigs := planConfigs t, plan_table := True\<rparr>"
proof (cases "planConfigs (table_there s) = []")
  case False
  then have "t = table_there s" using assms
    by (auto simp: getPlanCatalog_def bnd_eq plan_rows_eq)
  then show ?thesis by (auto simp: table_there_def)
next
  case True
  then show ?thesis using assms
    by (auto simp: getPlanCatalog_def bnd_eq plan_rows_eq findPlanRows_eq io_simps table_there_def
        split: sum.splits prod.splits if_splits dest!: seedPlanConfigs_cases)
qed

lemma getPlanCatalog_keeps:
  assumes "getPlanCatalog P s = (r, t)"
  shows "users t = users s" "userQuotas t = userQuotas s" "virtualMachines t = virtualMachines s"
    "payments t = payments s" "universities t = universities s"
    "studentEmailVerifications t = studentEmailVerifications s" "plan_table t"
    "stripeWebhookEvents t = stripeWebhookEvents s" "plan_state.more t = plan_state.more s"
  by (subst getPlanCatalog_frame [OF assms]; simp)+

lemma getPlanCatalog_Inr:
  assumes "getPlanCatalog P s = (Inr cat, t)"
  shows "plan_rows_present t \<and> buildPlanCatalogFromRows (sort_key c_rank (planConfigs t)) = Inr cat"
proof (cases "planConfigs (table_there s) = []")
  case False
  then show ?thesis using assms
    by (auto simp: getPlanCatalog_def bnd_eq plan_rows_eq plan_rows_present_def)
next
  case True
  then show ?thesis using assms
    by (auto simp: getPlanCatalog_def bnd_eq plan_rows_eq findPlanRows_eq io_simps plan_rows_present_def
        split: sum.splits prod.splits if_splits dest!: seedPlanConfigs_cases)
qed

lemma row_of_plan_Some: "row_of_plan rows p = Some r \<Longrightarrow> r \<in> set rows \<and> c_planId r = plan_name p"
  by (auto simp: row_of_plan_def dest: find_Some_set)

lemma build_catalog_Inr:
  assumes "buildPlanCatalogFromRows rows = Inr cat" "p \<noteq> UNLIMITED"
  shows "\<exists>r \<in> set rows. c_planId r = plan_name p \<and> cat p = config_of_row r"
proof -
  have "row_of_plan rows p \<noteq> None"
    using assms by (cases p)
      (auto simp: buildPlanCatalogFromRows_def missing_plans_def REQUIRED_PLAN_IDS_def split: if_splits)
  then show ?thesis using assms row_of_plan_Some
    by (fastforce simp: buildPlanCatalogFromRows_def split: if_splits)
qed

lemma catalog_UNLIMITED: "buildPlanCatalogFromRows rows = Inr cat \<Longrightarrow> cat UNLIMITED = UNLIMITED_PLAN_CONFIG"
  by (auto simp: buildPlanCatalogFromRows_def split: if_splits)

text \<open>
  Whenever the catalog loads, every plan of it has the values of that plan's row in the
  table, the unlimited plan has its fixed values, and loading it again gives the same catalog
  and writes nothing.
\<close>

theorem getPlanCatalog_stable:
  assumes "getPlanCatalog P s = (Inr cat, t)"
  shows "getPlanCatalog P' t = (Inr cat, t) \<and> cat UNLIMITED = UNLIMITED_PLAN_CONFIG \<and>
    (\<forall>p. p \<noteq> UNLIMITED \<longrightarrow> (\<exists>r \<in> set (planConfigs t). c_planId r = plan_name p \<and> cat p = config_of_row r))"
  using getPlanCatalog_Inr [OF assms] getPlanCatalog_present [of t P'] build_catalog_Inr catalog_UNLIMITED
  by fastforce

lemma build_catalog_Inl_iff:
  "(\<exists>e. buildPlanCatalogFromRows rows = Inl e) \<longleftrightarrow>
     (\<exists>p \<in> set REQUIRED_PLAN_IDS. \<forall>r \<in> set rows. c_planId r \<noteq> plan_name p)"
proof -
  have "row_of_plan rows p = None \<longleftrightarrow> (\<forall>r \<in> set rows. c_planId r \<noteq> plan_name p)" for p
    by (auto simp: row_of_plan_def find_None_iff)
  then show ?thesis
    by (auto simp: buildPlanCatalogFromRows_def missing_plans_def filter_empty_conv)
qed

section \<open>Seeding\<close>

text \<open>A configured plan whose numbers fit the columns.\<close>

definition fits_columns :: "seed_config \<Rightarrow> bool" where
  "fits_columns e \<longleftrightarrow> list_all (\<lambda>x. int_column x \<noteq> None)
     [e_rank e, e_vmHoursMonthly e, e_maxVms e, e_maxCpu e, e_maxRamMb e, e_maxDiskGb e]"

lemma int_column_Some: "int_column x = Some i \<Longrightarrow> of_int i = x"
  by (auto simp: int_column_def split: if_splits)

lemma seed_row_fits:
  assumes "fits_columns e"
  shows "\<exists>r. seed_row uuid p e = Some r \<and> c_id r = uuid p \<and> c_planId r = plan_name p \<and>
    c_amountDt r = e_amountDt e \<and> of_int (c_maxVms r) = e_maxVms e \<and> of_int (c_maxCpu r) = e_maxCpu e \<and>
    of_int (c_maxRamMb r) = e_maxRamMb e \<and> of_int (c_maxDiskGb r) = e_maxDiskGb e"
  using assms by (auto simp: fits_columns_def seed_row_def int_column_Some)

lemma distinct_map_insort: "distinct (map f (insort_key g x xs)) \<longleftrightarrow> f x \<notin> f ` set xs \<and> distinct (map f xs)"
  by (induction xs) (auto simp: set_insort_key)

lemma distinct_map_sort: "distinct (map f (sort_key g xs)) \<longleftrightarrow> distinct (map f xs)"
  by (induction xs) (simp_all add: distinct_map_insort)

text \<open>
  The first load of an empty or missing table succeeds when the configuration is valid
  and its numbers fit the columns: the table then has one row for each of the three plans, and
  the catalog has the configured prices and limits.
\<close>

theorem seeding_installs_config:
  assumes "planConfigs s = []" "loadManagedSubscriptionCatalogFromEnv (json_of P) (plan_env P) = Inr seed"
    and "\<forall>p. fits_columns (seed p)" "inj (plan_uuid P)"
  shows "\<exists>cat t. getPlanCatalog P s = (Inr cat, t) \<and>
    map c_planId (planConfigs t) = map plan_name REQUIRED_PLAN_IDS \<and>
    (\<forall>p \<in> set REQUIRED_PLAN_IDS. g_monthlyPriceDt (cat p) = e_amountDt (seed p) \<and>
       of_int (g_maxVms (cat p)) = e_maxVms (seed p) \<and> of_int (g_maxCpu (cat p)) = e_maxCpu (seed p) \<and>
       of_int (g_maxRamMb (cat p)) = e_maxRamMb (seed p) \<and> of_int (g_maxDiskGb (cat p)) = e_maxDiskGb (seed p))"
proof -
  define R where "R p = the (seed_row (plan_uuid P) p (seed p))" for p
  have R: "seed_row (plan_uuid P) p (seed p) = Some (R p) \<and> c_id (R p) = plan_uuid P p \<and>
    c_planId (R p) = plan_name p \<and> c_amountDt (R p) = e_amountDt (seed p) \<and>
    of_int (c_maxVms (R p)) = e_maxVms (seed p) \<and> of_int (c_maxCpu (R p)) = e_maxCpu (seed p) \<and>
    of_int (c_maxRamMb (R p)) = e_maxRamMb (seed p) \<and> of_int (c_maxDiskGb (R p)) = e_maxDiskGb (seed p)" for p
    using seed_row_fits [of "seed p" "plan_uuid P" p] assms(3) by (auto simp: R_def)
  have ids: "plan_uuid P p = plan_uuid P q \<longleftrightarrow> p = q" for p q
    using assms(4) by (auto dest: injD)
  let ?rs = "map R REQUIRED_PLAN_IDS"
  let ?t = "(table_there s)\<lparr>planConfigs := ?rs\<rparr>" and ?rows = "sort_key c_rank ?rs"
  have seeded: "seedPlanConfigs (plan_uuid P) seed (table_there s) = (Inr (), ?t)"
    using assms(1) R by (simp add: seedPlanConfigs_def REQUIRED_PLAN_IDS_def table_there_def ids)
  have rows: "row_of_plan ?rows p = Some (R p)" if "p \<in> set REQUIRED_PLAN_IDS" for p
  proof -
    have "distinct (map c_planId (rev ?rows))"
      using R by (simp add: distinct_map_sort rev_map [symmetric] REQUIRED_PLAN_IDS_def del: sort_key_simps)
    moreover have "R p \<in> set (rev ?rows)" using that by simp
    ultimately show ?thesis
      using distinct_key_find [of c_planId "rev ?rows" "R p"] R by (simp add: row_of_plan_def)
  qed
  then have "missing_plans ?rows = []" by (simp add: missing_plans_def filter_empty_conv)
  moreover define cat where "cat p = (if p = UNLIMITED then UNLIMITED_PLAN_CONFIG
    else config_of_row (the (row_of_plan ?rows p)))" for p
  ultimately have cat: "buildPlanCatalogFromRows ?rows = Inr cat"
    by (simp add: buildPlanCatalogFromRows_def fun_eq_iff)
  have cat_R: "cat p = config_of_row (R p)" if "p \<in> set REQUIRED_PLAN_IDS" for p
    using rows [OF that] that by (auto simp: cat_def REQUIRED_PLAN_IDS_def simp del: sort_key_simps)
  have "?rs \<noteq> []" by (simp add: REQUIRED_PLAN_IDS_def)
  then have "getPlanCatalog P s = (Inr cat, ?t)"
    using assms(1,2) seeded cat
    by (simp add: getPlanCatalog_def bnd_eq plan_rows_eq findPlanRows_eq table_there_def throw_if_eq
        split: if_splits)
  then show ?thesis
    using R cat_R by (auto simp: config_of_row_def comp_def)
qed

section \<open>A concrete catalog\<close>

definition json_plan :: "int \<Rightarrow> int \<Rightarrow> int \<Rightarrow> int \<Rightarrow> int \<Rightarrow> int \<Rightarrow> int \<Rightarrow> json" where
  "json_plan amount rk hours vms cpu ram disk =
     (let n = (\<lambda>i. JNum (Some (of_int i))) in
      JObj [(''amountDt'', n amount), (''rank'', n rk), (''vmHoursMonthly'', n hours),
        (''quota'', JObj [(''maxVms'', n vms), (''maxCpu'', n cpu), (''maxRamMb'', n ram), (''maxDiskGb'', n disk)])])"

definition sample_json :: json where
  "sample_json = JObj [(''student'', json_plan 10 1 200 2 2 2048 20), (''pro'', json_plan 30 2 500 5 8 8192 100),
     (''enterprise'', json_plan 80 3 2000 15 32 65536 500)]"

definition sample_plans :: plan_deps where
  "sample_plans = \<lparr>json_of = (\<lambda>_. Some sample_json), plan_env = [''PLAN_CATALOG_JSON'' \<mapsto> ''{}''],
     plan_uuid = (\<lambda>p. plan_name p)\<rparr>"

definition no_plans :: plan_state where
  "no_plans = db.extend empty_db \<lparr>plan_table = False\<rparr>"

definition sample_seed :: "plan_id \<Rightarrow> seed_config" where
  "sample_seed p = read_config (member (Some sample_json) (plan_name p))"

lemma sample_seed_loads: "loadManagedSubscriptionCatalogFromEnv (json_of sample_plans) (plan_env sample_plans) = Inr sample_seed"
proof -
  have "check_configs (Some sample_json) REQUIRED_PLAN_IDS = Inr ()"
    by (simp add: sample_json_def json_plan_def REQUIRED_PLAN_IDS_def valid_config_def at_least_def positive_def Let_def)
  then show ?thesis
    by (simp add: loadManagedSubscriptionCatalogFromEnv_def sample_plans_def sample_seed_def fun_eq_iff)
qed

text \<open>The seed of the fourth plan is read from a missing member and has only zeros.\<close>

lemma sample_seed_fits: "\<forall>p. fits_columns (sample_seed p)"
proof
  fix p
  show "fits_columns (sample_seed p)"
    by (cases p) (simp_all add: fits_columns_def sample_seed_def read_config_def sample_json_def json_plan_def
        int_column_def Let_def)
qed

theorem seeding_installs_config_witness:
  "\<exists>cat t. getPlanCatalog sample_plans no_plans = (Inr cat, t) \<and>
     map c_planId (planConfigs t) = [''student'', ''pro'', ''enterprise''] \<and> g_monthlyPriceDt (cat PRO) = 30"
proof -
  have "inj (plan_uuid sample_plans)" by (simp add: sample_plans_def inj_def)
  from seeding_installs_config [OF _ sample_seed_loads sample_seed_fits this, of no_plans]
  show ?thesis
    by (auto simp: no_plans_def db.extend_def empty_db_def REQUIRED_PLAN_IDS_def sample_seed_def read_config_def
        sample_json_def json_plan_def Let_def)
qed

definition sample_rows :: "plan_row list" where
  "sample_rows =
     [\<lparr>c_id = ''s'', c_planId = ''student'', c_amountDt = 10, c_rank = 1, c_vmHoursMonthly = 200, c_maxVms = 2,
       c_maxCpu = 2, c_maxRamMb = 2048, c_maxDiskGb = 20\<rparr>,
      \<lparr>c_id = ''p'', c_planId = ''pro'', c_amountDt = 30, c_rank = 2, c_vmHoursMonthly = 500, c_maxVms = 5,
       c_maxCpu = 8, c_maxRamMb = 8192, c_maxDiskGb = 100\<rparr>,
      \<lparr>c_id = ''e'', c_planId = ''enterprise'', c_amountDt = 80, c_rank = 3, c_vmHoursMonthly = 2000, c_maxVms = 15,
       c_maxCpu = 32, c_maxRamMb = 65536, c_maxDiskGb = 500\<rparr>]"

fun sample_catalog :: catalog where
  "sample_catalog STUDENT = config_of_row (sample_rows ! 0)"
| "sample_catalog PRO = config_of_row (sample_rows ! 1)"
| "sample_catalog ENTERPRISE = config_of_row (sample_rows ! 2)"
| "sample_catalog UNLIMITED = UNLIMITED_PLAN_CONFIG"

lemma sample_rows_build: "buildPlanCatalogFromRows (sort_key c_rank sample_rows) = Inr sample_catalog"
proof -
  have "(if p = UNLIMITED then UNLIMITED_PLAN_CONFIG
     else config_of_row (the (row_of_plan (sort_key c_rank sample_rows) p))) = sample_catalog p" for p
    by (cases p) (simp_all add: row_of_plan_def sample_rows_def)
  moreover have "missing_plans (sort_key c_rank sample_rows) = []"
    by (simp add: missing_plans_def REQUIRED_PLAN_IDS_def row_of_plan_def sample_rows_def)
  ultimately show ?thesis by (simp add: buildPlanCatalogFromRows_def fun_eq_iff)
qed

lemma sample_catalog_loads:
  "planConfigs s = sample_rows \<Longrightarrow> plan_table s \<Longrightarrow> getPlanCatalog P s = (Inr sample_catalog, s)"
  using getPlanCatalog_present [of s P] sample_rows_build
  by (simp add: plan_rows_present_def sample_rows_def)

theorem getPlanCatalog_stable_witness:
  "getPlanCatalog sample_plans (no_plans\<lparr>planConfigs := sample_rows, plan_table := True\<rparr>) =
     (Inr sample_catalog, no_plans\<lparr>planConfigs := sample_rows, plan_table := True\<rparr>) \<and>
   sample_catalog UNLIMITED = UNLIMITED_PLAN_CONFIG"
  using getPlanCatalog_stable [OF sample_catalog_loads, of "no_plans\<lparr>planConfigs := sample_rows, plan_table := True\<rparr>" sample_plans]
  by simp

end
