(* ===== verification/Account_Rows.thy ===== *)
theory Account_Rows
  imports Cloud_Schema
begin

text \<open>
  The rows of the table of users, as the auth service and the user service write them: updates
  and inserts with their constraint errors, the accounts' uniqueness as an invariant, and the
  projection of an account that the auth service sends to the user service.
\<close>

section \<open>Rows of users\<close>

text \<open>An update fails without a row, and where it would duplicate an address or Google account.\<close>

definition user_clash :: "user_row \<Rightarrow> 'a db_scheme \<Rightarrow> bool" where
  "user_clash u s \<longleftrightarrow> (\<exists>x \<in> set (users s). u_id x \<noteq> u_id u \<and> same_account u x)"

definition update_user :: "id \<Rightarrow> (user_row \<Rightarrow> user_row) \<Rightarrow> ('a db_scheme, user_row) io" where
  "update_user i f =
     bnd (asks (find_user i)) (\<lambda>r.
     bnd (require (PrismaError ''P2025'') r) (\<lambda>u.
     bnd (asks (user_clash (f u))) (\<lambda>clash.
     bnd (throw_if clash (PrismaError ''P2002'')) (\<lambda>_.
     bnd (modify (\<lambda>s. s\<lparr>users := update_many (\<lambda>x. u_id x = i) f (users s)\<rparr>)) (\<lambda>_.
     ret (f u))))))"

definition insert_user :: "user_row \<Rightarrow> ('a db_scheme, user_row) io" where
  "insert_user u =
     bnd (asks (\<lambda>s. user_clash u s \<or> find_user (u_id u) s \<noteq> None)) (\<lambda>clash.
     bnd (throw_if clash (PrismaError ''P2002'')) (\<lambda>_.
     bnd (modify (\<lambda>s. s\<lparr>users := users s @ [u]\<rparr>)) (\<lambda>_. ret u)))"

definition excludePassword :: "user_row \<Rightarrow> user_row" where
  "excludePassword u = u\<lparr>u_password := []\<rparr>"

section \<open>The projection of an account\<close>

text \<open>
  \<open>googleId\<close> may be absent (\<open>None\<close>), null (\<open>Some None\<close>) or a string; \<open>mfaEnabledAt\<close> is read as a
  date.
\<close>

record sync_payload =
  y_id :: id
  y_email :: string
  y_googleId :: "string option option"
  y_firstName :: string
  y_lastName :: string
  y_role :: "string option"
  y_isActive :: "bool option"
  y_mfaEnabled :: "bool option"
  y_mfaEnabledAt :: "time option"

section \<open>Runs\<close>

lemma update_user_Inr_iff [io_iffs]:
  "update_user i f s = (Inr u', t) \<longleftrightarrow>
     (\<exists>u. find_user i s = Some u \<and> u' = f u \<and> \<not> user_clash (f u) s \<and>
        t = s\<lparr>users := update_many (\<lambda>x. u_id x = i) f (users s)\<rparr>)"
  by (auto simp: update_user_def io_iffs)

lemma update_user_Inl_iff [io_iffs]:
  "update_user i f s = (Inl e, t) \<longleftrightarrow> t = s \<and>
     (find_user i s = None \<and> e = PrismaError ''P2025'' \<or>
      (\<exists>u. find_user i s = Some u \<and> user_clash (f u) s \<and> e = PrismaError ''P2002''))"
  by (auto simp: update_user_def io_iffs)

lemma insert_user_Inr_iff [io_iffs]:
  "insert_user u s = (Inr u', t) \<longleftrightarrow>
     u' = u \<and> \<not> user_clash u s \<and> find_user (u_id u) s = None \<and> t = s\<lparr>users := users s @ [u]\<rparr>"
  by (auto simp: insert_user_def io_iffs)

lemma insert_user_Inl_state: "insert_user u s = (Inl e, t) \<Longrightarrow> t = s"
  by (auto simp: insert_user_def io_iffs)

section \<open>Unique accounts\<close>

lemma find_user_update:
  assumes "\<And>x. u_id (f x) = u_id x"
  shows "find_user j (s\<lparr>users := update_many (\<lambda>x. u_id x = i) f (users s)\<rparr>) =
    (if j = i then map_option f (find_user j s) else find_user j s)"
proof -
  have "List.find (\<lambda>x. u_id x = j) (update_many (\<lambda>x. u_id x = i) f us) =
      (if j = i then map_option f (List.find (\<lambda>x. u_id x = j) us) else List.find (\<lambda>x. u_id x = j) us)" for us
    using assms by (induction us) auto
  then show ?thesis by (simp add: find_user_def)
qed

lemma no_user_clash:
  "user_keys_ok (users s) \<Longrightarrow> find_user i s = Some u \<Longrightarrow> \<not> user_clash u s"
  using find_user_Some [of i s u] by (auto simp: user_keys_ok_def user_clash_def)

lemma user_keys_update:
  assumes "user_keys_ok (users s)" "find_user i s = Some u" "\<not> user_clash (f u) s" "\<And>x. u_id (f x) = u_id x"
  shows "user_keys_ok (update_many (\<lambda>x. u_id x = i) f (users s))"
proof -
  have u: "u \<in> set (users s)" "u_id u = i" using find_user_Some [OF assms(2)] by auto
  have row: "x = u" if "x \<in> set (users s)" "u_id x = i" for x
    using distinct_key_eq [of u_id "users s" x u] u assms(1) that by (simp add: user_keys_ok_def)
  have new: "u_id x = i" if "x \<in> set (users s)" "same_account (f u) x" for x
    using that assms(3,4) u by (auto simp: user_clash_def)
  have "u_id x = u_id y" if xy: "x \<in> set (update_many (\<lambda>x. u_id x = i) f (users s))"
    "y \<in> set (update_many (\<lambda>x. u_id x = i) f (users s))" "same_account x y" for x y
  proof -
    obtain a b where ab: "a \<in> set (users s)" "b \<in> set (users s)" "x = (if u_id a = i then f a else a)"
      "y = (if u_id b = i then f b else b)"
      using xy(1,2) by (auto simp: set_update_many)
    consider "u_id a = i" "u_id b = i" | "u_id a = i" "u_id b \<noteq> i" | "u_id a \<noteq> i" "u_id b = i" | "u_id a \<noteq> i" "u_id b \<noteq> i"
      by blast
    then have "u_id a = u_id b"
    proof cases
      case 2
      then show ?thesis using ab row [of a] new [of b] xy(3) by simp
    next
      case 3
      then show ?thesis using ab row [of b] new [of a] same_account_sym [OF xy(3)] by simp
    next
      case 4
      then show ?thesis using ab xy(3) assms(1) by (simp add: user_keys_ok_def)
    qed simp
    then show ?thesis using ab assms(4) by simp
  qed
  moreover have "map u_id (update_many (\<lambda>x. u_id x = i) f (users s)) = map u_id (users s)"
    using assms(4) by (simp add: update_many_def)
  ultimately show ?thesis using assms(1) by (simp add: user_keys_ok_def)
qed

abbreviation users_unique :: "'a db_scheme \<Rightarrow> bool" where
  "users_unique s \<equiv> user_keys_ok (users s)"

lemma update_user_unique [preserves_intros]:
  assumes "\<And>x. u_id (f x) = u_id x"
  shows "preserves users_unique (update_user i f)"
proof (rule preservesI)
  fix s r t assume "users_unique s" "update_user i f s = (r, t)"
  then show "users_unique t" using user_keys_update [OF _ _ _ assms] by (cases r) (auto simp: io_iffs)
qed

lemma insert_user_unique [preserves_intros]: "preserves users_unique (insert_user u)"
proof (rule preservesI)
  fix s r t assume a: "users_unique s" "insert_user u s = (r, t)"
  show "users_unique t"
  proof (cases r)
    case (Inl e)
    then show ?thesis using a insert_user_Inl_state by auto
  next
    case (Inr v)
    then have "\<forall>x \<in> set (users s). u_id x \<noteq> u_id u" "\<forall>x \<in> set (users s). \<not> same_account u x" "users t = users s @ [u]"
      using a by (auto simp: io_iffs user_clash_def find_user_def find_None_iff)
    then show ?thesis using a(1) by (auto simp: user_keys_ok_def dest: same_account_sym)
  qed
qed

lemma user_keys_delete: "user_keys_ok t \<Longrightarrow> user_keys_ok (delete_many p t)"
  by (auto simp: user_keys_ok_def delete_many_def distinct_map_filter)

end
