(* ===== verification/User_Service.thy ===== *)
theory User_Service
  imports Plan_Catalog Paging Account_Rows
begin

text \<open>
  \<open>services/user/src/user/user.service.ts\<close>, the accounts: the projection that the auth service
  writes, student verification, universities, quotas and subscriptions, and what
  administrators may change. Billing and profiles are in \<open>User_Billing\<close>.
\<close>

section \<open>State\<close>

text \<open>The database, and the mails sent, oldest first, as address and code.\<close>

record user_state = plan_state +
  outbox :: "(string \<times> string) list"

text \<open>
  What one call takes from outside: the catalog's sources, the clock, the start of the month,
  the identifiers and the six-digit code it draws, SHA-256, \<open>bcrypt\<close>, and whether the mail
  server takes the mail.
\<close>

record user_deps =
  plans_of :: plan_deps
  now_at :: time
  month_start :: time
  new_id :: id
  quota_id :: id
  random_code :: nat
  sha256_hex :: "string \<Rightarrow> string"
  bcrypt_compare :: "string \<Rightarrow> string \<Rightarrow> bool"
  bcrypt_hash :: "string \<Rightarrow> string"
  mail_refused :: bool

section \<open>Administrators\<close>

definition assertAdminRole :: "string option \<Rightarrow> (user_state, unit) io" where
  "assertAdminRole actorRole = throw_if (actorRole \<noteq> Some ''ADMIN'') (Forbidden ''Admin role required'')"

definition assertAdminUser :: "id \<Rightarrow> (user_state, unit) io" where
  "assertAdminUser adminId =
     bnd (asks (find_user adminId)) (\<lambda>admin.
     throw_if (map_option u_role admin \<noteq> Some ADMIN) (Forbidden ''Admin role required''))"

section \<open>Quotas\<close>

definition set_limits :: "plan_id \<Rightarrow> plan_config \<Rightarrow> quota_row \<Rightarrow> quota_row" where
  "set_limits p g q =
     q\<lparr>q_maxVms := g_maxVms g, q_maxCpu := g_maxCpu g, q_maxRamMb := g_maxRamMb g,
       q_maxDiskGb := g_maxDiskGb g, q_planId := Some (plan_name p)\<rparr>"

definition upsertQuota :: "user_deps \<Rightarrow> id \<Rightarrow> plan_id \<Rightarrow> (user_state, quota_row) io" where
  "upsertQuota D userId planId =
     bnd (getPlanCatalog (plans_of D)) (\<lambda>catalog.
     bnd (asks (find_quota userId)) (\<lambda>old.
     case old of
       Some q \<Rightarrow>
         bnd (modify (\<lambda>s. s\<lparr>userQuotas := update_many (\<lambda>x. q_userId x = userId)
                (set_limits planId (catalog planId)) (userQuotas s)\<rparr>)) (\<lambda>_.
         ret (set_limits planId (catalog planId) q))
     | None \<Rightarrow>
         (let q = set_limits planId (catalog planId)
                \<lparr>q_id = quota_id D, q_userId = userId, q_planId = None, q_maxVms = 3, q_maxCpu = 4,
                 q_maxRamMb = 4096, q_maxDiskGb = 50\<rparr> in
          bnd (modify (\<lambda>s. s\<lparr>userQuotas := userQuotas s @ [q]\<rparr>)) (\<lambda>_. ret q))))"

section \<open>The projection of the auth service\<close>

definition sync_role :: "sync_payload \<Rightarrow> Role" where
  "sync_role y = (if y_role y = Some ''ADMIN'' then ADMIN else USER)"

definition sync_update :: "sync_payload \<Rightarrow> user_row \<Rightarrow> user_row" where
  "sync_update y u =
     u\<lparr>u_email := y_email y, u_firstName := y_firstName y, u_lastName := y_lastName y,
       u_role := sync_role y, u_isActive := nullish (y_isActive y) True,
       u_mfaEnabled := nullish (y_mfaEnabled y) False, u_mfaEnabledAt := y_mfaEnabledAt y,
       u_googleId := nullish (y_googleId y) (u_googleId u)\<rparr>"

definition sync_create :: "user_deps \<Rightarrow> sync_payload \<Rightarrow> user_row" where
  "sync_create D y =
     \<lparr>u_id = y_id y, u_email = y_email y,
      u_googleId = (case y_googleId y of Some (Some g) \<Rightarrow> if g = [] then None else Some g | _ \<Rightarrow> None),
      u_password = [], u_firstName = y_firstName y, u_lastName = y_lastName y, u_role = sync_role y,
      u_isActive = nullish (y_isActive y) True, u_mfaEnabled = nullish (y_mfaEnabled y) False,
      u_mfaSecret = None, u_mfaEnabledAt = y_mfaEnabledAt y, u_mfaRecoveryCodeHashes = [],
      u_mfaRecoveryCodesGeneratedAt = None, u_studentEmailVerified = False,
      u_studentEmailVerifiedAt = None, u_createdAt = now_at D\<rparr>"

definition syncFromAuth :: "user_deps \<Rightarrow> sync_payload \<Rightarrow> (user_state, user_row) io" where
  "syncFromAuth D y =
     bnd (asks (find_user (y_id y))) (\<lambda>old.
     bnd (if old \<noteq> None then update_user (y_id y) (sync_update y) else insert_user (sync_create D y)) (\<lambda>user.
     bnd (if sync_role y = ADMIN then bnd (upsertQuota D (u_id user) UNLIMITED) (\<lambda>_. ret ()) else ret ()) (\<lambda>_.
     ret user)))"

section \<open>Student verification\<close>

definition isStudentEmail :: "string \<Rightarrow> 'a db_scheme \<Rightarrow> bool" where
  "isStudentEmail email s \<longleftrightarrow>
     (\<exists>n \<in> set (universities s). n_isActive n \<and> ends_with (toLowerCase email) (toLowerCase (n_emailDomain n)))"

definition requestStudentEmailVerification :: "user_deps \<Rightarrow> id \<Rightarrow> (user_state, string) io" where
  "requestStudentEmailVerification D userId =
     bnd (asks (find_user userId)) (\<lambda>r.
     bnd (require (NotFound ''User not found'') r) (\<lambda>user.
     bnd (asks (isStudentEmail (u_email user))) (\<lambda>student.
     bnd (throw_if (\<not> student)
            (BadRequest ''Your email address does not belong to a recognised student domain.'')) (\<lambda>_.
     if u_studentEmailVerified user then ret ''Student email is already verified.''
     else
       (let code = show_nat (random_code D);
            row = \<lparr>s_id = new_id D, s_userId = userId, s_email = u_email user, s_codeHash = sha256_hex D code,
                   s_expiresAt = now_at D + 15 * 60 * 1000, s_createdAt = now_at D\<rparr> in
        bnd (modify (\<lambda>s. s\<lparr>studentEmailVerifications :=
               delete_many (\<lambda>v. s_userId v = userId) (studentEmailVerifications s)\<rparr>)) (\<lambda>_.
        bnd (modify (\<lambda>s. s\<lparr>studentEmailVerifications := studentEmailVerifications s @ [row]\<rparr>)) (\<lambda>_.
        bnd (throw_if (mail_refused D) (InternalServerError ''Failed to send verification email'')) (\<lambda>_.
        bnd (modify (\<lambda>s. s\<lparr>outbox := outbox s @ [(u_email user, code)]\<rparr>)) (\<lambda>_.
        ret ''Verification code sent to your email.'')))))))))"

definition confirmStudentEmailVerification :: "user_deps \<Rightarrow> id \<Rightarrow> string \<Rightarrow> (user_state, string) io" where
  "confirmStudentEmailVerification D userId code =
     bnd (throw_if (code = []) (BadRequest ''Verification code is required.'')) (\<lambda>_.
     let codeHash = sha256_hex D (trim code) in
     bnd (asks (\<lambda>s. List.find (\<lambda>v. s_userId v = userId \<and> s_codeHash v = codeHash) (studentEmailVerifications s))) (\<lambda>r.
     bnd (require (BadRequest ''Invalid verification code.'') r) (\<lambda>record.
     if s_expiresAt record < now_at D then
       bnd (modify (\<lambda>s. s\<lparr>studentEmailVerifications :=
              delete_many (\<lambda>v. s_id v = s_id record) (studentEmailVerifications s)\<rparr>)) (\<lambda>_.
       throw (BadRequest ''Verification code has expired. Please request a new one.''))
     else
       bnd (update_user userId (\<lambda>u. u\<lparr>u_studentEmailVerified := True, u_studentEmailVerifiedAt := Some (now_at D)\<rparr>)) (\<lambda>_.
       bnd (modify (\<lambda>s. s\<lparr>studentEmailVerifications :=
              delete_many (\<lambda>v. s_userId v = userId) (studentEmailVerifications s)\<rparr>)) (\<lambda>_.
       ret ''Student email verified successfully.'')))))"

definition getStudentVerificationStatus :: "id \<Rightarrow> (user_state, bool \<times> time option) io" where
  "getStudentVerificationStatus userId =
     bnd (asks (find_user userId)) (\<lambda>r.
     bnd (require (NotFound ''User not found'') r) (\<lambda>u.
     ret (u_studentEmailVerified u, u_studentEmailVerifiedAt u)))"

section \<open>Universities\<close>

definition normalizeUniversityDomain :: "string \<Rightarrow> string" where
  "normalizeUniversityDomain d = trim d"

text \<open>The pattern \<open>^[@.][a-z0-9.-]+\.[a-z]{2,}$\<close>: the last dot separates the two parts.\<close>

definition is_lower :: "char \<Rightarrow> bool" where
  "is_lower c \<longleftrightarrow> (let n = of_char c :: nat in 97 \<le> n \<and> n \<le> 122)"

definition domain_pattern :: "string \<Rightarrow> bool" where
  "domain_pattern d =
     (case d of
        [] \<Rightarrow> False
      | c # r \<Rightarrow>
          (let ws = split_on CHR ''.'' r; front = join_with ''.'' (butlast ws) in
           (c = CHR ''@'' \<or> c = CHR ''.'') \<and> 2 \<le> length ws \<and> front \<noteq> [] \<and>
           list_all (\<lambda>x. is_lower x \<or> is_digit x \<or> x = CHR ''.'' \<or> x = CHR ''-'') front \<and>
           2 \<le> length (last ws) \<and> list_all is_lower (last ws)))"

definition validateUniversityDomain :: "string \<Rightarrow> exn + string" where
  "validateUniversityDomain d =
     (if d = [] then Inl (BadRequest ''Email domain is required.'')
      else if d \<noteq> toLowerCase d then Inl (BadRequest ''Email domain must be lowercase.'')
      else if str_includes d '' '' then Inl (BadRequest ''Email domain must not contain spaces.'')
      else if \<not> domain_pattern d
      then Inl (BadRequest ''Email domain must start with @ or . and match the expected university format.'')
      else Inr d)"

definition listUniversities :: "(string \<Rightarrow> nat) \<Rightarrow> id \<Rightarrow> (user_state, university_row list) io" where
  "listUniversities collation adminId =
     bnd (assertAdminUser adminId) (\<lambda>_. asks (\<lambda>s. sort_key (\<lambda>n. collation (n_name n)) (universities s)))"

definition createUniversity :: "user_deps \<Rightarrow> string \<Rightarrow> string \<Rightarrow> id \<Rightarrow> (user_state, university_row) io" where
  "createUniversity D dtoName dtoDomain adminId =
     bnd (assertAdminUser adminId) (\<lambda>_.
     let name = trim dtoName in
     bnd (lift (validateUniversityDomain (normalizeUniversityDomain dtoDomain))) (\<lambda>emailDomain.
     bnd (asks (\<lambda>s. \<exists>n \<in> set (universities s). n_name n = name \<or> n_emailDomain n = emailDomain)) (\<lambda>existing.
     bnd (throw_if existing (Conflict ''University name or email domain already exists.'')) (\<lambda>_.
     let row = \<lparr>n_id = new_id D, n_name = name, n_emailDomain = emailDomain, n_isActive = True,
                n_createdBy = adminId, n_createdAt = now_at D\<rparr> in
     bnd (asks (\<lambda>s. \<exists>n \<in> set (universities s). n_id n = n_id row)) (\<lambda>taken.
     bnd (throw_if taken (PrismaError ''P2002'')) (\<lambda>_.
     bnd (modify (\<lambda>s. s\<lparr>universities := universities s @ [row]\<rparr>)) (\<lambda>_. ret row)))))))"

definition find_university :: "id \<Rightarrow> 'a db_scheme \<Rightarrow> university_row option" where
  "find_university i s = List.find (\<lambda>n. n_id n = i) (universities s)"

definition updateUniversity ::
    "id \<Rightarrow> string option \<Rightarrow> string option \<Rightarrow> id \<Rightarrow> (user_state, university_row) io" where
  "updateUniversity i dtoName dtoDomain adminId =
     bnd (assertAdminUser adminId) (\<lambda>_.
     bnd (asks (find_university i)) (\<lambda>r.
     bnd (require (NotFound ''University not found'') r) (\<lambda>university.
     let name = (case dtoName of None \<Rightarrow> n_name university | Some n \<Rightarrow> trim n) in
     bnd (lift (case dtoDomain of
            None \<Rightarrow> Inr (n_emailDomain university)
          | Some d \<Rightarrow> validateUniversityDomain (normalizeUniversityDomain d))) (\<lambda>emailDomain.
     bnd (asks (\<lambda>s. \<exists>n \<in> set (universities s). n_id n \<noteq> i \<and> (n_name n = name \<or> n_emailDomain n = emailDomain))) (\<lambda>dup.
     bnd (throw_if dup (Conflict ''University name or email domain already exists.'')) (\<lambda>_.
     let f = (\<lambda>n. n\<lparr>n_name := name, n_emailDomain := emailDomain\<rparr>) in
     bnd (modify (\<lambda>s. s\<lparr>universities := update_many (\<lambda>n. n_id n = i) f (universities s)\<rparr>)) (\<lambda>_.
     ret (f university))))))))"

definition deleteUniversity :: "id \<Rightarrow> id \<Rightarrow> (user_state, string) io" where
  "deleteUniversity i adminId =
     bnd (assertAdminUser adminId) (\<lambda>_.
     bnd (asks (find_university i)) (\<lambda>r.
     bnd (require (NotFound ''University not found'') r) (\<lambda>university.
     bnd (asks (\<lambda>s. \<exists>u \<in> set (users s). u_studentEmailVerified u \<and>
            ends_with (toLowerCase (u_email u)) (toLowerCase (n_emailDomain university)))) (\<lambda>verified.
     bnd (throw_if verified
            (Conflict ''This university cannot be deleted because verified students still use this email domain.'')) (\<lambda>_.
     bnd (modify (\<lambda>s. s\<lparr>universities := delete_many (\<lambda>n. n_id n = i) (universities s)\<rparr>)) (\<lambda>_.
     ret ''University deleted successfully''))))))"

definition toggleUniversityActive :: "id \<Rightarrow> id \<Rightarrow> (user_state, university_row) io" where
  "toggleUniversityActive i adminId =
     bnd (assertAdminUser adminId) (\<lambda>_.
     bnd (asks (find_university i)) (\<lambda>r.
     bnd (require (NotFound ''University not found'') r) (\<lambda>university.
     let f = (\<lambda>n. n\<lparr>n_isActive := \<not> n_isActive university\<rparr>) in
     bnd (modify (\<lambda>s. s\<lparr>universities := update_many (\<lambda>n. n_id n = i) f (universities s)\<rparr>)) (\<lambda>_.
     ret (f university)))))"

section \<open>Profile and password\<close>

record profile_dto =
  f_firstName :: "string option"
  f_lastName :: "string option"
  f_email :: "string option"

definition updateProfile :: "id \<Rightarrow> profile_dto \<Rightarrow> (user_state, user_row) io" where
  "updateProfile userId dto =
     bnd (if truthy (f_email dto)
          then bnd (asks (find_user_email (the (f_email dto)))) (\<lambda>existing.
               throw_if (case existing of None \<Rightarrow> False | Some u \<Rightarrow> u_id u \<noteq> userId) (Conflict ''Email already in use''))
          else ret ()) (\<lambda>_.
     bnd (update_user userId (\<lambda>u. u\<lparr>u_firstName := nullish (f_firstName dto) (u_firstName u),
            u_lastName := nullish (f_lastName dto) (u_lastName u), u_email := nullish (f_email dto) (u_email u)\<rparr>)) (\<lambda>user.
     ret (excludePassword user)))"

definition changePassword :: "user_deps \<Rightarrow> id \<Rightarrow> string \<Rightarrow> string \<Rightarrow> (user_state, string) io" where
  "changePassword D userId oldPassword newPassword =
     bnd (asks (find_user userId)) (\<lambda>r.
     bnd (require (NotFound ''User not found'') r) (\<lambda>user.
     bnd (throw_if (\<not> bcrypt_compare D oldPassword (u_password user)) (BadRequest ''Current password is incorrect'')) (\<lambda>_.
     bnd (update_user userId (\<lambda>u. u\<lparr>u_password := bcrypt_hash D newPassword\<rparr>)) (\<lambda>_.
     ret ''Password changed successfully''))))"

section \<open>Administration\<close>

definition user_search :: "string option \<Rightarrow> user_row \<Rightarrow> bool" where
  "user_search search u \<longleftrightarrow> (truthy search \<longrightarrow>
     contains_ci (u_email u) (the search) \<or> contains_ci (u_firstName u) (the search) \<or> contains_ci (u_lastName u) (the search))"

definition findAll :: "js_int \<Rightarrow> js_int \<Rightarrow> string option \<Rightarrow> string option \<Rightarrow> (user_state, (user_row \<times> quota_row option) list_page) io" where
  "findAll pgn lmtn search actorRole =
     bnd (assertAdminRole actorRole) (\<lambda>_.
     case (pgn, lmtn) of
       (Fin pg, Fin lmt) \<Rightarrow>
         (let skip = (pg - 1) * lmt in
          bnd (throw_if (skip < 0) (PrismaError ''validation'')) (\<lambda>_.
          asks (\<lambda>s. let rows = filter (user_search search) (users s) in
            \<lparr>pg_data = map (\<lambda>u. (excludePassword u, find_quota (u_id u) s))
               (page_rows skip lmt (sort_key (\<lambda>u. - u_createdAt u) rows)),
             pg_total = length rows, pg_page = pg, pg_limit = lmt,
             pg_totalPages = (if lmt = 0 then None else Some (- ((- int (length rows)) div lmt)))\<rparr>)))
     | _ \<Rightarrow> throw (PrismaError ''validation''))"

definition findById :: "id \<Rightarrow> string option \<Rightarrow>
    (user_state, user_row \<times> quota_row option \<times> ssh_row list \<times> vm_row list) io" where
  "findById i actorRole =
     bnd (assertAdminRole actorRole) (\<lambda>_.
     bnd (asks (find_user i)) (\<lambda>r.
     bnd (require (NotFound ''User not found'') r) (\<lambda>user.
     asks (\<lambda>s. (excludePassword user, find_quota i s, filter (\<lambda>k. k_userId k = i) (sshKeys s),
                filter (\<lambda>v. v_userId v = i) (virtualMachines s))))))"

record admin_dto =
  ad_role :: "Role option"
  ad_isActive :: "bool option"

definition adminUpdateUser ::
    "user_deps \<Rightarrow> id \<Rightarrow> admin_dto \<Rightarrow> string option \<Rightarrow> id option \<Rightarrow> (user_state, user_row) io" where
  "adminUpdateUser D i dto actorRole actorUserId =
     bnd (assertAdminRole actorRole) (\<lambda>_.
     bnd (asks (find_user i)) (\<lambda>r.
     bnd (require (NotFound ''User not found'') r) (\<lambda>user.
     bnd (throw_if (Some i = actorUserId \<and> ad_role dto \<noteq> None \<and> ad_role dto \<noteq> Some ADMIN)
            (Forbidden ''You cannot remove your own admin role'')) (\<lambda>_.
     bnd (throw_if (Some i = actorUserId \<and> ad_isActive dto = Some False)
            (Forbidden ''You cannot deactivate your own account'')) (\<lambda>_.
     bnd (update_user i (\<lambda>u. u\<lparr>u_role := nullish (ad_role dto) (u_role u),
            u_isActive := nullish (ad_isActive dto) (u_isActive u)\<rparr>)) (\<lambda>updated.
     bnd (if ad_role dto = Some ADMIN then bnd (upsertQuota D i UNLIMITED) (\<lambda>_. ret ()) else ret ()) (\<lambda>_.
     bnd (if u_role user = ADMIN \<and> ad_role dto = Some USER
          then bnd (upsertQuota D i STUDENT) (\<lambda>_. ret ()) else ret ()) (\<lambda>_.
     ret (excludePassword updated)))))))))"

definition setUserSubscription ::
    "user_deps \<Rightarrow> id \<Rightarrow> plan_id \<Rightarrow> string option \<Rightarrow> id option \<Rightarrow> (user_state, plan_id \<times> quota_row) io" where
  "setUserSubscription D i planId actorRole actorUserId =
     bnd (assertAdminRole actorRole) (\<lambda>_.
     bnd (asks (find_user i)) (\<lambda>r.
     bnd (require (NotFound ''User not found'') r) (\<lambda>user.
     bnd (throw_if (Some i = actorUserId \<and> u_role user = ADMIN \<and> planId \<noteq> UNLIMITED)
            (Forbidden ''Admin accounts must remain on unlimited subscription'')) (\<lambda>_.
     let finalPlan = (if u_role user = ADMIN then UNLIMITED else planId) in
     bnd (upsertQuota D i finalPlan) (\<lambda>quota. ret (finalPlan, quota))))))"

definition activateSubscriptionPlanFromInternal ::
    "user_deps \<Rightarrow> id \<Rightarrow> plan_id \<Rightarrow> (user_state, id \<times> plan_id \<times> quota_row) io" where
  "activateSubscriptionPlanFromInternal D userId planId =
     bnd (asks (find_user userId)) (\<lambda>r.
     bnd (require (NotFound ''User not found'') r) (\<lambda>user.
     let finalPlan = (if u_role user = ADMIN then UNLIMITED else planId) in
     bnd (upsertQuota D userId finalPlan) (\<lambda>quota. ret (userId, finalPlan, quota))))"

text \<open>Deleting a user deletes the rows that refer to it.\<close>

definition cascade_delete :: "id \<Rightarrow> user_state \<Rightarrow> user_state" where
  "cascade_delete i s =
     s\<lparr>users := delete_many (\<lambda>u. u_id u = i) (users s),
       refreshTokens := delete_many (\<lambda>r. r_userId r = i) (refreshTokens s),
       sshKeys := delete_many (\<lambda>k. k_userId k = i) (sshKeys s),
       virtualMachines := delete_many (\<lambda>v. v_userId v = i) (virtualMachines s),
       userQuotas := delete_many (\<lambda>q. q_userId q = i) (userQuotas s),
       payments := delete_many (\<lambda>p. p_userId p = i) (payments s),
       mfaAuditLogs := delete_many (\<lambda>a. a_userId a = i) (mfaAuditLogs s),
       studentEmailVerifications := delete_many (\<lambda>v. s_userId v = i) (studentEmailVerifications s)\<rparr>"

definition deleteUser :: "id \<Rightarrow> string option \<Rightarrow> (user_state, string) io" where
  "deleteUser i actorRole =
     bnd (assertAdminRole actorRole) (\<lambda>_.
     bnd (asks (find_user i)) (\<lambda>r.
     bnd (require (NotFound ''User not found'') r) (\<lambda>_.
     bnd (modify (cascade_delete i)) (\<lambda>_. ret ''User deleted successfully''))))"

definition user_getStats :: "user_deps \<Rightarrow> string option \<Rightarrow> (user_state, nat \<times> nat \<times> nat) io" where
  "user_getStats D actorRole =
     bnd (assertAdminRole actorRole) (\<lambda>_.
     asks (\<lambda>s. (length (users s), count_rows u_isActive (users s),
                count_rows (\<lambda>u. u_createdAt u \<ge> month_start D) (users s))))"

section \<open>Runs of the building blocks\<close>

lemma assertAdminRole_Inr_iff [io_iffs]: "assertAdminRole r s = (Inr x, t) \<longleftrightarrow> r = Some ''ADMIN'' \<and> t = s"
  by (auto simp: assertAdminRole_def io_iffs)

lemma assertAdminUser_Inr_iff [io_iffs]:
  "assertAdminUser a s = (Inr x, t) \<longleftrightarrow> (\<exists>u. find_user a s = Some u \<and> u_role u = ADMIN) \<and> t = s"
  by (auto simp: assertAdminUser_def io_iffs)

lemma assertAdminUser_Inl_iff [io_iffs]:
  "assertAdminUser a s = (Inl e, t) \<longleftrightarrow>
     \<not> (\<exists>u. find_user a s = Some u \<and> u_role u = ADMIN) \<and> e = Forbidden ''Admin role required'' \<and> t = s"
  by (auto simp: assertAdminUser_def io_iffs)

text \<open>Every update of a user row the service makes keeps the identifier.\<close>

interpretation sync_keeps: key_preserving u_id "sync_update y" for y
  by unfold_locales (simp add: sync_update_def)

interpretation verify_keeps: key_preserving u_id
    "\<lambda>u. u\<lparr>u_studentEmailVerified := True, u_studentEmailVerifiedAt := t\<rparr>" for t
  by unfold_locales simp

interpretation role_keeps: key_preserving u_id
    "\<lambda>u. u\<lparr>u_role := nullish r (u_role u), u_isActive := nullish a (u_isActive u)\<rparr>" for r a
  by unfold_locales simp

interpretation profile_keeps: key_preserving u_id
    "\<lambda>u. u\<lparr>u_firstName := nullish a (u_firstName u), u_lastName := nullish b (u_lastName u),
          u_email := nullish c (u_email u)\<rparr>" for a b c
  by unfold_locales simp

interpretation limits_keep: key_preserving q_userId "set_limits p g" for p g
  by unfold_locales (simp add: set_limits_def)

interpretation university_toggle: key_preserving n_id "\<lambda>n. n\<lparr>n_isActive := b\<rparr>" for b
  by unfold_locales simp

interpretation university_rename: key_preserving n_id "\<lambda>n. n\<lparr>n_name := a, n_emailDomain := b\<rparr>" for a b
  by unfold_locales simp

section \<open>Subscriptions\<close>

definition limits_match :: "plan_config \<Rightarrow> quota_row \<Rightarrow> bool" where
  "limits_match g q \<longleftrightarrow> q_maxVms q = g_maxVms g \<and> q_maxCpu q = g_maxCpu g \<and>
     q_maxRamMb q = g_maxRamMb g \<and> q_maxDiskGb q = g_maxDiskGb g"

lemma set_limits_match: "limits_match g (set_limits p g q) \<and> q_planId (set_limits p g q) = Some (plan_name p)"
  by (simp add: limits_match_def set_limits_def)

text \<open>What a successful \<open>upsertQuota\<close> leaves behind.\<close>

lemma upsertQuota_Inr:
  assumes "upsertQuota D u p s = (Inr q, t)"
  shows "\<exists>cat. getPlanCatalog (plans_of D) t = (Inr cat, t) \<and> limits_match (cat p) q \<and>
    q_planId q = Some (plan_name p) \<and> find_quota u t = Some q \<and>
    (\<forall>u'. u' \<noteq> u \<longrightarrow> find_quota u' t = find_quota u' s) \<and>
    users t = users s \<and> virtualMachines t = virtualMachines s \<and> payments t = payments s \<and> outbox t = outbox s"
proof -
  obtain cat s' where cat: "getPlanCatalog (plans_of D) s = (Inr cat, s')"
    using assms by (auto simp: upsertQuota_def io_iffs)
  note keeps = getPlanCatalog_keeps [OF cat]
  have more: "outbox s' = outbox s" by (subst getPlanCatalog_frame [OF cat]) simp
  have find': "find_quota x s' = find_quota x s" for x using keeps(2) by (simp add: find_quota_def)
  have stable: "getPlanCatalog (plans_of D) t = (Inr cat, t)" if "planConfigs t = planConfigs s'" "plan_table t = plan_table s'"
    using getPlanCatalog_Inr [OF cat] getPlanCatalog_present [of t] that by (simp add: plan_rows_present_def)
  show ?thesis
  proof (cases "find_quota u s")
    case None
    then have "t = s'\<lparr>userQuotas := userQuotas s' @ [q]\<rparr>" "q_userId q = u"
      "limits_match (cat p) q \<and> q_planId q = Some (plan_name p)"
      using assms cat find' by (auto simp: upsertQuota_def bnd_eq Let_def set_limits_match) (simp add: set_limits_def)
    then show ?thesis using None find' keeps more stable
      by (auto simp: find_quota_def find_append split: option.split)
  next
    case (Some q0)
    then have "t = s'\<lparr>userQuotas := update_many (\<lambda>x. q_userId x = u) (set_limits p (cat p)) (userQuotas s')\<rparr>"
      "q = set_limits p (cat p) q0"
      using assms cat find' by (auto simp: upsertQuota_def bnd_eq)
    then show ?thesis using Some find' keeps more stable set_limits_match
      by (auto simp: find_quota_def limits_keep.find_update_key)
  qed
qed

lemma upsertQuota_Inl:
  assumes "upsertQuota D u p s = (Inl e, t)"
  shows "getPlanCatalog (plans_of D) s = (Inl e, t)"
  using assms by (auto simp: upsertQuota_def io_iffs Let_def split: option.splits)

text \<open>
  Activating a plan gives the user exactly that plan's limits: after a successful
  activation the user's quota carries the plan's name and the four limits of the catalog as it
  is then, an administrator gets the unlimited plan whatever was asked for, and no other user's
  quota, and no account, changes.
\<close>

theorem activation_sets_limits:
  assumes "activateSubscriptionPlanFromInternal D i p s = (Inr (i', fp, q), t)"
  shows "\<exists>user cat. find_user i s = Some user \<and> i' = i \<and> fp = (if u_role user = ADMIN then UNLIMITED else p) \<and>
    getPlanCatalog (plans_of D) t = (Inr cat, t) \<and> find_quota i t = Some q \<and>
    limits_match (cat fp) q \<and> q_planId q = Some (plan_name fp) \<and>
    (\<forall>j. j \<noteq> i \<longrightarrow> find_quota j t = find_quota j s) \<and> users t = users s"
  using assms unfolding activateSubscriptionPlanFromInternal_def Let_def
  by (auto simp: io_iffs dest!: upsertQuota_Inr)

section \<open>Administrators only\<close>

text \<open>The contract of a handler that checks the role of its caller first.\<close>

locale admin_only =
  fixes run :: "string option \<Rightarrow> (user_state, 'a) io"
  assumes refused: "r \<noteq> Some ''ADMIN'' \<Longrightarrow> run r s = (Inl (Forbidden ''Admin role required''), s)"
begin

lemma success_admin: "run r s = (Inr a, t) \<Longrightarrow> r = Some ''ADMIN''"
  using refused [of r s] by fastforce

end

lemma assertAdminRole_refuses:
  "r \<noteq> Some ''ADMIN'' \<Longrightarrow> bnd (assertAdminRole r) k s = (Inl (Forbidden ''Admin role required''), s)"
  by (simp add: assertAdminRole_def io_simps)

interpretation findAll_admin: admin_only "findAll p l q" for p l q
  by unfold_locales (simp add: findAll_def assertAdminRole_refuses)

interpretation findById_admin: admin_only "findById i" for i
  by unfold_locales (simp add: findById_def assertAdminRole_refuses)

interpretation adminUpdate_admin: admin_only "\<lambda>r. adminUpdateUser D i dto r a" for D i dto a
  by unfold_locales (simp add: adminUpdateUser_def assertAdminRole_refuses)

interpretation setSubscription_admin: admin_only "\<lambda>r. setUserSubscription D i p r a" for D i p a
  by unfold_locales (simp add: setUserSubscription_def assertAdminRole_refuses)

interpretation deleteUser_admin: admin_only "deleteUser i" for i
  by unfold_locales (simp add: deleteUser_def assertAdminRole_refuses)

interpretation getStats_admin: admin_only "user_getStats D" for D
  by unfold_locales (simp add: user_getStats_def assertAdminRole_refuses)

text \<open>
  Without the role of an administrator none of the administration handlers does
  anything: listing and reading users, changing a role or a subscription, deleting a user and
  the statistics are all refused, and the database stays as it was.
\<close>

theorem administration_refused:
  assumes "r \<noteq> Some ''ADMIN''"
  shows "findAll p l q r s = (Inl (Forbidden ''Admin role required''), s) \<and>
    findById i r s = (Inl (Forbidden ''Admin role required''), s) \<and>
    adminUpdateUser D i dto r a s = (Inl (Forbidden ''Admin role required''), s) \<and>
    setUserSubscription D i pl r a s = (Inl (Forbidden ''Admin role required''), s) \<and>
    deleteUser i r s = (Inl (Forbidden ''Admin role required''), s) \<and>
    user_getStats D r s = (Inl (Forbidden ''Admin role required''), s)"
  using assms
  by (simp add: findAll_admin.refused findById_admin.refused adminUpdate_admin.refused
      setSubscription_admin.refused deleteUser_admin.refused getStats_admin.refused)

lemma find_user_upsertQuota: "upsertQuota D u p s = (r, t) \<Longrightarrow> find_user j t = find_user j s"
proof (cases r)
  case (Inl e)
  assume "upsertQuota D u p s = (r, t)"
  then show ?thesis using getPlanCatalog_keeps(1) [OF upsertQuota_Inl] Inl by (simp add: find_user_def)
next
  case (Inr q)
  assume "upsertQuota D u p s = (r, t)"
  then show ?thesis using upsertQuota_Inr Inr by (fastforce simp: find_user_def)
qed

text \<open>
  An administrator cannot lock himself out through the role form: whatever a successful
  change of one's own account contained, an active administrator is an active administrator
  afterwards.
\<close>

theorem admin_keeps_own_role:
  assumes "adminUpdateUser D i dto r (Some i) s = (Inr u', t)"
    and "find_user i s = Some u" "u_role u = ADMIN" "u_isActive u"
  shows "\<exists>v. find_user i t = Some v \<and> u_role v = ADMIN \<and> u_isActive v"
proof -
  let ?f = "\<lambda>u. u\<lparr>u_role := nullish (ad_role dto) (u_role u), u_isActive := nullish (ad_isActive dto) (u_isActive u)\<rparr>"
  let ?s = "s\<lparr>users := update_many (\<lambda>x. u_id x = i) ?f (users s)\<rparr>"
  have dto: "ad_role dto \<in> {None, Some ADMIN}" "ad_isActive dto \<noteq> Some False"
    using assms(1) by (auto simp: adminUpdateUser_def io_iffs)
  then have u: "find_user i ?s = Some (?f u)" "u_role (?f u) = ADMIN" "u_isActive (?f u)"
    using assms(2-4) find_user_update [where f = ?f and i = i and j = i and s = s] by (auto simp: nullish_def split: option.split)
  have "find_user i t = find_user i ?s"
    using assms(1) unfolding adminUpdateUser_def
    by (auto simp: io_iffs find_user_upsertQuota split: if_splits)
  then show ?thesis using u by auto
qed

section \<open>Student verification\<close>

lemma confirm_Inr:
  assumes "confirmStudentEmailVerification D i code s = (Inr m, t)"
  shows "\<exists>v u. v \<in> set (studentEmailVerifications s) \<and> s_userId v = i \<and> s_codeHash v = sha256_hex D (trim code) \<and>
    now_at D \<le> s_expiresAt v \<and> find_user i s = Some u \<and>
    t = s\<lparr>users := update_many (\<lambda>x. u_id x = i)
            (\<lambda>u. u\<lparr>u_studentEmailVerified := True, u_studentEmailVerifiedAt := Some (now_at D)\<rparr>) (users s),
          studentEmailVerifications := delete_many (\<lambda>v. s_userId v = i) (studentEmailVerifications s)\<rparr>"
  using assms unfolding confirmStudentEmailVerification_def Let_def
  by (auto simp: io_iffs split: if_splits dest!: find_Some_set)

text \<open>
  An account becomes verified as a student only through a code: a confirmation succeeds
  only with a code whose hash is stored for that user and has not expired; it marks that
  account and no other, and it uses the code up, so the same code does not work a second time.
\<close>

theorem verification_needs_code:
  assumes "confirmStudentEmailVerification D i code s = (Inr m, t)"
  shows "(\<exists>v \<in> set (studentEmailVerifications s). s_userId v = i \<and> s_codeHash v = sha256_hex D (trim code) \<and>
      now_at D \<le> s_expiresAt v) \<and>
    (\<exists>u. find_user i t = Some u \<and> u_studentEmailVerified u) \<and>
    (\<forall>j. j \<noteq> i \<longrightarrow> find_user j t = find_user j s) \<and>
    confirmStudentEmailVerification D' i code t = (Inl (BadRequest ''Invalid verification code.''), t)"
proof -
  let ?f = "\<lambda>u. u\<lparr>u_studentEmailVerified := True, u_studentEmailVerifiedAt := Some (now_at D)\<rparr>"
  obtain v u where c: "v \<in> set (studentEmailVerifications s)" "s_userId v = i" "s_codeHash v = sha256_hex D (trim code)"
    "now_at D \<le> s_expiresAt v" "find_user i s = Some u" and t: "t = s\<lparr>users := update_many (\<lambda>x. u_id x = i) ?f (users s),
       studentEmailVerifications := delete_many (\<lambda>v. s_userId v = i) (studentEmailVerifications s)\<rparr>"
    using confirm_Inr [OF assms] by blast
  have f: "find_user j t = (if j = i then map_option ?f (find_user j s) else find_user j s)" for j
    using find_user_update [where f = ?f and i = i and j = j and s = s] by (simp add: t find_user_def)
  have "code \<noteq> []" using assms by (auto simp: confirmStudentEmailVerification_def io_iffs)
  moreover have "List.find (\<lambda>v. s_userId v = i \<and> s_codeHash v = h) (studentEmailVerifications t) = None" for h
    by (auto simp: t find_None_iff)
  ultimately have "confirmStudentEmailVerification D' i code t = (Inl (BadRequest ''Invalid verification code.''), t)"
    by (simp add: confirmStudentEmailVerification_def io_simps)
  then show ?thesis using c f by auto
qed

text \<open>
  The code that was mailed works: when a request for verification mails a code to the
  user's address, confirming with that code within fifteen minutes verifies the account, for
  any database state in between that kept the account and the stored code.
\<close>

theorem mailed_code_verifies:
  assumes "requestStudentEmailVerification D i s = (Inr ''Verification code sent to your email.'', t)"
    and "now_at D' \<le> now_at D + 15 * 60 * 1000" "sha256_hex D' = sha256_hex D" "user_keys_ok (users s)"
  shows "\<exists>u code t'. find_user i s = Some u \<and> outbox t = outbox s @ [(u_email u, code)] \<and>
    isStudentEmail (u_email u) s \<and>
    confirmStudentEmailVerification D' i code t = (Inr ''Student email verified successfully.'', t')"
proof -
  let ?code = "show_nat (random_code D)"
  obtain u where u: "find_user i s = Some u" "isStudentEmail (u_email u) s" and
    t: "t = s\<lparr>studentEmailVerifications := delete_many (\<lambda>v. s_userId v = i) (studentEmailVerifications s) @
          [\<lparr>s_id = new_id D, s_userId = i, s_email = u_email u, s_codeHash = sha256_hex D ?code,
            s_expiresAt = now_at D + 15 * 60 * 1000, s_createdAt = now_at D\<rparr>],
          outbox := outbox s @ [(u_email u, ?code)]\<rparr>"
    using assms(1) unfolding requestStudentEmailVerification_def Let_def
    by (auto simp: io_iffs split: if_splits)
  have "List.find (\<lambda>v. s_userId v = i \<and> s_codeHash v = h) (delete_many (\<lambda>v. s_userId v = i) vs) = None"
    for h and vs :: "verification_row list"
    by (auto simp: find_None_iff)
  then have "List.find (\<lambda>v. s_userId v = i \<and> s_codeHash v = sha256_hex D ?code) (studentEmailVerifications t) =
     Some \<lparr>s_id = new_id D, s_userId = i, s_email = u_email u, s_codeHash = sha256_hex D ?code,
            s_expiresAt = now_at D + 15 * 60 * 1000, s_createdAt = now_at D\<rparr>"
    by (simp add: t find_append)
  moreover have "find_user i t = Some u" using u by (simp add: t find_user_def)
  moreover have "\<not> user_clash (u\<lparr>u_studentEmailVerified := a, u_studentEmailVerifiedAt := b\<rparr>) t" for a b
    using no_user_clash [OF assms(4) u(1)] by (simp add: user_clash_def same_account_def t)
  ultimately have "\<exists>t'. confirmStudentEmailVerification D' i ?code t =
      (Inr ''Student email verified successfully.'', t')"
    using assms(2,3) by (simp add: confirmStudentEmailVerification_def Let_def io_simps update_user_def)
  moreover have "outbox t = outbox s @ [(u_email u, ?code)]" by (simp add: t)
  ultimately show ?thesis using u by blast
qed

section \<open>Unique accounts and universities\<close>

lemma upsertQuota_users: "upsertQuota D u p s = (r, t) \<Longrightarrow> users t = users s"
proof (cases r)
  case (Inl e)
  assume "upsertQuota D u p s = (r, t)"
  then show ?thesis using getPlanCatalog_keeps(1) [OF upsertQuota_Inl] Inl by simp
next
  case (Inr q)
  assume "upsertQuota D u p s = (r, t)"
  then show ?thesis using upsertQuota_Inr Inr by fastforce
qed

lemma upsertQuota_unique [preserves_intros]: "preserves users_unique (upsertQuota D u p)"
  by (rule preservesI) (simp add: upsertQuota_users)

text \<open>
  No handler of the service, whether it succeeds or fails, leaves two accounts with one
  identifier, one address or one Google account: the projection from the auth service, the
  student verification, the profile, the password, the administration and the deletion all
  keep the accounts unique.
\<close>

theorem accounts_stay_unique:
  "preserves users_unique (syncFromAuth D y) \<and>
   preserves users_unique (requestStudentEmailVerification D i) \<and>
   preserves users_unique (confirmStudentEmailVerification D i code) \<and>
   preserves users_unique (updateProfile i dto) \<and>
   preserves users_unique (changePassword D i old new) \<and>
   preserves users_unique (adminUpdateUser D i ad r a) \<and>
   preserves users_unique (setUserSubscription D i p r a) \<and>
   preserves users_unique (deleteUser i r)"
proof (intro conjI)
  show "preserves users_unique (deleteUser i r)"
    unfolding deleteUser_def assertAdminRole_def
    by (intro preserves_intros preserves_modify) (simp add: cascade_delete_def user_keys_delete)
qed (unfold syncFromAuth_def requestStudentEmailVerification_def confirmStudentEmailVerification_def
    updateProfile_def changePassword_def adminUpdateUser_def setUserSubscription_def assertAdminRole_def;
    intro preserves_intros preserves_modify; simp add: sync_update_def)+

definition universities_ok :: "user_state \<Rightarrow> bool" where
  "universities_ok s \<longleftrightarrow> university_keys_ok (universities s) \<and>
     (\<forall>n \<in> set (universities s). validateUniversityDomain (n_emailDomain n) = Inr (n_emailDomain n))"

lemma validate_idem: "validateUniversityDomain d = Inr e \<Longrightarrow> validateUniversityDomain e = Inr e"
  by (auto simp: validateUniversityDomain_def split: if_splits)

lemma universities_rename:
  assumes "universities_ok s" "validateUniversityDomain d = Inr d"
    and "\<forall>n \<in> set (universities s). n_id n = i \<or> n_name n \<noteq> a \<and> n_emailDomain n \<noteq> d"
  shows "universities_ok (s\<lparr>universities := update_many (\<lambda>n. n_id n = i) (\<lambda>n. n\<lparr>n_name := a, n_emailDomain := d\<rparr>) (universities s)\<rparr>)"
proof -
  let ?f = "\<lambda>n. n\<lparr>n_name := a, n_emailDomain := d\<rparr> :: university_row"
  have "distinct (map n_name (update_many (\<lambda>n. n_id n = i) ?f (universities s)))"
    "distinct (map n_emailDomain (update_many (\<lambda>n. n_id n = i) ?f (universities s)))"
    using assms(1,3) unfolding universities_ok_def university_keys_ok_def
    by (auto intro!: distinct_update_column)
  then show ?thesis
    using assms(1,2)
    by (auto simp: universities_ok_def university_keys_ok_def set_update_many university_rename.map_key_update)
qed

lemma universities_toggle:
  assumes "universities_ok s"
  shows "universities_ok (s\<lparr>universities := update_many (\<lambda>n. n_id n = i) (\<lambda>n. n\<lparr>n_isActive := b\<rparr>) (universities s)\<rparr>)"
proof -
  have "map g (update_many (\<lambda>n. n_id n = i) (\<lambda>n. n\<lparr>n_isActive := b\<rparr>) t) = map g t"
    if "\<And>n. g (n\<lparr>n_isActive := b\<rparr>) = g n" for g :: "university_row \<Rightarrow> string" and t
    using that by (simp add: update_many_def)
  then show ?thesis
    using assms by (auto simp: universities_ok_def university_keys_ok_def set_update_many)
qed

lemma universities_append:
  assumes "universities_ok s" "validateUniversityDomain (n_emailDomain r) = Inr (n_emailDomain r)"
    and "\<forall>n \<in> set (universities s). n_id n \<noteq> n_id r \<and> n_name n \<noteq> n_name r \<and> n_emailDomain n \<noteq> n_emailDomain r"
  shows "universities_ok (s\<lparr>universities := universities s @ [r]\<rparr>)"
  using assms distinct_snoc [of n_id "universities s" r] distinct_snoc [of n_name "universities s" r]
    distinct_snoc [of n_emailDomain "universities s" r]
  by (simp add: universities_ok_def university_keys_ok_def del: distinct_append map_append)

lemma createUniversity_ok: "preserves universities_ok (createUniversity D nm dm a)"
proof (rule preservesI)
  fix s r t assume inv: "universities_ok s" and run: "createUniversity D nm dm a s = (r, t)"
  show "universities_ok t"
  proof (cases r)
    case (Inl e)
    then show ?thesis using inv run by (auto simp: createUniversity_def io_iffs Let_def)
  next
    case (Inr u)
    then show ?thesis using inv run universities_append [OF inv, of u] unfolding createUniversity_def
      by (auto simp: io_iffs Let_def dest: validate_idem)
  qed
qed

lemma updateUniversity_ok: "preserves universities_ok (updateUniversity i nm dm a)"
proof (rule preservesI)
  fix s r t assume inv: "universities_ok s" and run: "updateUniversity i nm dm a s = (r, t)"
  show "universities_ok t"
  proof (cases r)
    case (Inl e)
    then show ?thesis using inv run by (auto simp: updateUniversity_def io_iffs Let_def split: option.splits)
  next
    case (Inr u)
    obtain n name d where n: "find_university i s = Some n"
      "(case dm of None \<Rightarrow> Inr (n_emailDomain n) | Some x \<Rightarrow> validateUniversityDomain (normalizeUniversityDomain x)) = Inr d"
      "\<forall>x \<in> set (universities s). n_id x = i \<or> n_name x \<noteq> name \<and> n_emailDomain x \<noteq> d"
      "t = s\<lparr>universities := update_many (\<lambda>n. n_id n = i) (\<lambda>n. n\<lparr>n_name := name, n_emailDomain := d\<rparr>) (universities s)\<rparr>"
      using run Inr by (auto simp: updateUniversity_def io_iffs Let_def)
    have "validateUniversityDomain d = Inr d"
      using n(1,2) inv find_Some_set [of _ "universities s" n]
      by (auto simp: universities_ok_def find_university_def split: option.splits dest: validate_idem)
    then show ?thesis using universities_rename [OF inv] n by simp
  qed
qed

text \<open>
  The list of universities stays in order under every operation on it: identifiers, names
  and domains are unique, and every stored domain passes the validation.
\<close>

theorem universities_stay_valid:
  "preserves universities_ok (createUniversity D nm dm a) \<and>
   preserves universities_ok (updateUniversity i nm' dm' a) \<and>
   preserves universities_ok (deleteUniversity i a) \<and>
   preserves universities_ok (toggleUniversityActive i a)"
proof (intro conjI createUniversity_ok updateUniversity_ok)
  show "preserves universities_ok (deleteUniversity i a)"
    unfolding deleteUniversity_def assertAdminUser_def
    by (intro preserves_intros preserves_modify)
      (auto simp: universities_ok_def university_keys_ok_def delete_many_def distinct_map_filter)
  show "preserves universities_ok (toggleUniversityActive i a)"
    unfolding toggleUniversityActive_def assertAdminUser_def Let_def
    by (intro preserves_intros preserves_modify universities_toggle)
qed

section \<open>Two writers of one account\<close>

text \<open>
  The role and the activity an administrator sets in this service last only until the
  next synchronisation: whatever the account says, a successful one writes the role and the
  activity of the auth service over it.
\<close>

theorem sync_overwrites_admin:
  assumes "syncFromAuth D y s = (Inr u', t)" "find_user (y_id y) s = Some u"
  shows "\<exists>v. find_user (y_id y) t = Some v \<and> u_role v = sync_role y \<and>
    u_isActive v = nullish (y_isActive y) True \<and> u_email v = y_email y \<and>
    u_studentEmailVerified v = u_studentEmailVerified u \<and> u_password v = u_password u"
proof -
  let ?s = "s\<lparr>users := update_many (\<lambda>x. u_id x = y_id y) (sync_update y) (users s)\<rparr>"
  have "find_user (y_id y) ?s = Some (sync_update y u)"
    using find_user_update [where f = "sync_update y" and i = "y_id y" and j = "y_id y" and s = s] assms(2)
    by (simp add: sync_update_def)
  moreover have "find_user (y_id y) t = find_user (y_id y) ?s"
    using assms unfolding syncFromAuth_def
    by (auto simp: io_iffs find_user_upsertQuota split: if_splits)
  ultimately show ?thesis by (simp add: sync_update_def)
qed

text \<open>
  The mark of a verified student address is not about the address: a user who changes the
  address of the profile keeps the mark, whatever the new address is.
\<close>

theorem email_change_keeps_verification:
  assumes "updateProfile i dto s = (Inr u', t)" "find_user i s = Some u" "f_email dto = Some e"
  shows "\<exists>v. find_user i t = Some v \<and> u_email v = e \<and> u_studentEmailVerified v = u_studentEmailVerified u"
proof -
  let ?f = "\<lambda>u. u\<lparr>u_firstName := nullish (f_firstName dto) (u_firstName u),
            u_lastName := nullish (f_lastName dto) (u_lastName u), u_email := nullish (f_email dto) (u_email u)\<rparr>"
  have "t = s\<lparr>users := update_many (\<lambda>x. u_id x = i) ?f (users s)\<rparr>"
    using assms(1) by (auto simp: updateProfile_def io_iffs split: if_splits option.splits)
  then show ?thesis
    using find_user_update [where f = ?f and i = i and j = i and s = s] assms(2,3) by simp
qed

section \<open>Concrete runs\<close>

definition account :: "id \<Rightarrow> Role \<Rightarrow> user_row" where
  "account i r = \<lparr>u_id = i, u_email = i @ ''@uni.tn'', u_googleId = None, u_password = ''hash'', u_firstName = i,
     u_lastName = i, u_role = r, u_isActive = True, u_mfaEnabled = False, u_mfaSecret = None, u_mfaEnabledAt = None,
     u_mfaRecoveryCodeHashes = [], u_mfaRecoveryCodesGeneratedAt = None, u_studentEmailVerified = False,
     u_studentEmailVerifiedAt = None, u_createdAt = 0\<rparr>"

definition sample_users :: user_state where
  "sample_users = plan_state.extend
     ((db.extend empty_db \<lparr>plan_table = True\<rparr>)\<lparr>planConfigs := sample_rows,
        users := [account ''alice'' USER, account ''root'' ADMIN],
        universities := [\<lparr>n_id = ''n1'', n_name = ''Uni'', n_emailDomain = ''@uni.tn'', n_isActive = True,
          n_createdBy = ''root'', n_createdAt = 0\<rparr>]\<rparr>) \<lparr>outbox = []\<rparr>"

definition sample_ud :: user_deps where
  "sample_ud = \<lparr>plans_of = sample_plans, now_at = 1000, month_start = 0, new_id = ''i1'', quota_id = ''q1'',
     random_code = 123456, sha256_hex = (\<lambda>x. x), bcrypt_compare = (=), bcrypt_hash = (\<lambda>x. x), mail_refused = False\<rparr>"

lemmas sample_user_defs = sample_users_def plan_state.extend_def db.extend_def empty_db_def account_def sample_ud_def

lemma sample_users_simps [simp]:
  "plan_table sample_users" "planConfigs sample_users = sample_rows" "userQuotas sample_users = []"
  "users sample_users = [account ''alice'' USER, account ''root'' ADMIN]" "outbox sample_users = []"
  "studentEmailVerifications sample_users = []"
  by (simp_all add: sample_user_defs)

lemma sample_find_user [simp]:
  "find_user ''alice'' sample_users = Some (account ''alice'' USER)"
  "find_user ''root'' sample_users = Some (account ''root'' ADMIN)"
  by (simp_all add: find_user_def account_def)

lemma sample_users_unique: "users_unique sample_users"
  by (simp add: user_keys_ok_def same_account_def account_def)

definition pro_quota :: quota_row where
  "pro_quota = \<lparr>q_id = ''q1'', q_userId = ''alice'', q_planId = Some ''pro'', q_maxVms = 5, q_maxCpu = 8,
     q_maxRamMb = 8192, q_maxDiskGb = 100\<rparr>"

lemma sample_activation:
  "activateSubscriptionPlanFromInternal sample_ud ''alice'' PRO sample_users =
     (Inr (''alice'', PRO, pro_quota), sample_users\<lparr>userQuotas := [pro_quota]\<rparr>)"
  by (simp add: activateSubscriptionPlanFromInternal_def upsertQuota_def io_simps sample_catalog_loads find_quota_def
      set_limits_def sample_rows_def config_of_row_def pro_quota_def account_def sample_ud_def Let_def)

theorem activation_sets_limits_witness:
  "find_quota ''alice'' (sample_users\<lparr>userQuotas := [pro_quota]\<rparr>) = Some pro_quota \<and> q_planId pro_quota = Some ''pro''"
  using activation_sets_limits [OF sample_activation] by (auto simp: account_def)

theorem administration_refused_witness:
  "deleteUser ''root'' (Some ''USER'') sample_users = (Inl (Forbidden ''Admin role required''), sample_users)"
  using administration_refused [of "Some ''USER''" NaN NaN None sample_users "''root''"] by simp

definition self_edit :: admin_dto where
  "self_edit = \<lparr>ad_role = Some ADMIN, ad_isActive = None\<rparr>"

lemma sample_self_edit:
  "\<exists>u t. adminUpdateUser sample_ud ''root'' self_edit (Some ''ADMIN'') (Some ''root'') sample_users = (Inr u, t)"
proof -
  let ?f = "\<lambda>u. u\<lparr>u_role := nullish (ad_role self_edit) (u_role u), u_isActive := nullish (ad_isActive self_edit) (u_isActive u)\<rparr>"
  have "\<not> user_clash (?f (account ''root'' ADMIN)) sample_users"
    using no_user_clash [OF sample_users_unique sample_find_user(2)]
    by (simp add: user_clash_def same_account_def self_edit_def)
  then have "update_user ''root'' ?f sample_users =
      (Inr (?f (account ''root'' ADMIN)), sample_users\<lparr>users := update_many (\<lambda>x. u_id x = ''root'') ?f (users sample_users)\<rparr>)"
    by (simp add: update_user_Inr_iff del: sample_users_simps)
  moreover have "\<exists>q t. upsertQuota sample_ud ''root'' UNLIMITED
      (sample_users\<lparr>users := us\<rparr>) = (Inr q, t)" for us
    by (simp add: upsertQuota_def io_simps sample_catalog_loads find_quota_def Let_def)
  ultimately show ?thesis
    by (auto simp: adminUpdateUser_def assertAdminRole_def io_simps self_edit_def simp del: sample_users_simps
        split: sum.split prod.split) (metis prod.inject sum.distinct(1))+
qed

theorem admin_keeps_own_role_witness:
  "\<exists>u t v. adminUpdateUser sample_ud ''root'' self_edit (Some ''ADMIN'') (Some ''root'') sample_users = (Inr u, t) \<and>
     find_user ''root'' t = Some v \<and> u_role v = ADMIN \<and> u_isActive v"
proof -
  obtain u t where run: "adminUpdateUser sample_ud ''root'' self_edit (Some ''ADMIN'') (Some ''root'') sample_users = (Inr u, t)"
    using sample_self_edit by blast
  from admin_keeps_own_role [OF run sample_find_user(2)] run show ?thesis by (auto simp: account_def)
qed

definition asked_state :: user_state where
  "asked_state = snd (requestStudentEmailVerification sample_ud ''alice'' sample_users)"

lemma sample_student: "isStudentEmail ''alice@uni.tn'' sample_users"
  by (simp add: isStudentEmail_def sample_user_defs toLowerCase_def to_lower_char_def ends_with_def)

lemma sample_request:
  "requestStudentEmailVerification sample_ud ''alice'' sample_users =
     (Inr ''Verification code sent to your email.'', asked_state)"
proof -
  have "fst (requestStudentEmailVerification sample_ud ''alice'' sample_users) = Inr ''Verification code sent to your email.''"
    using sample_student
    by (simp add: requestStudentEmailVerification_def io_simps Let_def account_def sample_ud_def)
  then show ?thesis by (simp add: asked_state_def prod_eq_iff)
qed

theorem mailed_code_verifies_witness:
  "\<exists>code t'. outbox asked_state = [(''alice@uni.tn'', code)] \<and>
     confirmStudentEmailVerification sample_ud ''alice'' code asked_state = (Inr ''Student email verified successfully.'', t')"
  using mailed_code_verifies [OF sample_request, of sample_ud] sample_users_unique
  by (auto simp: account_def)

theorem verification_needs_code_witness:
  "\<exists>code t. confirmStudentEmailVerification sample_ud ''alice'' code asked_state = (Inr ''Student email verified successfully.'', t) \<and>
     confirmStudentEmailVerification sample_ud ''alice'' code t = (Inl (BadRequest ''Invalid verification code.''), t)"
proof -
  let ?row = "\<lparr>s_id = ''i1'', s_userId = ''alice'', s_email = ''alice@uni.tn'', s_codeHash = show_nat 123456,
     s_expiresAt = 1000 + 15 * 60 * 1000, s_createdAt = 1000\<rparr>"
  have rows: "studentEmailVerifications asked_state = [?row]" "users asked_state = users sample_users"
    using sample_student
    by (simp_all add: asked_state_def requestStudentEmailVerification_def io_simps Let_def account_def sample_ud_def)
  then have "find_user ''alice'' asked_state = Some (account ''alice'' USER)" "users_unique asked_state"
    using sample_users_unique by (simp_all add: find_user_def account_def)
  then have "\<exists>t. confirmStudentEmailVerification sample_ud ''alice'' (show_nat 123456) asked_state =
      (Inr ''Student email verified successfully.'', t)"
    using rows no_user_clash [of asked_state "''alice''" "account ''alice'' USER"]
    by (simp add: confirmStudentEmailVerification_def io_simps Let_def sample_ud_def update_user_def user_clash_def same_account_def)
  then show ?thesis using verification_needs_code by blast
qed

definition sample_sync :: sync_payload where
  "sample_sync = \<lparr>y_id = ''alice'', y_email = ''alice@uni.tn'', y_googleId = None, y_firstName = ''A'', y_lastName = ''L'',
     y_role = Some ''USER'', y_isActive = Some False, y_mfaEnabled = None, y_mfaEnabledAt = None\<rparr>"

lemma sample_sync_run: "\<exists>u t. syncFromAuth sample_ud sample_sync sample_users = (Inr u, t)"
proof -
  have "\<not> user_clash (sync_update sample_sync (account ''alice'' USER)) sample_users"
    by (simp add: user_clash_def same_account_def sync_update_def sample_sync_def account_def)
  then show ?thesis
    by (simp add: syncFromAuth_def io_simps sync_role_def update_user_def sample_sync_def)
qed

theorem sync_overwrites_admin_witness:
  "\<exists>t v. find_user ''alice'' t = Some v \<and> \<not> u_isActive v \<and> (\<exists>u. syncFromAuth sample_ud sample_sync sample_users = (Inr u, t))"
proof -
  obtain u t where run: "syncFromAuth sample_ud sample_sync sample_users = (Inr u, t)" using sample_sync_run by blast
  have "find_user (y_id sample_sync) sample_users = Some (account ''alice'' USER)" by (simp add: sample_sync_def)
  from sync_overwrites_admin [OF run this] run show ?thesis by (auto simp: sample_sync_def)
qed

definition sample_edit :: profile_dto where
  "sample_edit = \<lparr>f_firstName = None, f_lastName = None, f_email = Some ''me@mail.com''\<rparr>"

lemma sample_edit_run: "\<exists>u t. updateProfile ''alice'' sample_edit sample_users = (Inr u, t)"
proof -
  have "\<not> user_clash ((account ''alice'' USER)\<lparr>u_email := ''me@mail.com''\<rparr>) sample_users"
    by (simp add: user_clash_def same_account_def account_def)
  moreover have "find_user_email ''me@mail.com'' sample_users = None"
    by (simp add: find_user_email_def account_def)
  ultimately show ?thesis
    by (simp add: updateProfile_def io_simps sample_edit_def update_user_def)
qed

theorem email_change_keeps_verification_witness:
  "\<exists>u t v. updateProfile ''alice'' sample_edit sample_users = (Inr u, t) \<and> find_user ''alice'' t = Some v \<and>
     u_email v = ''me@mail.com''"
proof -
  obtain u t where run: "updateProfile ''alice'' sample_edit sample_users = (Inr u, t)" using sample_edit_run by blast
  from email_change_keeps_verification [OF run sample_find_user(1)] run show ?thesis by (auto simp: sample_edit_def)
qed

end
