(* ===== verification/User_Billing.thy ===== *)
theory User_Billing
  imports User_Service
begin

text \<open>
  \<open>services/user/src/user/user.service.ts\<close>, billing: which plan a quota stands for, when the
  billing cycle of a user started, how many hours the machines ran in it, the profile with the
  subscription, and the two snapshots the other services ask for.
\<close>

section \<open>Which plan a quota stands for\<close>

definition resolvePlanFromQuota :: "quota_row option \<Rightarrow> catalog \<Rightarrow> plan_id option" where
  "resolvePlanFromQuota quota catalog =
     (case quota of
        None \<Rightarrow> None
      | Some q \<Rightarrow>
          if q_maxVms q \<ge> g_maxVms (catalog UNLIMITED) \<or> q_maxCpu q \<ge> g_maxCpu (catalog UNLIMITED) then Some UNLIMITED
          else if q_maxVms q \<ge> g_maxVms (catalog ENTERPRISE) \<and> q_maxCpu q \<ge> g_maxCpu (catalog ENTERPRISE) then Some ENTERPRISE
          else if q_maxVms q \<ge> g_maxVms (catalog PRO) \<and> q_maxCpu q \<ge> g_maxCpu (catalog PRO) then Some PRO
          else if q_maxVms q \<ge> g_maxVms (catalog STUDENT) \<and> q_maxCpu q \<ge> g_maxCpu (catalog STUDENT) then Some STUDENT
          else None)"

definition resolvePlanForUser :: "Role \<Rightarrow> quota_row option \<Rightarrow> catalog \<Rightarrow> plan_id option" where
  "resolvePlanForUser role quota catalog =
     (if role = ADMIN then Some UNLIMITED else resolvePlanFromQuota quota catalog)"

section \<open>The billing cycle\<close>

definition getBillingCycleEnd :: "time \<Rightarrow> time" where
  "getBillingCycleEnd startedAt = startedAt + 30 * 24 * 60 * 60 * 1000"

text \<open>
  The first match of \<open>:plan:(student|pro|enterprise|unlimited)\<close> in a method string; at one
  position the alternatives are tried in this order.
\<close>

fun plan_match :: "string \<Rightarrow> plan_id option" where
  "plan_match [] = None"
| "plan_match (c # cs) =
     (case List.find (\<lambda>p. starts_with (c # cs) ('':plan:'' @ plan_name p)) [STUDENT, PRO, ENTERPRISE, UNLIMITED] of
        Some p \<Rightarrow> Some p
      | None \<Rightarrow> plan_match cs)"

definition nth_or :: "'a list \<Rightarrow> nat \<Rightarrow> 'a \<Rightarrow> 'a" where
  "nth_or xs n d = (if n < length xs then xs ! n else d)"

definition extractPlanFromPayment :: "string option \<Rightarrow> string option \<Rightarrow> plan_id option" where
  "extractPlanFromPayment planId paymentMethod =
     (case (case planId of None \<Rightarrow> None | Some n \<Rightarrow> plan_of_name n) of
        Some p \<Rightarrow> Some p
      | None \<Rightarrow>
          (let meth = toLowerCase (or_opt paymentMethod []);
               candidate = (if starts_with meth ''admin:grant:''
                            then plan_of_name (nth_or (split_on CHR '':'' meth) 2 []) else None) in
           case candidate of Some p \<Rightarrow> Some p | None \<Rightarrow> plan_match meth))"

definition isFullPricePayment :: "payment_row \<Rightarrow> catalog \<Rightarrow> bool" where
  "isFullPricePayment p catalog =
     (case extractPlanFromPayment (p_planId p) (p_method p) of
        None \<Rightarrow> False
      | Some UNLIMITED \<Rightarrow> True
      | Some q \<Rightarrow> p_amount p \<ge> to_fixed_number 2 (js_sub (g_monthlyPriceDt (catalog q)) (fl (1 / 100))))"

definition getLatestBillingCycleStart :: "user_deps \<Rightarrow> id \<Rightarrow> (user_state, time option) io" where
  "getLatestBillingCycleStart D userId =
     bnd (asks (\<lambda>s. take 20 (sort_key (\<lambda>p. - p_createdAt p)
            (filter (\<lambda>p. p_userId p = userId \<and> p_status p \<in> {''paid'', ''admin_granted''}) (payments s))))) (\<lambda>ps.
     case ps of
       [] \<Rightarrow> ret None
     | p # _ \<Rightarrow>
         bnd (getPlanCatalog (plans_of D)) (\<lambda>catalog.
         ret (Some (p_createdAt (nullish (List.find (\<lambda>x. isFullPricePayment x catalog) ps) p)))))"

section \<open>Hours\<close>

text \<open>What one machine adds, \<open>None\<close> where the loop continues with the next.\<close>

definition vm_hours :: "time \<Rightarrow> time \<Rightarrow> vm_row \<Rightarrow> rat option" where
  "vm_hours cycleStart cycleEnd v =
     (let started = (if v_createdAt v > cycleStart then v_createdAt v else cycleStart);
          nonRunningEnd = nullish (v_stoppedAt v) cycleEnd;
          ended = (if v_status v = RUNNING then cycleEnd
                   else if nonRunningEnd < cycleEnd then nonRunningEnd else cycleEnd) in
      if ended \<le> started then None else Some (js_div (of_int (ended - started)) 3600000))"

fun total_hours :: "time \<Rightarrow> time \<Rightarrow> vm_row list \<Rightarrow> rat \<Rightarrow> rat" where
  "total_hours a b [] acc = acc"
| "total_hours a b (v # vs) acc =
     total_hours a b vs (case vm_hours a b v of None \<Rightarrow> acc | Some h \<Rightarrow> js_add acc h)"

definition estimateVmHoursUsed :: "vm_row list \<Rightarrow> time \<Rightarrow> time \<Rightarrow> rat" where
  "estimateVmHoursUsed vms cycleStart cycleEnd = to_fixed_number 2 (total_hours cycleStart cycleEnd vms 0)"

section \<open>Profiles\<close>

record subscription =
  sb_planId :: plan_id
  sb_cycleStartedAt :: time
  sb_cycleEndsAt :: time
  sb_vmHoursIncluded :: int
  sb_vmHoursUsed :: rat
  sb_vmHoursRemaining :: rat
  sb_canRenewSamePlan :: bool

definition SAME_OR_LOWER_UNLOCK_USAGE_RATIO :: rat where
  "SAME_OR_LOWER_UNLOCK_USAGE_RATIO = fl (9 / 10)"

definition subscription_of :: "time \<Rightarrow> catalog \<Rightarrow> plan_id \<Rightarrow> time \<Rightarrow> vm_row list \<Rightarrow> subscription" where
  "subscription_of now catalog planId cycleStartedAt vms =
     (let cycleEnds = getBillingCycleEnd cycleStartedAt;
          included = g_vmHoursMonthly (catalog planId);
          used = estimateVmHoursUsed vms cycleStartedAt (if now < cycleEnds then now else cycleEnds);
          remaining = (if planId = UNLIMITED then 9007199254740991
                       else max 0 (to_fixed_number 2 (js_sub (of_int included) used)));
          unlocked = (planId \<noteq> UNLIMITED \<and> included > 0 \<and>
                      used \<ge> js_mul (of_int included) SAME_OR_LOWER_UNLOCK_USAGE_RATIO) in
      \<lparr>sb_planId = planId, sb_cycleStartedAt = cycleStartedAt, sb_cycleEndsAt = cycleEnds,
       sb_vmHoursIncluded = included, sb_vmHoursUsed = used, sb_vmHoursRemaining = remaining,
       sb_canRenewSamePlan = (if planId = UNLIMITED then False else now \<ge> cycleEnds \<or> unlocked)\<rparr>)"

definition UNLIMITED_QUOTA :: quota_limits where
  "UNLIMITED_QUOTA = \<lparr>l_maxVms = 9999, l_maxCpu = 9999, l_maxRamMb = 999999, l_maxDiskGb = 99999\<rparr>"

definition quota_limits_of :: "quota_row \<Rightarrow> quota_limits" where
  "quota_limits_of q = \<lparr>l_maxVms = q_maxVms q, l_maxCpu = q_maxCpu q, l_maxRamMb = q_maxRamMb q, l_maxDiskGb = q_maxDiskGb q\<rparr>"

record profile =
  pf_user :: user_row
  pf_quota :: "quota_limits option"
  pf_vmCount :: nat
  pf_cpuUsed :: int
  pf_ramMbUsed :: int
  pf_diskGbUsed :: int
  pf_subscription :: "subscription option"

definition vms_of :: "id \<Rightarrow> 'a db_scheme \<Rightarrow> vm_row list" where
  "vms_of u s = filter (\<lambda>v. v_userId v = u) (virtualMachines s)"

definition getProfile :: "user_deps \<Rightarrow> id \<Rightarrow> (user_state, profile) io" where
  "getProfile D userId =
     bnd (asks (\<lambda>s. (find_user userId s, find_quota userId s, vms_of userId s))) (\<lambda>(r, quota, vms).
     bnd (getLatestBillingCycleStart D userId) (\<lambda>override.
     bnd (require (NotFound ''User not found'') r) (\<lambda>user.
     bnd (getPlanCatalog (plans_of D)) (\<lambda>catalog.
     let planId = resolvePlanForUser (u_role user) quota catalog;
         active = (\<lambda>v. v_status v \<noteq> DELETED) in
     ret \<lparr>pf_user = excludePassword user,
          pf_quota = (if u_role user = ADMIN then Some UNLIMITED_QUOTA else map_option quota_limits_of quota),
          pf_vmCount = count_rows active vms, pf_cpuUsed = sum_rows v_cpu active vms,
          pf_ramMbUsed = sum_rows v_ramMb active vms, pf_diskGbUsed = sum_rows v_diskGb active vms,
          pf_subscription = map_option (\<lambda>p. subscription_of (now_at D) catalog p
             (nullish override (u_createdAt user)) vms) planId\<rparr>))))"

definition getProfileSummary ::
    "user_deps \<Rightarrow> id \<Rightarrow> (user_state, user_row \<times> quota_limits option \<times> subscription option) io" where
  "getProfileSummary D userId =
     bnd (asks (\<lambda>s. (find_user userId s, find_quota userId s))) (\<lambda>(r, quota).
     bnd (require (NotFound ''User not found'') r) (\<lambda>user.
     bnd (getPlanCatalog (plans_of D)) (\<lambda>catalog.
     bnd (case resolvePlanForUser (u_role user) quota catalog of
            None \<Rightarrow> ret None
          | Some p \<Rightarrow>
              bnd (getLatestBillingCycleStart D userId) (\<lambda>override.
              bnd (asks (vms_of userId)) (\<lambda>vms.
              ret (Some (subscription_of (now_at D) catalog p (nullish override (u_createdAt user)) vms))))) (\<lambda>sb.
     ret (excludePassword user,
          if u_role user = ADMIN then Some UNLIMITED_QUOTA else map_option quota_limits_of quota, sb)))))"

section \<open>What the other services ask\<close>

definition getInternalSubscriptionAccess :: "user_deps \<Rightarrow> id \<Rightarrow> (user_state, access_snapshot) io" where
  "getInternalSubscriptionAccess D userId =
     bnd (getProfile D userId) (\<lambda>profile.
     ret (case pf_subscription profile of
        None \<Rightarrow> \<lparr>activePlanId = None, canPurchaseSameOrLower = True, usageRatio = 0, cycleEndsAt = None,
                 vmHoursUsed = None, vmHoursIncluded = None\<rparr>
      | Some sb \<Rightarrow>
          if sb_planId sb = UNLIMITED then
            \<lparr>activePlanId = Some ''unlimited'', canPurchaseSameOrLower = False, usageRatio = 1, cycleEndsAt = None,
             vmHoursUsed = None, vmHoursIncluded = None\<rparr>
          else
            \<lparr>activePlanId = Some (plan_name (sb_planId sb)), canPurchaseSameOrLower = sb_canRenewSamePlan sb,
             usageRatio = (if sb_vmHoursIncluded sb > 0
                then to_fixed_number 4 (js_div (sb_vmHoursUsed sb) (of_int (sb_vmHoursIncluded sb))) else 0),
             cycleEndsAt = Some (sb_cycleEndsAt sb), vmHoursUsed = Some (sb_vmHoursUsed sb),
             vmHoursIncluded = Some (of_int (sb_vmHoursIncluded sb))\<rparr>))"

definition getInternalQuotaSnapshot :: "id \<Rightarrow> (user_state, quota_snapshot) io" where
  "getInternalQuotaSnapshot userId =
     bnd (asks (find_user userId)) (\<lambda>r.
     bnd (require (NotFound ''User not found'') r) (\<lambda>user.
     bnd (asks (find_quota userId)) (\<lambda>quota.
     ret (if u_role user = ADMIN then
            \<lparr>hasActiveSubscription = True, sn_planId = Some ''unlimited'', sn_quota = Some UNLIMITED_QUOTA\<rparr>
          else case quota of
              None \<Rightarrow> \<lparr>hasActiveSubscription = False, sn_planId = None, sn_quota = None\<rparr>
            | Some q \<Rightarrow> \<lparr>hasActiveSubscription = (q_planId q \<noteq> None), sn_planId = q_planId q,
                         sn_quota = Some (quota_limits_of q)\<rparr>))))"

section \<open>Billing for administrators\<close>

definition getUserBillingSummary ::
    "user_deps \<Rightarrow> id \<Rightarrow> string option \<Rightarrow> (user_state, user_row \<times> plan_id option) io" where
  "getUserBillingSummary D i actorRole =
     bnd (assertAdminRole actorRole) (\<lambda>_.
     bnd (getPlanCatalog (plans_of D)) (\<lambda>catalog.
     bnd (asks (find_user i)) (\<lambda>r.
     bnd (require (NotFound ''User not found'') r) (\<lambda>user.
     bnd (asks (find_quota i)) (\<lambda>quota.
     ret (excludePassword user, resolvePlanForUser (u_role user) quota catalog))))))"

text \<open>\<open>totalUsers\<close> and the page of users with their plans; the revenue figures are constants.\<close>

definition getAdminBillingOverview ::
    "user_deps \<Rightarrow> string option \<Rightarrow> js_int \<Rightarrow> js_int \<Rightarrow> string option \<Rightarrow>
     (user_state, nat \<times> (user_row \<times> plan_id option) list) io" where
  "getAdminBillingOverview D actorRole pgn lmtn search =
     bnd (assertAdminRole actorRole) (\<lambda>_.
     bnd (getPlanCatalog (plans_of D)) (\<lambda>catalog.
     case (pgn, lmtn) of
       (Fin pg, Fin lmt) \<Rightarrow>
         (let skip = (pg - 1) * lmt in
          bnd (throw_if (skip < 0) (PrismaError ''validation'')) (\<lambda>_.
          asks (\<lambda>s. (length (users s),
             map (\<lambda>u. (excludePassword u, resolvePlanForUser (u_role u) (find_quota (u_id u) s) catalog))
               (page_rows skip lmt (sort_key (\<lambda>u. - u_createdAt u) (filter (user_search search) (users s))))))))
     | _ \<Rightarrow> throw (PrismaError ''validation'')))"

section \<open>Plans and quotas\<close>

text \<open>
  A catalog in which the quota of one plan is not read as that of a higher one: none reaches
  the unlimited plan in either dimension, and none reaches the next higher plan in both.
\<close>

definition catalog_separated :: "catalog \<Rightarrow> bool" where
  "catalog_separated cat \<longleftrightarrow>
     cat UNLIMITED = UNLIMITED_PLAN_CONFIG \<and>
     (\<forall>p \<in> {STUDENT, PRO, ENTERPRISE}. g_maxVms (cat p) < 9999 \<and> g_maxCpu (cat p) < 9999) \<and>
     (g_maxVms (cat PRO) < g_maxVms (cat ENTERPRISE) \<or> g_maxCpu (cat PRO) < g_maxCpu (cat ENTERPRISE)) \<and>
     (g_maxVms (cat STUDENT) < g_maxVms (cat ENTERPRISE) \<or> g_maxCpu (cat STUDENT) < g_maxCpu (cat ENTERPRISE)) \<and>
     (g_maxVms (cat STUDENT) < g_maxVms (cat PRO) \<or> g_maxCpu (cat STUDENT) < g_maxCpu (cat PRO))"

lemma resolve_limits:
  assumes "catalog_separated cat" "limits_match (cat p) q"
  shows "resolvePlanFromQuota (Some q) cat = Some p"
  using assms by (cases p) (auto simp: catalog_separated_def limits_match_def resolvePlanFromQuota_def UNLIMITED_PLAN_CONFIG_def)

text \<open>
  The plan that was activated is the plan the service reads back from the quota: for a
  catalog whose plans are separated, activating a plan for a user who is no administrator and
  then resolving the stored quota gives that plan, and the snapshot for the machine service
  says that the subscription is active, with the plan's name and limits.
\<close>

theorem activated_plan_resolves:
  assumes "activateSubscriptionPlanFromInternal D i p s = (Inr r, t)"
    and "find_user i s = Some user" "u_role user = USER"
    and "getPlanCatalog (plans_of D) t = (Inr cat, t)" "catalog_separated cat"
  shows "resolvePlanForUser (u_role user) (find_quota i t) cat = Some p \<and>
    (\<exists>q. find_quota i t = Some q \<and> limits_match (cat p) q \<and>
       getInternalQuotaSnapshot i t = (Inr \<lparr>hasActiveSubscription = True, sn_planId = Some (plan_name p),
          sn_quota = Some (quota_limits_of q)\<rparr>, t))"
proof -
  obtain q t' where u: "upsertQuota D i p s = (Inr q, t')" "t' = t"
    using assms(1-3) by (auto simp: activateSubscriptionPlanFromInternal_def io_iffs)
  then obtain cat' where c: "getPlanCatalog (plans_of D) t = (Inr cat', t)" "limits_match (cat' p) q"
    "q_planId q = Some (plan_name p)" "find_quota i t = Some q" "users t = users s"
    using upsertQuota_Inr [OF u(1)] by auto
  then have "cat' = cat" using assms(4) by simp
  moreover have "find_user i t = Some user" using assms(2) c(5) by (simp add: find_user_def)
  ultimately show ?thesis
    using c assms(3,5) resolve_limits [of cat p q]
    by (simp add: resolvePlanForUser_def getInternalQuotaSnapshot_def io_simps)
qed

text \<open>
  The plan of a subscriber is read from the numbers of the quota, not from the plan it
  names: when the catalog later raises a plan's number of machines, no earlier subscriber of
  that plan is a subscriber of it any more, although the quota row still names the plan.
\<close>

theorem raised_limits_lose_plan:
  assumes "p \<in> {STUDENT, PRO, ENTERPRISE}" "limits_match (cat p) q" "g_maxVms (cat p) < g_maxVms (cat' p)"
  shows "resolvePlanFromQuota (Some q) cat' \<noteq> Some p"
  using assms by (auto simp: limits_match_def resolvePlanFromQuota_def)

section \<open>Hours\<close>

lemma vm_hours_pos: "vm_hours a b v = Some h \<Longrightarrow> 0 \<le> h"
  by (auto simp: vm_hours_def Let_def js_div_def fl_nonneg split: if_splits)

lemma total_hours_nonneg: "0 \<le> acc \<Longrightarrow> 0 \<le> total_hours a b vs acc"
proof (induction vs arbitrary: acc)
  case (Cons v vs)
  have "0 \<le> (case vm_hours a b v of None \<Rightarrow> acc | Some h \<Rightarrow> js_add acc h)"
    using Cons.prems vm_hours_pos by (auto simp: js_add_def fl_nonneg split: option.split)
  then show ?case using Cons.IH by simp
qed simp

lemma total_hours_le:
  assumes "acc \<le> y" "fl y = y" "\<And>v h. v \<in> set vs \<Longrightarrow> vm_hours a b v = Some h \<Longrightarrow> h \<le> H" "0 \<le> H"
  shows "total_hours a b vs acc \<le> ((\<lambda>x. js_add x H) ^^ length vs) y"
  using assms(1-3)
proof (induction vs arbitrary: acc y)
  case (Cons v vs)
  let ?acc = "case vm_hours a b v of None \<Rightarrow> acc | Some h \<Rightarrow> js_add acc h"
  have "acc + h \<le> y + H" if "vm_hours a b v = Some h" for h
    using Cons.prems(1) Cons.prems(3) [of v h] that by simp
  moreover have "y \<le> js_add y H" using fl_mono [of y "y + H"] Cons.prems(2) assms(4) by (simp add: js_add_def)
  ultimately have "?acc \<le> js_add y H"
    using Cons.prems(1) by (auto simp: js_add_def split: option.split intro!: fl_mono)
  then have "total_hours a b vs ?acc \<le> ((\<lambda>x. js_add x H) ^^ length vs) (js_add y H)"
    using Cons.prems(3) by (intro Cons.IH) (auto simp: js_add_def)
  then show ?case by (simp add: funpow_Suc_right del: funpow.simps)
qed simp

lemma vm_hours_le:
  assumes "vm_hours a b v = Some h" "b \<le> getBillingCycleEnd a"
  shows "h \<le> 720"
proof -
  obtain st en where h: "h = fl (of_int (en - st) / 3600000)" "a \<le> st" "en \<le> b" "st < en"
    using assms(1) by (auto simp: vm_hours_def Let_def js_div_def split: if_splits)
  have "en - st \<le> 2592000000" using h assms(2) by (simp add: getBillingCycleEnd_def)
  then have "(of_int (en - st) :: rat) \<le> 2592000000" by (metis of_int_le_iff of_int_numeral)
  then have "h \<le> fl 720" unfolding h(1) by (intro fl_mono) simp
  also have "\<dots> = 720" using fl_of_int [of 720] by simp
  finally show ?thesis .
qed

lemma js_add_720: "720 * (n + 1) < 2 ^ 53 \<Longrightarrow> js_add (of_int (720 * int n)) 720 = of_int (720 * int (n + 1))"
  using fl_of_int [of "720 * int (n + 1)"] by (simp add: js_add_def algebra_simps)

lemma add_720: "720 * n < 2 ^ 53 \<Longrightarrow> ((\<lambda>x. js_add x 720) ^^ n) 0 = of_int (720 * int n)"
proof (induction n)
  case (Suc n)
  then show ?case using js_add_720 [of n] by simp
qed simp

text \<open>
  The estimate of the hours is sound as an amount: it is never negative, it is zero when
  no machine of the user overlaps the cycle, and over a billing cycle it is at most 720 hours
  for each machine, rounding included, for any number of machines below ten to the ten.
\<close>

theorem hours_bounded:
  assumes "b \<le> getBillingCycleEnd a" "length vms < 10 ^ 10"
  shows "0 \<le> estimateVmHoursUsed vms a b \<and> estimateVmHoursUsed vms a b \<le> 720 * of_nat (length vms) \<and>
    ((\<forall>v \<in> set vms. vm_hours a b v = None) \<longrightarrow> estimateVmHoursUsed vms a b = 0)"
proof -
  let ?n = "length vms"
  have "total_hours a b vms 0 \<le> ((\<lambda>x. js_add x 720) ^^ ?n) 0"
    using vm_hours_le [OF _ assms(1)] by (intro total_hours_le) auto
  also have "\<dots> = of_int (720 * int ?n)" using assms(2) by (intro add_720) simp
  finally have "estimateVmHoursUsed vms a b \<le> to_fixed_number 2 (of_int (720 * int ?n))"
    unfolding estimateVmHoursUsed_def using total_hours_nonneg [of 0] by (intro to_fixed_mono) auto
  also have "\<dots> = 720 * of_nat ?n"
  proof -
    have "\<lfloor>\<bar>of_int (720 * int ?n)\<bar> * 10 ^ 2 + 1 / 2 :: rat\<rfloor> = 72000 * int ?n"
      by (rule floor_unique) simp_all
    then have "to_fixed_number 2 (of_int (720 * int ?n)) = fl (of_int (720 * int ?n))"
      by (simp add: to_fixed_number_def to_fixed_int_def)
    also have "\<dots> = of_int (720 * int ?n)" using assms(2) by (intro fl_of_int) simp
    finally show ?thesis by simp
  qed
  finally have "estimateVmHoursUsed vms a b \<le> 720 * of_nat ?n" .
  moreover have "0 \<le> estimateVmHoursUsed vms a b"
    unfolding estimateVmHoursUsed_def using total_hours_nonneg [of 0] by (intro to_fixed_nonneg) simp
  moreover have "(\<forall>v \<in> set vs. vm_hours a b v = None) \<Longrightarrow> total_hours a b vs acc = acc" for vs acc
    by (induction vs arbitrary: acc) auto
  ultimately show ?thesis by (simp add: estimateVmHoursUsed_def)
qed

section \<open>The two profiles agree\<close>

lemma getLatest_Inr:
  assumes "getLatestBillingCycleStart D u s = (Inr r, t)"
  shows "users t = users s \<and> userQuotas t = userQuotas s \<and> virtualMachines t = virtualMachines s \<and>
    payments t = payments s \<and> (t = s \<or> (\<exists>cat. getPlanCatalog (plans_of D) s = (Inr cat, t)))"
  using assms unfolding getLatestBillingCycleStart_def
  by (auto simp: io_iffs split: list.splits dest: getPlanCatalog_keeps)

text \<open>Once the catalog is loaded, the start of the cycle is a function of the payments.\<close>

definition cycle_start :: "catalog \<Rightarrow> id \<Rightarrow> 'a db_scheme \<Rightarrow> time option" where
  "cycle_start cat u s =
     (let ps = take 20 (sort_key (\<lambda>p. - p_createdAt p)
            (filter (\<lambda>p. p_userId p = u \<and> p_status p \<in> {''paid'', ''admin_granted''}) (payments s))) in
      if ps = [] then None
      else Some (p_createdAt (nullish (List.find (\<lambda>x. isFullPricePayment x cat) ps) (hd ps))))"

lemma getLatest_loaded:
  assumes "getPlanCatalog (plans_of D) s = (Inr cat, s)"
  shows "getLatestBillingCycleStart D u s = (Inr (cycle_start cat u s), s)"
proof -
  let ?ps = "take 20 (sort_key (\<lambda>p. - p_createdAt p)
     (filter (\<lambda>p. p_userId p = u \<and> p_status p \<in> {''paid'', ''admin_granted''}) (payments s)))"
  show ?thesis
    using assms by (cases ?ps) (simp_all add: getLatestBillingCycleStart_def cycle_start_def bnd_eq del: take_eq_Nil)
qed

lemma getProfile_loaded:
  assumes "getPlanCatalog (plans_of D) s = (Inr cat, s)" "find_user i s = Some u"
  shows "getProfile D i s = (Inr \<lparr>pf_user = excludePassword u,
     pf_quota = (if u_role u = ADMIN then Some UNLIMITED_QUOTA else map_option quota_limits_of (find_quota i s)),
     pf_vmCount = count_rows (\<lambda>v. v_status v \<noteq> DELETED) (vms_of i s),
     pf_cpuUsed = sum_rows v_cpu (\<lambda>v. v_status v \<noteq> DELETED) (vms_of i s),
     pf_ramMbUsed = sum_rows v_ramMb (\<lambda>v. v_status v \<noteq> DELETED) (vms_of i s),
     pf_diskGbUsed = sum_rows v_diskGb (\<lambda>v. v_status v \<noteq> DELETED) (vms_of i s),
     pf_subscription = map_option (\<lambda>p. subscription_of (now_at D) cat p
        (nullish (cycle_start cat i s) (u_createdAt u)) (vms_of i s))
        (resolvePlanForUser (u_role u) (find_quota i s) cat)\<rparr>, s)"
  using assms getLatest_loaded [OF assms(1), of i]
  by (simp add: getProfile_def bnd_eq require_eq Let_def)

text \<open>
  The two profile endpoints never disagree: with the catalog loaded, the summary returns
  the same account, quota and subscription as the full profile, without writing anything.
\<close>

theorem profile_summary_agrees:
  assumes "getPlanCatalog (plans_of D) s = (Inr cat, s)" "getProfile D i s = (Inr pf, t)"
  shows "t = s \<and> getProfileSummary D i s = (Inr (pf_user pf, pf_quota pf, pf_subscription pf), s)"
proof -
  obtain u where u: "find_user i s = Some u"
    using assms by (auto simp: getProfile_def io_iffs getLatest_loaded)
  show ?thesis
    using assms getProfile_loaded [OF assms(1) u] getLatest_loaded [OF assms(1), of i] u
    by (auto simp: getProfileSummary_def bnd_eq require_eq split: option.split)
qed

section \<open>When a plan may be bought again\<close>

text \<open>
  The snapshot for the shop says what it should: without a plan anything may be bought;
  the unlimited plan may not be bought again; with another plan the same or a lower one may be
  bought exactly when the cycle of thirty days is over or nine tenths of its hours are used.
\<close>

theorem access_snapshot_correct:
  assumes "getPlanCatalog (plans_of D) s = (Inr cat, s)" "find_user i s = Some u"
  shows "\<exists>a. getInternalSubscriptionAccess D i s = (Inr a, s) \<and>
    (case resolvePlanForUser (u_role u) (find_quota i s) cat of
       None \<Rightarrow> activePlanId a = None \<and> canPurchaseSameOrLower a
     | Some p \<Rightarrow> activePlanId a = Some (plan_name p) \<and>
         (if p = UNLIMITED then \<not> canPurchaseSameOrLower a
          else let start = nullish (cycle_start cat i s) (u_createdAt u);
                   used = estimateVmHoursUsed (vms_of i s) start (min (now_at D) (getBillingCycleEnd start)) in
            vmHoursUsed a = Some used \<and> vmHoursIncluded a = Some (of_int (g_vmHoursMonthly (cat p))) \<and>
            (canPurchaseSameOrLower a \<longleftrightarrow> getBillingCycleEnd start \<le> now_at D \<or>
               0 < g_vmHoursMonthly (cat p) \<and>
               js_mul (of_int (g_vmHoursMonthly (cat p))) (fl (9 / 10)) \<le> used)))"
  using getProfile_loaded [OF assms]
  by (auto simp: getInternalSubscriptionAccess_def bnd_eq subscription_of_def Let_def min_def
      SAME_OR_LOWER_UNLOCK_USAGE_RATIO_def split: option.split)

section \<open>Concrete runs\<close>

lemma sample_separated: "catalog_separated sample_catalog"
  by (simp add: catalog_separated_def sample_rows_def config_of_row_def)

definition activated :: user_state where
  "activated = sample_users\<lparr>userQuotas := [pro_quota]\<rparr>"

lemma activated_catalog: "getPlanCatalog (plans_of sample_ud) activated = (Inr sample_catalog, activated)"
  by (rule sample_catalog_loads) (simp_all add: activated_def)

lemma activated_find: "find_user ''alice'' activated = Some (account ''alice'' USER)" "find_quota ''alice'' activated = Some pro_quota"
  by (simp_all add: activated_def find_user_def account_def find_quota_def pro_quota_def)

theorem activated_plan_resolves_witness:
  "resolvePlanForUser USER (find_quota ''alice'' activated) sample_catalog = Some PRO"
  using activated_plan_resolves [OF sample_activation sample_find_user(1), folded activated_def, OF _ activated_catalog sample_separated]
  by (simp add: account_def)

theorem raised_limits_lose_plan_witness:
  "resolvePlanFromQuota (Some pro_quota) (sample_catalog(PRO := (sample_catalog PRO)\<lparr>g_maxVms := 6\<rparr>)) \<noteq> Some PRO"
  by (rule raised_limits_lose_plan [where cat = sample_catalog])
    (simp_all add: limits_match_def pro_quota_def sample_rows_def config_of_row_def)

definition stopped_vm :: vm_row where
  "stopped_vm = \<lparr>v_id = ''v'', v_name = ''n'', v_oneVmId = None, v_status = STOPPED, v_cpu = 1, v_ramMb = 512, v_diskGb = 5,
     v_ipAddress = None, v_osTemplate = ''t'', v_userId = ''alice'', v_planId = None, v_sshHost = None, v_sshPort = None,
     v_sshUsername = None, v_sshPrivateKeyEncrypted = None, v_stoppedAt = Some 7200000, v_createdAt = 0\<rparr>"

theorem hours_bounded_witness:
  "vm_hours 0 9000000 stopped_vm = Some 2 \<and> 0 \<le> estimateVmHoursUsed [stopped_vm] 0 9000000 \<and>
   estimateVmHoursUsed [stopped_vm] 0 9000000 \<le> 720"
proof -
  have "vm_hours 0 9000000 stopped_vm = Some 2"
    using fl_of_int [of 2] by (simp add: vm_hours_def stopped_vm_def js_div_def)
  then show ?thesis using hours_bounded [of 9000000 0 "[stopped_vm]"] by (simp add: getBillingCycleEnd_def)
qed

theorem profile_summary_agrees_witness:
  "\<exists>pf. getProfile sample_ud ''alice'' activated = (Inr pf, activated) \<and>
     getProfileSummary sample_ud ''alice'' activated = (Inr (pf_user pf, pf_quota pf, pf_subscription pf), activated)"
  using getProfile_loaded [OF activated_catalog activated_find(1)]
    profile_summary_agrees [OF activated_catalog getProfile_loaded [OF activated_catalog activated_find(1)]] by blast

theorem access_snapshot_correct_witness:
  "\<exists>a. getInternalSubscriptionAccess sample_ud ''alice'' activated = (Inr a, activated) \<and> activePlanId a = Some ''pro''"
proof -
  have "resolvePlanForUser (u_role (account ''alice'' USER)) (find_quota ''alice'' activated) sample_catalog = Some PRO"
    using resolve_limits [OF sample_separated, of PRO pro_quota]
    by (simp add: activated_find resolvePlanForUser_def account_def limits_match_def pro_quota_def sample_rows_def config_of_row_def)
  then show ?thesis
    using access_snapshot_correct [OF activated_catalog activated_find(1)] by auto
qed

end
