(* ===== verification/Payment_Service.thy ===== *)
theory Payment_Service
  imports User_Billing
begin

text \<open>
  \<open>services/payment/src/payment/payment.service.ts\<close>: the shop's catalog, the rules of a purchase,
  the checkout at Stripe, the confirmation of a session and the webhook.

  Stripe and the user service are parameters. The plan that a payment row stands for is read
  as in the user service, whose \<open>extractPlanFromPayment\<close> is the same code. Text is in code
  units below 256; the middle dot of the descriptions is the unit 183.
\<close>

section \<open>State and parameters\<close>

record pay_plan =
  pp_amountDt :: rat
  pp_rank :: int
  pp_vmHoursMonthly :: int
  pp_quota :: quota_limits
  pp_name :: string
  pp_description :: string
  pp_amountMilli :: int

type_synonym pay_catalog = "plan_id \<Rightarrow> pay_plan"

text \<open>
  What a checkout asks Stripe for, and the sessions and events Stripe gives back. The metadata
  carry the numbers themselves instead of their decimal strings, and the description, which only
  repeats them, is left out.
\<close>

record checkout_request =
  co_usdCents :: int
  co_productName :: string
  co_userId :: id
  co_planId :: plan_id
  co_amountTnd :: rat
  co_rate :: rat
  co_chargedUsd :: rat
  co_upgradeFrom :: "plan_id option"
  co_origin :: string

record stripe_session =
  ss_metadataUserId :: "id option"
  ss_payment_status :: string

datatype stripe_event_kind = SessionCompleted string | SessionExpired string | OtherEvent string

record stripe_event =
  ev_id :: string
  ev_kind :: stripe_event_kind

fun event_type :: "stripe_event_kind \<Rightarrow> string" where
  "event_type (SessionCompleted _) = ''checkout.session.completed''"
| "event_type (SessionExpired _) = ''checkout.session.expired''"
| "event_type (OtherEvent t) = t"

text \<open>
  The database, the cached catalog, the checkouts sent to Stripe and the activations the user
  service accepted, oldest first.
\<close>

record payment_state = plan_state +
  planCatalog :: "pay_catalog option"
  checkouts :: "checkout_request list"
  activations :: "(id \<times> plan_id) list"

text \<open>
  What one call takes from outside. The two requests for the subscription state that a checkout
  makes may be answered differently, so their endpoint has a number.
\<close>

record pay_deps =
  shop_plans :: plan_deps
  shop_env :: process_env
  shop_now :: time
  payment_uuid :: id
  event_uuid :: id
  stripe_on :: bool
  stripe_create :: "checkout_request \<Rightarrow> (string \<times> string) option"
  stripe_retrieve :: "string \<Rightarrow> exn + stripe_session option"
  construct_event :: "string \<Rightarrow> string \<Rightarrow> string \<Rightarrow> stripe_event option"
  access_at :: "nat \<Rightarrow> access_snapshot endpoint"
  student_at :: "bool endpoint"
  activate_at :: "string \<Rightarrow> string \<Rightarrow> id \<times> plan_id \<Rightarrow> unit fetch_result"
  locale_date :: "time \<Rightarrow> string"

section \<open>The catalog of the shop\<close>

fun PLAN_LABELS :: "plan_id \<Rightarrow> string" where
  "PLAN_LABELS STUDENT = ''Student''"
| "PLAN_LABELS PRO = ''Pro''"
| "PLAN_LABELS ENTERPRISE = ''Enterprise''"
| "PLAN_LABELS UNLIMITED = ''undefined''"

definition limits_of_row :: "plan_row \<Rightarrow> quota_limits" where
  "limits_of_row r = \<lparr>l_maxVms = c_maxVms r, l_maxCpu = c_maxCpu r, l_maxRamMb = c_maxRamMb r, l_maxDiskGb = c_maxDiskGb r\<rparr>"

definition middot :: string where
  "middot = '' '' @ [CHR 0xB7] @ '' ''"

definition buildPaymentPlanConfig :: "plan_id \<Rightarrow> plan_row \<Rightarrow> pay_plan" where
  "buildPaymentPlanConfig planId raw =
     \<lparr>pp_amountDt = c_amountDt raw, pp_rank = c_rank raw, pp_vmHoursMonthly = c_vmHoursMonthly raw,
      pp_quota = limits_of_row raw, pp_name = PLAN_LABELS planId @ '' Plan'',
      pp_description = ''Up to '' @ show_int (c_maxVms raw) @ '' VMs'' @ middot @ show_int (c_vmHoursMonthly raw) @
        '' VM hours/month'' @ middot @ show_int (c_maxCpu raw) @ '' vCPU / '' @
        show_int (Math_round (js_div (of_int (c_maxRamMb raw)) 1024)) @ '' GB / '' @ show_int (c_maxDiskGb raw) @ '' GB'',
      pp_amountMilli = Math_round (js_mul (c_amountDt raw) 1000)\<rparr>"

record public_plan =
  pl_id :: plan_id
  pl_name :: string
  pl_amountDt :: rat
  pl_rank :: int
  pl_vmHoursMonthly :: int
  pl_quota :: quota_limits
  pl_features :: "string list"

definition plan_features :: "quota_limits \<Rightarrow> int \<Rightarrow> string list" where
  "plan_features q hours =
     [show_int (l_maxVms q) @ '' VMs'', show_int hours @ '' VM hours/month'',
      show_int (l_maxCpu q) @ '' vCPU'' @ middot @ show_int (Math_round (js_div (of_int (l_maxRamMb q)) 1024)) @ '' GB RAM'' @
        middot @ show_int (l_maxDiskGb q) @ '' GB disk'']"

definition toPublicPlan :: "plan_id \<Rightarrow> plan_row \<Rightarrow> public_plan" where
  "toPublicPlan planId raw =
     \<lparr>pl_id = planId, pl_name = PLAN_LABELS planId, pl_amountDt = c_amountDt raw, pl_rank = c_rank raw,
      pl_vmHoursMonthly = c_vmHoursMonthly raw, pl_quota = limits_of_row raw,
      pl_features = plan_features (limits_of_row raw) (c_vmHoursMonthly raw)\<rparr>"

definition shop_buildCatalog :: "plan_row list \<Rightarrow> exn + pay_catalog" where
  "shop_buildCatalog rows =
     (if missing_plans rows \<noteq> []
      then Inl (InternalServerError (''Missing plan configs for: '' @
             join_with '', '' (map plan_name (missing_plans rows))))
      else Inr (\<lambda>p. buildPaymentPlanConfig p (the (row_of_plan rows p))))"

text \<open>
  \<open>loadManagedPlanCatalogFromEnv\<close> is the loader of the user service with the same checks.
\<close>

definition loadPlanCatalog :: "pay_deps \<Rightarrow> (payment_state, pay_catalog) io" where
  "loadPlanCatalog D =
     bnd plan_rows (\<lambda>rows.
     if rows \<noteq> [] then lift (shop_buildCatalog rows)
     else
       bnd (lift (loadManagedSubscriptionCatalogFromEnv (json_of (shop_plans D)) (plan_env (shop_plans D)))) (\<lambda>seed.
       bnd (seedPlanConfigs (plan_uuid (shop_plans D)) seed) (\<lambda>_.
       bnd findPlanRows (\<lambda>seeded.
       bnd (throw_if (seeded = []) (InternalServerError ''Plan catalog seed failed'')) (\<lambda>_.
       lift (shop_buildCatalog seeded))))))"

definition refreshPlanCatalog :: "pay_deps \<Rightarrow> (payment_state, unit) io" where
  "refreshPlanCatalog D = bnd (loadPlanCatalog D) (\<lambda>c. modify (\<lambda>s. s\<lparr>planCatalog := Some c\<rparr>))"

definition shop_getPlanCatalog :: "pay_deps \<Rightarrow> (payment_state, pay_catalog) io" where
  "shop_getPlanCatalog D =
     bnd (asks planCatalog) (\<lambda>c.
     case c of
       Some cat \<Rightarrow> ret cat
     | None \<Rightarrow> bnd (loadPlanCatalog D) (\<lambda>cat. bnd (modify (\<lambda>s. s\<lparr>planCatalog := Some cat\<rparr>)) (\<lambda>_. ret cat)))"

definition shop_assertAdminRole :: "string option \<Rightarrow> (payment_state, unit) io" where
  "shop_assertAdminRole actorRole = throw_if (actorRole \<noteq> Some ''ADMIN'') (Forbidden ''Admin role required'')"

definition assertPlanId :: "string \<Rightarrow> exn + plan_id" where
  "assertPlanId planId =
     (case plan_of_name planId of
        Some p \<Rightarrow> if p = UNLIMITED then Inl (BadRequest ''Invalid plan id'') else Inr p
      | None \<Rightarrow> Inl (BadRequest ''Invalid plan id''))"

section \<open>Configuration and calls\<close>

definition getPublicOrigin :: "process_env \<Rightarrow> string" where
  "getPublicOrigin pe =
     (let fromEnv = or_opt (map_option trim (pe ''PUBLIC_APP_ORIGIN'')) [] in
      if fromEnv \<noteq> [] then fromEnv
      else let cors = filter (\<lambda>w. w \<noteq> []) (map trim (split_on CHR '','' (or_opt (pe ''CORS_ORIGIN'') ''http://127.0.0.1:3000''))) in
        if cors = [] then ''http://127.0.0.1:3000'' else hd cors)"

text \<open>In this service the helper rejects every response that is not ok, with its text.\<close>

definition shop_checkResponse :: "'a fetch_result \<Rightarrow> string \<Rightarrow> exn + 'a option" where
  "shop_checkResponse res errorMessage =
     (case res of
        FetchFail \<Rightarrow> Inl (InternalServerError errorMessage)
      | Response st text body \<Rightarrow>
          if response_ok st then Inr body
          else let detail = take 300 (collapse_ws text) in
            Inl (InternalServerError (if detail \<noteq> [] then errorMessage @ '': '' @ detail else errorMessage)))"

definition user_call :: "process_env \<Rightarrow> string \<Rightarrow> (string \<Rightarrow> string \<Rightarrow> 'a fetch_result) \<Rightarrow> string \<Rightarrow> exn + 'a option" where
  "user_call pe path net errorMessage =
     (case getUserServiceUrl pe of
        Inl e \<Rightarrow> Inl e
      | Inr base \<Rightarrow> (case getInterServiceSyncToken pe of
          Inl e \<Rightarrow> Inl e
        | Inr token \<Rightarrow> shop_checkResponse (net (base @ path) token) errorMessage))"

definition getSubscriptionAccessSnapshot :: "pay_deps \<Rightarrow> nat \<Rightarrow> id \<Rightarrow> exn + access_snapshot" where
  "getSubscriptionAccessSnapshot D n userId =
     (case user_call (shop_env D) (''/users/internal/subscription-access/'' @ encodeURIComponent userId) (access_at D n)
             ''Failed to verify subscription access state'' of
        Inl e \<Rightarrow> Inl e | Inr body \<Rightarrow> json_body body)"

definition getStudentVerification :: "pay_deps \<Rightarrow> id \<Rightarrow> exn + bool" where
  "getStudentVerification D userId =
     (case user_call (shop_env D) (''/users/internal/student-verification/'' @ encodeURIComponent userId) (student_at D)
             ''Failed to fetch student verification status'' of
        Inl e \<Rightarrow> Inl e | Inr body \<Rightarrow> json_body body)"

definition syncQuotaForPlan :: "pay_deps \<Rightarrow> id \<Rightarrow> plan_id option \<Rightarrow> (payment_state, unit) io" where
  "syncQuotaForPlan D userId planId =
     (case planId of
        None \<Rightarrow> ret ()
      | Some p \<Rightarrow>
          bnd (lift (user_call (shop_env D) ''/users/internal/subscription-activate''
                 (\<lambda>url token. activate_at D url token (userId, p)) ''Failed to activate subscription quota'')) (\<lambda>_.
          modify (\<lambda>s. s\<lparr>activations := activations s @ [(userId, p)]\<rparr>)))"

definition getUsdPerTndRate :: "process_env \<Rightarrow> exn + rat" where
  "getUsdPerTndRate pe =
     (case js_Number (trim (or_opt (pe ''STRIPE_TND_TO_USD_RATE'') ''0.32'')) of
        None \<Rightarrow> Inl (InternalServerError ''Invalid STRIPE_TND_TO_USD_RATE configuration'')
      | Some rate \<Rightarrow> if rate \<le> 0 then Inl (InternalServerError ''Invalid STRIPE_TND_TO_USD_RATE configuration'') else Inr rate)"

section \<open>The rules of a purchase\<close>

text \<open>Looking up a plan the catalog does not have is a \<open>TypeError\<close>.\<close>

definition getPlanRank :: "string option \<Rightarrow> pay_catalog \<Rightarrow> exn + int" where
  "getPlanRank planId catalog =
     (if \<not> truthy planId then Inr 0
      else case plan_of_name (the planId) of
          None \<Rightarrow> Inl (PlainError ''TypeError'')
        | Some p \<Rightarrow> if p = UNLIMITED then Inr 99 else Inr (pp_rank (catalog p)))"

definition renewal_text :: "pay_deps \<Rightarrow> access_snapshot \<Rightarrow> string \<Rightarrow> string" where
  "renewal_text D a current =
     ''You already have the '' @ current @ '' plan. Renewal is locked until you reach 90% usage or until '' @
     (case cycleEndsAt a of None \<Rightarrow> ''the current cycle end'' | Some t \<Rightarrow> locale_date D t) @
     ''. Current usage: '' @ show_int (Math_round (js_mul (usageRatio a) 100)) @ ''%.''"

definition locked_text :: "access_snapshot \<Rightarrow> string \<Rightarrow> string" where
  "locked_text a current =
     ''You currently have an active '' @ current @ '' plan. Same or lower plans unlock at 90% usage (or cycle end). Current usage: '' @
     show_int (Math_round (js_mul (usageRatio a) 100)) @ ''%.''"

definition enforcePlanPurchaseRules :: "pay_deps \<Rightarrow> id \<Rightarrow> plan_id \<Rightarrow> pay_catalog \<Rightarrow> exn + unit" where
  "enforcePlanPurchaseRules D userId requested catalog =
     (case getSubscriptionAccessSnapshot D 0 userId of
        Inl e \<Rightarrow> Inl e
      | Inr a \<Rightarrow>
          if \<not> truthy (activePlanId a) then Inr ()
          else if activePlanId a = Some ''unlimited''
          then Inl (Forbidden ''Admin/unlimited accounts cannot purchase paid plans'')
          else case getPlanRank (activePlanId a) catalog of
              Inl e \<Rightarrow> Inl e
            | Inr currentRank \<Rightarrow> (case getPlanRank (Some (plan_name requested)) catalog of
              Inl e \<Rightarrow> Inl e
            | Inr requestedRank \<Rightarrow>
                if requestedRank > currentRank then Inr ()
                else if canPurchaseSameOrLower a then Inr ()
                else if activePlanId a = Some (plan_name requested)
                then Inl (BadRequest (renewal_text D a (the (activePlanId a))))
                else Inl (BadRequest (locked_text a (the (activePlanId a))))))"

section \<open>Checkout\<close>

definition charge_dt :: "bool \<Rightarrow> rat \<Rightarrow> rat \<Rightarrow> rat" where
  "charge_dt isUpgrade price currentAmount =
     (if isUpgrade then max 0 (to_fixed_number 2 (js_sub price currentAmount)) else price)"

definition stripe_method :: "string \<Rightarrow> plan_id \<Rightarrow> rat \<Rightarrow> string" where
  "stripe_method sessionId planId usdAmount =
     ''stripe:'' @ sessionId @ '':plan:'' @ plan_name planId @ '':usd:'' @ to_fixed_string 2 usdAmount"

definition insert_payment :: "payment_row \<Rightarrow> (payment_state, unit) io" where
  "insert_payment p =
     bnd (asks (\<lambda>s. \<exists>x \<in> set (payments s). p_id x = p_id p)) (\<lambda>taken.
     bnd (throw_if taken (PrismaError ''P2002'')) (\<lambda>_.
     modify (\<lambda>s. s\<lparr>payments := payments s @ [p]\<rparr>)))"

record checkout_result =
  cr_checkoutUrl :: string
  cr_sessionId :: string
  cr_amountDt :: rat
  cr_chargedAmount :: rat
  cr_rate :: rat

text \<open>The catalog has an entry for the plans on sale and for no other name, so \<open>if (!plan)\<close> is \<open>assertPlanId\<close> with the same error.\<close>

definition createCheckoutSession :: "pay_deps \<Rightarrow> id \<Rightarrow> string \<Rightarrow> string \<Rightarrow> (payment_state, checkout_result) io" where
  "createCheckoutSession D userId role planName =
     bnd (throw_if (\<not> stripe_on D) (InternalServerError ''Stripe is not configured on this environment'')) (\<lambda>_.
     bnd (throw_if (role = ''ADMIN'') (Forbidden ''Admin accounts have unlimited access and cannot purchase plans'')) (\<lambda>_.
     bnd (shop_getPlanCatalog D) (\<lambda>catalog.
     bnd (lift (assertPlanId planName)) (\<lambda>planId.
     let plan = catalog planId in
     bnd (if planId = STUDENT then
            bnd (lift (getStudentVerification D userId)) (\<lambda>verified.
            throw_if (\<not> verified) (Forbidden ''Student email verification is required before purchasing the Student plan.''))
          else ret ()) (\<lambda>_.
     bnd (lift (enforcePlanPurchaseRules D userId planId catalog)) (\<lambda>_.
     bnd (lift (getSubscriptionAccessSnapshot D 1 userId)) (\<lambda>snapshot.
     let currentName = (if activePlanId snapshot = Some ''unlimited'' \<or> \<not> truthy (activePlanId snapshot)
                        then None else activePlanId snapshot) in
     bnd (lift (getPlanRank (Some (plan_name planId)) catalog)) (\<lambda>requestedRank.
     bnd (lift (getPlanRank currentName catalog)) (\<lambda>currentRank.
     let current = (case currentName of None \<Rightarrow> None | Some n \<Rightarrow> plan_of_name n);
         isUpgrade = (current \<noteq> None \<and> requestedRank > currentRank);
         chargeDt = charge_dt isUpgrade (pp_amountDt plan)
                      (case current of None \<Rightarrow> 0 | Some c \<Rightarrow> pp_amountDt (catalog c)) in
     bnd (lift (getUsdPerTndRate (shop_env D))) (\<lambda>rate.
     let usdAmount = to_fixed_number 2 (js_mul chargeDt rate);
         req = \<lparr>co_usdCents = Math_round (js_mul usdAmount 100),
                co_productName = (if isUpgrade then ''Upgrade to '' @ PLAN_LABELS planId else pp_name plan),
                co_userId = userId, co_planId = planId, co_amountTnd = chargeDt, co_rate = rate,
                co_chargedUsd = usdAmount, co_upgradeFrom = (if isUpgrade then current else None),
                co_origin = getPublicOrigin (shop_env D)\<rparr> in
     bnd (require (PlainError ''StripeError'') (stripe_create D req)) (\<lambda>(sessionId, url).
     bnd (modify (\<lambda>s. s\<lparr>checkouts := checkouts s @ [req]\<rparr>)) (\<lambda>_.
     bnd (insert_payment \<lparr>p_id = payment_uuid D, p_userId = userId, p_planId = Some (plan_name planId),
            p_amount = chargeDt, p_currency = ''TND'', p_status = ''pending'',
            p_method = Some (stripe_method sessionId planId usdAmount), p_createdAt = shop_now D\<rparr>) (\<lambda>_.
     ret \<lparr>cr_checkoutUrl = url, cr_sessionId = sessionId, cr_amountDt = chargeDt,
          cr_chargedAmount = usdAmount, cr_rate = rate\<rparr>)))))))))))))"

section \<open>Completion\<close>

definition paid_statuses :: "string list" where
  "paid_statuses = [''paid'', ''admin_granted'']"

definition method_matches :: "string \<Rightarrow> payment_row \<Rightarrow> bool" where
  "method_matches sessionId p =
     (case p_method p of None \<Rightarrow> False | Some m \<Rightarrow> starts_with m (''stripe:'' @ sessionId))"

fun sync_all :: "pay_deps \<Rightarrow> payment_row list \<Rightarrow> (payment_state, plan_id list) io" where
  "sync_all D [] = ret []"
| "sync_all D (p # ps) =
     (let planId = extractPlanFromPayment (p_planId p) (p_method p) in
      bnd (syncQuotaForPlan D (p_userId p) planId) (\<lambda>_.
      bnd (sync_all D ps) (\<lambda>rest. ret ((case planId of None \<Rightarrow> [] | Some q \<Rightarrow> [q]) @ rest))))"

definition markStripeSessionAsPaid :: "pay_deps \<Rightarrow> string \<Rightarrow> id option \<Rightarrow> (payment_state, nat \<times> plan_id list) io" where
  "markStripeSessionAsPaid D sessionId expectedUserId =
     bnd (asks (\<lambda>s. filter (method_matches sessionId) (payments s))) (\<lambda>matched.
     if matched = [] then ret (0, [])
     else
       bnd (throw_if (truthy expectedUserId \<and> (\<exists>p \<in> set matched. p_userId p \<noteq> the expectedUserId))
              (Forbidden ''Checkout session does not belong to this account'')) (\<lambda>_.
       bnd (modify (\<lambda>s. s\<lparr>payments := update_many
              (\<lambda>p. p_id p \<in> p_id ` set matched \<and> p_status p \<notin> set paid_statuses)
              (\<lambda>p. p\<lparr>p_status := ''paid''\<rparr>) (payments s)\<rparr>)) (\<lambda>_.
       bnd (sync_all D matched) (\<lambda>applied. ret (length matched, applied)))))"

definition confirmCheckoutSession :: "pay_deps \<Rightarrow> id \<Rightarrow> string \<Rightarrow> (payment_state, nat \<times> plan_id list) io" where
  "confirmCheckoutSession D userId sessionId =
     bnd (throw_if (\<not> stripe_on D) (InternalServerError ''Stripe is not configured on this environment'')) (\<lambda>_.
     bnd (throw_if (trim sessionId = []) (BadRequest ''Missing Stripe session id'')) (\<lambda>_.
     bnd (lift (stripe_retrieve D sessionId)) (\<lambda>found.
     bnd (require (BadRequest ''Stripe session not found'') found) (\<lambda>session.
     bnd (throw_if (truthy (ss_metadataUserId session) \<and> ss_metadataUserId session \<noteq> Some userId)
            (Forbidden ''Checkout session does not belong to this account'')) (\<lambda>_.
     bnd (throw_if (ss_payment_status session \<noteq> ''paid'') (BadRequest ''Stripe session is not paid yet'')) (\<lambda>_.
     markStripeSessionAsPaid D sessionId (Some userId)))))))"

definition store_event :: "pay_deps \<Rightarrow> stripe_event \<Rightarrow> (payment_state, bool) io" where
  "store_event D ev =
     bnd (asks (\<lambda>s. \<exists>w \<in> set (stripeWebhookEvents s). w_eventId w = ev_id ev \<or> w_id w = event_uuid D)) (\<lambda>dup.
     if dup then ret True
     else bnd (modify (\<lambda>s. s\<lparr>stripeWebhookEvents := stripeWebhookEvents s @
            [\<lparr>w_id = event_uuid D, w_eventId = ev_id ev, w_eventType = event_type (ev_kind ev),
              w_createdAt = shop_now D\<rparr>]\<rparr>)) (\<lambda>_. ret False))"

definition expire_session :: "string \<Rightarrow> (payment_state, unit) io" where
  "expire_session sessionId =
     modify (\<lambda>s. s\<lparr>payments := update_many (\<lambda>p. method_matches sessionId p \<and> p_status p = ''pending'')
        (\<lambda>p. p\<lparr>p_status := ''expired''\<rparr>) (payments s)\<rparr>)"

definition handleWebhook :: "pay_deps \<Rightarrow> string \<Rightarrow> string option \<Rightarrow> (payment_state, unit) io" where
  "handleWebhook D rawBody stripeSignature =
     bnd (throw_if (\<not> stripe_on D) (InternalServerError ''Stripe is not configured on this environment'')) (\<lambda>_.
     bnd (throw_if (\<not> truthy (shop_env D ''STRIPE_WEBHOOK_SECRET'')) (InternalServerError ''Missing STRIPE_WEBHOOK_SECRET'')) (\<lambda>_.
     bnd (throw_if (\<not> truthy stripeSignature) (BadRequest ''Missing stripe-signature header'')) (\<lambda>_.
     bnd (require (BadRequest ''Invalid Stripe webhook signature'')
            (construct_event D rawBody (the stripeSignature) (the (shop_env D ''STRIPE_WEBHOOK_SECRET'')))) (\<lambda>event.
     bnd (store_event D event) (\<lambda>dup.
     if dup then ret ()
     else case ev_kind event of
         SessionCompleted sid \<Rightarrow> bnd (markStripeSessionAsPaid D sid None) (\<lambda>_. ret ())
       | SessionExpired sid \<Rightarrow> expire_session sid
       | OtherEvent _ \<Rightarrow> ret ())))))"

section \<open>Reading and administration\<close>

definition listPayments :: "id \<Rightarrow> (payment_state, payment_row list) io" where
  "listPayments userId =
     asks (\<lambda>s. sort_key (\<lambda>p. - p_createdAt p) (filter (\<lambda>p. p_userId p = userId) (payments s)))"

definition getPublicPlans :: "pay_deps \<Rightarrow> (payment_state, public_plan list) io" where
  "getPublicPlans D =
     bnd (shop_getPlanCatalog D) (\<lambda>catalog.
     ret (sort_key pl_rank (map (\<lambda>p. let plan = catalog p in
       \<lparr>pl_id = p, pl_name = PLAN_LABELS p, pl_amountDt = pp_amountDt plan, pl_rank = pp_rank plan,
        pl_vmHoursMonthly = pp_vmHoursMonthly plan, pl_quota = pp_quota plan,
        pl_features = plan_features (pp_quota plan) (pp_vmHoursMonthly plan)\<rparr>) REQUIRED_PLAN_IDS)))"

definition adminGetAllPlans :: "pay_deps \<Rightarrow> string option \<Rightarrow> (payment_state, public_plan list) io" where
  "adminGetAllPlans D actorRole =
     bnd (shop_assertAdminRole actorRole) (\<lambda>_.
     bnd (shop_getPlanCatalog D) (\<lambda>_.
     bnd findPlanRows (\<lambda>rows.
     ret (List.map_filter (\<lambda>r. case plan_of_name (c_planId r) of
            Some p \<Rightarrow> if p \<in> set REQUIRED_PLAN_IDS then Some (toPublicPlan p r) else None
          | None \<Rightarrow> None) rows))))"

record plan_patch =
  ap_amountDt :: "rat option"
  ap_vmHoursMonthly :: "rat option"
  ap_maxVms :: "rat option"
  ap_maxCpu :: "rat option"
  ap_maxRamMb :: "rat option"
  ap_maxDiskGb :: "rat option"

definition patch_int :: "rat option \<Rightarrow> int \<Rightarrow> int option" where
  "patch_int new old = (case new of None \<Rightarrow> Some old | Some x \<Rightarrow> int_column x)"

definition patch_row :: "plan_patch \<Rightarrow> plan_row \<Rightarrow> plan_row option" where
  "patch_row pt r =
     (case (patch_int (ap_vmHoursMonthly pt) (c_vmHoursMonthly r), patch_int (ap_maxVms pt) (c_maxVms r),
            patch_int (ap_maxCpu pt) (c_maxCpu r), patch_int (ap_maxRamMb pt) (c_maxRamMb r),
            patch_int (ap_maxDiskGb pt) (c_maxDiskGb r)) of
        (Some h, Some v, Some c, Some m, Some d) \<Rightarrow>
          Some (r\<lparr>c_amountDt := nullish (ap_amountDt pt) (c_amountDt r), c_vmHoursMonthly := h, c_maxVms := v,
                  c_maxCpu := c, c_maxRamMb := m, c_maxDiskGb := d\<rparr>)
      | _ \<Rightarrow> None)"

definition patch_empty :: "plan_patch \<Rightarrow> bool" where
  "patch_empty pt \<longleftrightarrow> ap_amountDt pt = None \<and> ap_vmHoursMonthly pt = None \<and> ap_maxVms pt = None \<and>
     ap_maxCpu pt = None \<and> ap_maxRamMb pt = None \<and> ap_maxDiskGb pt = None"

definition adminUpdatePlan :: "pay_deps \<Rightarrow> string option \<Rightarrow> string \<Rightarrow> plan_patch \<Rightarrow> (payment_state, plan_row) io" where
  "adminUpdatePlan D actorRole planName patch =
     bnd (shop_assertAdminRole actorRole) (\<lambda>_.
     bnd (lift (assertPlanId planName)) (\<lambda>p.
     bnd findPlanRows (\<lambda>rows.
     bnd (require (NotFound ''Plan config not found'') (List.find (\<lambda>r. c_planId r = plan_name p) rows)) (\<lambda>existing.
     if patch_empty patch then ret existing
     else
       bnd (require (PrismaError ''validation'') (patch_row patch existing)) (\<lambda>updated.
       bnd (modify (\<lambda>s. s\<lparr>planConfigs := update_many (\<lambda>x. c_planId x = plan_name p) (\<lambda>_. updated) (planConfigs s)\<rparr>)) (\<lambda>_.
       bnd (refreshPlanCatalog D) (\<lambda>_. ret updated)))))))"

section \<open>The rules, characterised\<close>

definition current_plan :: "access_snapshot \<Rightarrow> plan_id option" where
  "current_plan a = (case activePlanId a of None \<Rightarrow> None | Some n \<Rightarrow> if n = ''unlimited'' then None else plan_of_name n)"

definition may_buy :: "pay_catalog \<Rightarrow> access_snapshot \<Rightarrow> plan_id \<Rightarrow> bool" where
  "may_buy cat a requested \<longleftrightarrow> \<not> truthy (activePlanId a) \<or>
     (\<exists>c. current_plan a = Some c \<and> (pp_rank (cat c) < pp_rank (cat requested) \<or> canPurchaseSameOrLower a))"

lemma plan_name_unlimited [simp]: "plan_name p = ''unlimited'' \<longleftrightarrow> p = UNLIMITED"
  by (cases p) simp_all

lemma purchase_allowed:
  assumes "requested \<noteq> UNLIMITED"
  shows "enforcePlanPurchaseRules D u requested cat = Inr () \<longleftrightarrow>
    (\<exists>a. getSubscriptionAccessSnapshot D 0 u = Inr a \<and> may_buy cat a requested)"
  using assms
  by (auto simp: enforcePlanPurchaseRules_def getPlanRank_def may_buy_def current_plan_def truthy_def plan_of_name plan_of_name_Some
      split: sum.splits option.splits if_splits)

section \<open>Activations\<close>

definition plan_of_payment :: "payment_row \<Rightarrow> plan_id option" where
  "plan_of_payment p = extractPlanFromPayment (p_planId p) (p_method p)"

definition activations_for :: "payment_row list \<Rightarrow> (id \<times> plan_id) list" where
  "activations_for ps = List.map_filter (\<lambda>p. map_option (Pair (p_userId p)) (plan_of_payment p)) ps"

lemma syncQuotaForPlan_Inr:
  "syncQuotaForPlan D u pl s = (Inr x, t) \<Longrightarrow>
     t = s\<lparr>activations := activations s @ (case pl of None \<Rightarrow> [] | Some p \<Rightarrow> [(u, p)])\<rparr>"
  by (auto simp: syncQuotaForPlan_def io_iffs split: option.splits)

lemma syncQuotaForPlan_Inl: "syncQuotaForPlan D u pl s = (Inl e, t) \<Longrightarrow> t = s"
  by (auto simp: syncQuotaForPlan_def io_iffs split: option.splits)

lemma sync_all_frame: "sync_all D ps s = (r, t) \<Longrightarrow> \<exists>a. t = s\<lparr>activations := a\<rparr>"
proof (induction ps arbitrary: s r t)
  case (Cons p ps)
  show ?case
  proof (cases r)
    case (Inl e)
    then consider "syncQuotaForPlan D (p_userId p) (plan_of_payment p) s = (Inl e, t)"
      | s1 r' where "syncQuotaForPlan D (p_userId p) (plan_of_payment p) s = (Inr (), s1)" "sync_all D ps s1 = (r', t)"
      using Cons.prems by (auto simp: io_iffs Let_def plan_of_payment_def)
    then show ?thesis
    proof cases
      case 1
      then show ?thesis using syncQuotaForPlan_Inl by (metis payment_state.surjective payment_state.update_convs(3))
    next
      case 2
      then show ?thesis using Cons.IH [OF 2(2)] syncQuotaForPlan_Inr [OF 2(1)] by auto
    qed
  next
    case (Inr a)
    then obtain s1 r' where "syncQuotaForPlan D (p_userId p) (plan_of_payment p) s = (Inr (), s1)" "sync_all D ps s1 = (r', t)"
      using Cons.prems by (auto simp: io_iffs Let_def plan_of_payment_def)
    then show ?thesis using Cons.IH syncQuotaForPlan_Inr by fastforce
  qed
next
  case Nil
  then show ?case by (intro exI [of _ "activations s"]) simp
qed

lemma sync_all_Inr:
  "sync_all D ps s = (Inr applied, t) \<Longrightarrow>
     applied = List.map_filter plan_of_payment ps \<and> t = s\<lparr>activations := activations s @ activations_for ps\<rparr>"
proof (induction ps arbitrary: s applied t)
  case (Cons p ps)
  then obtain s1 rest where s1: "syncQuotaForPlan D (p_userId p) (plan_of_payment p) s = (Inr (), s1)"
    "sync_all D ps s1 = (Inr rest, t)" "applied = (case plan_of_payment p of None \<Rightarrow> [] | Some q \<Rightarrow> [q]) @ rest"
    by (auto simp: io_iffs Let_def plan_of_payment_def)
  then show ?case using syncQuotaForPlan_Inr [OF s1(1)] Cons.IH [OF s1(2)]
    by (auto simp: activations_for_def split: option.split)
qed (simp add: activations_for_def)

text \<open>What completing a session does when it succeeds.\<close>

definition marked :: "string \<Rightarrow> payment_state \<Rightarrow> payment_row list" where
  "marked sid s = update_many (\<lambda>p. p_id p \<in> p_id ` set (filter (method_matches sid) (payments s)) \<and> p_status p \<notin> set paid_statuses)
     (\<lambda>p. p\<lparr>p_status := ''paid''\<rparr>) (payments s)"

lemma mark_Inr:
  assumes "markStripeSessionAsPaid D sid who s = (Inr (n, applied), t)"
  shows "n = length (filter (method_matches sid) (payments s)) \<and>
    applied = List.map_filter plan_of_payment (filter (method_matches sid) (payments s)) \<and>
    t = s\<lparr>payments := marked sid s,
          activations := activations s @ activations_for (filter (method_matches sid) (payments s))\<rparr> \<and>
    (truthy who \<longrightarrow> (\<forall>p \<in> set (payments s). method_matches sid p \<longrightarrow> p_userId p = the who))"
proof (cases "filter (method_matches sid) (payments s) = []")
  case True
  then have "marked sid s = payments s" by (simp add: marked_def update_many_def)
  then show ?thesis using assms True
    by (auto simp: markStripeSessionAsPaid_def io_iffs activations_for_def filter_empty_conv)
next
  case False
  then show ?thesis using assms
    by (auto simp: markStripeSessionAsPaid_def io_iffs marked_def dest!: sync_all_Inr)
qed

lemma mark_payments:
  assumes "markStripeSessionAsPaid D sid who s = (r, t)"
  shows "payments t = payments s \<or> payments t = marked sid s"
  using assms unfolding markStripeSessionAsPaid_def
  by (cases r) (auto simp: io_iffs marked_def split: if_splits dest!: sync_all_frame)

section \<open>Payments once made stay made\<close>

definition paid_payment :: "id \<Rightarrow> payment_state \<Rightarrow> bool" where
  "paid_payment i s \<longleftrightarrow> (\<exists>p \<in> set (payments s). p_id p = i \<and> p_status p \<in> set paid_statuses)"

lemma paid_marked: "paid_payment i s \<Longrightarrow> payments t = marked sid s \<Longrightarrow> paid_payment i t"
  by (force simp: paid_payment_def marked_def set_update_many)

lemma paid_frame: "paid_payment i s \<Longrightarrow> payments t = payments s \<Longrightarrow> paid_payment i t"
  by (simp add: paid_payment_def)

lemma preserves_paid_frame: "(\<And>s r t. m s = (r, t) \<Longrightarrow> payments t = payments s) \<Longrightarrow> preserves (paid_payment i) m"
  by (rule preservesI) (simp add: paid_frame)

lemma mark_keeps_paid [preserves_intros]: "preserves (paid_payment i) (markStripeSessionAsPaid D sid who)"
proof (rule preservesI)
  fix s r t assume "paid_payment i s" "markStripeSessionAsPaid D sid who s = (r, t)"
  then show "paid_payment i t" using mark_payments paid_marked paid_frame by blast
qed

lemma plan_rows_payments [preserves_intros]: "preserves (paid_payment i) plan_rows"
  by (rule preserves_paid_frame) (auto simp: plan_rows_eq table_there_def)

lemma findPlanRows_payments [preserves_intros]: "preserves (paid_payment i) findPlanRows"
  unfolding findPlanRows_def by (intro preserves_intros)

lemma seed_payments [preserves_intros]: "preserves (paid_payment i) (seedPlanConfigs uuid seed)"
  unfolding seedPlanConfigs_def by (intro preserves_intros preserves_modify) (simp add: paid_payment_def)

lemma load_payments [preserves_intros]: "preserves (paid_payment i) (loadPlanCatalog D)"
  unfolding loadPlanCatalog_def by (intro preserves_intros)

lemma shop_catalog_payments [preserves_intros]: "preserves (paid_payment i) (shop_getPlanCatalog D)"
  unfolding shop_getPlanCatalog_def by (intro preserves_intros preserves_modify) (simp add: paid_payment_def)

lemma insert_payment_paid [preserves_intros]: "preserves (paid_payment i) (insert_payment p)"
  unfolding insert_payment_def by (intro preserves_intros preserves_modify) (auto simp: paid_payment_def)

lemma store_event_paid [preserves_intros]: "preserves (paid_payment i) (store_event D ev)"
  unfolding store_event_def by (intro preserves_intros preserves_modify) (auto simp: paid_payment_def)

lemma expire_paid [preserves_intros]: "preserves (paid_payment i) (expire_session sid)"
  unfolding expire_session_def
  by (intro preserves_modify) (force simp: paid_payment_def set_update_many paid_statuses_def)

lemma preserves_event [preserves_intros]:
  "(\<And>a. preserves P (f a)) \<Longrightarrow> (\<And>a. preserves P (g a)) \<Longrightarrow> (\<And>a. preserves P (h a)) \<Longrightarrow>
     preserves P (case k of SessionCompleted a \<Rightarrow> f a | SessionExpired a \<Rightarrow> g a | OtherEvent a \<Rightarrow> h a)"
  by (cases k) simp_all

text \<open>
  A payment that is paid or granted stays so, whatever happens afterwards: a checkout, a
  confirmation, any webhook, completed or expired, first or repeated, successful or not, and any
  change of the plans leave it paid.
\<close>

theorem paid_stays_paid:
  "preserves (paid_payment i) (createCheckoutSession D u role planName) \<and>
   preserves (paid_payment i) (confirmCheckoutSession D u sid) \<and>
   preserves (paid_payment i) (handleWebhook D raw sig) \<and>
   preserves (paid_payment i) (adminUpdatePlan D r planName pt)"
  unfolding createCheckoutSession_def confirmCheckoutSession_def handleWebhook_def adminUpdatePlan_def
    shop_assertAdminRole_def refreshPlanCatalog_def
  by (intro conjI preserves_intros preserves_modify) (simp_all add: paid_payment_def)

section \<open>What a checkout leaves behind\<close>

definition cent_prices :: "pay_catalog \<Rightarrow> bool" where
  "cent_prices cat \<longleftrightarrow> (\<forall>p. 0 \<le> pp_amountDt (cat p) \<and> fl (pp_amountDt (cat p)) = pp_amountDt (cat p) \<and>
     to_fixed_number 2 (pp_amountDt (cat p)) = pp_amountDt (cat p))"

lemma charge_dt_bounds:
  assumes "0 \<le> price" "fl price = price" "to_fixed_number 2 price = price" "0 \<le> old"
  shows "0 \<le> charge_dt up price old" "charge_dt up price old \<le> price"
proof -
  let ?d = "js_sub price old"
  have d: "?d \<le> price" using fl_mono [of "price - old" price] assms by (simp add: js_sub_def)
  have "to_fixed_number 2 ?d \<le> price"
  proof (cases "0 \<le> ?d")
    case True
    then show ?thesis using to_fixed_mono [OF True d, of 2] assms(3) by simp
  next
    case False
    have "0 \<le> fl (of_int \<lfloor>- (?d * 100) + 1 / 2\<rfloor> / 100)" using False by (intro fl_nonneg) simp
    then have "to_fixed_number 2 ?d \<le> 0"
      using False by (simp add: to_fixed_number_def to_fixed_int_def fl_minus abs_mult)
    then show ?thesis using assms(1) by simp
  qed
  then show "0 \<le> charge_dt up price old" "charge_dt up price old \<le> price" using assms(1) by (simp_all add: charge_dt_def)
qed

lemma shop_catalog_frame:
  "shop_getPlanCatalog D s = (r, s1) \<Longrightarrow> payments s1 = payments s \<and> activations s1 = activations s \<and> checkouts s1 = checkouts s"
proof -
  let ?P = "\<lambda>x. payments x = payments s \<and> activations x = activations s \<and> checkouts x = checkouts s"
  have rows: "preserves ?P plan_rows" by (rule preservesI) (auto simp: plan_rows_eq table_there_def)
  have "preserves ?P (shop_getPlanCatalog D)"
    unfolding shop_getPlanCatalog_def loadPlanCatalog_def findPlanRows_def seedPlanConfigs_def
    by (intro preserves_intros preserves_modify rows) simp_all
  then show "shop_getPlanCatalog D s = (r, s1) \<Longrightarrow> ?P s1" by (rule preservesD) simp_all
qed

lemma student_check_Inr:
  "(if p = STUDENT then bnd (lift (getStudentVerification D u)) (\<lambda>v. throw_if (\<not> v) e) else ret ()) s = (Inr x, t) \<longleftrightarrow>
     t = s \<and> (p = STUDENT \<longrightarrow> getStudentVerification D u = Inr True)"
  by (auto simp: io_iffs)

lemma insert_payment_Inr:
  "insert_payment p s = (Inr x, t) \<Longrightarrow> t = s\<lparr>payments := payments s @ [p]\<rparr>"
  by (auto simp: insert_payment_def io_iffs)

text \<open>What a plan costs somebody with this subscription: an upgrade the difference of the prices, anything else the price.\<close>

definition due :: "pay_catalog \<Rightarrow> access_snapshot \<Rightarrow> plan_id \<Rightarrow> rat" where
  "due cat a pl = (case current_plan a of
       Some c \<Rightarrow> if pp_rank (cat c) < pp_rank (cat pl) then max 0 (to_fixed_number 2 (js_sub (pp_amountDt (cat pl)) (pp_amountDt (cat c))))
                else pp_amountDt (cat pl)
     | None \<Rightarrow> pp_amountDt (cat pl))"

lemma due_bounds:
  assumes "cent_prices cat"
  shows "0 \<le> due cat a pl \<and> due cat a pl \<le> pp_amountDt (cat pl)"
proof -
  have "0 \<le> charge_dt up (pp_amountDt (cat pl)) (pp_amountDt (cat c)) \<and> charge_dt up (pp_amountDt (cat pl)) (pp_amountDt (cat c)) \<le> pp_amountDt (cat pl)" for up c
    using assms charge_dt_bounds [of "pp_amountDt (cat pl)" "pp_amountDt (cat c)" up] by (simp add: cent_prices_def)
  from this [of True] show ?thesis
    using assms by (auto simp: due_def charge_dt_def cent_prices_def split: option.split)
qed

definition pending_for :: "pay_deps \<Rightarrow> id \<Rightarrow> plan_id \<Rightarrow> checkout_result \<Rightarrow> payment_row" where
  "pending_for D u pl res = \<lparr>p_id = payment_uuid D, p_userId = u, p_planId = Some (plan_name pl), p_amount = cr_amountDt res,
     p_currency = ''TND'', p_status = ''pending'', p_method = Some (stripe_method (cr_sessionId res) pl (cr_chargedAmount res)), p_createdAt = shop_now D\<rparr>"

definition current_name :: "access_snapshot \<Rightarrow> string option" where
  "current_name a = (if activePlanId a = Some ''unlimited'' \<or> \<not> truthy (activePlanId a) then None else activePlanId a)"

lemma charge_due:
  assumes "getPlanRank (current_name a) cat = Inr rk" "pl \<noteq> UNLIMITED" "current = (case current_name a of None \<Rightarrow> None | Some n \<Rightarrow> plan_of_name n)"
  shows "charge_dt (current \<noteq> None \<and> rk < pp_rank (cat pl)) (pp_amountDt (cat pl)) (case current of None \<Rightarrow> 0 | Some c \<Rightarrow> pp_amountDt (cat c)) = due cat a pl"
  using assms
  by (auto simp: current_name_def getPlanRank_def due_def current_plan_def charge_dt_def truthy_def plan_of_name_def split: option.splits if_splits)

lemma createCheckout_Inr:
  assumes "createCheckoutSession D u role planName s = (Inr res, t)"
  obtains pl cat a b req s1 where "assertPlanId planName = Inr pl" "role \<noteq> ''ADMIN''" "shop_getPlanCatalog D s = (Inr cat, s1)"
    "pl = STUDENT \<longrightarrow> getStudentVerification D u = Inr True" "getSubscriptionAccessSnapshot D 0 u = Inr a" "may_buy cat a pl"
    "getSubscriptionAccessSnapshot D 1 u = Inr b" "cr_amountDt res = due cat b pl"
    "co_userId req = u" "co_planId req = pl" "co_amountTnd req = cr_amountDt res" "co_usdCents req = Math_round (js_mul (cr_chargedAmount res) 100)"
    "t = s1\<lparr>checkouts := checkouts s1 @ [req], payments := payments s1 @ [pending_for D u pl res]\<rparr>"
proof -
  obtain cat s1 pl where 1: "shop_getPlanCatalog D s = (Inr cat, s1)" "assertPlanId planName = Inr pl" "role \<noteq> ''ADMIN''"
    using assms unfolding createCheckoutSession_def by (auto simp: io_iffs)
  have pl: "pl \<noteq> UNLIMITED" using 1(2) by (auto simp: assertPlanId_def split: option.splits if_splits)
  then have rank: "getPlanRank (Some (plan_name pl)) cat = Inr (pp_rank (cat pl))"
    by (cases pl) (simp_all add: getPlanRank_def plan_of_name_def)
  obtain b rk rate req where 2: "pl = STUDENT \<longrightarrow> getStudentVerification D u = Inr True" "enforcePlanPurchaseRules D u pl cat = Inr ()"
    "getSubscriptionAccessSnapshot D 1 u = Inr b" "getPlanRank (current_name b) cat = Inr rk"
    "cr_amountDt res = charge_dt ((case current_name b of None \<Rightarrow> None | Some n \<Rightarrow> plan_of_name n) \<noteq> None \<and> rk < pp_rank (cat pl)) (pp_amountDt (cat pl))
       (case (case current_name b of None \<Rightarrow> None | Some n \<Rightarrow> plan_of_name n) of None \<Rightarrow> 0 | Some c \<Rightarrow> pp_amountDt (cat c))"
    "insert_payment (pending_for D u pl res) (s1\<lparr>checkouts := checkouts s1 @ [req]\<rparr>) = (Inr (), t)"
    "co_userId req = u" "co_planId req = pl" "co_amountTnd req = cr_amountDt res" "co_usdCents req = Math_round (js_mul (cr_chargedAmount res) 100)"
    using assms unfolding createCheckoutSession_def
    by (simp only: 1 rank io_iffs Let_def student_check_Inr current_name_def [symmetric], elim exE conjE)
      (clarsimp simp: io_iffs 1 rank pending_for_def)
  obtain a where a: "getSubscriptionAccessSnapshot D 0 u = Inr a" "may_buy cat a pl" using 2(2) purchase_allowed [OF pl] by blast
  have "cr_amountDt res = due cat b pl" unfolding 2(5) by (rule charge_due [OF 2(4) pl refl])
  then show thesis using that [OF 1(2,3,1) 2(1) a 2(3) _ 2(7-10)] insert_payment_Inr [OF 2(6)] by simp
qed

text \<open>What a method keeps when it fails; a step before its last writes may not touch it.\<close>

definition keeps_failing :: "('s \<Rightarrow> bool) \<Rightarrow> ('s, 'a) io \<Rightarrow> bool" where
  "keeps_failing P m \<longleftrightarrow> (\<forall>s e t. P s \<longrightarrow> m s = (Inl e, t) \<longrightarrow> P t)"

lemma keeps_failing_bnd:
  assumes "preserves P m" "\<And>a. keeps_failing P (k a)"
  shows "keeps_failing P (bnd m k)"
  using assms unfolding keeps_failing_def preserves_def bnd_Inl_iff by (metis snd_conv)

lemma keeps_failing_Let: "(\<And>a. keeps_failing P (k a)) \<Longrightarrow> keeps_failing P (let a = x in k a)"
  by simp

lemma keeps_failing_prod: "(\<And>a b. keeps_failing P (k a b)) \<Longrightarrow> keeps_failing P (case x of (a, b) \<Rightarrow> k a b)"
  by (cases x) simp

lemma keeps_failing_insert:
  "keeps_failing (\<lambda>x. payments x = payments s \<and> activations x = activations s) (bnd (insert_payment p) (\<lambda>_. ret res))"
  by (auto simp: keeps_failing_def bnd_eq insert_payment_def throw_if_eq split: if_splits)

lemma checkout_refused_frame:
  assumes "createCheckoutSession D u role planName s = (Inl e, t)"
  shows "payments t = payments s \<and> activations t = activations s"
proof -
  let ?P = "\<lambda>x. payments x = payments s \<and> activations x = activations s"
  have cat: "preserves ?P (shop_getPlanCatalog D)" by (rule preservesI) (auto dest: shop_catalog_frame)
  have "keeps_failing ?P (createCheckoutSession D u role planName)"
    unfolding createCheckoutSession_def
    by (rule keeps_failing_insert | rule keeps_failing_Let | rule keeps_failing_prod | rule keeps_failing_bnd | rule cat
        | (intro preserves_intros preserves_modify; simp))+
  from this [unfolded keeps_failing_def, rule_format, OF _ assms] show ?thesis by simp
qed


section \<open>Completion\<close>

lemma confirm_activations:
  assumes "confirmCheckoutSession D u sid s = (Inr (n, applied), t)" "u \<noteq> []"
  shows "activations t = activations s @ map (Pair u) applied"
proof -
  have m: "markStripeSessionAsPaid D sid (Some u) s = (Inr (n, applied), t)"
    using assms(1) by (auto simp: confirmCheckoutSession_def io_iffs)
  note mm = mark_Inr [OF m]
  have "\<forall>p \<in> set (payments s). method_matches sid p \<longrightarrow> p_userId p = u" using mm assms(2) by simp
  then have "activations_for (filter (method_matches sid) ps) = map (Pair u) (List.map_filter plan_of_payment (filter (method_matches sid) ps))"
    if "set ps \<subseteq> set (payments s)" for ps
    using that by (induction ps) (auto simp: activations_for_def split: option.split)
  then show ?thesis using mm by simp
qed


lemma handleWebhook_verified:
  assumes "stripe_on D" "shop_env D ''STRIPE_WEBHOOK_SECRET'' = Some secret" "secret \<noteq> []" "sig \<noteq> []"
    and "construct_event D raw sig secret = Some ev"
  shows "handleWebhook D raw (Some sig) =
    bnd (store_event D ev) (\<lambda>dup. if dup then ret ()
       else case ev_kind ev of
           SessionCompleted sid \<Rightarrow> bnd (markStripeSessionAsPaid D sid None) (\<lambda>_. ret ())
         | SessionExpired sid \<Rightarrow> expire_session sid
         | OtherEvent _ \<Rightarrow> ret ())"
  using assms by (simp add: handleWebhook_def fun_eq_iff bnd_eq throw_if_eq require_eq)

definition event_row :: "pay_deps \<Rightarrow> stripe_event \<Rightarrow> webhook_row" where
  "event_row D ev = \<lparr>w_id = event_uuid D, w_eventId = ev_id ev, w_eventType = event_type (ev_kind ev), w_createdAt = shop_now D\<rparr>"

lemma store_event_eq:
  "store_event D ev s =
     (if \<exists>w \<in> set (stripeWebhookEvents s). w_eventId w = ev_id ev \<or> w_id w = event_uuid D then (Inr True, s)
      else (Inr False, s\<lparr>stripeWebhookEvents := stripeWebhookEvents s @ [event_row D ev]\<rparr>))"
  by (simp add: store_event_def bnd_eq event_row_def)

lemma mark_events: "markStripeSessionAsPaid D sid who s = (r, t) \<Longrightarrow> stripeWebhookEvents t = stripeWebhookEvents s"
  unfolding markStripeSessionAsPaid_def
  by (cases r) (auto simp: io_iffs split: if_splits dest!: sync_all_frame)

lemma expire_events: "expire_session sid s = (r, t) \<Longrightarrow> stripeWebhookEvents t = stripeWebhookEvents s"
  by (auto simp: expire_session_def)

text \<open>Once a verified event was handled, its identifier is stored, whatever the outcome was.\<close>

lemma event_stored:
  assumes "bnd (store_event D ev) (\<lambda>dup. if dup then ret () else case ev_kind ev of
           SessionCompleted sid \<Rightarrow> bnd (markStripeSessionAsPaid D sid None) (\<lambda>_. ret ())
         | SessionExpired sid \<Rightarrow> expire_session sid
         | OtherEvent _ \<Rightarrow> ret ()) s = (r, t)"
    and "\<forall>w \<in> set (stripeWebhookEvents s). w_id w \<noteq> event_uuid D"
  shows "\<exists>w \<in> set (stripeWebhookEvents t). w_eventId w = ev_id ev"
proof (cases "\<exists>w \<in> set (stripeWebhookEvents s). w_eventId w = ev_id ev \<or> w_id w = event_uuid D")
  case True
  then show ?thesis using assms by (auto simp: bnd_eq store_event_eq)
next
  case False
  let ?s = "s\<lparr>stripeWebhookEvents := stripeWebhookEvents s @ [event_row D ev]\<rparr>"
  have "stripeWebhookEvents t = stripeWebhookEvents ?s"
    using assms(1) False
    by (auto simp: bnd_eq store_event_eq expire_session_def split: stripe_event_kind.splits prod.splits sum.splits
        dest!: mark_events)
  then show ?thesis by (simp add: event_row_def)
qed

text \<open>
  C24: a webhook is handled at most once: after a delivery of an event, every further delivery
  of it is acknowledged and changes nothing, whatever the first delivery came to.
\<close>

theorem webhook_idempotent:
  assumes "handleWebhook D raw (Some sig) s = (r, t)"
    and "stripe_on D" "shop_env D ''STRIPE_WEBHOOK_SECRET'' = Some secret" "secret \<noteq> []" "sig \<noteq> []"
    and "construct_event D raw sig secret = Some ev" "\<forall>w \<in> set (stripeWebhookEvents s). w_id w \<noteq> event_uuid D"
    and "stripe_on D'" "shop_env D' = shop_env D" "construct_event D' = construct_event D"
  shows "handleWebhook D' raw (Some sig) t = (Inr (), t)"
proof -
  have "\<exists>w \<in> set (stripeWebhookEvents t). w_eventId w = ev_id ev"
    using event_stored [OF _ assms(7)] assms(1) handleWebhook_verified [OF assms(2-6)] by simp
  moreover have "construct_event D' raw sig secret = Some ev" "shop_env D' ''STRIPE_WEBHOOK_SECRET'' = Some secret"
    using assms by simp_all
  ultimately show ?thesis
    using handleWebhook_verified [OF assms(8) _ assms(4,5)] by (auto simp: bnd_eq store_event_eq)
qed

text \<open>
  Handling at most once loses payments: when the completed session's activation fails, the
  payment is already marked paid and the event stored, so the delivery that Stripe repeats is
  acknowledged without activating anything, and the plan that was paid for never reaches the
  user service through the webhook.
\<close>

theorem failed_activation_never_retried:
  assumes "handleWebhook D raw (Some sig) s = (Inl e, t)"
    and "stripe_on D" "shop_env D ''STRIPE_WEBHOOK_SECRET'' = Some secret" "secret \<noteq> []" "sig \<noteq> []"
    and "construct_event D raw sig secret = Some ev" "ev_kind ev = SessionCompleted sid"
    and "filter (method_matches sid) (payments s) = [p]" "plan_of_payment p = Some pl"
    and "stripe_on D'" "shop_env D' = shop_env D" "construct_event D' = construct_event D"
  shows "payments t = marked sid s \<and> activations t = activations s \<and> handleWebhook D' raw (Some sig) t = (Inr (), t)"
proof -
  have run: "bnd (store_event D ev) (\<lambda>dup. if dup then ret () else bnd (markStripeSessionAsPaid D sid None) (\<lambda>_. ret ())) s = (Inl e, t)"
    using assms(1) unfolding handleWebhook_verified [OF assms(2-6)] assms(7) stripe_event_kind.case .
  let ?s = "s\<lparr>stripeWebhookEvents := stripeWebhookEvents s @ [event_row D ev]\<rparr>"
  have new: "\<not> (\<exists>w \<in> set (stripeWebhookEvents s). w_eventId w = ev_id ev \<or> w_id w = event_uuid D)"
  proof
    assume "\<exists>w \<in> set (stripeWebhookEvents s). w_eventId w = ev_id ev \<or> w_id w = event_uuid D"
    then have "store_event D ev s = (Inr True, s)" by (simp only: store_event_eq if_True)
    then show False using run by (simp add: bnd_eq)
  qed
  then have m: "markStripeSessionAsPaid D sid None ?s = (Inl e, t)"
    using run by (auto simp: bnd_eq store_event_eq split: prod.splits sum.splits)
  have "syncQuotaForPlan D (p_userId p) (Some pl) (?s\<lparr>payments := marked sid s\<rparr>) = (Inl e, t)"
    using m assms(8,9)
    by (auto simp: markStripeSessionAsPaid_def io_iffs Let_def plan_of_payment_def marked_def)
  then have t: "t = ?s\<lparr>payments := marked sid s\<rparr>" by (rule syncQuotaForPlan_Inl)
  have "handleWebhook D' raw (Some sig) t = (Inr (), t)"
    using handleWebhook_verified [OF assms(10) _ assms(4,5), of raw ev] assms(3,6,11,12)
    by (auto simp: t bnd_eq store_event_eq event_row_def)
  then show ?thesis by (simp add: t)
qed

text \<open>Marking and synchronising a second time.\<close>

lemma syncQuota_again:
  "syncQuotaForPlan D u pl s = (Inr x, t) \<Longrightarrow>
     syncQuotaForPlan D u pl s' = (Inr (), s'\<lparr>activations := activations s' @ (case pl of None \<Rightarrow> [] | Some p \<Rightarrow> [(u, p)])\<rparr>)"
  by (auto simp: syncQuotaForPlan_def io_iffs bnd_eq split: option.splits sum.splits)

lemma sync_all_again:
  assumes "sync_all D ps s = (Inr a, t)"
    and "map (\<lambda>p. (p_userId p, plan_of_payment p)) qs = map (\<lambda>p. (p_userId p, plan_of_payment p)) ps"
  shows "sync_all D qs s' = (Inr a, s'\<lparr>activations := activations s' @ activations_for ps\<rparr>)"
  using assms
proof (induction ps arbitrary: qs s s' a t)
  case (Cons p ps)
  obtain q qs' where q: "qs = q # qs'" "p_userId q = p_userId p" "plan_of_payment q = plan_of_payment p"
    "map (\<lambda>p. (p_userId p, plan_of_payment p)) qs' = map (\<lambda>p. (p_userId p, plan_of_payment p)) ps"
    using Cons.prems(2) by (cases qs) auto
  obtain s1 rest where s1: "syncQuotaForPlan D (p_userId p) (plan_of_payment p) s = (Inr (), s1)"
    "sync_all D ps s1 = (Inr rest, t)" "a = (case plan_of_payment p of None \<Rightarrow> [] | Some x \<Rightarrow> [x]) @ rest"
    using Cons.prems(1) by (auto simp: io_iffs Let_def plan_of_payment_def)
  show ?case
    using syncQuota_again [OF s1(1), of s'] Cons.IH [OF s1(2) q(4)] s1(3) q
    by (auto simp: bnd_eq Let_def plan_of_payment_def [symmetric] activations_for_def split: option.split)
qed (simp add: activations_for_def)

lemma matched_marked:
  "map (\<lambda>p. (p_userId p, plan_of_payment p)) (filter (method_matches sid) (update_many c (\<lambda>p. p\<lparr>p_status := x\<rparr>) ps)) =
   map (\<lambda>p. (p_userId p, plan_of_payment p)) (filter (method_matches sid) ps)"
  by (induction ps) (auto simp: method_matches_def plan_of_payment_def)

lemma matched_ids:
  "map p_id (filter (method_matches sid) (update_many c (\<lambda>p. p\<lparr>p_status := x\<rparr>) ps)) = map p_id (filter (method_matches sid) ps)"
  by (induction ps) (auto simp: method_matches_def)

lemma marked_again:
  assumes "payments t = marked sid s"
  shows "marked sid t = payments t"
proof -
  have ids: "p_id ` set (filter (method_matches sid) (payments t)) = p_id ` set (filter (method_matches sid) (payments s))"
    unfolding assms marked_def set_map [symmetric] matched_ids ..
  have "p_status p \<in> set paid_statuses"
    if "p \<in> set (payments t)" "p_id p \<in> p_id ` set (filter (method_matches sid) (payments s))" for p
    using that unfolding assms marked_def by (auto simp: set_update_many paid_statuses_def split: if_splits)
  then show ?thesis unfolding marked_def [of sid t] ids by (intro update_many_none) blast
qed

text \<open>
  A paid session can be confirmed again and again: confirming it once more succeeds, changes
  no payment, and still activates its plans, so a user who once paid for a plan can put himself
  back on it at any later time.
\<close>

theorem paid_session_replayable:
  assumes "confirmCheckoutSession D u sid s = (Inr (n, applied), t)"
  shows "\<exists>t'. confirmCheckoutSession D u sid t = (Inr (n, applied), t') \<and> payments t' = payments t \<and>
    activations t' = activations t @ activations_for (filter (method_matches sid) (payments s))"
proof -
  obtain ss where pre: "stripe_on D" "trim sid \<noteq> []" "stripe_retrieve D sid = Inr (Some ss)"
    "\<not> (truthy (ss_metadataUserId ss) \<and> ss_metadataUserId ss \<noteq> Some u)" "ss_payment_status ss = ''paid''"
    and m: "markStripeSessionAsPaid D sid (Some u) s = (Inr (n, applied), t)"
    using assms by (auto simp: confirmCheckoutSession_def io_iffs)
  let ?ms = "filter (method_matches sid) (payments s)" and ?mt = "filter (method_matches sid) (payments t)"
  have pt: "payments t = marked sid s" and n: "n = length ?ms" using mark_Inr [OF m] by auto
  have same: "map (\<lambda>p. (p_userId p, plan_of_payment p)) ?mt = map (\<lambda>p. (p_userId p, plan_of_payment p)) ?ms"
    unfolding pt marked_def by (rule matched_marked)
  then have len: "length ?mt = length ?ms" by (metis length_map)
  have "p_userId ` set ?mt = p_userId ` set ?ms" using arg_cong [OF same, of "map fst"] by (metis (mono_tags, lifting) comp_apply fst_conv image_set list.map_comp map_eq_conv)
  moreover have own: "truthy (Some u) \<Longrightarrow> p \<in> set ?ms \<Longrightarrow> p_userId p = u" for p using mark_Inr [OF m] by auto
  ultimately have own': "truthy (Some u) \<Longrightarrow> p \<in> set ?mt \<Longrightarrow> p_userId p = u" for p by force
  show ?thesis
  proof (cases "?ms = []")
    case True
    then have "?mt = []" using len by simp
    then have "markStripeSessionAsPaid D sid (Some u) t = (Inr (n, applied), t)"
      using mark_Inr [OF m] True by (simp add: markStripeSessionAsPaid_def bnd_eq)
    then show ?thesis using pre True by (simp add: confirmCheckoutSession_def bnd_eq throw_if_eq require_eq activations_for_def)
  next
    case False
    then have ne: "?mt \<noteq> []" using len by auto
    obtain s1 where "sync_all D ?ms s1 = (Inr applied, t)"
      using m False by (auto simp: markStripeSessionAsPaid_def io_iffs)
    then have again: "sync_all D ?mt t = (Inr applied, t\<lparr>activations := activations t @ activations_for ?ms\<rparr>)"
      using same by (rule sync_all_again)
    have "update_many (\<lambda>p. p_id p \<in> p_id ` set ?mt \<and> p_status p \<notin> set paid_statuses) (\<lambda>p. p\<lparr>p_status := ''paid''\<rparr>) (payments t) = payments t"
      using marked_again [OF pt] by (simp add: marked_def)
    moreover have "\<not> (truthy (Some u) \<and> (\<exists>p \<in> set ?mt. p_userId p \<noteq> the (Some u)))" using own' by auto
    ultimately have "markStripeSessionAsPaid D sid (Some u) t =
        (Inr (n, applied), t\<lparr>activations := activations t @ activations_for ?ms\<rparr>)"
      using ne again len n by (simp add: markStripeSessionAsPaid_def bnd_eq throw_if_eq)
    then show ?thesis using pre by (simp add: confirmCheckoutSession_def bnd_eq throw_if_eq require_eq)
  qed
qed

section \<open>A sample shop\<close>

definition sample_access :: access_snapshot where
  "sample_access = \<lparr>activePlanId = Some ''student'', canPurchaseSameOrLower = False, usageRatio = 0, cycleEndsAt = None,
     vmHoursUsed = None, vmHoursIncluded = None\<rparr>"

definition completed_cs1 :: stripe_event where
  "completed_cs1 = \<lparr>ev_id = ''evt'', ev_kind = SessionCompleted ''cs1''\<rparr>"

lemma completed_cs1_kind: "ev_kind completed_cs1 = SessionCompleted ''cs1''"
  by (simp add: completed_cs1_def)

definition sample_pd :: pay_deps where
  "sample_pd = \<lparr>shop_plans = sample_plans,
     shop_env = [''INTER_SERVICE_SYNC_TOKEN'' \<mapsto> ''k'', ''USER_SERVICE_URL'' \<mapsto> ''u'', ''STRIPE_WEBHOOK_SECRET'' \<mapsto> ''w'',
       ''STRIPE_TND_TO_USD_RATE'' \<mapsto> ''1''],
     shop_now = 0, payment_uuid = ''y1'', event_uuid = ''x1'', stripe_on = True,
     stripe_create = (\<lambda>_. Some (''cs1'', ''url'')),
     stripe_retrieve = (\<lambda>_. Inr (Some \<lparr>ss_metadataUserId = Some ''alice'', ss_payment_status = ''paid''\<rparr>)),
     construct_event = (\<lambda>_ _ _. Some completed_cs1),
     access_at = (\<lambda>_ _ _. Response 200 [] (Some sample_access)), student_at = (\<lambda>_ _. Response 200 [] (Some True)),
     activate_at = (\<lambda>_ _ _. Response 200 [] (Some ())), locale_date = (\<lambda>_. [])\<rparr>"

definition pending_pro :: payment_row where
  "pending_pro = \<lparr>p_id = ''y0'', p_userId = ''alice'', p_planId = Some ''pro'', p_amount = 20, p_currency = ''TND'',
     p_status = ''pending'', p_method = Some ''stripe:cs1:plan:pro:usd:20.00'', p_createdAt = 0\<rparr>"

definition sample_shop :: payment_state where
  "sample_shop = plan_state.extend
     ((db.extend empty_db \<lparr>plan_table = True\<rparr>)\<lparr>planConfigs := sample_rows, payments := [pending_pro]\<rparr>)
     \<lparr>planCatalog = Some (\<lambda>p. buildPaymentPlanConfig p (case p of STUDENT \<Rightarrow> sample_rows ! 0 | PRO \<Rightarrow> sample_rows ! 1 | _ \<Rightarrow> sample_rows ! 2)),
       checkouts = [], activations = []\<rparr>"

lemma sample_shop_simps [simp]:
  "payments sample_shop = [pending_pro]" "activations sample_shop = []" "checkouts sample_shop = []"
  "stripeWebhookEvents sample_shop = []"
  by (simp_all add: sample_shop_def plan_state.extend_def db.extend_def empty_db_def)

lemma pending_pro_matches: "method_matches ''cs1'' pending_pro" "plan_of_payment pending_pro = Some PRO"
  by (simp_all add: method_matches_def pending_pro_def starts_with_def plan_of_payment_def extractPlanFromPayment_def plan_of_name_def)

lemma sample_trims: "trim ''k'' = ''k''" "trim ''u'' = ''u''" "trim ''cs1'' = ''cs1''"
  by (simp_all add: trim_def is_ws_def Let_def)

lemma sample_pd_simps:
  "stripe_on sample_pd" "stripe_retrieve sample_pd ''cs1'' = Inr (Some \<lparr>ss_metadataUserId = Some ''alice'', ss_payment_status = ''paid''\<rparr>)"
  by (simp_all add: sample_pd_def)

lemma sample_access_read: "getSubscriptionAccessSnapshot sample_pd n ''alice'' = Inr sample_access"
  by (simp add: getSubscriptionAccessSnapshot_def user_call_def getUserServiceUrl_def getInterServiceSyncToken_def Let_def
      sample_pd_def shop_checkResponse_def response_ok_def json_body_def sample_trims)

lemma sample_activate: "syncQuotaForPlan sample_pd u (Some p) s = (Inr (), s\<lparr>activations := activations s @ [(u, p)]\<rparr>)"
  by (simp add: syncQuotaForPlan_def bnd_eq user_call_def getUserServiceUrl_def getInterServiceSyncToken_def Let_def
      sample_pd_def shop_checkResponse_def response_ok_def sample_trims)

lemma sample_confirm:
  "confirmCheckoutSession sample_pd ''alice'' ''cs1'' sample_shop =
     (Inr (1, [PRO]), sample_shop\<lparr>payments := [pending_pro\<lparr>p_status := ''paid''\<rparr>], activations := [(''alice'', PRO)]\<rparr>)"
proof -
  have "markStripeSessionAsPaid sample_pd ''cs1'' (Some ''alice'') sample_shop =
     (Inr (1, [PRO]), sample_shop\<lparr>payments := [pending_pro\<lparr>p_status := ''paid''\<rparr>], activations := [(''alice'', PRO)]\<rparr>)"
    using pending_pro_matches
    by (simp add: markStripeSessionAsPaid_def bnd_eq throw_if_eq sample_activate plan_of_payment_def Let_def update_many_def
        paid_statuses_def) (simp add: pending_pro_def)
  then show ?thesis
    by (simp add: confirmCheckoutSession_def bnd_eq throw_if_eq require_eq sample_pd_simps sample_trims)
qed


theorem paid_session_replayable_witness:
  "\<exists>t. confirmCheckoutSession sample_pd ''alice'' ''cs1''
     (sample_shop\<lparr>payments := [pending_pro\<lparr>p_status := ''paid''\<rparr>], activations := [(''alice'', PRO)]\<rparr>) = (Inr (1, [PRO]), t) \<and>
     activations t = [(''alice'', PRO), (''alice'', PRO)]"
  using paid_session_replayable [OF sample_confirm] pending_pro_matches
  by (auto simp: activations_for_def pending_pro_def)

definition refusing_pd :: pay_deps where
  "refusing_pd = sample_pd\<lparr>activate_at := \<lambda>_ _ _. Response 503 [] None\<rparr>"

lemma refusing_simps:
  "stripe_on refusing_pd" "shop_env refusing_pd = shop_env sample_pd" "construct_event refusing_pd = construct_event sample_pd"
  "event_uuid refusing_pd = event_uuid sample_pd"
  by (simp_all add: refusing_pd_def sample_pd_def)

lemma sample_event:
  "stripe_on sample_pd" "shop_env sample_pd ''STRIPE_WEBHOOK_SECRET'' = Some ''w''"
  "construct_event sample_pd ''b'' ''s'' ''w'' = Some completed_cs1"
  by (simp_all add: sample_pd_def)

theorem webhook_idempotent_witness:
  "\<exists>r t. handleWebhook sample_pd ''b'' (Some ''s'') sample_shop = (r, t) \<and> handleWebhook sample_pd ''b'' (Some ''s'') t = (Inr (), t)"
proof -
  obtain r t where "handleWebhook sample_pd ''b'' (Some ''s'') sample_shop = (r, t)" by fastforce
  then show ?thesis
    using webhook_idempotent [OF _ sample_event(1,2) _ _ sample_event(3) _ sample_event(1)] by auto
qed

lemma refused_sync: "\<exists>e. syncQuotaForPlan refusing_pd u (Some p) s = (Inl e, s)"
  by (simp add: syncQuotaForPlan_def bnd_eq user_call_def getUserServiceUrl_def getInterServiceSyncToken_def Let_def
      refusing_pd_def sample_pd_def shop_checkResponse_def response_ok_def sample_trims)

lemma refused_mark: "payments s = [pending_pro] \<Longrightarrow> \<exists>e t. markStripeSessionAsPaid refusing_pd ''cs1'' None s = (Inl e, t)"
proof -
  assume s: "payments s = [pending_pro]"
  obtain e where "syncQuotaForPlan refusing_pd (p_userId pending_pro) (Some PRO) (s\<lparr>payments := [pending_pro\<lparr>p_status := ''paid''\<rparr>]\<rparr>) =
      (Inl e, s\<lparr>payments := [pending_pro\<lparr>p_status := ''paid''\<rparr>]\<rparr>)" using refused_sync by blast
  moreover have "p_status pending_pro \<notin> set paid_statuses" by (simp add: pending_pro_def paid_statuses_def)
  ultimately show ?thesis
    using s pending_pro_matches by (simp add: markStripeSessionAsPaid_def bnd_eq throw_if_eq plan_of_payment_def Let_def)
qed

lemma refused_activation:
  "\<exists>e t. handleWebhook refusing_pd ''b'' (Some ''s'') sample_shop = (Inl e, t)"
proof -
  have ev: "construct_event refusing_pd ''b'' ''s'' ''w'' = Some completed_cs1" "shop_env refusing_pd ''STRIPE_WEBHOOK_SECRET'' = Some ''w''"
    using sample_event refusing_simps by simp_all
  note web = handleWebhook_verified [OF refusing_simps(1) ev(2) _ _ ev(1), simplified completed_cs1_kind stripe_event_kind.case]
  obtain e t where "markStripeSessionAsPaid refusing_pd ''cs1'' None
      (sample_shop\<lparr>stripeWebhookEvents := [event_row refusing_pd completed_cs1]\<rparr>) = (Inl e, t)"
    using refused_mark [of "sample_shop\<lparr>stripeWebhookEvents := [event_row refusing_pd completed_cs1]\<rparr>"] by auto
  then show ?thesis using web by (simp add: bnd_eq store_event_eq)
qed

theorem failed_activation_never_retried_witness:
  "\<exists>e t. handleWebhook refusing_pd ''b'' (Some ''s'') sample_shop = (Inl e, t) \<and> activations t = [] \<and>
     handleWebhook sample_pd ''b'' (Some ''s'') t = (Inr (), t)"
proof -
  obtain e t where run: "handleWebhook refusing_pd ''b'' (Some ''s'') sample_shop = (Inl e, t)" using refused_activation by blast
  have ev: "construct_event refusing_pd ''b'' ''s'' ''w'' = Some completed_cs1" "shop_env refusing_pd ''STRIPE_WEBHOOK_SECRET'' = Some ''w''"
    "filter (method_matches ''cs1'') (payments sample_shop) = [pending_pro]"
    using sample_event refusing_simps pending_pro_matches by simp_all
  have "activations t = activations sample_shop \<and> handleWebhook sample_pd ''b'' (Some ''s'') t = (Inr (), t)"
    using failed_activation_never_retried [OF run refusing_simps(1) ev(2) _ _ ev(1) completed_cs1_kind ev(3) pending_pro_matches(2)
        sample_event(1) refusing_simps(2) [symmetric] refusing_simps(3) [symmetric]] by blast
  then show ?thesis using run by auto
qed

lemma sample_rate: "getUsdPerTndRate (shop_env sample_pd) = Inr 1"
  by (simp add: getUsdPerTndRate_def js_Number_def sample_pd_def trim_def is_ws_def Let_def decimal_value_def is_digit_def digits_value_def)

lemma sample_shop_catalog:
  "shop_getPlanCatalog sample_pd sample_shop = (Inr (the (planCatalog sample_shop)), sample_shop)"
  by (simp add: shop_getPlanCatalog_def bnd_eq sample_shop_def plan_state.extend_def db.extend_def empty_db_def)

lemma sample_purchase: "enforcePlanPurchaseRules sample_pd ''alice'' PRO (the (planCatalog sample_shop)) = Inr ()"
  by (simp add: enforcePlanPurchaseRules_def sample_access_read getPlanRank_def plan_of_name_def sample_access_def sample_shop_def
      plan_state.extend_def db.extend_def empty_db_def buildPaymentPlanConfig_def sample_rows_def)

lemma sample_checkout:
  "\<exists>res t. createCheckoutSession sample_pd ''alice'' ''USER'' ''pro'' sample_shop = (Inr res, t)"
proof -
  have pl: "assertPlanId ''pro'' = Inr PRO" by (simp add: assertPlanId_def plan_of_name_def)
  have create: "stripe_create sample_pd req = Some (''cs1'', ''url'')" for req by (simp add: sample_pd_def)
  have rank: "getPlanRank (Some ''student'') cat = Inr (pp_rank (cat STUDENT))" "getPlanRank (Some ''pro'') cat = Inr (pp_rank (cat PRO))" for cat
    by (simp_all add: getPlanRank_def plan_of_name_def)
  have plan: "activePlanId sample_access = Some ''student''" by (simp add: sample_access_def)
  have fresh: "p_id pending_pro \<noteq> payment_uuid sample_pd" by (simp add: pending_pro_def sample_pd_def)
  show ?thesis
    by (simp add: createCheckoutSession_def bnd_eq throw_if_eq require_eq sample_pd_simps(1) sample_shop_catalog pl sample_purchase
        sample_access_read plan rank sample_rate create insert_payment_def fresh Let_def)
qed


end
