(* ===== verification/Terminal_Telemetry.thy ===== *)
theory Terminal_Telemetry
  imports Cloud_Schema Js_Map
begin

text \<open>
  \<open>services/vm/src/terminal/terminal-telemetry.service.ts\<close>: the counters and the audit of the
  terminal gateway, and the metrics that administrators read.
\<close>

datatype audit_kind =
    connect_attempt | connect_success | connect_denied | connect_failed | disconnect | input_rejected | input_accepted

record terminal_audit =
  ta_at :: time
  ta_event :: audit_kind
  ta_clientId :: string
  ta_vmId :: "id option"
  ta_userId :: "id option"
  ta_detail :: "string option"

record client_stats =
  cs_connectedAt :: time
  cs_vmId :: "id option"
  cs_userId :: "id option"
  cs_inputBytes :: nat
  cs_outputBytes :: nat

record telemetry =
  te_startedAt :: time
  te_clients :: "(string, client_stats) js_map"
  te_audits :: "terminal_audit list"
  te_totalConnections :: nat
  te_failedConnections :: nat
  te_rejectedInputs :: nat
  te_totalInputBytes :: nat
  te_totalOutputBytes :: nat

definition maxAudits :: nat where
  "maxAudits = 300"

definition recordAudit :: "terminal_audit \<Rightarrow> telemetry \<Rightarrow> telemetry" where
  "recordAudit e t =
     (let audits = te_audits t @ [e] in
      t\<lparr>te_audits := (if length audits > maxAudits then drop (length audits - maxAudits) audits else audits)\<rparr>)"

definition markConnectAttempt :: "time \<Rightarrow> string \<Rightarrow> id option \<Rightarrow> id option \<Rightarrow> telemetry \<Rightarrow> telemetry" where
  "markConnectAttempt now i vm u =
     recordAudit \<lparr>ta_at = now, ta_event = connect_attempt, ta_clientId = i, ta_vmId = vm, ta_userId = u, ta_detail = None\<rparr>"

definition markConnectSuccess :: "time \<Rightarrow> string \<Rightarrow> id option \<Rightarrow> id option \<Rightarrow> telemetry \<Rightarrow> telemetry" where
  "markConnectSuccess now i vm u t =
     recordAudit \<lparr>ta_at = now, ta_event = connect_success, ta_clientId = i, ta_vmId = vm, ta_userId = u, ta_detail = None\<rparr>
       (t\<lparr>te_totalConnections := te_totalConnections t + 1,
          te_clients := map_set i \<lparr>cs_connectedAt = now, cs_vmId = vm, cs_userId = u, cs_inputBytes = 0, cs_outputBytes = 0\<rparr> (te_clients t)\<rparr>)"

definition markConnectDenied :: "time \<Rightarrow> string \<Rightarrow> string \<Rightarrow> id option \<Rightarrow> id option \<Rightarrow> telemetry \<Rightarrow> telemetry" where
  "markConnectDenied now i detail vm u t =
     recordAudit \<lparr>ta_at = now, ta_event = connect_denied, ta_clientId = i, ta_vmId = vm, ta_userId = u, ta_detail = Some detail\<rparr>
       (t\<lparr>te_failedConnections := te_failedConnections t + 1\<rparr>)"

definition markConnectFailed :: "time \<Rightarrow> string \<Rightarrow> string \<Rightarrow> id option \<Rightarrow> id option \<Rightarrow> telemetry \<Rightarrow> telemetry" where
  "markConnectFailed now i detail vm u t =
     recordAudit \<lparr>ta_at = now, ta_event = connect_failed, ta_clientId = i, ta_vmId = vm, ta_userId = u, ta_detail = Some detail\<rparr>
       (t\<lparr>te_failedConnections := te_failedConnections t + 1\<rparr>)"

text \<open>The audit rows of a client name the machine and user of its statistics, when there are any.\<close>

definition client_audit :: "time \<Rightarrow> audit_kind \<Rightarrow> string \<Rightarrow> string option \<Rightarrow> telemetry \<Rightarrow> terminal_audit" where
  "client_audit now k i detail t =
     (let existing = map_get (te_clients t) i in
      \<lparr>ta_at = now, ta_event = k, ta_clientId = i, ta_vmId = Option.bind existing cs_vmId,
       ta_userId = Option.bind existing cs_userId, ta_detail = detail\<rparr>)"

definition markDisconnect :: "time \<Rightarrow> string \<Rightarrow> string option \<Rightarrow> telemetry \<Rightarrow> telemetry" where
  "markDisconnect now i detail t =
     (let t' = recordAudit (client_audit now disconnect i detail t) t in t'\<lparr>te_clients := map_delete i (te_clients t')\<rparr>)"

definition bump_client :: "string \<Rightarrow> (client_stats \<Rightarrow> client_stats) \<Rightarrow> telemetry \<Rightarrow> telemetry" where
  "bump_client i f t =
     (case map_get (te_clients t) i of None \<Rightarrow> t | Some c \<Rightarrow> t\<lparr>te_clients := map_set i (f c) (te_clients t)\<rparr>)"

definition addInputBytes :: "time \<Rightarrow> string \<Rightarrow> nat \<Rightarrow> telemetry \<Rightarrow> telemetry" where
  "addInputBytes now i bytes t =
     (let t' = bump_client i (\<lambda>c. c\<lparr>cs_inputBytes := cs_inputBytes c + bytes\<rparr>) t in
      recordAudit (client_audit now input_accepted i (Some (show_nat bytes @ '' bytes'')) t')
        (t'\<lparr>te_totalInputBytes := te_totalInputBytes t' + bytes\<rparr>))"

definition addOutputBytes :: "string \<Rightarrow> nat \<Rightarrow> telemetry \<Rightarrow> telemetry" where
  "addOutputBytes i bytes t =
     (let t' = bump_client i (\<lambda>c. c\<lparr>cs_outputBytes := cs_outputBytes c + bytes\<rparr>) t in
      t'\<lparr>te_totalOutputBytes := te_totalOutputBytes t' + bytes\<rparr>)"

definition markInputRejected :: "time \<Rightarrow> string \<Rightarrow> string \<Rightarrow> telemetry \<Rightarrow> telemetry" where
  "markInputRejected now i detail t =
     recordAudit (client_audit now input_rejected i (Some detail) t) (t\<lparr>te_rejectedInputs := te_rejectedInputs t + 1\<rparr>)"

record active_client =
  ac_clientId :: string
  ac_vmId :: "id option"
  ac_userId :: "id option"
  ac_connectedForSeconds :: int
  ac_inputBytes :: nat
  ac_outputBytes :: nat

record snapshot =
  sn_uptimeSeconds :: int
  sn_activeSessions :: nat
  sn_totalConnections :: nat
  sn_failedConnections :: nat
  sn_rejectedInputs :: nat
  sn_totalInputBytes :: nat
  sn_totalOutputBytes :: nat
  sn_activeClients :: "active_client list"
  sn_recentAuditEvents :: "terminal_audit list"

definition last_n :: "nat \<Rightarrow> 'a list \<Rightarrow> 'a list" where
  "last_n n xs = drop (length xs - n) xs"

definition getSnapshot :: "time \<Rightarrow> telemetry \<Rightarrow> snapshot" where
  "getSnapshot now t =
     \<lparr>sn_uptimeSeconds = (now - te_startedAt t) div 1000, sn_activeSessions = length (te_clients t),
      sn_totalConnections = te_totalConnections t, sn_failedConnections = te_failedConnections t,
      sn_rejectedInputs = te_rejectedInputs t, sn_totalInputBytes = te_totalInputBytes t, sn_totalOutputBytes = te_totalOutputBytes t,
      sn_activeClients = map (\<lambda>(i, c). \<lparr>ac_clientId = i, ac_vmId = cs_vmId c, ac_userId = cs_userId c,
        ac_connectedForSeconds = (now - cs_connectedAt c) div 1000, ac_inputBytes = cs_inputBytes c, ac_outputBytes = cs_outputBytes c\<rparr>)
        (te_clients t),
      sn_recentAuditEvents = last_n 100 (te_audits t)\<rparr>"

definition getMetrics :: "time \<Rightarrow> string \<Rightarrow> telemetry \<Rightarrow> exn + snapshot" where
  "getMetrics now role t =
     (if role \<noteq> ''ADMIN'' then Inl (Forbidden ''Only admins can access terminal metrics'') else Inr (getSnapshot now t))"

section \<open>The audit keeps the latest events\<close>

lemma last_n_append: "last_n n (last_n n xs @ ys) = last_n n (xs @ ys)"
proof (cases "n \<le> length xs")
  case True
  then have "length xs + length ys - (length xs - n + n) + (length xs - n) = length xs + length ys - n" by simp
  then show ?thesis using True by (simp add: last_n_def)
qed (simp add: last_n_def)

lemma recordAudit_last: "te_audits (recordAudit e t) = last_n maxAudits (te_audits t @ [e])"
  by (auto simp: recordAudit_def last_n_def Let_def)

text \<open>
  The ring buffer is equivalent to the whole history cut to its last three hundred events,
  and the snapshot shows the last hundred of it.
\<close>

lemma audits_are_latest: "te_audits (fold recordAudit es t) = last_n maxAudits (te_audits t @ es) \<or> es = []"
proof (induction es arbitrary: t)
  case (Cons e es)
  show ?case
  proof (cases "es = []")
    case False
    then have "te_audits (fold recordAudit es (recordAudit e t)) = last_n maxAudits (last_n maxAudits (te_audits t @ [e]) @ es)"
      using Cons.IH [of "recordAudit e t"] by (simp add: recordAudit_last)
    then show ?thesis by (simp add: last_n_append)
  qed (simp add: recordAudit_last)
qed simp

end
