(* ===== verification/Js_Regex.thy ===== *)
theory Js_Regex
  imports Js_Prelude
begin

text \<open>
  The regular expressions of the language as far as the sources use them with \<open>test\<close>: whether
  some part of a text matches. There are no groups to read back, so a match is a position where
  the expression ends, and \<open>ends_at\<close> gives all of them.
\<close>

datatype regex =
    Eps
  | Sat "char \<Rightarrow> bool"
  | Cat regex regex
  | Alt regex regex
  | Rep regex
  | LineStart
  | LineEnd
  | WordEdge

definition word_char :: "char \<Rightarrow> bool" where
  "word_char c \<longleftrightarrow> is_alpha c \<or> is_digit c \<or> c = CHR ''_''"

definition word_at :: "string \<Rightarrow> nat \<Rightarrow> bool" where
  "word_at s i \<longleftrightarrow> i < length s \<and> word_char (s ! i)"

text \<open>Repetitions advance, so as many rounds as the text is long are enough.\<close>

fun rep_ends :: "(nat \<Rightarrow> nat list) \<Rightarrow> nat \<Rightarrow> nat \<Rightarrow> nat list" where
  "rep_ends f 0 i = [i]"
| "rep_ends f (Suc n) i = remdups (i # concat (map (rep_ends f n) (filter (\<lambda>j. i < j) (f i))))"

fun ends_at :: "regex \<Rightarrow> string \<Rightarrow> nat \<Rightarrow> nat list" where
  "ends_at Eps s i = [i]"
| "ends_at (Sat p) s i = (if i < length s \<and> p (s ! i) then [Suc i] else [])"
| "ends_at (Cat a b) s i = remdups (concat (map (ends_at b s) (ends_at a s i)))"
| "ends_at (Alt a b) s i = remdups (ends_at a s i @ ends_at b s i)"
| "ends_at (Rep a) s i = rep_ends (ends_at a s) (length s) i"
| "ends_at LineStart s i = (if i = 0 then [i] else [])"
| "ends_at LineEnd s i = (if i = length s then [i] else [])"
| "ends_at WordEdge s i = (if word_at s i \<noteq> (0 < i \<and> word_at s (i - 1)) then [i] else [])"

definition regex_test :: "regex \<Rightarrow> string \<Rightarrow> bool" where
  "regex_test r s \<longleftrightarrow> list_ex (\<lambda>i. ends_at r s i \<noteq> []) [0..<Suc (length s)]"

section \<open>Building blocks\<close>

text \<open>Literals that ignore the case, classes, and sequences.\<close>

definition lit_i :: "char \<Rightarrow> regex" where
  "lit_i c = Sat (\<lambda>x. to_lower_char x = to_lower_char c)"

fun seq_r :: "regex list \<Rightarrow> regex" where
  "seq_r [] = Eps"
| "seq_r [r] = r"
| "seq_r (r # rs) = Cat r (seq_r rs)"

fun alt_r :: "regex list \<Rightarrow> regex" where
  "alt_r [] = Sat (\<lambda>_. False)"
| "alt_r [r] = r"
| "alt_r (r # rs) = Alt r (alt_r rs)"

definition word_i :: "string \<Rightarrow> regex" where
  "word_i w = seq_r (map lit_i w)"

definition exact :: "string \<Rightarrow> regex" where
  "exact w = seq_r (map (\<lambda>c. Sat (\<lambda>x. x = c)) w)"

definition plus_r :: "regex \<Rightarrow> regex" where
  "plus_r r = Cat r (Rep r)"

definition opt_r :: "regex \<Rightarrow> regex" where
  "opt_r r = Alt Eps r"

definition any_char :: regex where
  "any_char = Sat (\<lambda>c. of_char c \<noteq> (10 :: nat) \<and> of_char c \<noteq> (13 :: nat))"

definition ws_r :: regex where
  "ws_r = Sat is_ws"

section \<open>The positions are those of the language of the expression\<close>

text \<open>The textbook reading of a match between two positions, with repetitions of any number.\<close>

inductive matches :: "regex \<Rightarrow> string \<Rightarrow> nat \<Rightarrow> nat \<Rightarrow> bool" where
  eps: "matches Eps s i i"
| sat: "i < length s \<Longrightarrow> p (s ! i) \<Longrightarrow> matches (Sat p) s i (Suc i)"
| cat: "matches a s i j \<Longrightarrow> matches b s j k \<Longrightarrow> matches (Cat a b) s i k"
| alt1: "matches a s i j \<Longrightarrow> matches (Alt a b) s i j"
| alt2: "matches b s i j \<Longrightarrow> matches (Alt a b) s i j"
| rep0: "matches (Rep a) s i i"
| rep1: "matches a s i j \<Longrightarrow> matches (Rep a) s j k \<Longrightarrow> matches (Rep a) s i k"
| line_start: "matches LineStart s 0 0"
| line_end: "matches LineEnd s (length s) (length s)"
| word_edge: "word_at s i \<noteq> (0 < i \<and> word_at s (i - 1)) \<Longrightarrow> matches WordEdge s i i"

inductive_cases matches_cases [elim!]:
  "matches Eps s i j" "matches (Sat p) s i j" "matches (Cat a b) s i j" "matches (Alt a b) s i j"
  "matches LineStart s i j" "matches LineEnd s i j" "matches WordEdge s i j"

lemma matches_le: "matches r s i j \<Longrightarrow> i \<le> j"
  by (induction rule: matches.induct) auto

lemma matches_bound: "matches r s i j \<Longrightarrow> i \<le> length s \<Longrightarrow> j \<le> length s"
  by (induction rule: matches.induct) auto

lemma set_rep_ends: "set (rep_ends f (Suc n) i) = insert i (\<Union>k \<in> {k \<in> set (f i). i < k}. set (rep_ends f n k))"
  by auto

declare rep_ends.simps(2) [simp del]

lemma rep_ends_sound:
  assumes "\<And>i j. j \<in> set (f i) \<Longrightarrow> matches a s i j"
  shows "j \<in> set (rep_ends f n i) \<Longrightarrow> matches (Rep a) s i j"
proof (induction n arbitrary: i)
  case (Suc n)
  then consider "j = i" | k where "k \<in> set (f i)" "j \<in> set (rep_ends f n k)" by (auto simp: set_rep_ends)
  then show ?case by cases (auto intro: matches.rep0 matches.rep1 assms Suc.IH)
qed (simp add: matches.rep0)

lemma rep_ends_complete:
  assumes "\<And>i j. i \<le> length s \<Longrightarrow> matches a s i j \<Longrightarrow> j \<in> set (f i)" "matches (Rep a) s i j" "i \<le> length s" "length s - i \<le> n"
  shows "j \<in> set (rep_ends f n i)"
  using assms(2,1,3,4)
proof (induction "Rep a" s i j arbitrary: n rule: matches.induct)
  case (rep0 s i)
  show ?case by (cases n) (simp_all add: set_rep_ends)
next
  case (rep1 s i j k)
  have j: "j \<in> set (f i)" "i \<le> j" "j \<le> length s" using rep1 matches_le matches_bound by auto
  show ?case
  proof (cases "i = j")
    case True
    then show ?thesis using rep1 by blast
  next
    case False
    then obtain m where "n = Suc m" "length s - j \<le> m" using j rep1.prems by (cases n) auto
    then show ?thesis using j False rep1.hyps(4) [of m] rep1.prems(1) by (auto simp: set_rep_ends)
  qed
qed

theorem ends_at_matches: "i \<le> length s \<Longrightarrow> j \<in> set (ends_at r s i) \<longleftrightarrow> matches r s i j"
proof (induction r arbitrary: i j)
  case (Cat a b)
  have "k \<le> length s" if "matches a s i k" for k using matches_bound that Cat.prems by blast
  then show ?case using Cat by (auto intro: matches.cat)
next
  case (Rep a)
  let ?f = "\<lambda>i. if i \<le> length s then ends_at a s i else []"
  have f: "set (rep_ends (ends_at a s) n i) = set (rep_ends ?f n i)" if "i \<le> length s" for n i
    using that
  proof (induction n arbitrary: i)
    case (Suc n)
    have "k \<le> length s" if "k \<in> set (ends_at a s i)" for k using matches_bound Rep.IH that Suc.prems by blast
    then have "(\<Union>k \<in> {k \<in> set (ends_at a s i). i < k}. set (rep_ends (ends_at a s) n k)) = (\<Union>k \<in> {k \<in> set (?f i). i < k}. set (rep_ends ?f n k))"
      using Suc by (intro SUP_cong) auto
    then show ?case unfolding set_rep_ends by (rule arg_cong)
  qed simp
  have "j \<in> set (rep_ends ?f (length s) i) \<longleftrightarrow> matches (Rep a) s i j"
  proof
    assume "j \<in> set (rep_ends ?f (length s) i)"
    then show "matches (Rep a) s i j" by (rule rep_ends_sound [rotated]) (use Rep.IH in \<open>auto split: if_splits\<close>)
  next
    assume "matches (Rep a) s i j"
    then show "j \<in> set (rep_ends ?f (length s) i)" using rep_ends_complete [of s a ?f i j "length s"] Rep by auto
  qed
  then show ?case using f [OF Rep.prems] by simp
qed (auto intro: matches.intros split: if_splits)

lemma regex_test_iff: "regex_test r s \<longleftrightarrow> (\<exists>i j. i \<le> length s \<and> matches r s i j)"
proof -
  have "ends_at r s i \<noteq> [] \<longleftrightarrow> (\<exists>j. matches r s i j)" if "i \<le> length s" for i
    unfolding ends_at_matches [OF that, symmetric] by (metis ex_in_conv set_empty)
  moreover have "regex_test r s \<longleftrightarrow> (\<exists>i \<le> length s. ends_at r s i \<noteq> [])"
    unfolding regex_test_def list_ex_iff set_upt by (metis atLeastLessThan_iff less_Suc_eq_le zero_le)
  ultimately show ?thesis by blast
qed

section \<open>Fixed texts\<close>

lemma exact_simps:
  "exact [] = Eps" "exact [c] = Sat (\<lambda>x. x = c)" "exact (c # d # cs) = Cat (Sat (\<lambda>x. x = c)) (exact (d # cs))"
  by (simp_all add: exact_def)

lemma matches_iffs:
  "matches Eps s i j \<longleftrightarrow> j = i" "matches (Sat p) s i j \<longleftrightarrow> i < length s \<and> p (s ! i) \<and> j = Suc i"
  "matches (Cat a b) s i j \<longleftrightarrow> (\<exists>k. matches a s i k \<and> matches b s k j)"
  "matches LineStart s i j \<longleftrightarrow> i = 0 \<and> j = 0" "matches LineEnd s i j \<longleftrightarrow> i = length s \<and> j = length s"
  by (auto intro: matches.intros)

lemma matches_exact: "matches (exact w) s i j \<longleftrightarrow> j = i + length w \<and> take (length w) (drop i s) = w"
proof (induction w arbitrary: i rule: induct_list012)
  case (2 c)
  show ?case by (cases "i < length s") (auto simp: exact_simps matches_iffs Cons_nth_drop_Suc [symmetric])
next
  case (3 c d cs)
  show ?case
    unfolding exact_simps matches_iffs 3 by (cases "i < length s") (auto simp: Cons_nth_drop_Suc [symmetric])
qed (simp add: exact_simps matches_iffs)

lemma regex_test_prefix: "regex_test (seq_r [LineStart, exact w]) s \<longleftrightarrow> starts_with s w"
  by (auto simp: regex_test_iff matches_iffs matches_exact starts_with_iff) (metis append_take_drop_id)

lemma regex_test_whole: "regex_test (seq_r [LineStart, exact w, LineEnd]) s \<longleftrightarrow> s = w"
  by (auto simp: regex_test_iff matches_iffs matches_exact)

end
