(* ===== verification/Rate_Window.thy ===== *)
theory Rate_Window
  imports Cloud_Schema
begin

text \<open>
  Limits that count in windows of a fixed width, each of which starts with the first request after the
  end of the one before. The interface is a locale: what such a counter does with a request of a
  given weight. Its clients get the bound over every span of that width, wherever it starts: twice
  the limit, since a span meets two windows at most.
\<close>

definition amount_in :: "int \<Rightarrow> int \<Rightarrow> (int \<times> nat) list \<Rightarrow> nat" where
  "amount_in a b ws = (\<Sum>x\<leftarrow>ws. if a \<le> fst x \<and> fst x < b then snd x else 0)"

lemma amount_in_simps [simp]:
  "amount_in a b [] = 0" "amount_in a b (x # ws) = (if a \<le> fst x \<and> fst x < b then snd x else 0) + amount_in a b ws"
  "amount_in a b (ws @ vs) = amount_in a b ws + amount_in a b vs"
  by (simp_all add: amount_in_def)

lemma amount_in_split: "amount_in a c ws \<le> amount_in a b ws + amount_in b c ws"
  by (induction ws) auto

lemma amount_in_mono: "a' \<le> a \<Longrightarrow> b \<le> b' \<Longrightarrow> amount_in a b ws \<le> amount_in a' b' ws"
  by (induction ws) auto

lemma amount_in_none: "(\<And>x. x \<in> set ws \<Longrightarrow> fst x < a) \<Longrightarrow> amount_in a b ws = 0"
  by (induction ws) (auto simp: not_le [symmetric])

definition fresh_window :: "int \<Rightarrow> int \<Rightarrow> (int \<times> nat) option \<Rightarrow> bool" where
  "fresh_window width now st \<longleftrightarrow> (case st of None \<Rightarrow> True | Some (a, _) \<Rightarrow> a + width \<le> now)"

locale rate_window =
  fixes step :: "int \<Rightarrow> nat \<Rightarrow> (int \<times> nat) option \<Rightarrow> bool \<times> (int \<times> nat) option" and limit :: nat and width :: int
  assumes width_pos: "0 < width"
    and accepted: "step now w st = (True, st') \<Longrightarrow>
      fresh_window width now st \<and> st' = Some (now, w) \<and> w \<le> limit \<or>
      (\<exists>a b. st = Some (a, b) \<and> now < a + width \<and> st' = Some (a, b + w) \<and> b + w \<le> limit)"
    and refused: "step now w st = (False, st') \<Longrightarrow>
      st' = st \<or> fresh_window width now st \<and> (\<exists>v. st' = Some (now, v)) \<or>
      (\<exists>a b b'. st = Some (a, b) \<and> now < a + width \<and> st' = Some (a, b') \<and> b \<le> b')"
begin

text \<open>The requests let through so far, and the counter.\<close>

definition window_inv :: "(int \<times> nat) option \<Rightarrow> (int \<times> nat) list \<Rightarrow> bool" where
  "window_inv st ws \<longleftrightarrow> (\<forall>t. amount_in t (t + width) ws \<le> 2 * limit) \<and>
     (case st of
        None \<Rightarrow> ws = []
      | Some (a, b) \<Rightarrow> (\<forall>x \<in> set ws. fst x < a + width) \<and> amount_in a (a + width) ws \<le> min b limit \<and>
          (\<forall>t. a - width < t \<longrightarrow> amount_in t a ws \<le> limit))"

lemma inv_start: "window_inv None []"
  by (simp add: window_inv_def)

lemma inv_fresh:
  assumes "window_inv st ws" "fresh_window width now st" "w \<le> limit" "w \<le> v"
  shows "window_inv (Some (now, v)) (ws @ [(now, w)])" "window_inv (Some (now, v)) ws"
proof -
  have old: "fst x < now" if "x \<in> set ws" for x
    using assms(1,2) that by (cases st) (auto simp: window_inv_def fresh_window_def)
  have before: "amount_in t now ws \<le> limit" if "now - width < t" for t
  proof (cases st)
    case None
    then show ?thesis using assms(1) by (simp add: window_inv_def)
  next
    case (Some ab)
    obtain a b where ab: "ab = (a, b)" by (cases ab)
    have "amount_in t now ws \<le> amount_in a now ws" using that assms(2) Some ab by (intro amount_in_mono) (auto simp: fresh_window_def)
    also have "\<dots> \<le> amount_in a (a + width) ws + amount_in (a + width) now ws" by (rule amount_in_split)
    also have "amount_in (a + width) now ws = 0" using assms(1) Some ab by (intro amount_in_none) (auto simp: window_inv_def)
    finally show ?thesis using assms(1) Some ab by (auto simp: window_inv_def)
  qed
  have none: "amount_in now u ws = 0" for u using old by (rule amount_in_none)
  have all: "amount_in t (t + width) ws \<le> 2 * limit" for t using assms(1) by (simp add: window_inv_def)
  have "amount_in t (t + width) ws + w \<le> 2 * limit" if "t \<le> now" "now < t + width" for t
    using amount_in_split [of t "t + width" ws now] before [of t] none [of "t + width"] that assms(3) by linarith
  then have new: "amount_in t (t + width) (ws @ [(now, w)]) \<le> 2 * limit" for t using all [of t] by auto
  have late: "\<forall>x \<in> set ws. fst x < now + width" using old width_pos by fastforce
  show "window_inv (Some (now, v)) (ws @ [(now, w)])"
    unfolding window_inv_def using new late before none width_pos assms(3,4) by simp
  show "window_inv (Some (now, v)) ws" unfolding window_inv_def using all late before none by simp
qed

lemma inv_same:
  assumes "window_inv (Some (a, b)) ws" "a \<le> now" "now < a + width" "b + w \<le> limit"
  shows "window_inv (Some (a, b + w)) (ws @ [(now, w)])"
proof -
  have all: "amount_in t (t + width) ws \<le> 2 * limit" for t using assms(1) by (simp add: window_inv_def)
  have cur: "amount_in a (a + width) ws \<le> b" and prev: "amount_in t a ws \<le> limit" if "a - width < t" for t
    using assms(1) that by (auto simp: window_inv_def)
  have last0: "amount_in (a + width) u ws = 0" for u using assms(1) by (intro amount_in_none) (auto simp: window_inv_def)
  have "amount_in t (t + width) ws + w \<le> 2 * limit" if "t \<le> now" "now < t + width" for t
  proof -
    have "amount_in t (t + width) ws \<le> amount_in t a ws + amount_in a (t + width) ws" by (rule amount_in_split)
    also have "amount_in a (t + width) ws \<le> amount_in a (a + width) ws + amount_in (a + width) (t + width) ws" by (rule amount_in_split)
    finally show ?thesis using cur [of a] prev [of t] last0 [of "t + width"] that assms(2,4) by linarith
  qed
  then show ?thesis using assms all cur [of a] prev by (force simp: window_inv_def)
qed

lemma inv_more: "window_inv (Some (a, b)) ws \<Longrightarrow> b \<le> b' \<Longrightarrow> window_inv (Some (a, b')) ws"
  by (auto simp: window_inv_def)

lemma inv_skip: "window_inv st (ws @ [x]) \<Longrightarrow> st \<noteq> None \<Longrightarrow> window_inv st ws"
  by (auto simp: window_inv_def split: option.splits) (meson add_leD1)+

text \<open>A request that is accepted may still be dropped by a later check.\<close>

lemma inv_step:
  assumes "window_inv st ws" "step now w st = (ok, st')" "\<And>a b. st = Some (a, b) \<Longrightarrow> a \<le> now"
  shows "window_inv st' ws" "ok \<Longrightarrow> window_inv st' (ws @ [(now, w)])" "\<And>a b. st' = Some (a, b) \<Longrightarrow> a \<le> now"
proof -
  show "\<And>a b. st' = Some (a, b) \<Longrightarrow> a \<le> now"
    using assms(2,3) accepted [of now w st st'] refused [of now w st st'] by (cases ok) auto
  show *: "window_inv st' (ws @ [(now, w)])" if ok
    using accepted [of now w st st'] assms that inv_fresh(1) [of st ws now w w] inv_same by auto
  show "window_inv st' ws"
  proof (cases ok)
    case True
    then have "st' \<noteq> None" using accepted [of now w st st'] assms(2) by auto
    then show ?thesis using inv_skip [OF * [OF True]] by simp
  next
    case False
    then show ?thesis
      using refused [of now w st st'] assms(1,2) inv_fresh(2) [of st ws now 0] inv_more by auto
  qed
qed

text \<open>What a sequence of requests gets through, from the start.\<close>

fun let_through :: "(int \<times> nat) list \<Rightarrow> (int \<times> nat) option \<Rightarrow> (int \<times> nat) list" where
  "let_through [] st = []"
| "let_through (x # xs) st =
     (case step (fst x) (snd x) st of (ok, st') \<Rightarrow> (if ok then [x] else []) @ let_through xs st')"

lemma inv_bound: "window_inv st ws \<Longrightarrow> amount_in t (t + width) ws \<le> 2 * limit"
  by (simp add: window_inv_def)

lemma let_through_inv:
  assumes "window_inv st ws" "sorted (map fst xs)" "\<And>a b. st = Some (a, b) \<Longrightarrow> \<forall>x \<in> set xs. a \<le> fst x"
  shows "\<exists>st'. window_inv st' (ws @ let_through xs st)"
  using assms
proof (induction xs arbitrary: st ws)
  case (Cons x xs)
  obtain ok st' where step: "step (fst x) (snd x) st = (ok, st')" by fastforce
  have now: "a \<le> fst x" if "st = Some (a, b)" for a b using Cons.prems(3) that by simp
  have inv: "window_inv st' ws" "ok \<Longrightarrow> window_inv st' (ws @ [x])" "st' = Some (a, b) \<Longrightarrow> a \<le> fst x" for a b
    using inv_step [OF Cons.prems(1) step] now by simp_all
  have "window_inv st' (ws @ (if ok then [x] else []))" using inv(1,2) by (cases ok) simp_all
  moreover have "\<forall>y \<in> set xs. a \<le> fst y" if "st' = Some (a, b)" for a b
    using inv(3) [OF that] Cons.prems(2) by fastforce
  ultimately show ?case using Cons.IH [of st' "ws @ (if ok then [x] else [])"] Cons.prems(2) step by auto
qed auto

lemma let_through_bound: "sorted (map fst xs) \<Longrightarrow> amount_in t (t + width) (let_through xs None) \<le> 2 * limit"
  using let_through_inv [OF inv_start, of xs] inv_bound by fastforce

end

text \<open>The counter that forgets its window when that is over, and counts what it refuses.\<close>

definition window_step :: "nat \<Rightarrow> int \<Rightarrow> int \<Rightarrow> nat \<Rightarrow> (int \<times> nat) option \<Rightarrow> bool \<times> (int \<times> nat) option" where
  "window_step limit width now w st =
     (case st of
        None \<Rightarrow> (w \<le> limit, Some (now, w))
      | Some (a, b) \<Rightarrow> if a + width \<le> now then (w \<le> limit, Some (now, w)) else (b + w \<le> limit, Some (a, b + w)))"

lemma rate_window_step: "0 < width \<Longrightarrow> rate_window (window_step limit width) limit width"
  by unfold_locales (auto simp: window_step_def fresh_window_def split: option.splits if_splits)

end
