(* ===== verification/Terminal_Input.thy ===== *)
theory Terminal_Input
  imports Terminal_State Js_Regex Rate_Window
begin

text \<open>
  What a terminal session accepts: \<open>handleInput\<close> with its limits on bytes and events and its
  inspection of submitted commands, and \<open>handleResize\<close>, of \<open>terminal.gateway.ts\<close>.
\<close>

section \<open>The limits\<close>

text \<open>\<open>Buffer.byteLength\<close> in UTF-8 of code units below 256.\<close>

definition utf8_length :: "string \<Rightarrow> nat" where
  "utf8_length s = (\<Sum>c\<leftarrow>s. if of_char c < (128 :: nat) then 1 else 2)"

definition allowInputRate :: "time \<Rightarrow> string \<Rightarrow> nat \<Rightarrow> term_state \<Rightarrow> bool \<times> term_state" where
  "allowInputRate now i incoming s =
     (case map_get (inputWindowStats s) i of
        Some (start, bytes) \<Rightarrow>
          if now - start \<ge> 1000
          then (incoming \<le> maxInputBytesPerSecond, s\<lparr>inputWindowStats := map_set i (now, incoming) (inputWindowStats s)\<rparr>)
          else if bytes + incoming > maxInputBytesPerSecond then (False, s)
          else (True, s\<lparr>inputWindowStats := map_set i (start, bytes + incoming) (inputWindowStats s)\<rparr>)
      | None \<Rightarrow> (incoming \<le> maxInputBytesPerSecond, s\<lparr>inputWindowStats := map_set i (now, incoming) (inputWindowStats s)\<rparr>))"

definition allowInputEventRate :: "time \<Rightarrow> string \<Rightarrow> term_state \<Rightarrow> bool \<times> term_state" where
  "allowInputEventRate now i s =
     (case map_get (inputEventWindowStats s) i of
        Some (start, events) \<Rightarrow>
          if now - start \<ge> 1000 then (True, s\<lparr>inputEventWindowStats := map_set i (now, 1) (inputEventWindowStats s)\<rparr>)
          else (events + 1 \<le> maxInputEventsPerSecond, s\<lparr>inputEventWindowStats := map_set i (start, events + 1) (inputEventWindowStats s)\<rparr>)
      | None \<Rightarrow> (True, s\<lparr>inputEventWindowStats := map_set i (now, 1) (inputEventWindowStats s)\<rparr>))"

section \<open>Dangerous commands\<close>

text \<open>\<open>split\<close> at a line feed with an optional carriage return before it.\<close>

definition strip_cr :: "string \<Rightarrow> string" where
  "strip_cr s = (if s \<noteq> [] \<and> of_char (last s) = (13 :: nat) then butlast s else s)"

definition split_lines :: "string \<Rightarrow> string list" where
  "split_lines s = (let parts = split_on (char_of (10 :: nat)) s in map strip_cr (butlast parts) @ [last parts])"

definition rm_root :: regex where
  "rm_root = seq_r [word_i ''rm'', plus_r ws_r, word_i ''-rf'', plus_r ws_r, word_i ''/'', LineEnd]"

definition dd_device :: regex where
  "dd_device = seq_r [word_i ''dd'', plus_r ws_r, word_i ''if=/dev/'', alt_r [word_i ''zero'', word_i ''urandom''],
     plus_r any_char, word_i ''of=/dev/'']"

definition mkfs_any :: regex where
  "mkfs_any = seq_r [word_i ''mkfs'', opt_r (seq_r [word_i ''.'', plus_r (Sat (\<lambda>c. is_alpha c \<or> is_digit c))]), plus_r ws_r]"

definition power_off :: regex where
  "power_off = seq_r [alt_r [LineStart, ws_r], alt_r [word_i ''shutdown'', word_i ''reboot'', word_i ''poweroff''], WordEdge]"

definition curl_pipe :: regex where
  "curl_pipe = seq_r [WordEdge, word_i ''curl'', WordEdge, plus_r any_char, word_i ''|'', Rep ws_r,
     alt_r [word_i ''sh'', word_i ''bash'', word_i ''zsh''], WordEdge]"

definition fork_bomb :: regex where
  "fork_bomb = seq_r [exact '':()'', Rep ws_r, exact ''{'', Rep ws_r, exact '':|:&'', Rep ws_r, exact ''};:'']"

definition dangerousInputPatterns :: "regex list" where
  "dangerousInputPatterns = [rm_root, dd_device, mkfs_any, power_off, curl_pipe, fork_bomb]"

definition is_dangerous :: "string \<Rightarrow> bool" where
  "is_dangerous line \<longleftrightarrow> list_ex (\<lambda>p. regex_test p line) dangerousInputPatterns"

definition violations :: "string \<Rightarrow> term_state \<Rightarrow> nat" where
  "violations i s = (case map_get (dangerousInputViolations s) i of None \<Rightarrow> 0 | Some n \<Rightarrow> n)"

text \<open>A count that is compared with no number is never over it.\<close>

definition over_limit :: "term_config \<Rightarrow> nat \<Rightarrow> bool" where
  "over_limit c n \<longleftrightarrow> tc_block c \<and> (case tc_maxViolations c of Some m \<Rightarrow> of_nat n \<ge> m | None \<Rightarrow> False)"

definition dangerous_line :: "string \<Rightarrow> bool" where
  "dangerous_line segment \<longleftrightarrow> (let candidate = trim segment in candidate \<noteq> [] \<and> is_dangerous (collapse_ws candidate))"

fun inspect_lines :: "term_config \<Rightarrow> string \<Rightarrow> string list \<Rightarrow> term_state \<Rightarrow> bool \<times> term_state" where
  "inspect_lines c i [] s = (True, s)"
| "inspect_lines c i (segment # rest) s =
     (if \<not> dangerous_line segment then inspect_lines c i rest s
      else
        let n = violations i s + 1; s' = s\<lparr>dangerousInputViolations := map_set i n (dangerousInputViolations s)\<rparr> in
        if over_limit c n then (False, s') else inspect_lines c i rest s')"

definition inspectSubmittedCommands :: "term_config \<Rightarrow> string \<Rightarrow> string \<Rightarrow> term_state \<Rightarrow> bool \<times> term_state" where
  "inspectSubmittedCommands c i data s =
     (let previousTail = (case map_get (commandBuffers s) i of None \<Rightarrow> [] | Some t \<Rightarrow> t);
          combined = last_n maxCommandBufferChars (previousTail @ data);
          segments = split_lines combined in
      inspect_lines c i (butlast segments)
        (s\<lparr>commandBuffers := map_set i (last_n maxCommandBufferChars (last segments)) (commandBuffers s)\<rparr>))"

section \<open>The handlers\<close>

text \<open>\<open>None\<close> is a message that is not a string.\<close>

definition handleInput :: "term_config \<Rightarrow> term_deps \<Rightarrow> string \<Rightarrow> string option \<Rightarrow> term_state \<Rightarrow> term_state" where
  "handleInput c D i msg s =
     (case map_get (sessions s) i of
        None \<Rightarrow> s
      | Some se \<Rightarrow> (case msg of
          None \<Rightarrow> term_emit i (TermError ''Invalid terminal input'') (with_tele (markInputRejected (td_now D) i ''invalid_terminal_input_type'') s)
        | Some data \<Rightarrow>
            let bytes = utf8_length data in
            if bytes = 0 then s
            else if bytes > maxInputBytesPerEvent
            then term_emit i (TermError ''Input chunk too large'') (with_tele (markInputRejected (td_now D) i ''input_chunk_too_large'') s)
            else case allowInputRate (td_now D) i bytes s of (ok1, s1) \<Rightarrow>
              if \<not> ok1
              then term_emit i (TermError ''Input rate too high'') (with_tele (markInputRejected (td_now D) i ''input_rate_too_high'') s1)
              else case allowInputEventRate (td_now D) i s1 of (ok2, s2) \<Rightarrow>
                if \<not> ok2
                then (term_emit i (TermError ''Too many terminal input events'')
                       (with_tele (markInputRejected (td_now D) i ''input_event_rate_too_high'') s2))\<lparr>dropped := dropped s2 @ [i]\<rparr>
                else case inspectSubmittedCommands c i data s2 of (ok3, s3) \<Rightarrow>
                  if \<not> ok3 then s3
                  else (with_tele (addInputBytes (td_now D) i bytes) s3)\<lparr>written := written s3 @ [(ss_client se, td_now D, data)]\<rparr>))"

text \<open>\<open>None\<close> is a column or row that is no finite number.\<close>

definition clamp :: "int \<Rightarrow> int \<Rightarrow> int \<Rightarrow> rat option \<Rightarrow> int" where
  "clamp low high dflt x = (case x of Some v \<Rightarrow> max low (min high \<lfloor>v\<rfloor>) | None \<Rightarrow> dflt)"

definition handleResize :: "string \<Rightarrow> (rat option \<times> rat option) option \<Rightarrow> term_state \<Rightarrow> term_state" where
  "handleResize i payload s =
     (case (map_get (sessions s) i, payload) of
        (Some se, Some (cols, rows)) \<Rightarrow> s\<lparr>resized := resized s @ [(ss_client se, clamp 10 200 24 rows, clamp 20 500 80 cols)]\<rparr>
      | _ \<Rightarrow> s)"

section \<open>The limits are windows\<close>

definition byte_step :: "time \<Rightarrow> nat \<Rightarrow> (time \<times> nat) option \<Rightarrow> bool \<times> (time \<times> nat) option" where
  "byte_step now w st =
     (case st of
        Some (start, bytes) \<Rightarrow>
          if now - start \<ge> 1000 then (w \<le> maxInputBytesPerSecond, Some (now, w))
          else if bytes + w > maxInputBytesPerSecond then (False, st)
          else (True, Some (start, bytes + w))
      | None \<Rightarrow> (w \<le> maxInputBytesPerSecond, Some (now, w)))"

text \<open>Every event weighs one, and also refused events count.\<close>

definition event_step :: "time \<Rightarrow> nat \<Rightarrow> (time \<times> nat) option \<Rightarrow> bool \<times> (time \<times> nat) option" where
  "event_step now w st =
     (case st of
        Some (start, events) \<Rightarrow>
          if now - start \<ge> 1000 then (w \<le> maxInputEventsPerSecond, Some (now, w))
          else (events + w \<le> maxInputEventsPerSecond, Some (start, events + w))
      | None \<Rightarrow> (w \<le> maxInputEventsPerSecond, Some (now, w)))"

interpretation byte_window: rate_window byte_step maxInputBytesPerSecond 1000
  by unfold_locales (auto simp: byte_step_def fresh_window_def split: option.splits prod.splits if_splits)

interpretation event_window: rate_window event_step maxInputEventsPerSecond 1000
  by unfold_locales (auto simp: event_step_def fresh_window_def split: option.splits prod.splits if_splits)

lemma allowInputRate_step:
  assumes "allowInputRate now i w s = (ok, t)"
  shows "byte_step now w (map_get (inputWindowStats s) i) = (ok, map_get (inputWindowStats t) i)" "t = s\<lparr>inputWindowStats := inputWindowStats t\<rparr>"
  using assms by (auto simp: allowInputRate_def byte_step_def map_get_set split: option.splits prod.splits if_splits)

lemma allowInputEventRate_step:
  assumes "allowInputEventRate now i s = (ok, t)"
  shows "event_step now 1 (map_get (inputEventWindowStats s) i) = (ok, map_get (inputEventWindowStats t) i)" "t = s\<lparr>inputEventWindowStats := inputEventWindowStats t\<rparr>"
  using assms
  by (auto simp: allowInputEventRate_def event_step_def map_get_set maxInputEventsPerSecond_def split: option.splits prod.splits if_splits)

lemma inspect_lines_frame: "inspect_lines c i ls s = (ok, t) \<Longrightarrow> \<exists>v. t = s\<lparr>dangerousInputViolations := v\<rparr>"
proof (induction ls arbitrary: s)
  case Nil
  then show ?case by (auto intro: exI [of _ "dangerousInputViolations s"])
next
  case (Cons l ls)
  then show ?case by (fastforce simp: Let_def split: if_splits)
qed

lemma inspect_frame:
  "inspectSubmittedCommands c i d s = (ok, t) \<Longrightarrow> \<exists>v b. t = s\<lparr>commandBuffers := b, dangerousInputViolations := v\<rparr>"
  by (auto simp: inspectSubmittedCommands_def Let_def dest!: inspect_lines_frame)

text \<open>The inspection refuses exactly when the count of dangerous lines reaches the limit on one of them.\<close>

lemma violations_set [simp]: "violations i (s\<lparr>dangerousInputViolations := map_set i n v\<rparr>) = n"
  by (simp add: violations_def map_get_set)

lemma over_limit_mono: "over_limit c n \<Longrightarrow> n \<le> m \<Longrightarrow> over_limit c m"
  by (auto simp: over_limit_def split: option.splits)

lemma inspect_lines_ok:
  "fst (inspect_lines c i ls s) \<longleftrightarrow> \<not> (list_ex dangerous_line ls \<and> over_limit c (violations i s + length (filter dangerous_line ls)))"
proof (induction ls arbitrary: s)
  case (Cons l ls)
  let ?s = "s\<lparr>dangerousInputViolations := map_set i (Suc (violations i s)) (dangerousInputViolations s)\<rparr>"
  show ?case
  proof (cases "dangerous_line l \<and> \<not> over_limit c (Suc (violations i s))")
    case True
    have "filter dangerous_line ls = []" if "\<not> list_ex dangerous_line ls" using that by (auto simp: list_ex_iff filter_empty_conv)
    then show ?thesis using True Cons.IH [of ?s] by (cases "list_ex dangerous_line ls") (simp_all add: Let_def)
  next
    case False
    then show ?thesis using Cons.IH [of s] over_limit_mono [of c "Suc (violations i s)"] by (cases "dangerous_line l") (simp_all add: Let_def)
  qed
qed simp

section \<open>What is written\<close>

definition input_run :: "term_config \<Rightarrow> string \<Rightarrow> (term_deps \<times> string option) list \<Rightarrow> term_state \<Rightarrow> term_state" where
  "input_run c i msgs s = foldl (\<lambda>s (D, msg). handleInput c D i msg s) s msgs"

definition bytes_of :: "(nat \<times> time \<times> string) list \<Rightarrow> (time \<times> nat) list" where
  "bytes_of ws = map (\<lambda>(h, t, d). (t, utf8_length d)) ws"

definition events_of :: "(nat \<times> time \<times> string) list \<Rightarrow> (time \<times> nat) list" where
  "events_of ws = map (\<lambda>(h, t, d). (t, 1)) ws"

text \<open>The state of a client's limits after the messages up to \<open>now\<close>, with what they wrote.\<close>

definition limits_inv :: "time \<Rightarrow> string \<Rightarrow> term_state \<Rightarrow> (nat \<times> time \<times> string) list \<Rightarrow> bool" where
  "limits_inv now i s ws \<longleftrightarrow>
     byte_window.window_inv (map_get (inputWindowStats s) i) (bytes_of ws) \<and>
     event_window.window_inv (map_get (inputEventWindowStats s) i) (events_of ws) \<and>
     (\<forall>a b. map_get (inputWindowStats s) i = Some (a, b) \<longrightarrow> a \<le> now) \<and>
     (\<forall>a b. map_get (inputEventWindowStats s) i = Some (a, b) \<longrightarrow> a \<le> now) \<and>
     list_all (\<lambda>(h, t, d). utf8_length d \<le> maxInputBytesPerEvent) ws"

lemma limits_inv_cong:
  "inputWindowStats t = inputWindowStats s \<Longrightarrow> inputEventWindowStats t = inputEventWindowStats s \<Longrightarrow> limits_inv now i t ws \<longleftrightarrow> limits_inv now i s ws"
  by (simp add: limits_inv_def)

lemma limits_inv_later: "limits_inv now i s ws \<Longrightarrow> now \<le> now' \<Longrightarrow> limits_inv now' i s ws"
  by (force simp: limits_inv_def)

lemma term_emit_simps [simp]:
  "inputWindowStats (term_emit i e s) = inputWindowStats s" "inputEventWindowStats (term_emit i e s) = inputEventWindowStats s"
  "written (term_emit i e s) = written s" "inputWindowStats (with_tele f s) = inputWindowStats s"
  "inputEventWindowStats (with_tele f s) = inputEventWindowStats s" "written (with_tele f s) = written s"
  "sessions (term_emit i e s) = sessions s" "sessions (with_tele f s) = sessions s"
  by (simp_all add: term_emit_def with_tele_def)

lemma limits_byte_step:
  assumes "limits_inv now i s ws" "allowInputRate now i w s = (ok, t)"
  shows "byte_window.window_inv (map_get (inputWindowStats t) i) (bytes_of ws)"
    "ok \<Longrightarrow> byte_window.window_inv (map_get (inputWindowStats t) i) (bytes_of ws @ [(now, w)])"
    "\<And>a b. map_get (inputWindowStats t) i = Some (a, b) \<Longrightarrow> a \<le> now" "inputEventWindowStats t = inputEventWindowStats s" "written t = written s"
proof -
  have st: "t = s\<lparr>inputWindowStats := inputWindowStats t\<rparr>" using allowInputRate_step [OF assms(2)] by simp
  show "inputEventWindowStats t = inputEventWindowStats s" "written t = written s" by (subst st, simp)+
  have inv: "byte_window.window_inv (map_get (inputWindowStats s) i) (bytes_of ws)"
    "\<And>a b. map_get (inputWindowStats s) i = Some (a, b) \<Longrightarrow> a \<le> now" using assms(1) by (auto simp: limits_inv_def)
  note step = byte_window.inv_step [OF inv(1) allowInputRate_step(1) [OF assms(2)] inv(2)]
  show "byte_window.window_inv (map_get (inputWindowStats t) i) (bytes_of ws)"
    "ok \<Longrightarrow> byte_window.window_inv (map_get (inputWindowStats t) i) (bytes_of ws @ [(now, w)])"
    "\<And>a b. map_get (inputWindowStats t) i = Some (a, b) \<Longrightarrow> a \<le> now"
    using step by auto
qed

lemma limits_event_step:
  assumes "limits_inv now i s ws" "inputEventWindowStats s' = inputEventWindowStats s" "allowInputEventRate now i s' = (ok, t)"
  shows "event_window.window_inv (map_get (inputEventWindowStats t) i) (events_of ws)"
    "ok \<Longrightarrow> event_window.window_inv (map_get (inputEventWindowStats t) i) (events_of ws @ [(now, 1)])"
    "\<And>a b. map_get (inputEventWindowStats t) i = Some (a, b) \<Longrightarrow> a \<le> now" "inputWindowStats t = inputWindowStats s'" "written t = written s'"
proof -
  have st: "t = s'\<lparr>inputEventWindowStats := inputEventWindowStats t\<rparr>" using allowInputEventRate_step [OF assms(3)] by simp
  show "inputWindowStats t = inputWindowStats s'" "written t = written s'" by (subst st, simp)+
  have inv: "event_window.window_inv (map_get (inputEventWindowStats s') i) (events_of ws)"
    "\<And>a b. map_get (inputEventWindowStats s') i = Some (a, b) \<Longrightarrow> a \<le> now" using assms(1,2) by (auto simp: limits_inv_def)
  note step = event_window.inv_step [OF inv(1) allowInputEventRate_step(1) [OF assms(3)] inv(2)]
  show "event_window.window_inv (map_get (inputEventWindowStats t) i) (events_of ws)"
    "ok \<Longrightarrow> event_window.window_inv (map_get (inputEventWindowStats t) i) (events_of ws @ [(now, 1)])"
    "\<And>a b. map_get (inputEventWindowStats t) i = Some (a, b) \<Longrightarrow> a \<le> now"
    using step by auto
qed

lemma inspect_keeps:
  assumes "inspectSubmittedCommands c i d s = (ok, t)"
  shows "inputWindowStats t = inputWindowStats s" "inputEventWindowStats t = inputEventWindowStats s" "written t = written s" "sessions t = sessions s"
  using inspect_frame [OF assms] by auto

lemma input_early:
  assumes "map_get (sessions s) i = None \<or> msg = None \<or> (\<exists>d. msg = Some d \<and> (utf8_length d = 0 \<or> utf8_length d > maxInputBytesPerEvent))"
  shows "\<exists>t es. handleInput c D i msg s = s\<lparr>tele := t, sent := es\<rparr>"
proof (cases "map_get (sessions s) i")
  case None
  then show ?thesis by (intro exI [of _ "tele s"] exI [of _ "sent s"]) (simp add: handleInput_def)
next
  case (Some se)
  then consider "msg = None" | d where "msg = Some d" "utf8_length d = 0" | d where "msg = Some d" "utf8_length d > maxInputBytesPerEvent"
    using assms by auto
  then show ?thesis
  proof cases
    case 2
    then show ?thesis using Some by (intro exI [of _ "tele s"] exI [of _ "sent s"]) (simp add: handleInput_def)
  qed (use Some in \<open>simp_all add: handleInput_def term_emit_def with_tele_def, blast+\<close>)
qed

lemma input_step:
  assumes "limits_inv (td_now D) i s ws"
  shows "\<exists>vs. written (handleInput c D i msg s) = written s @ vs \<and> limits_inv (td_now D) i (handleInput c D i msg s) (ws @ vs)"
proof (cases "map_get (sessions s) i = None \<or> msg = None \<or> (\<exists>d. msg = Some d \<and> (utf8_length d = 0 \<or> utf8_length d > maxInputBytesPerEvent))")
  case True
  then obtain te es where "handleInput c D i msg s = s\<lparr>tele := te, sent := es\<rparr>" using input_early by blast
  then show ?thesis using assms by (intro exI [of _ "[]"]) (simp add: limits_inv_def)
next
  case False
  then obtain se d where se: "map_get (sessions s) i = Some se" "msg = Some d" "utf8_length d \<noteq> 0" "\<not> utf8_length d > maxInputBytesPerEvent" by auto
  obtain ok1 s1 where 1: "allowInputRate (td_now D) i (utf8_length d) s = (ok1, s1)" by fastforce
  obtain ok2 s2 where 2: "allowInputEventRate (td_now D) i s1 = (ok2, s2)" by fastforce
  obtain ok3 s3 where 3: "inspectSubmittedCommands c i d s2 = (ok3, s3)" by fastforce
  note b = limits_byte_step [OF assms 1] and e = limits_event_step [OF assms b(4) 2] and k = inspect_keeps [OF 3]
  let ?t = "handleInput c D i msg s"
  have len: "list_all (\<lambda>(h, t, d). utf8_length d \<le> maxInputBytesPerEvent) ws" and
    ev: "event_window.window_inv (map_get (inputEventWindowStats s) i) (events_of ws)"
    "\<And>a b. map_get (inputEventWindowStats s) i = Some (a, b) \<Longrightarrow> a \<le> td_now D" using assms by (auto simp: limits_inv_def)
  consider "\<not> ok1" | "ok1" "\<not> ok2" | "ok1" "ok2" "\<not> ok3" | "ok1" "ok2" "ok3" by blast
  then show ?thesis
  proof cases
    case 1
    then have "written ?t = written s" "inputWindowStats ?t = inputWindowStats s1" "inputEventWindowStats ?t = inputEventWindowStats s"
      using se \<open>allowInputRate _ _ _ _ = _\<close> b(4,5) by (simp_all add: handleInput_def Let_def)
    then show ?thesis using b ev len by (intro exI [of _ "[]"]) (auto simp: limits_inv_def)
  next
    case 2
    then have "written ?t = written s" "inputWindowStats ?t = inputWindowStats s1" "inputEventWindowStats ?t = inputEventWindowStats s2"
      using se \<open>allowInputRate _ _ _ _ = _\<close> \<open>allowInputEventRate _ _ _ = _\<close> b(5) e(4,5) by (simp_all add: handleInput_def Let_def)
    then show ?thesis using b e len by (intro exI [of _ "[]"]) (auto simp: limits_inv_def)
  next
    case 3
    then have "?t = s3" using se \<open>allowInputRate _ _ _ _ = _\<close> \<open>allowInputEventRate _ _ _ = _\<close> \<open>inspectSubmittedCommands _ _ _ _ = _\<close>
      by (simp add: handleInput_def Let_def)
    then show ?thesis using b e k len by (intro exI [of _ "[]"]) (auto simp: limits_inv_def)
  next
    case 4
    then have "written ?t = written s @ [(ss_client se, td_now D, d)]" "inputWindowStats ?t = inputWindowStats s1" "inputEventWindowStats ?t = inputEventWindowStats s2"
      using se \<open>allowInputRate _ _ _ _ = _\<close> \<open>allowInputEventRate _ _ _ = _\<close> \<open>inspectSubmittedCommands _ _ _ _ = _\<close> b(5) e(4,5) k
      by (simp_all add: handleInput_def Let_def)
    then show ?thesis using b e 4 len se
      by (intro exI [of _ "[(ss_client se, td_now D, d)]"]) (auto simp: limits_inv_def bytes_of_def events_of_def)
  qed
qed

lemma input_run_inv:
  assumes "limits_inv now i s ws" "sorted (now # map (\<lambda>(D, msg). td_now D) msgs)"
  shows "\<exists>vs now'. written (input_run c i msgs s) = written s @ vs \<and> limits_inv now' i (input_run c i msgs s) (ws @ vs)"
  using assms
proof (induction msgs arbitrary: now s ws)
  case Nil
  then show ?case by (auto simp: input_run_def)
next
  case (Cons m msgs)
  obtain D msg where m: "m = (D, msg)" by (cases m)
  have "limits_inv (td_now D) i s ws" using Cons.prems m limits_inv_later by auto
  from input_step [OF this] obtain vs where vs: "written (handleInput c D i msg s) = written s @ vs"
    "limits_inv (td_now D) i (handleInput c D i msg s) (ws @ vs)" by blast
  obtain us now' where "written (input_run c i msgs (handleInput c D i msg s)) = (written s @ vs) @ us"
    "limits_inv now' i (input_run c i msgs (handleInput c D i msg s)) ((ws @ vs) @ us)"
    using Cons.IH [OF vs(2)] Cons.prems(2) m vs(1) by auto
  then show ?case using m by (auto simp: input_run_def)
qed

text \<open>
  C19: however fast a client sends, what reaches the machine is bounded: from a session without
  history, whatever messages arrive in the order of time, in no second, wherever it starts, more than
  65536 bytes or 200 messages are written to the shell, and no message of more than 4096 bytes.
\<close>

theorem terminal_input_bounded:
  assumes "sorted (map (\<lambda>(D, msg). td_now D) msgs)"
    and "map_get (inputWindowStats s) i = None" "map_get (inputEventWindowStats s) i = None"
  shows "\<exists>ws. written (input_run c i msgs s) = written s @ ws \<and> list_all (\<lambda>(h, t, d). utf8_length d \<le> 4096) ws \<and>
    (\<forall>t. amount_in t (t + 1000) (bytes_of ws) \<le> 65536 \<and> amount_in t (t + 1000) (events_of ws) \<le> 200)"
proof (cases msgs)
  case Nil
  then show ?thesis by (simp add: input_run_def bytes_of_def events_of_def)
next
  case (Cons m ms)
  then have "sorted ((case m of (D, msg) \<Rightarrow> td_now D) # map (\<lambda>(D, msg). td_now D) msgs)" using assms(1) by auto
  moreover have "limits_inv n i s []" for n
    using assms(2,3) byte_window.inv_start event_window.inv_start by (simp add: limits_inv_def bytes_of_def events_of_def)
  ultimately obtain vs now' where vs: "written (input_run c i msgs s) = written s @ vs" "limits_inv now' i (input_run c i msgs s) vs"
    using input_run_inv [of _ i s "[]" msgs] by fastforce
  then show ?thesis
    using byte_window.inv_bound event_window.inv_bound
    by (intro exI [of _ vs]) (fastforce simp: limits_inv_def maxInputBytesPerSecond_def maxInputEventsPerSecond_def maxInputBytesPerEvent_def)
qed

section \<open>What the inspection sees\<close>

definition buffer_of :: "string \<Rightarrow> term_state \<Rightarrow> string" where
  "buffer_of i s = (case map_get (commandBuffers s) i of None \<Rightarrow> [] | Some t \<Rightarrow> t)"

text \<open>The lines that a message completes, with what was typed before it.\<close>

definition submitted :: "string \<Rightarrow> string \<Rightarrow> term_state \<Rightarrow> string list" where
  "submitted i d s = butlast (split_lines (last_n maxCommandBufferChars (buffer_of i s @ d)))"

lemma inspect_iff:
  "fst (inspectSubmittedCommands c i d s) \<longleftrightarrow>
     \<not> (list_ex dangerous_line (submitted i d s) \<and> over_limit c (violations i s + length (filter dangerous_line (submitted i d s))))"
  by (simp add: inspectSubmittedCommands_def submitted_def buffer_of_def inspect_lines_ok violations_def Let_def)

text \<open>
  In blocking mode a message that completes a dangerous line is not written to the shell once the
  dangerous lines of the session have reached the limit; and the inspection refuses no other message.
\<close>

theorem dangerous_input_refused:
  assumes "list_ex dangerous_line (submitted i d s)" "over_limit c (violations i s + length (filter dangerous_line (submitted i d s)))"
  shows "written (handleInput c D i (Some d) s) = written s \<and> fst (inspectSubmittedCommands c i d s) = False \<and>
    (\<forall>d'. fst (inspectSubmittedCommands c i d' s) = False \<longrightarrow> list_ex dangerous_line (submitted i d' s) \<and> tc_block c)"
proof -
  have "fst (inspectSubmittedCommands c i d t) = fst (inspectSubmittedCommands c i d s)"
    if "commandBuffers t = commandBuffers s" "dangerousInputViolations t = dangerousInputViolations s" for t
    using that by (simp add: inspect_iff submitted_def buffer_of_def violations_def)
  note same = this
  have no: "fst (inspectSubmittedCommands c i d s) = False" using assms by (simp add: inspect_iff)
  have "written (handleInput c D i (Some d) s) = written s"
  proof (cases "map_get (sessions s) i = None \<or> utf8_length d = 0 \<or> utf8_length d > maxInputBytesPerEvent")
    case True
    then show ?thesis using input_early [of s i "Some d" c D] by auto
  next
    case False
    then obtain se where se: "map_get (sessions s) i = Some se" "utf8_length d \<noteq> 0" "\<not> utf8_length d > maxInputBytesPerEvent" by auto
    obtain ok1 s1 where 1: "allowInputRate (td_now D) i (utf8_length d) s = (ok1, s1)" by fastforce
    obtain ok2 s2 where 2: "allowInputEventRate (td_now D) i s1 = (ok2, s2)" by fastforce
    obtain ok3 s3 where 3: "inspectSubmittedCommands c i d s2 = (ok3, s3)" by fastforce
    have s1: "s1 = s\<lparr>inputWindowStats := inputWindowStats s1\<rparr>" and s2: "s2 = s1\<lparr>inputEventWindowStats := inputEventWindowStats s2\<rparr>"
      using allowInputRate_step(2) [OF 1] allowInputEventRate_step(2) [OF 2] .
    have w: "written s1 = written s" "commandBuffers s1 = commandBuffers s" "dangerousInputViolations s1 = dangerousInputViolations s" by (subst s1, simp)+
    have w2: "written s2 = written s1" "commandBuffers s2 = commandBuffers s1" "dangerousInputViolations s2 = dangerousInputViolations s1" by (subst s2, simp)+
    have "\<not> ok3" using same [of s2] 3 no w w2 by simp
    then show ?thesis using se 1 2 3 w(1) w2(1) inspect_keeps [OF 3] by (simp add: handleInput_def Let_def)
  qed
  then show ?thesis using no by (auto simp: inspect_iff over_limit_def)
qed

lemma split_on_absent: "c \<notin> set s \<Longrightarrow> split_on c s = [s]"
  by (rule split_on_single)

lemma set_last_n: "x \<in> set (last_n n xs) \<Longrightarrow> x \<in> set xs"
  by (auto simp: last_n_def dest: in_set_dropD)

text \<open>
  The inspection looks at lines that end with a line feed only. Text without one, such as a command
  followed by the carriage return that a terminal sends for its enter key, is never refused and never
  counted, however many messages it comes in: it stays in the buffer, which then has no line feed either.
\<close>

theorem carriage_return_uninspected:
  assumes "char_of (10 :: nat) \<notin> set d" "char_of (10 :: nat) \<notin> set (buffer_of i s)"
  shows "\<exists>t. inspectSubmittedCommands c i d s = (True, t) \<and> dangerousInputViolations t = dangerousInputViolations s \<and>
    char_of (10 :: nat) \<notin> set (buffer_of i t)"
proof -
  let ?x = "last_n maxCommandBufferChars (buffer_of i s @ d)"
  have x: "char_of (10 :: nat) \<notin> set ?x" using assms by (auto dest!: set_last_n)
  then have "split_lines ?x = [?x]" by (simp add: split_lines_def split_on_absent)
  then have "inspectSubmittedCommands c i d s = (True, s\<lparr>commandBuffers := map_set i (last_n maxCommandBufferChars ?x) (commandBuffers s)\<rparr>)"
    by (simp add: inspectSubmittedCommands_def buffer_of_def [symmetric] Let_def)
  moreover have "char_of (10 :: nat) \<notin> set (last_n maxCommandBufferChars ?x)" using x set_last_n by fast
  ultimately show ?thesis by (simp add: buffer_of_def map_get_set)
qed

section \<open>A concrete session\<close>

definition sample_term :: term_state where
  "sample_term = db.extend empty_db \<lparr>sessions = [(''k1'', \<lparr>ss_client = 0, ss_bastion = None\<rparr>)], inputWindowStats = [], inputEventWindowStats = [],
     commandBuffers = [], dangerousInputViolations = [], attempts = [], next_client = 1,
     tele = \<lparr>te_startedAt = 0, te_clients = [], te_audits = [], te_totalConnections = 0, te_failedConnections = 0, te_rejectedInputs = 0,
       te_totalInputBytes = 0, te_totalOutputBytes = 0\<rparr>,
     sent = [], dropped = [], dialled = [], ended = [], written = [], resized = [], crashed = False\<rparr>"

definition sample_td :: "time \<Rightarrow> term_deps" where
  "sample_td now = \<lparr>td_env = (\<lambda>_. None), td_now = now, td_sha256 = (\<lambda>x. x), td_verify = (\<lambda>_ _. Some (sample_payload (Some ''10.0.0.7|curl''))),
     td_reencode = (\<lambda>_. None), td_hostname = (\<lambda>_. None), td_connect_ok = (\<lambda>_. True)\<rparr>"

definition sample_tc :: term_config where
  "sample_tc = \<lparr>tc_block = True, tc_maxViolations = Some 1, tc_allowPasswordFallback = False, tc_connectTimeoutMs = Some 20000\<rparr>"

lemma sample_term_simps [simp]:
  "inputWindowStats sample_term = []" "inputEventWindowStats sample_term = []" "commandBuffers sample_term = []"
  "dangerousInputViolations sample_term = []" "written sample_term = []" "sessions sample_term = [(''k1'', \<lparr>ss_client = 0, ss_bastion = None\<rparr>)]"
  "td_now (sample_td now) = now"
  by (simp_all add: sample_term_def sample_td_def db.extend_def empty_db_def)

theorem terminal_input_bounded_witness:
  "\<exists>ws. written (input_run sample_tc ''k1'' [(sample_td 0, Some ''ls''), (sample_td 5, Some ''x'')] sample_term) = ws \<and>
     amount_in 0 1000 (bytes_of ws) \<le> 65536"
  using terminal_input_bounded [of "[(sample_td 0, Some ''ls''), (sample_td 5, Some ''x'')]" sample_term "''k1''" sample_tc]
  by (auto dest!: spec [of _ 0])

theorem dangerous_input_refused_witness:
  "written (handleInput sample_tc (sample_td 0) ''k1'' (Some (''rm  -rf /'' @ [char_of (10 :: nat)])) sample_term) = []"
proof -
  let ?d = "''rm  -rf /'' @ [char_of (10 :: nat)]"
  have l: "submitted ''k1'' ?d sample_term = [''rm  -rf /'']"
    by code_simp
  have "dangerous_line ''rm  -rf /''" by code_simp
  then have "list_ex dangerous_line (submitted ''k1'' ?d sample_term)"
    "over_limit sample_tc (violations ''k1'' sample_term + length (filter dangerous_line (submitted ''k1'' ?d sample_term)))"
    unfolding l by (simp_all add: over_limit_def sample_tc_def violations_def)
  from dangerous_input_refused [OF this] show ?thesis by simp
qed

theorem carriage_return_uninspected_witness:
  "\<exists>t. inspectSubmittedCommands sample_tc ''k1'' (''rm -rf /'' @ [char_of (13 :: nat)]) sample_term = (True, t)"
proof -
  have "char_of (10 :: nat) \<notin> set (''rm -rf /'' @ [char_of (13 :: nat)])" by code_simp
  then show ?thesis using carriage_return_uninspected [of "''rm -rf /'' @ [char_of (13 :: nat)]" "''k1''" sample_term sample_tc] by (auto simp: buffer_of_def)
qed

end
