(* ===== verification/Terminal_Connect.thy ===== *)
theory Terminal_Connect
  imports Terminal_Input
begin

text \<open>
  \<open>handleConnectSsh\<close> of \<open>terminal.gateway.ts\<close>: the checks of a request for a shell, the direct
  connection, the fallback over the bastion host and the retry with a password, as the handlers of the
  events of the SSH clients and of the timer. A request for a shell reads the table of machines in
  the same step.

  The dash in two messages lies above the characters of this model and is written as two hyphens.
\<close>

section \<open>The request\<close>

record connect_payload =
  cp_vmId :: "string option"
  cp_password :: "string option"
  cp_username :: "string option"
  cp_privateKey :: "string option"

definition denied :: "term_deps \<Rightarrow> string \<Rightarrow> string \<Rightarrow> id option \<Rightarrow> id option \<Rightarrow> string \<Rightarrow> term_state \<Rightarrow> term_state" where
  "denied D i reason vm u msg s = term_emit i (TermError msg) (with_tele (markConnectDenied (td_now D) i reason vm u) s)"

definition drop_socket :: "string \<Rightarrow> term_state \<Rightarrow> term_state" where
  "drop_socket i s = s\<lparr>dropped := dropped s @ [i]\<rparr>"

definition internal_error :: "term_deps \<Rightarrow> string \<Rightarrow> id option \<Rightarrow> term_state \<Rightarrow> term_state" where
  "internal_error D i vm s =
     term_emit i (TermError ''Internal server error'') (with_tele (markConnectFailed (td_now D) i ''internal_error'' vm None) s)"

definition ssh_port :: "vm_row \<Rightarrow> int" where
  "ssh_port vm = nullish (v_sshPort vm) 22"

definition host_port_text :: "vm_row \<Rightarrow> string" where
  "host_port_text vm = the (v_sshHost vm) @ '':'' @ show_int (ssh_port vm)"

text \<open>The credentials of the direct connection and of the tunnel.\<close>

definition key_or_password :: "term_config \<Rightarrow> attempt \<Rightarrow> string option \<times> string option" where
  "key_or_password c a =
     (if at_key a \<noteq> [] then
        (Some (at_key a),
         if tc_allowPasswordFallback c \<and> at_username a = ''cloudvm'' \<and> at_defaultPassword a \<noteq> []
         then Some (or_opt (at_password a) (at_defaultPassword a)) else None)
      else (None, if truthy (at_password a) then at_password a else None))"

definition direct_options :: "term_config \<Rightarrow> attempt \<Rightarrow> connect_options" where
  "direct_options c a =
     \<lparr>co_target = HostPort (the (v_sshHost (at_vm a))) (of_int (ssh_port (at_vm a))), co_username = at_username a,
      co_password = snd (key_or_password c a), co_privateKey = fst (key_or_password c a)\<rparr>"

definition new_attempt :: "term_deps \<Rightarrow> socket \<Rightarrow> connect_payload \<Rightarrow> jwt_payload \<Rightarrow> vm_row \<Rightarrow> nat \<Rightarrow> attempt" where
  "new_attempt D client payload user vm h =
     \<lparr>at_client = client, at_vm = vm, at_user = user,
      at_username = nullish (cp_username payload) (nullish (v_sshUsername vm) ''cloudvm''),
      at_key = (if truthy (cp_privateKey payload) then normalizePrivateKeyForSsh (td_reencode D) (the (cp_privateKey payload)) else []),
      at_password = cp_password payload, at_defaultPassword = default_vm_password (td_env D), at_bastionCfg = getBastionConfig D,
      at_direct = h, at_bastion = None, at_via = None, at_retry = None, at_triedBastion = False, at_triedPassword = False,
      at_timer = Some DirectTimer\<rparr>"

definition start_attempt :: "term_config \<Rightarrow> term_deps \<Rightarrow> socket \<Rightarrow> connect_payload \<Rightarrow> jwt_payload \<Rightarrow> vm_row \<Rightarrow> term_state \<Rightarrow> term_state" where
  "start_attempt c D client payload user vm s =
     (let i = so_id client; h = next_client s; a = new_attempt D client payload user vm h;
          s' = s\<lparr>attempts := map_set h a (attempts s), next_client := h + 1\<rparr> in
      if at_key a = [] \<and> \<not> truthy (at_password a)
      then denied D i ''no_credentials'' (cp_vmId payload) (Some (sub user)) ''No SSH credentials provided. Supply a private key or password.'' s'
      else if \<not> td_connect_ok D (direct_options c a) then internal_error D i (cp_vmId payload) s'
      else s'\<lparr>dialled := dialled s' @ [(h, direct_options c a)]\<rparr>)"

definition connect_machine :: "term_config \<Rightarrow> term_deps \<Rightarrow> socket \<Rightarrow> connect_payload \<Rightarrow> jwt_payload \<Rightarrow> term_state \<Rightarrow> term_state" where
  "connect_machine c D client payload user s =
     (let i = so_id client; v = cp_vmId payload; u = Some (sub user) in
      case find_vm (the v) s of
        None \<Rightarrow> denied D i ''vm_not_found'' v u ''Virtual machine not found'' s
      | Some vm \<Rightarrow>
          if jwt_role user \<noteq> ''ADMIN'' \<and> v_userId vm \<noteq> sub user then denied D i ''access_denied'' v u ''Access denied'' s
          else if v_status vm \<noteq> RUNNING
          then denied D i (''vm_not_running:'' @ status_name (v_status vm)) v u
                 (''VM is not running (current status: '' @ status_name (v_status vm) @ '')'') s
          else if \<not> truthy (v_sshHost vm) then denied D i ''ssh_host_missing'' v u ''VM SSH host not configured'' s
          else start_attempt c D client payload user vm s)"

definition handleConnectSsh :: "term_config \<Rightarrow> term_deps \<Rightarrow> socket \<Rightarrow> connect_payload \<Rightarrow> term_state \<Rightarrow> term_state" where
  "handleConnectSsh c D client payload s =
     (let i = so_id client; v = cp_vmId payload in
      if \<not> truthy v then denied D i ''invalid_vm_identifier'' None None ''Invalid VM identifier'' s
      else if truthy (cp_password payload) \<and> length (the (cp_password payload)) > 256
      then denied D i ''password_too_long'' v None ''Password is too long'' s
      else if truthy (cp_privateKey payload) \<and> length (the (cp_privateKey payload)) > 32768
      then denied D i ''private_key_too_large'' v None ''Private key is too large'' s
      else
        let s' = cleanupSession i s in
        case socket_token client of
          Inl _ \<Rightarrow> internal_error D i v s'
        | Inr token \<Rightarrow>
            if \<not> truthy token then drop_socket i (denied D i ''missing_token'' v None ''Authentication required'' s')
            else case verify_socket (td_sha256 D) (td_verify D (td_now D)) (td_env D) client (the token) of
                None \<Rightarrow> drop_socket i (denied D i ''invalid_token'' v None ''Invalid or expired token'' s')
              | Some user \<Rightarrow> connect_machine c D client payload user (with_tele (markConnectAttempt (td_now D) i v (Some (sub user))) s'))"

section \<open>The clients of an attempt\<close>

datatype role = Direct | Via | Retry

definition client_of :: "role \<Rightarrow> attempt \<Rightarrow> nat option" where
  "client_of r a = (case r of Direct \<Rightarrow> Some (at_direct a) | Via \<Rightarrow> at_via a | Retry \<Rightarrow> at_retry a)"

definition set_attempt :: "nat \<Rightarrow> attempt \<Rightarrow> term_state \<Rightarrow> term_state" where
  "set_attempt k a s = s\<lparr>attempts := map_set k a (attempts s)\<rparr>"

definition clearConnectTimeout :: "nat \<Rightarrow> attempt \<Rightarrow> term_state \<Rightarrow> term_state" where
  "clearConnectTimeout k a s = set_attempt k (a\<lparr>at_timer := None\<rparr>) s"

definition attempt_failed :: "term_deps \<Rightarrow> attempt \<Rightarrow> string \<Rightarrow> term_state \<Rightarrow> term_state" where
  "attempt_failed D a detail = with_tele (markConnectFailed (td_now D) (so_id (at_client a)) detail (Some (v_id (at_vm a))) (Some (sub (at_user a))))"

text \<open>A connection that is started from a callback.\<close>

definition dial :: "term_deps \<Rightarrow> nat \<Rightarrow> connect_options \<Rightarrow> term_state \<Rightarrow> term_state" where
  "dial D h opts s = (if td_connect_ok D opts then s\<lparr>dialled := dialled s @ [(h, opts)]\<rparr> else s\<lparr>crashed := True\<rparr>)"

definition bastion_options :: "bastion_config \<Rightarrow> connect_options" where
  "bastion_options b =
     \<lparr>co_target = HostPort (bc_host b) (bc_port b), co_username = bc_username b,
      co_password = (if bc_privateKey b \<noteq> None then None else bc_password b), co_privateKey = bc_privateKey b\<rparr>"

definition tryBastionFallback :: "term_deps \<Rightarrow> nat \<Rightarrow> attempt \<Rightarrow> term_state \<Rightarrow> bool \<times> term_state" where
  "tryBastionFallback D k a s =
     (case at_bastionCfg a of
        None \<Rightarrow> (False, s)
      | Some b \<Rightarrow>
          if at_triedBastion a then (False, s)
          else
            let h = next_client s;
                a' = a\<lparr>at_triedBastion := True, at_bastion := Some h, at_via := Some (h + 1), at_timer := Some BastionTimer\<rparr> in
            (True, dial D h (bastion_options b) (set_attempt k a' ((end_client (at_direct a) s)\<lparr>next_client := h + 2\<rparr>))))"

definition tryPasswordOnlyRetry :: "term_config \<Rightarrow> term_deps \<Rightarrow> nat \<Rightarrow> attempt \<Rightarrow> term_state \<Rightarrow> bool \<times> term_state" where
  "tryPasswordOnlyRetry c D k a s =
     (let candidate = or_opt (at_password a) (at_defaultPassword a) in
      if at_triedPassword a \<or> \<not> tc_allowPasswordFallback c \<or> at_key a = [] \<or> candidate = [] \<or> at_username a \<noteq> ''cloudvm'' then (False, s)
      else
        let h = next_client s;
            a' = a\<lparr>at_triedPassword := True, at_retry := Some h, at_timer := Some RetryTimer\<rparr> in
        (True, dial D h
           \<lparr>co_target = HostPort (the (v_sshHost (at_vm a))) (of_int (ssh_port (at_vm a))), co_username = at_username a,
            co_password = Some candidate, co_privateKey = None\<rparr>
           (set_attempt k a' ((end_client (at_direct a) s)\<lparr>next_client := h + 1\<rparr>))))"

section \<open>Events\<close>

definition on_ready :: "nat \<Rightarrow> term_state \<Rightarrow> term_state" where
  "on_ready k s = (case map_get (attempts s) k of None \<Rightarrow> s | Some a \<Rightarrow> clearConnectTimeout k a s)"

definition connected_text :: "role \<Rightarrow> attempt \<Rightarrow> string" where
  "connected_text r a = ''Connected to '' @ v_name (at_vm a) @ '' ('' @ the (v_sshHost (at_vm a)) @ '')'' @ (if r = Via then '' via bastion'' else [])"

definition on_shell :: "term_deps \<Rightarrow> nat \<Rightarrow> role \<Rightarrow> bool \<Rightarrow> term_state \<Rightarrow> term_state" where
  "on_shell D k r opened s =
     (case map_get (attempts s) k of
        None \<Rightarrow> s
      | Some a \<Rightarrow> (case client_of r a of
          None \<Rightarrow> s
        | Some h \<Rightarrow>
            let i = so_id (at_client a); bastion = (if r = Via then at_bastion a else None) in
            if \<not> opened then
              (let s' = end_client h (term_emit i (TermError ''Failed to open SSH shell'') (attempt_failed D a ''ssh_shell_open_failed'' s)) in
               s'\<lparr>ended := ended s' @ opt_list bastion\<rparr>)
            else
              term_emit i (TermConnected (connected_text r a))
                (with_tele (markConnectSuccess (td_now D) i (Some (v_id (at_vm a))) (Some (sub (at_user a))))
                  (s\<lparr>sessions := map_set i \<lparr>ss_client = h, ss_bastion = bastion\<rparr> (sessions s)\<rparr>))))"

definition on_stream_data :: "nat \<Rightarrow> string \<Rightarrow> term_state \<Rightarrow> term_state" where
  "on_stream_data k data s =
     (case map_get (attempts s) k of
        None \<Rightarrow> s
      | Some a \<Rightarrow> let i = so_id (at_client a) in term_emit i (TermOutput data) (with_tele (addOutputBytes i (utf8_length data)) s))"

definition on_stream_close :: "term_deps \<Rightarrow> nat \<Rightarrow> term_state \<Rightarrow> term_state" where
  "on_stream_close D k s =
     (case map_get (attempts s) k of
        None \<Rightarrow> s
      | Some a \<Rightarrow> let i = so_id (at_client a) in
          cleanupSession i (term_emit i (TermDisconnected ''SSH session closed'')
            (with_tele (markDisconnect (td_now D) i (Some ''ssh_stream_closed'')) s)))"

text \<open>A closed connection; the bastion's own client has no such handler.\<close>

definition on_close :: "term_deps \<Rightarrow> nat \<Rightarrow> term_state \<Rightarrow> term_state" where
  "on_close D k s =
     (case map_get (attempts s) k of
        None \<Rightarrow> s
      | Some a \<Rightarrow> let i = so_id (at_client a) in
          cleanupSession i (with_tele (markDisconnect (td_now D) i (Some ''ssh_connection_closed'')) (clearConnectTimeout k a s)))"

definition is_refused :: "string \<Rightarrow> bool" where "is_refused m = str_includes m ''ECONNREFUSED''"

definition is_timeout :: "string \<Rightarrow> bool" where "is_timeout m \<longleftrightarrow> str_includes m ''ETIMEDOUT'' \<or> str_includes m ''Timed out''"

definition is_auth :: "string \<Rightarrow> bool" where "is_auth m \<longleftrightarrow> str_includes m ''Authentication'' \<or> str_includes m ''auth''"

definition user_message :: "attempt \<Rightarrow> string \<Rightarrow> string" where
  "user_message a m =
     (if is_refused m then ''SSH refused at '' @ host_port_text (at_vm a) @ ''. The VM may still be booting -- try again in a few seconds.''
      else if is_timeout m then ''SSH timed out connecting to '' @ the (v_sshHost (at_vm a)) @
        ''. The VM may still be booting, or check that port 22 is reachable.''
      else if is_auth m then ''SSH authentication failed at '' @ the (v_sshHost (at_vm a)) @
        ''. The SSH key may not have been injected into the VM yet -- wait a moment and try again.''
      else ''SSH connection error. Please retry or contact support.'')"

definition fail_attempt :: "term_deps \<Rightarrow> attempt \<Rightarrow> string \<Rightarrow> string \<Rightarrow> term_state \<Rightarrow> term_state" where
  "fail_attempt D a detail msg s =
     (let i = so_id (at_client a) in cleanupSession i (term_emit i (TermError msg) (attempt_failed D a detail s)))"

definition on_direct_error :: "term_config \<Rightarrow> term_deps \<Rightarrow> nat \<Rightarrow> string \<Rightarrow> term_state \<Rightarrow> term_state" where
  "on_direct_error c D k m s =
     (case map_get (attempts s) k of
        None \<Rightarrow> s
      | Some a0 \<Rightarrow>
          let a = a0\<lparr>at_timer := None\<rparr>; s0 = clearConnectTimeout k a0 s in
          case (if is_auth m then tryPasswordOnlyRetry c D k a s0 else (False, s0)) of (retried, s1) \<Rightarrow>
            if retried then s1
            else case (if is_refused m \<or> is_timeout m then tryBastionFallback D k a s1 else (False, s1)) of (tunnelled, s2) \<Rightarrow>
              if tunnelled then s2 else fail_attempt D a (''ssh_error:'' @ m) (user_message a m) s2)"

definition on_via_error :: "term_deps \<Rightarrow> nat \<Rightarrow> string \<Rightarrow> term_state \<Rightarrow> term_state" where
  "on_via_error D k m s =
     (case map_get (attempts s) k of
        None \<Rightarrow> s
      | Some a \<Rightarrow> fail_attempt D a (''ssh_error:'' @ m) (''SSH via bastion failed: '' @ m) (clearConnectTimeout k a s))"

definition on_retry_error :: "term_deps \<Rightarrow> nat \<Rightarrow> string \<Rightarrow> term_state \<Rightarrow> term_state" where
  "on_retry_error D k m s =
     (case map_get (attempts s) k of
        None \<Rightarrow> s
      | Some a \<Rightarrow> fail_attempt D a (''ssh_error:'' @ m)
          (''SSH authentication failed at '' @ the (v_sshHost (at_vm a)) @ ''. Password retry also failed.'') (clearConnectTimeout k a s))"

definition on_bastion_error :: "nat \<Rightarrow> string \<Rightarrow> term_state \<Rightarrow> term_state" where
  "on_bastion_error k m s =
     (case map_get (attempts s) k of
        None \<Rightarrow> s
      | Some a \<Rightarrow> let i = so_id (at_client a) in
          cleanupSession i (term_emit i (TermError (''Bastion SSH connection failed: '' @ m)) (clearConnectTimeout k a s)))"

text \<open>The answer of the bastion to the request for a tunnel.\<close>

definition on_forward :: "term_config \<Rightarrow> term_deps \<Rightarrow> nat \<Rightarrow> bool \<Rightarrow> term_state \<Rightarrow> term_state" where
  "on_forward c D k ok s =
     (case map_get (attempts s) k of
        None \<Rightarrow> s
      | Some a \<Rightarrow> (case (at_bastion a, at_via a) of
          (Some b, Some h) \<Rightarrow>
            if \<not> ok then
              (let i = so_id (at_client a) in
               cleanupSession i (term_emit i (TermError (''Bastion tunnel failed to '' @ host_port_text (at_vm a))) s))
            else dial D h \<lparr>co_target = Tunnel b, co_username = at_username a, co_password = snd (key_or_password c a),
                co_privateKey = fst (key_or_password c a)\<rparr> s
        | _ \<Rightarrow> s))"

definition on_timer :: "term_deps \<Rightarrow> nat \<Rightarrow> term_state \<Rightarrow> term_state" where
  "on_timer D k s =
     (case map_get (attempts s) k of
        None \<Rightarrow> s
      | Some a0 \<Rightarrow>
          let a = a0\<lparr>at_timer := None\<rparr>; s0 = clearConnectTimeout k a0 s in
          case at_timer a0 of
            None \<Rightarrow> s
          | Some DirectTimer \<Rightarrow> (case tryBastionFallback D k a s0 of (tunnelled, s1) \<Rightarrow>
              if tunnelled then s1
              else fail_attempt D a ''ssh_connect_timeout'' (''Timed out reaching '' @ host_port_text (at_vm a) @
                ''. SSH key may be correct, but this usually means the VM network is not reachable from the VM service host.'') s1)
          | Some BastionTimer \<Rightarrow> fail_attempt D a ''ssh_connect_timeout_bastion''
              (''Timed out reaching '' @ host_port_text (at_vm a) @ '' via bastion '' @ (case at_bastionCfg a of Some b \<Rightarrow> bc_host b | None \<Rightarrow> [])) s0
          | Some RetryTimer \<Rightarrow> fail_attempt D a ''ssh_connect_timeout_password_retry''
              (''Timed out reaching '' @ host_port_text (at_vm a) @ '' during password retry.'') s0)"

end
