(* ===== verification/Terminal_Safety.thy ===== *)
theory Terminal_Safety
  imports Terminal_Connect
begin

text \<open>
  The histories of the terminal gateway as a step relation: requests, input, and the events of the SSH
  clients and timers in any order. Every open shell belongs to a socket whose token named the owner of
  the machine or an administrator; and two weaknesses: a shell that opens after its socket has left, and
  a request without credentials that goes on to dial the bastion.
\<close>

section \<open>Authorised attempts\<close>

definition attempt_ok :: "term_deps \<Rightarrow> (socket \<Rightarrow> jwt_payload \<Rightarrow> vm_row \<Rightarrow> bool) \<Rightarrow> attempt \<Rightarrow> bool" where
  "attempt_ok G Q a \<longleftrightarrow>
     Q (at_client a) (at_user a) (at_vm a) \<and> truthy (v_sshHost (at_vm a)) \<and> at_bastionCfg a = getBastionConfig G \<and>
     (\<not> at_triedBastion a \<longrightarrow> at_bastion a = None \<and> at_via a = None) \<and> (\<not> at_triedPassword a \<longrightarrow> at_retry a = None)"

definition handles :: "attempt \<Rightarrow> nat set" where
  "handles a = {h. Some h \<in> {Some (at_direct a), at_bastion a, at_via a, at_retry a}}"

definition target_ok :: "attempt \<Rightarrow> ssh_target \<Rightarrow> bool" where
  "target_ok a t = (case t of
       HostPort host _ \<Rightarrow> v_sshHost (at_vm a) = Some host \<or> (\<exists>b. at_bastionCfg a = Some b \<and> bc_host b = host)
     | Tunnel b \<Rightarrow> at_bastion a = Some b)"

text \<open>
  \<open>Q\<close> is what is known of the requests: the socket, the user of its token and the machine. The SSH clients of two attempts are
  different, so a client that was dialled tells for which machine.
\<close>

definition term_ok :: "term_deps \<Rightarrow> (socket \<Rightarrow> jwt_payload \<Rightarrow> vm_row \<Rightarrow> bool) \<Rightarrow> term_state \<Rightarrow> bool" where
  "term_ok G Q s \<longleftrightarrow>
     (\<forall>k a. map_get (attempts s) k = Some a \<longrightarrow> attempt_ok G Q a \<and> k < next_client s \<and> (\<forall>h \<in> handles a. h < next_client s)) \<and>
     (\<forall>k a j b h. map_get (attempts s) k = Some a \<longrightarrow> map_get (attempts s) j = Some b \<longrightarrow> h \<in> handles a \<longrightarrow> h \<in> handles b \<longrightarrow> k = j) \<and>
     (\<forall>i se. map_get (sessions s) i = Some se \<longrightarrow>
        (\<exists>k a r. map_get (attempts s) k = Some a \<and> so_id (at_client a) = i \<and> client_of r a = Some (ss_client se))) \<and>
     (\<forall>h opts. (h, opts) \<in> set (dialled s) \<longrightarrow>
        (\<exists>k a. map_get (attempts s) k = Some a \<and> h \<in> handles a \<and> target_ok a (co_target opts)))"

lemma term_okD:
  assumes "term_ok G Q s"
  shows "map_get (attempts s) k = Some a \<Longrightarrow> attempt_ok G Q a" "map_get (attempts s) k = Some a \<Longrightarrow> k < next_client s"
    "map_get (sessions s) i = Some se \<Longrightarrow> \<exists>k a r. map_get (attempts s) k = Some a \<and> so_id (at_client a) = i \<and> client_of r a = Some (ss_client se)"
    "(h, opts) \<in> set (dialled s) \<Longrightarrow> \<exists>k a. map_get (attempts s) k = Some a \<and> h \<in> handles a \<and> target_ok a (co_target opts)"
    "map_get (attempts s) k = Some a \<Longrightarrow> h \<in> handles a \<Longrightarrow> h < next_client s"
    "map_get (attempts s) k = Some a \<Longrightarrow> map_get (attempts s) j = Some b \<Longrightarrow> h \<in> handles a \<Longrightarrow> h \<in> handles b \<Longrightarrow> k = j"
  using assms unfolding term_ok_def by blast+

lemma term_ok_mono:
  assumes "term_ok G Q s" "\<And>cl u vm. Q cl u vm \<Longrightarrow> R cl u vm"
  shows "term_ok G R s"
  using assms unfolding term_ok_def attempt_ok_def by blast

lemma client_of_handles: "client_of r a = Some h \<Longrightarrow> h \<in> handles a"
  by (cases r) (auto simp: client_of_def handles_def)

lemma getBastionConfig_now [simp]: "getBastionConfig (G\<lparr>td_now := now\<rparr>) = getBastionConfig G"
proof -
  have same: "td_env (G\<lparr>td_now := now\<rparr>) = td_env G" "td_hostname (G\<lparr>td_now := now\<rparr>) = td_hostname G" "td_reencode (G\<lparr>td_now := now\<rparr>) = td_reencode G"
    by simp_all
  show ?thesis unfolding getBastionConfig_def same ..
qed

lemma handles_timer [simp]: "handles (a\<lparr>at_timer := x\<rparr>) = handles a"
  by (simp add: handles_def)

lemma term_ok_cong:
  "attempts t = attempts s \<Longrightarrow> sessions t = sessions s \<Longrightarrow> dialled t = dialled s \<Longrightarrow> next_client t = next_client s \<Longrightarrow> term_ok G Q t = term_ok G Q s"
  by (simp add: term_ok_def)

lemma term_ok_frames [simp]:
  "term_ok G Q (term_emit i e s) = term_ok G Q s" "term_ok G Q (with_tele f s) = term_ok G Q s" "term_ok G Q (end_client h s) = term_ok G Q s"
  "term_ok G Q (drop_socket i s) = term_ok G Q s" "term_ok G Q (s\<lparr>ended := x\<rparr>) = term_ok G Q s" "term_ok G Q (s\<lparr>crashed := y\<rparr>) = term_ok G Q s"
  "term_ok G Q (denied D i r v u m s) = term_ok G Q s" "term_ok G Q (internal_error D i v s) = term_ok G Q s" "term_ok G Q (attempt_failed D a d s) = term_ok G Q s"
  by (simp_all add: term_ok_def term_emit_def with_tele_def end_client_def drop_socket_def denied_def internal_error_def attempt_failed_def)

lemma term_ok_cleanup: "term_ok G Q s \<Longrightarrow> term_ok G Q (cleanupSession i s)"
  by (auto simp: term_ok_def cleanup_get)

lemma term_ok_next: "term_ok G Q s \<Longrightarrow> next_client s \<le> n \<Longrightarrow> term_ok G Q (s\<lparr>next_client := n\<rparr>)"
  unfolding term_ok_def by (fastforce intro: less_le_trans)

text \<open>A later state of the same attempt.\<close>

definition extends :: "attempt \<Rightarrow> attempt \<Rightarrow> bool" where
  "extends a b \<longleftrightarrow> at_client b = at_client a \<and> at_vm b = at_vm a \<and> at_user b = at_user a \<and> at_direct b = at_direct a \<and> at_bastionCfg b = at_bastionCfg a \<and>
     (at_bastion a = None \<or> at_bastion b = at_bastion a) \<and> (at_via a = None \<or> at_via b = at_via a) \<and> (at_retry a = None \<or> at_retry b = at_retry a)"

lemma extends_keeps:
  assumes "extends a b"
  shows "client_of r a = Some h \<Longrightarrow> client_of r b = Some h" "h \<in> handles a \<Longrightarrow> h \<in> handles b" "target_ok a t \<Longrightarrow> target_ok b t"
  using assms by (auto simp: extends_def client_of_def handles_def target_ok_def split: role.splits ssh_target.splits)

lemma term_ok_set:
  assumes "term_ok G Q s" "map_get (attempts s) k = Some a" "extends a b" "attempt_ok G Q b"
    and fresh: "\<And>h. h \<in> handles b \<Longrightarrow> h \<notin> handles a \<Longrightarrow> h < next_client s \<and> (\<forall>j c. map_get (attempts s) j = Some c \<longrightarrow> h \<notin> handles c)"
  shows "term_ok G Q (set_attempt k b s)"
proof -
  have get: "map_get (attempts (set_attempt k b s)) j = (if j = k then Some b else map_get (attempts s) j)" for j
    by (simp add: set_attempt_def map_get_set)
  have keep: "\<exists>j' b'. map_get (attempts (set_attempt k b s)) j' = Some b' \<and> extends a' b'" if "map_get (attempts s) j = Some a'" for j a'
    using that assms(2,3) get [of j] by (cases "j = k") (auto simp: extends_def)
  have same: "sessions (set_attempt k b s) = sessions s" "dialled (set_attempt k b s) = dialled s" "next_client (set_attempt k b s) = next_client s"
    by (simp_all add: set_attempt_def)
  have "\<exists>k' a' r. map_get (attempts (set_attempt k b s)) k' = Some a' \<and> so_id (at_client a') = i \<and> client_of r a' = Some (ss_client se)"
    if se: "map_get (sessions s) i = Some se" for i se
  proof -
    obtain j a' r where j: "map_get (attempts s) j = Some a'" "so_id (at_client a') = i" "client_of r a' = Some (ss_client se)"
      using term_okD(3) [OF assms(1) se] by blast
    obtain j' b' where b: "map_get (attempts (set_attempt k b s)) j' = Some b'" "extends a' b'" using keep [OF j(1)] by blast
    then have "so_id (at_client b') = i" "client_of r b' = Some (ss_client se)" using j extends_keeps(1) [OF b(2)] by (simp_all add: extends_def)
    then show ?thesis using b(1) by blast
  qed
  moreover have "\<exists>k' a'. map_get (attempts (set_attempt k b s)) k' = Some a' \<and> h \<in> handles a' \<and> target_ok a' (co_target opts)"
    if d: "(h, opts) \<in> set (dialled s)" for h opts
  proof -
    obtain j a' where j: "map_get (attempts s) j = Some a'" "h \<in> handles a'" "target_ok a' (co_target opts)"
      using term_okD(4) [OF assms(1) d] by blast
    obtain j' b' where b: "map_get (attempts (set_attempt k b s)) j' = Some b'" "extends a' b'" using keep [OF j(1)] by blast
    then show ?thesis using extends_keeps(2,3) [OF b(2)] j(2,3) by blast
  qed
  moreover have "j = j'" if "map_get (attempts (set_attempt k b s)) j = Some x" "map_get (attempts (set_attempt k b s)) j' = Some y" "h \<in> handles x" "h \<in> handles y"
    for j j' x y h
  proof -
    have own: "map_get (attempts s) i = Some z \<Longrightarrow> h \<in> handles z \<Longrightarrow> h \<in> handles b \<Longrightarrow> i = k" for i z
      using term_okD(6) [OF assms(1) assms(2), of i z h] fresh [of h] by blast
    show ?thesis using that own term_okD(6) [OF assms(1), of j x j' y h] by (auto simp: get split: if_splits)
  qed
  moreover have "attempt_ok G Q x \<and> j < next_client s \<and> (\<forall>h \<in> handles x. h < next_client s)" if "map_get (attempts (set_attempt k b s)) j = Some x" for j x
  proof (cases "j = k")
    case True
    then have "x = b" using that get [of j] by simp
    then show ?thesis using True assms(4) fresh term_okD(2,5) [OF assms(1,2)] by blast
  next
    case False
    then show ?thesis using that get [of j] term_okD(1,2,5) [OF assms(1)] by simp
  qed
  ultimately show ?thesis unfolding term_ok_def same by blast
qed

lemma term_ok_dial:
  assumes "term_ok G Q s" "map_get (attempts s) k = Some a" "h \<in> handles a" "target_ok a (co_target opts)"
  shows "term_ok G Q (dial D h opts s)"
  using assms unfolding term_ok_def dial_def by auto

lemma term_ok_attempt: "term_ok G Q s \<Longrightarrow> map_get (attempts s) k = Some a \<Longrightarrow> attempt_ok G Q a"
  by (simp add: term_ok_def)

lemma term_ok_clear: "term_ok G Q s \<Longrightarrow> map_get (attempts s) k = Some a \<Longrightarrow> term_ok G Q (clearConnectTimeout k a s)"
  unfolding clearConnectTimeout_def
  by (rule term_ok_set) (auto simp: extends_def dest: term_ok_attempt simp: attempt_ok_def)

lemma cleared_get: "map_get (attempts (clearConnectTimeout k a s)) k = Some (a\<lparr>at_timer := None\<rparr>)"
  by (simp add: clearConnectTimeout_def set_attempt_def map_get_set)

section \<open>Every handler keeps it\<close>

lemma term_ok_start:
  assumes "term_ok G Q s" "Q client user vm" "truthy (v_sshHost vm)"
  shows "term_ok G Q (start_attempt c (G\<lparr>td_now := now\<rparr>) client payload user vm s)"
proof -
  define a where "a = new_attempt (G\<lparr>td_now := now\<rparr>) client payload user vm (next_client s)"
  define s' where "s' = s\<lparr>attempts := map_set (next_client s) a (attempts s), next_client := next_client s + 1\<rparr>"
  have a: "attempt_ok G Q a" "handles a = {next_client s}" "at_vm a = vm" using assms(2,3) by (auto simp: attempt_ok_def handles_def a_def new_attempt_def)
  have get: "map_get (attempts s') j = (if j = next_client s then Some a else map_get (attempts s) j)" for j by (simp add: s'_def map_get_set)
  have old: "map_get (attempts s') j = Some b" if "map_get (attempts s) j = Some b" for j b
    using term_okD(2) [OF assms(1) that] that by (simp add: get)
  have low: "attempt_ok G Q b \<and> j < next_client s \<and> (\<forall>h \<in> handles b. h < next_client s)" if "map_get (attempts s) j = Some b" for j b
    using term_okD(1,2,5) [OF assms(1) that] by blast
  have "term_ok G Q s'"
    unfolding term_ok_def
  proof (rule conjI [OF _ conjI [OF _ conjI]]; intro allI impI)
    fix k b assume kb: "map_get (attempts s') k = Some b"
    show "attempt_ok G Q b \<and> k < next_client s' \<and> (\<forall>h \<in> handles b. h < next_client s')"
    proof (cases "k = next_client s")
      case False
      then have "map_get (attempts s) k = Some b" using kb get [of k] by simp
      from low [OF this] show ?thesis by (auto simp: s'_def)
    qed (use kb a get [of k] in \<open>auto simp: s'_def\<close>)
  next
    fix k b j b' h assume "map_get (attempts s') k = Some b" "map_get (attempts s') j = Some b'" "h \<in> handles b" "h \<in> handles b'"
    then show "k = j" using low [of k b] low [of j b'] term_okD(6) [OF assms(1), of k b j b' h] a(2) by (auto simp: get split: if_splits)
  next
    fix i se assume "map_get (sessions s') i = Some se"
    then have "map_get (sessions s) i = Some se" by (simp add: s'_def)
    from term_okD(3) [OF assms(1) this]
    show "\<exists>k a r. map_get (attempts s') k = Some a \<and> so_id (at_client a) = i \<and> client_of r a = Some (ss_client se)" using old by blast
  next
    fix h opts assume "(h, opts) \<in> set (dialled s')"
    then have "(h, opts) \<in> set (dialled s)" by (simp add: s'_def)
    from term_okD(4) [OF assms(1) this]
    show "\<exists>k a. map_get (attempts s') k = Some a \<and> h \<in> handles a \<and> target_ok a (co_target opts)" using old by blast
  qed
  moreover have "term_ok G Q (s'\<lparr>dialled := dialled s' @ [(next_client s, direct_options c a)]\<rparr>)"
  proof -
    have "target_ok a (co_target (direct_options c a))"
      using assms(3) a(3) by (auto simp: target_ok_def direct_options_def truthy_def split: option.splits)
    then show ?thesis using \<open>term_ok G Q s'\<close> get [of "next_client s"] a(2) unfolding term_ok_def by auto
  qed
  ultimately show ?thesis
    unfolding start_attempt_def Let_def a_def [symmetric] s'_def [symmetric] by simp
qed

text \<open>What a request that gets as far as dialling has shown: the token of its socket and the machine it names.\<close>

definition granted :: "term_deps \<Rightarrow> int \<Rightarrow> socket \<Rightarrow> connect_payload \<Rightarrow> term_state \<Rightarrow> jwt_payload \<Rightarrow> vm_row \<Rightarrow> bool" where
  "granted G now client payload s user vm \<longleftrightarrow>
     (\<exists>token. socket_token client = Inr (Some token) \<and> td_verify G now token = Some user) \<and>
     (skip_fingerprint (td_env G) \<or> fp user = Some (buildSocketFingerprint (td_sha256 G) client)) \<and>
     (\<exists>v. cp_vmId payload = Some v \<and> find_vm v s = Some vm) \<and>
     (jwt_role user = ''ADMIN'' \<or> v_userId vm = sub user) \<and> v_status vm = RUNNING"

lemma term_ok_connect:
  assumes "term_ok G Q s" "\<And>user vm. granted G now client payload s user vm \<Longrightarrow> Q client user vm"
  shows "term_ok G Q (handleConnectSsh c (G\<lparr>td_now := now\<rparr>) client payload s)"
proof -
  let ?D = "G\<lparr>td_now := now\<rparr>" and ?i = "so_id client"
  have cl: "term_ok G Q (cleanupSession ?i s)" using term_ok_cleanup [OF assms(1)] .
  have "term_ok G Q (connect_machine c ?D client payload user t)"
    if "term_ok G Q t" "virtualMachines t = virtualMachines s" "verify_socket (td_sha256 G) (td_verify G now) (td_env G) client token = Some user"
      "socket_token client = Inr (Some token)" "cp_vmId payload = Some v" for user t token v
  proof -
    have "granted G now client payload s user vm" if "find_vm v t = Some vm" "jwt_role user = ''ADMIN'' \<or> v_userId vm = sub user" "v_status vm = RUNNING" for vm
      using that \<open>verify_socket _ _ _ _ _ = _\<close> \<open>virtualMachines t = _\<close> \<open>socket_token client = _\<close> \<open>cp_vmId payload = _\<close>
      by (auto simp: granted_def verify_socket_def find_vm_def split: option.splits if_splits)
    then show ?thesis
      using that(1,5) term_ok_start [OF that(1) assms(2)] by (auto simp: connect_machine_def Let_def split: option.split)
  qed
  moreover have "virtualMachines (with_tele f (cleanupSession i s)) = virtualMachines s" for f i
    by (simp add: with_tele_def cleanupSession_def split: option.split)
  ultimately show ?thesis
    using assms(1) cl by (auto simp: handleConnectSsh_def Let_def truthy_def split: sum.splits option.splits)
qed

lemma new_handles:
  assumes "term_ok G Q s" "map_get (attempts s) j = Some c" "next_client s \<le> h"
  shows "h \<notin> handles c"
  using term_okD(5) [OF assms(1,2), of h] assms(3) by auto

lemma term_ok_bastion:
  assumes "term_ok G Q s" "map_get (attempts s) k = Some a" "tryBastionFallback D k a s = (ok, t)"
  shows "term_ok G Q t" "\<not> ok \<Longrightarrow> t = s"
proof -
  show "\<not> ok \<Longrightarrow> t = s" using assms(3) by (auto simp: tryBastionFallback_def Let_def split: option.splits if_splits)
  show "term_ok G Q t"
  proof (cases "at_triedBastion a \<or> at_bastionCfg a = None")
    case True
    then show ?thesis using assms(1,3) by (auto simp: tryBastionFallback_def Let_def split: option.splits)
  next
    case False
    then obtain b where b: "at_bastionCfg a = Some b" "\<not> at_triedBastion a" by auto
    let ?h = "next_client s"
    let ?a = "a\<lparr>at_triedBastion := True, at_bastion := Some ?h, at_via := Some (?h + 1), at_timer := Some BastionTimer\<rparr>"
    let ?s = "set_attempt k ?a ((end_client (at_direct a) s)\<lparr>next_client := ?h + 2\<rparr>)"
    have t: "t = dial D ?h (bastion_options b) ?s" using assms(3) b by (simp add: tryBastionFallback_def Let_def)
    have none: "at_bastion a = None" "at_via a = None" and ok: "attempt_ok G Q ?a"
      using term_okD(1) [OF assms(1,2)] b(2) by (simp_all add: attempt_ok_def)
    have "term_ok G Q ((end_client (at_direct a) s)\<lparr>next_client := ?h + 2\<rparr>)" using assms(1) by (intro term_ok_next) (simp_all add: end_client_def)
    moreover have "map_get (attempts ((end_client (at_direct a) s)\<lparr>next_client := ?h + 2\<rparr>)) k = Some a" using assms(2) by (simp add: end_client_def)
    ultimately have "term_ok G Q ?s" using none ok new_handles [OF assms(1)]
      by (intro term_ok_set [where a = a]) (auto simp: extends_def handles_def end_client_def)
    moreover have "map_get (attempts ?s) k = Some ?a" by (simp add: set_attempt_def map_get_set)
    moreover have "?h \<in> handles ?a" "target_ok ?a (co_target (bastion_options b))" using b(1) by (simp_all add: handles_def target_ok_def bastion_options_def)
    ultimately show ?thesis unfolding t by (rule term_ok_dial)
  qed
qed

lemma term_ok_retry:
  assumes "term_ok G Q s" "map_get (attempts s) k = Some a" "tryPasswordOnlyRetry c D k a s = (ok, t)"
  shows "term_ok G Q t" "\<not> ok \<Longrightarrow> t = s"
proof -
  show "\<not> ok \<Longrightarrow> t = s" using assms(3) by (auto simp: tryPasswordOnlyRetry_def Let_def split: if_splits)
  show "term_ok G Q t"
  proof (cases ok)
    case False
    then show ?thesis using assms(1,3) by (auto simp: tryPasswordOnlyRetry_def Let_def split: if_splits)
  next
    case True
    let ?h = "next_client s"
    let ?a = "a\<lparr>at_triedPassword := True, at_retry := Some ?h, at_timer := Some RetryTimer\<rparr>"
    let ?s = "set_attempt k ?a ((end_client (at_direct a) s)\<lparr>next_client := ?h + 1\<rparr>)"
    obtain pw where t: "t = dial D ?h \<lparr>co_target = HostPort (the (v_sshHost (at_vm a))) (of_int (ssh_port (at_vm a))), co_username = at_username a,
            co_password = Some pw, co_privateKey = None\<rparr> ?s" and fresh: "\<not> at_triedPassword a"
      using assms(3) True by (auto simp: tryPasswordOnlyRetry_def Let_def split: if_splits)
    have none: "at_retry a = None" and host: "truthy (v_sshHost (at_vm a))" and ok: "attempt_ok G Q ?a"
      using term_okD(1) [OF assms(1,2)] fresh by (simp_all add: attempt_ok_def)
    have "term_ok G Q ((end_client (at_direct a) s)\<lparr>next_client := ?h + 1\<rparr>)" using assms(1) by (intro term_ok_next) (simp_all add: end_client_def)
    moreover have "map_get (attempts ((end_client (at_direct a) s)\<lparr>next_client := ?h + 1\<rparr>)) k = Some a" using assms(2) by (simp add: end_client_def)
    ultimately have "term_ok G Q ?s" using none ok new_handles [OF assms(1)]
      by (intro term_ok_set [where a = a]) (auto simp: extends_def handles_def end_client_def)
    moreover have "map_get (attempts ?s) k = Some ?a" by (simp add: set_attempt_def map_get_set)
    moreover have "?h \<in> handles ?a" by (simp add: handles_def)
    ultimately show ?thesis unfolding t by (rule term_ok_dial) (use host in \<open>auto simp: target_ok_def truthy_def split: option.splits\<close>)
  qed
qed

lemma term_ok_fail: "term_ok G Q s \<Longrightarrow> term_ok G Q (fail_attempt D a d m s)"
  by (simp add: fail_attempt_def Let_def term_ok_cleanup)

lemma term_ok_direct_error: "term_ok G Q s \<Longrightarrow> term_ok G Q (on_direct_error c D k m s)"
proof (cases "map_get (attempts s) k")
  case (Some a0)
  assume ok: "term_ok G Q s"
  let ?a = "a0\<lparr>at_timer := None\<rparr>" and ?s = "clearConnectTimeout k a0 s"
  have s0: "term_ok G Q ?s" "map_get (attempts ?s) k = Some ?a" using term_ok_clear [OF ok Some] cleared_get by auto
  obtain r s1 where 1: "(if is_auth m then tryPasswordOnlyRetry c D k ?a ?s else (False, ?s)) = (r, s1)" by fastforce
  have s1: "term_ok G Q s1" "\<not> r \<Longrightarrow> s1 = ?s" using 1 s0 term_ok_retry [OF s0] by (auto split: if_splits)
  obtain q s2 where 2: "(if is_refused m \<or> is_timeout m then tryBastionFallback D k ?a s1 else (False, s1)) = (q, s2)" by fastforce
  have s2: "term_ok G Q s2" if "\<not> r" using 2 s1 s0 that term_ok_bastion(1) [OF s0] by (auto split: if_splits)
  show ?thesis
    unfolding on_direct_error_def Some option.case Let_def 1 prod.case 2 using s1(1) s2 term_ok_fail by simp
qed (simp add: on_direct_error_def)

lemma term_ok_timer: "term_ok G Q s \<Longrightarrow> term_ok G Q (on_timer D k s)"
proof (cases "map_get (attempts s) k")
  case (Some a0)
  assume ok: "term_ok G Q s"
  let ?a = "a0\<lparr>at_timer := None\<rparr>" and ?s = "clearConnectTimeout k a0 s"
  have s0: "term_ok G Q ?s" "map_get (attempts ?s) k = Some ?a" using term_ok_clear [OF ok Some] cleared_get by auto
  obtain q s1 where 1: "tryBastionFallback D k ?a ?s = (q, s1)" by fastforce
  show ?thesis
    using ok s0(1) term_ok_bastion(1) [OF s0 1] term_ok_fail unfolding on_timer_def Some option.case Let_def 1 prod.case
    by (simp split: option.split timer.split)
qed (simp add: on_timer_def)

lemma term_ok_forward: "term_ok G Q s \<Longrightarrow> term_ok G Q (on_forward c D k ok s)"
proof (cases "map_get (attempts s) k")
  case (Some a)
  assume inv: "term_ok G Q s"
  show ?thesis
  proof (cases "at_bastion a = None \<or> at_via a = None")
    case True
    then show ?thesis using inv Some by (auto simp: on_forward_def split: option.split)
  next
    case False
    then obtain b h where bh: "at_bastion a = Some b" "at_via a = Some h" by auto
    then have "h \<in> handles a" "target_ok a (Tunnel b)" by (simp_all add: handles_def target_ok_def)
    then show ?thesis using term_ok_dial [OF inv Some] term_ok_cleanup inv Some bh by (simp add: on_forward_def Let_def)
  qed
qed (simp add: on_forward_def)

lemma term_ok_shell: "term_ok G Q s \<Longrightarrow> term_ok G Q (on_shell D k r opened s)"
proof (cases "map_get (attempts s) k")
  case (Some a)
  assume inv: "term_ok G Q s"
  show ?thesis
  proof (cases "client_of r a")
    case None
    then show ?thesis using inv Some by (simp add: on_shell_def)
  next
    case h: (Some h)
    have "term_ok G Q (s\<lparr>sessions := map_set (so_id (at_client a)) \<lparr>ss_client = h, ss_bastion = b\<rparr> (sessions s)\<rparr>)" for b
    proof -
      define t where "t = s\<lparr>sessions := map_set (so_id (at_client a)) \<lparr>ss_client = h, ss_bastion = b\<rparr> (sessions s)\<rparr>"
      have same: "attempts t = attempts s" "dialled t = dialled s" "next_client t = next_client s" by (simp_all add: t_def)
      have "\<exists>k a r. map_get (attempts s) k = Some a \<and> so_id (at_client a) = i \<and> client_of r a = Some (ss_client se)"
        if se: "map_get (sessions t) i = Some se" for i se
      proof (cases "i = so_id (at_client a)")
        case True
        then show ?thesis using se Some h by (intro exI [of _ k] exI [of _ a] exI [of _ r]) (auto simp: t_def map_get_set)
      next
        case False
        then show ?thesis using se term_okD(3) [OF inv] by (simp add: t_def map_get_set)
      qed
      then have "term_ok G Q t" using inv unfolding term_ok_def same by blast
      then show ?thesis by (simp add: t_def)
    qed
    then show ?thesis using inv Some h by (auto simp: on_shell_def Let_def)
  qed
qed (simp add: on_shell_def)

lemma term_ok_events:
  assumes "term_ok G Q s"
  shows "term_ok G Q (on_ready k s)" "term_ok G Q (on_stream_data k d s)" "term_ok G Q (on_stream_close D k s)" "term_ok G Q (on_close D k s)"
    "term_ok G Q (on_via_error D k m s)" "term_ok G Q (on_retry_error D k m s)" "term_ok G Q (on_bastion_error k m s)"
  using assms term_ok_clear [OF assms]
  by (auto simp: on_ready_def on_stream_data_def on_stream_close_def on_close_def on_via_error_def on_retry_error_def on_bastion_error_def Let_def
      intro!: term_ok_cleanup term_ok_fail split: option.split)

lemma term_ok_input: "term_ok G Q s \<Longrightarrow> term_ok G Q (handleInput c D i msg s)"
proof (cases "map_get (sessions s) i = None \<or> msg = None \<or> (\<exists>d. msg = Some d \<and> (utf8_length d = 0 \<or> utf8_length d > maxInputBytesPerEvent))")
  case True
  assume "term_ok G Q s"
  then show ?thesis using input_early [OF True, of c D] by (auto simp: term_ok_def)
next
  case False
  then obtain se d where se: "map_get (sessions s) i = Some se" "msg = Some d" "utf8_length d \<noteq> 0" "\<not> utf8_length d > maxInputBytesPerEvent" by auto
  assume ok: "term_ok G Q s"
  obtain ok1 s1 where 1: "allowInputRate (td_now D) i (utf8_length d) s = (ok1, s1)" by fastforce
  obtain ok2 s2 where 2: "allowInputEventRate (td_now D) i s1 = (ok2, s2)" by fastforce
  obtain ok3 s3 where 3: "inspectSubmittedCommands c i d s2 = (ok3, s3)" by fastforce
  have "term_ok G Q s1" using ok by (subst allowInputRate_step(2) [OF 1]) (simp add: term_ok_def)
  moreover from this have "term_ok G Q s2" by (subst allowInputEventRate_step(2) [OF 2]) (simp add: term_ok_def)
  moreover from this have "term_ok G Q s3" using inspect_frame [OF 3] by (auto simp: term_ok_def)
  ultimately have "term_ok G Q s1" "term_ok G Q (s2\<lparr>dropped := x\<rparr>)" "term_ok G Q s3" "term_ok G Q (s3\<lparr>written := y\<rparr>)" for x y by (simp_all add: term_ok_def)
  then show ?thesis using se 1 2 3 by (simp add: handleInput_def Let_def term_ok_def term_emit_def with_tele_def)
qed

section \<open>Histories\<close>

text \<open>
  The clock moves on between steps, everything else the gateway is given stays. Disconnections, the
  events of any SSH client and changes of the table of machines come at any time.
\<close>

inductive term_step :: "term_config \<Rightarrow> term_deps \<Rightarrow> term_state \<Rightarrow> term_state \<Rightarrow> bool" for c G where
  requests: "term_step c G s (handleConnectSsh c (G\<lparr>td_now := now\<rparr>) client payload s)"
| leaves: "term_step c G s (term_handleDisconnect (G\<lparr>td_now := now\<rparr>) i s)"
| types: "term_step c G s (handleInput c (G\<lparr>td_now := now\<rparr>) i msg s)"
| resizes: "term_step c G s (handleResize i dims s)"
| ready: "term_step c G s (on_ready k s)"
| shell: "term_step c G s (on_shell (G\<lparr>td_now := now\<rparr>) k r opened s)"
| data: "term_step c G s (on_stream_data k d s)"
| stream_closed: "term_step c G s (on_stream_close (G\<lparr>td_now := now\<rparr>) k s)"
| closed: "term_step c G s (on_close (G\<lparr>td_now := now\<rparr>) k s)"
| direct_error: "term_step c G s (on_direct_error c (G\<lparr>td_now := now\<rparr>) k m s)"
| via_error: "term_step c G s (on_via_error (G\<lparr>td_now := now\<rparr>) k m s)"
| retry_error: "term_step c G s (on_retry_error (G\<lparr>td_now := now\<rparr>) k m s)"
| bastion_error: "term_step c G s (on_bastion_error k m s)"
| forward: "term_step c G s (on_forward c (G\<lparr>td_now := now\<rparr>) k ok s)"
| timer: "term_step c G s (on_timer (G\<lparr>td_now := now\<rparr>) k s)"
| machines: "term_step c G s (s\<lparr>virtualMachines := vms\<rparr>)"

definition term_start :: "telemetry \<Rightarrow> term_state" where
  "term_start te = db.extend empty_db \<lparr>sessions = [], inputWindowStats = [], inputEventWindowStats = [], commandBuffers = [],
     dangerousInputViolations = [], attempts = [], next_client = 0, tele = te, sent = [], dropped = [], dialled = [], ended = [],
     written = [], resized = [], crashed = False\<rparr>"

text \<open>The request behind an attempt: it came in a reachable state, was granted there, and its answer led to this state.\<close>

definition asked :: "term_config \<Rightarrow> term_deps \<Rightarrow> telemetry \<Rightarrow> term_state \<Rightarrow> socket \<Rightarrow> jwt_payload \<Rightarrow> vm_row \<Rightarrow> bool" where
  "asked c G te s client user vm \<longleftrightarrow>
     (\<exists>s0 now payload. (term_step c G)\<^sup>*\<^sup>* (term_start te) s0 \<and> granted G now client payload s0 user vm \<and>
        (term_step c G)\<^sup>*\<^sup>* (handleConnectSsh c (G\<lparr>td_now := now\<rparr>) client payload s0) s)"

lemma asked_later: "term_step c G s t \<Longrightarrow> asked c G te s client user vm \<Longrightarrow> asked c G te t client user vm"
  unfolding asked_def by (blast intro: rtranclp.rtrancl_into_rtrancl)

lemma asked_now:
  "(term_step c G)\<^sup>*\<^sup>* (term_start te) s \<Longrightarrow> granted G now client payload s user vm \<Longrightarrow>
    asked c G te (handleConnectSsh c (G\<lparr>td_now := now\<rparr>) client payload s) client user vm"
  unfolding asked_def by blast

lemma term_step_ok:
  assumes "term_step c G s t" "term_ok G Q s"
    and "\<And>now client payload user vm. t = handleConnectSsh c (G\<lparr>td_now := now\<rparr>) client payload s \<Longrightarrow>
      granted G now client payload s user vm \<Longrightarrow> Q client user vm"
  shows "term_ok G Q t"
  using assms
proof (induction rule: term_step.induct)
  case (requests s now client payload)
  then show ?case using term_ok_connect [OF requests(1)] by blast
next
  case (leaves s now i)
  then show ?case by (simp add: term_handleDisconnect_def term_ok_cleanup)
next
  case (resizes s i dims)
  then show ?case by (auto simp: handleResize_def term_ok_def split: option.split)
next
  case (machines s vms)
  then show ?case by (simp add: term_ok_def)
qed (simp_all add: term_ok_connect term_ok_input term_ok_shell term_ok_direct_error term_ok_timer term_ok_forward term_ok_events)

lemma term_start_ok: "term_ok G Q (term_start te)"
  by (simp add: term_ok_def term_start_def db.extend_def empty_db_def)

lemma reachable_ok:
  assumes "(term_step c G)\<^sup>*\<^sup>* (term_start te) s"
  shows "term_ok G (asked c G te s) s"
  using assms
proof (induction rule: rtranclp_induct)
  case (step s t)
  have "term_ok G (asked c G te t) s" using step.IH asked_later [OF step.hyps(2)] by (rule term_ok_mono)
  then show ?case by (rule term_step_ok [OF step.hyps(2)]) (use asked_now [OF step.hyps(1)] in blast)
qed (rule term_start_ok)

text \<open>
  C18: nobody gets a shell on a machine of somebody else. In every state that the gateway reaches,
  whatever its clients, the SSH servers and the timers do, an open session belongs to an attempt of its own socket; the attempt
  comes from a request of this socket in an earlier state, in which its token verified, with the fingerprint of the socket unless that check is
  switched off, and named the owner of the machine of the request, or an administrator, while that machine was running; and whatever the session's SSH
  client dialled is the host of this machine, the configured bastion, or the bastion's tunnel. Every other connection that was
  ever dialled has such a request as well.
\<close>

theorem terminal_sessions_authorised:
  assumes "(term_step c G)\<^sup>*\<^sup>* (term_start te) s"
  shows "(\<forall>i se. map_get (sessions s) i = Some se \<longrightarrow>
      (\<exists>k a r. map_get (attempts s) k = Some a \<and> so_id (at_client a) = i \<and> client_of r a = Some (ss_client se) \<and>
         asked c G te s (at_client a) (at_user a) (at_vm a) \<and> at_bastionCfg a = getBastionConfig G \<and>
         (\<forall>opts. (ss_client se, opts) \<in> set (dialled s) \<longrightarrow> target_ok a (co_target opts)))) \<and>
    (\<forall>h opts. (h, opts) \<in> set (dialled s) \<longrightarrow>
      (\<exists>k a. map_get (attempts s) k = Some a \<and> h \<in> handles a \<and> target_ok a (co_target opts) \<and>
         asked c G te s (at_client a) (at_user a) (at_vm a) \<and> at_bastionCfg a = getBastionConfig G))"
proof (intro conjI allI impI)
  note inv = reachable_ok [OF assms]
  have ok: "asked c G te s (at_client a) (at_user a) (at_vm a) \<and> at_bastionCfg a = getBastionConfig G"
    if "map_get (attempts s) k = Some a" for k a
    using term_okD(1) [OF inv that] by (simp add: attempt_ok_def)
  fix i se assume se: "map_get (sessions s) i = Some se"
  obtain k a r where a: "map_get (attempts s) k = Some a" "so_id (at_client a) = i" "client_of r a = Some (ss_client se)"
    using term_okD(3) [OF inv se] by blast
  have "target_ok a (co_target opts)" if "(ss_client se, opts) \<in> set (dialled s)" for opts
    using term_okD(4) [OF inv that] term_okD(6) [OF inv a(1) _ client_of_handles [OF a(3)]] a(1) by fastforce
  then show "\<exists>k a r. map_get (attempts s) k = Some a \<and> so_id (at_client a) = i \<and> client_of r a = Some (ss_client se) \<and>
         asked c G te s (at_client a) (at_user a) (at_vm a) \<and> at_bastionCfg a = getBastionConfig G \<and>
         (\<forall>opts. (ss_client se, opts) \<in> set (dialled s) \<longrightarrow> target_ok a (co_target opts))"
    using a ok [OF a(1)] by blast
next
  note inv = reachable_ok [OF assms]
  fix h opts assume d: "(h, opts) \<in> set (dialled s)"
  show "\<exists>k a. map_get (attempts s) k = Some a \<and> h \<in> handles a \<and> target_ok a (co_target opts) \<and>
         asked c G te s (at_client a) (at_user a) (at_vm a) \<and> at_bastionCfg a = getBastionConfig G"
    using term_okD(4) [OF inv d] term_okD(1) [OF inv] unfolding attempt_ok_def by blast
qed

section \<open>Two weaknesses\<close>

text \<open>
  Leaving does not stop an attempt that is under way. When the shell opens after the socket has
  been disconnected, the session is entered for the socket that is gone; the clean-up of the
  disconnection has neither seen nor ended its SSH client.
\<close>

theorem session_after_disconnect:
  assumes "map_get (attempts s) k = Some a" "client_of r a = Some h" "map_get (sessions s) (so_id (at_client a)) = None"
  shows "map_get (sessions (on_shell D k r True (term_handleDisconnect D' (so_id (at_client a)) s))) (so_id (at_client a)) =
      Some \<lparr>ss_client = h, ss_bastion = (if r = Via then at_bastion a else None)\<rparr> \<and>
    ended (on_shell D k r True (term_handleDisconnect D' (so_id (at_client a)) s)) = ended s"
proof -
  let ?i = "so_id (at_client a)" and ?t = "term_handleDisconnect D' (so_id (at_client a)) s"
  have get: "map_get (attempts ?t) k = Some a" using assms(1) by (simp add: term_handleDisconnect_def with_tele_def)
  have "ended ?t = ended s" using assms(3) by (simp add: term_handleDisconnect_def cleanupSession_def with_tele_def)
  then show ?thesis using get assms(2) by (simp add: on_shell_def Let_def term_emit_def with_tele_def map_get_set)
qed

text \<open>
  A request without credentials is answered with an error, but its timer keeps running: when it
  fires, the gateway dials the bastion, and when that grants a tunnel, the machine.
\<close>

theorem no_credentials_still_dials:
  assumes "\<not> truthy (cp_privateKey payload)" "\<not> truthy (cp_password payload)" "getBastionConfig D = Some b" "\<And>opts. td_connect_ok D opts"
  shows "dialled (start_attempt c D client payload user vm s) = dialled s \<and>
    sent (start_attempt c D client payload user vm s) = sent s @ [(so_id client, TermError ''No SSH credentials provided. Supply a private key or password.'')] \<and>
    map fst (dialled (on_forward c D (next_client s) True (on_timer D (next_client s) (start_attempt c D client payload user vm s)))) =
      map fst (dialled s) @ [next_client s + 1, next_client s + 2]"
proof -
  define h where "h = next_client s"
  define a where "a = new_attempt D client payload user vm h"
  have a: "at_key a = []" "at_password a = cp_password payload" "at_bastionCfg a = Some b" "\<not> at_triedBastion a" "at_timer a = Some DirectTimer"
    using assms(1,3) by (simp_all add: a_def new_attempt_def)
  let ?s = "start_attempt c D client payload user vm s"
  have st: "?s = denied D (so_id client) ''no_credentials'' (cp_vmId payload) (Some (sub user)) ''No SSH credentials provided. Supply a private key or password.''
      (s\<lparr>attempts := map_set h a (attempts s), next_client := h + 1\<rparr>)"
    using a assms(2) unfolding start_attempt_def Let_def h_def [symmetric] a_def [symmetric] by simp
  have g: "map_get (attempts ?s) h = Some a" "next_client ?s = h + 1" "dialled ?s = dialled s"
    by (simp_all add: st denied_def term_emit_def with_tele_def map_get_set)
  let ?a = "a\<lparr>at_triedBastion := True, at_bastion := Some (Suc h), at_via := Some (Suc (Suc h)), at_timer := Some BastionTimer\<rparr>"
  have "on_timer D h ?s = (set_attempt h ?a ((end_client (at_direct a) (clearConnectTimeout h a ?s))\<lparr>next_client := Suc (Suc (Suc h))\<rparr>))\<lparr>dialled := dialled s @ [(h + 1, bastion_options b)]\<rparr>"
    using g a assms(4) by (simp add: on_timer_def tryBastionFallback_def Let_def dial_def clearConnectTimeout_def set_attempt_def end_client_def)
  then have t: "map_get (attempts (on_timer D h ?s)) h = Some ?a" "dialled (on_timer D h ?s) = dialled s @ [(h + 1, bastion_options b)]"
    by (simp_all add: set_attempt_def map_get_set)
  then have "map fst (dialled (on_forward c D h True (on_timer D h ?s))) = map fst (dialled s) @ [h + 1, h + 2]"
    using assms(4) by (simp add: on_forward_def dial_def)
  then show ?thesis using g(3) by (simp add: h_def st denied_def term_emit_def with_tele_def)
qed

section \<open>A concrete shell\<close>

definition sample_machine :: vm_row where
  "sample_machine = \<lparr>v_id = ''v1'', v_name = ''box'', v_oneVmId = None, v_status = RUNNING, v_cpu = 1, v_ramMb = 512, v_diskGb = 10,
     v_ipAddress = None, v_osTemplate = ''ubuntu'', v_userId = ''alice'', v_planId = None, v_sshHost = Some ''10.1.0.5'', v_sshPort = None,
     v_sshUsername = None, v_sshPrivateKeyEncrypted = None, v_stoppedAt = None, v_createdAt = 0\<rparr>"

definition sample_telemetry :: telemetry where
  "sample_telemetry = \<lparr>te_startedAt = 0, te_clients = [], te_audits = [], te_totalConnections = 0, te_failedConnections = 0,
     te_rejectedInputs = 0, te_totalInputBytes = 0, te_totalOutputBytes = 0\<rparr>"

definition sample_connect :: "string option \<Rightarrow> connect_payload" where
  "sample_connect pw = \<lparr>cp_vmId = Some ''v1'', cp_password = pw, cp_username = None, cp_privateKey = None\<rparr>"

definition sample_dialling :: term_state where
  "sample_dialling = handleConnectSsh sample_tc (sample_td 5) (socket_of sample_request ''k1'') (sample_connect (Some ''pw''))
     ((term_start sample_telemetry)\<lparr>virtualMachines := [sample_machine]\<rparr>)"

definition sample_shell :: term_state where
  "sample_shell = on_shell (sample_td 9) 0 Direct True sample_dialling"

lemma sample_td_now: "sample_td now = (sample_td 0)\<lparr>td_now := now\<rparr>"
  by (simp add: sample_td_def)

lemma sample_dialling_reachable: "(term_step sample_tc (sample_td 0))\<^sup>*\<^sup>* (term_start sample_telemetry) sample_dialling"
proof -
  have "(term_step sample_tc (sample_td 0))\<^sup>*\<^sup>* (term_start sample_telemetry) ((term_start sample_telemetry)\<lparr>virtualMachines := [sample_machine]\<rparr>)"
    by (blast intro: term_step.machines)
  moreover have "term_step sample_tc (sample_td 0) ((term_start sample_telemetry)\<lparr>virtualMachines := [sample_machine]\<rparr>) sample_dialling"
    unfolding sample_dialling_def sample_td_now [of 5] by (rule term_step.requests)
  ultimately show ?thesis by (rule rtranclp.rtrancl_into_rtrancl)
qed

lemma sample_shell_open: "map_get (sessions sample_shell) ''k1'' = Some \<lparr>ss_client = 0, ss_bastion = None\<rparr>"
  by code_simp

theorem terminal_sessions_authorised_witness:
  "\<exists>a. map_get (attempts sample_shell) 0 = Some a \<and> map_get (sessions sample_shell) ''k1'' = Some \<lparr>ss_client = 0, ss_bastion = None\<rparr> \<and>
     asked sample_tc (sample_td 0) sample_telemetry sample_shell (at_client a) (at_user a) (at_vm a)"
proof -
  have "term_step sample_tc (sample_td 0) sample_dialling sample_shell"
    unfolding sample_shell_def sample_td_now [of 9] by (rule term_step.shell)
  then have "(term_step sample_tc (sample_td 0))\<^sup>*\<^sup>* (term_start sample_telemetry) sample_shell"
    using sample_dialling_reachable by (rule rtranclp.rtrancl_into_rtrancl [rotated])
  from conjunct1 [OF terminal_sessions_authorised [OF this]] sample_shell_open
  obtain k a where a: "map_get (attempts sample_shell) k = Some a" "asked sample_tc (sample_td 0) sample_telemetry sample_shell (at_client a) (at_user a) (at_vm a)"
    by blast
  have "map fst (attempts sample_shell) = [0]" by code_simp
  moreover have "k \<in> set (map fst (attempts sample_shell))" using a(1) by (auto simp: map_get_def dest: find_Some_set)
  ultimately have "k = 0" by simp
  then show ?thesis using a sample_shell_open by blast
qed

theorem session_after_disconnect_witness:
  "map_get (sessions (on_shell (sample_td 9) 0 Direct True (term_handleDisconnect (sample_td 8) ''k1'' sample_dialling))) ''k1'' =
     Some \<lparr>ss_client = 0, ss_bastion = None\<rparr>"
proof -
  obtain a where a: "map_get (attempts sample_dialling) 0 = Some a" "so_id (at_client a) = ''k1''" "client_of Direct a = Some 0"
  proof
    show "map_get (attempts sample_dialling) 0 = Some (the (map_get (attempts sample_dialling) 0))" by code_simp
    show "so_id (at_client (the (map_get (attempts sample_dialling) 0))) = ''k1''" by code_simp
    show "client_of Direct (the (map_get (attempts sample_dialling) 0)) = Some 0" by code_simp
  qed
  have "map_get (sessions sample_dialling) ''k1'' = None" by code_simp
  then show ?thesis using session_after_disconnect [OF a(1,3), of "sample_td 9" "sample_td 8"] a(2) by simp
qed

definition sample_bastion_env :: process_env where
  "sample_bastion_env = [''TERMINAL_SSH_BASTION_HOST'' \<mapsto> ''b'', ''TERMINAL_SSH_BASTION_USERNAME'' \<mapsto> ''u'', ''TERMINAL_SSH_BASTION_PASSWORD'' \<mapsto> ''p'']"

theorem no_credentials_still_dials_witness:
  "\<exists>D. map fst (dialled (on_forward sample_tc D 0 True (on_timer D 0 (start_attempt sample_tc D (socket_of sample_request ''k1'') (sample_connect None)
     (sample_payload None) sample_machine (term_start sample_telemetry))))) = [1, 2]"
proof -
  let ?D = "(sample_td 0)\<lparr>td_env := sample_bastion_env\<rparr>"
  have "getBastionConfig ?D \<noteq> None" by code_simp
  then obtain b where b: "getBastionConfig ?D = Some b" by blast
  have p: "\<not> truthy (cp_privateKey (sample_connect None))" "\<not> truthy (cp_password (sample_connect None))" by (simp_all add: sample_connect_def truthy_def)
  have d: "dialled (term_start sample_telemetry) = []" "next_client (term_start sample_telemetry) = 0"
    by (simp_all add: term_start_def db.extend_def empty_db_def)
  have ok: "\<And>opts. td_connect_ok ?D opts" by (simp add: sample_td_def)
  from no_credentials_still_dials [OF p b ok, of sample_tc "socket_of sample_request ''k1''" "sample_payload None" sample_machine "term_start sample_telemetry"]
  show ?thesis unfolding d by (intro exI [of _ ?D]) auto
qed

end
