(* ===== verification/Ssh_Keys.thy ===== *)
theory Ssh_Keys
  imports Account_Rows Base64 Js_Number
begin

text \<open>
  \<open>services/user/src/ssh-key/ssh-key.service.ts\<close>: a user's public keys. Bytes are characters, as
  in \<open>Base64\<close>. SHA-256 and the generation of a key pair are parameters.

  The public key that the service builds from a generated pair is read back with the wire format
  of RFC 4253, stated here independently of the encoder.
\<close>

section \<open>The wire format of a public key\<close>

definition base64UrlToBuffer :: "string \<Rightarrow> string" where
  "base64UrlToBuffer value =
     (let normalized = map (\<lambda>c. if c = CHR ''-'' then CHR ''+'' else if c = CHR ''_'' then CHR ''/'' else c) value;
          pad = length normalized mod 4;
          padded = normalized @ (if pad \<noteq> 0 then replicate (4 - pad) (CHR ''='') else [])
      in b64_decode padded)"

text \<open>\<open>writeUInt32BE\<close> throws on a number that has no 32 bits.\<close>

definition u32be :: "nat \<Rightarrow> string" where
  "u32be n = [char_of (n div 2 ^ 24 mod 256), char_of (n div 2 ^ 16 mod 256), char_of (n div 2 ^ 8 mod 256),
     char_of (n mod 256)]"

definition encodeSshField :: "string \<Rightarrow> exn + string" where
  "encodeSshField data =
     (if length data \<ge> 2 ^ 32 then Inl (PlainError ''ERR_OUT_OF_RANGE'')
      else Inr (u32be (length data) @ data))"

fun drop_zeros :: "string \<Rightarrow> string" where
  "drop_zeros (a # b # r) = (if byte a = 0 then drop_zeros (b # r) else a # b # r)"
| "drop_zeros v = v"

definition mpint_body :: "string \<Rightarrow> string" where
  "mpint_body data =
     (let stripped = drop_zeros data;
          filled = (if stripped = [] then [char_of (0 :: nat)] else stripped)
      in if bit (byte (hd filled)) 7 then char_of (0 :: nat) # filled else filled)"

definition encodeMpint :: "string \<Rightarrow> exn + string" where
  "encodeMpint data = encodeSshField (mpint_body data)"

definition buildSshRsaPublicKeyFromJwk :: "string \<Rightarrow> string \<Rightarrow> exn + string" where
  "buildSshRsaPublicKeyFromJwk n e =
     (let exponent = base64UrlToBuffer e; modulus = base64UrlToBuffer n in
      case encodeSshField ''ssh-rsa'' of Inl x \<Rightarrow> Inl x | Inr kind \<Rightarrow>
      case encodeMpint exponent of Inl x \<Rightarrow> Inl x | Inr ex \<Rightarrow>
      case encodeMpint modulus of Inl x \<Rightarrow> Inl x | Inr md \<Rightarrow>
        Inr (''ssh-rsa '' @ b64_encode (kind @ ex @ md)))"

section \<open>Names and fingerprints\<close>

definition key_name_char :: "char \<Rightarrow> bool" where
  "key_name_char c \<longleftrightarrow> is_alpha c \<or> is_digit c \<or> c = CHR ''-'' \<or> c = CHR ''_'' \<or> c = CHR '' ''"

text \<open>After the first replacement the space is the only white space left.\<close>

definition sanitizeKeyName :: "string \<Rightarrow> string" where
  "sanitizeKeyName input =
     (let base = take 48 (map (\<lambda>c. if c = CHR '' '' then CHR ''-'' else c)
            (collapse_ws (filter key_name_char (trim (or_str input ''generated-key'')))))
      in if base \<noteq> [] then base else ''generated-key'')"

text \<open>\<open>s.split(/\s+/)\<close>.\<close>

definition split_ws :: "string \<Rightarrow> string list" where
  "split_ws s = split_on CHR '' '' (collapse_ws s)"

text \<open>
  Decoding and hashing never throw, so the branch that turns another error into
  \<open>Invalid SSH public key\<close> is not reached.
\<close>

definition generateFingerprint :: "(string \<Rightarrow> string) \<Rightarrow> string \<Rightarrow> exn + string" where
  "generateFingerprint sha256 publicKey =
     (case split_ws (trim publicKey) of
        _ # data # _ \<Rightarrow>
          let hash = b64_encode (sha256 (b64_decode data)) in
          Inr (''SHA256:'' @ rev (dropWhile (\<lambda>c. c = CHR ''='') (rev hash)))
      | _ \<Rightarrow> Inl (BadRequest ''Invalid SSH public key format''))"

section \<open>Operations\<close>

text \<open>
  What a call takes from outside: the clock, the identifier of a new row, SHA-256, and the pair
  that the crypto library generates, with the public key as a JSON web key.
\<close>

record ssh_deps =
  at_time :: time
  key_id :: id
  sha256_raw :: "string \<Rightarrow> string"
  jwk_n :: "string option"
  jwk_e :: "string option"
  pem_private :: string

record create_key_dto =
  dto_name :: string
  dto_publicKey :: string

record generated_key =
  gk_key :: ssh_row
  gk_privateKey :: string
  gk_filename :: string
  gk_notice :: string

definition findAllByUser :: "id \<Rightarrow> ('a db_scheme, ssh_row list) io" where
  "findAllByUser userId =
     asks (\<lambda>s. sort_key (\<lambda>k. - k_createdAt k) (filter (\<lambda>k. k_userId k = userId) (sshKeys s)))"

definition key_clash :: "ssh_row \<Rightarrow> 'a db_scheme \<Rightarrow> bool" where
  "key_clash r s \<longleftrightarrow> (\<exists>k \<in> set (sshKeys s). k_id k = k_id r \<or>
     k_userId k = k_userId r \<and> k_fingerprint k = k_fingerprint r)"

definition insert_key :: "ssh_row \<Rightarrow> ('a db_scheme, ssh_row) io" where
  "insert_key r =
     bnd (asks (key_clash r)) (\<lambda>clash.
     bnd (throw_if clash (PrismaError ''P2002'')) (\<lambda>_.
     bnd (asks (\<lambda>s. find_user (k_userId r) s = None)) (\<lambda>orphan.
     bnd (throw_if orphan (PrismaError ''P2003'')) (\<lambda>_.
     bnd (modify (\<lambda>s. s\<lparr>sshKeys := sshKeys s @ [r]\<rparr>)) (\<lambda>_. ret r)))))"

definition store_key :: "ssh_row \<Rightarrow> ('a db_scheme, ssh_row) io" where
  "store_key r = try_catch (insert_key r) (\<lambda>error.
     if error = PrismaError ''P2002'' then throw (Conflict ''This SSH key is already registered to your account'')
     else throw error)"

definition create_key :: "ssh_deps \<Rightarrow> id \<Rightarrow> create_key_dto \<Rightarrow> ('a db_scheme, ssh_row) io" where
  "create_key D userId dto =
     bnd (lift (generateFingerprint (sha256_raw D) (dto_publicKey dto))) (\<lambda>fingerprint.
     store_key \<lparr>k_id = key_id D, k_name = dto_name dto, k_publicKey = dto_publicKey dto,
       k_fingerprint = fingerprint, k_userId = userId, k_createdAt = at_time D\<rparr>)"

text \<open>\<open>toISOString().slice(0, 10)\<close> of a time between the years 0 and 9999.\<close>

definition iso_date :: "time \<Rightarrow> string" where
  "iso_date ms =
     (let z = ms div 86400000 + 719468; era = z div 146097; doe = z mod 146097;
          yoe = (doe - doe div 1460 + doe div 36524 - doe div 146096) div 365;
          doy = doe - (365 * yoe + yoe div 4 - yoe div 100); mp = (5 * doy + 2) div 153;
          d = doy - (153 * mp + 2) div 5 + 1; m = (if mp < 10 then mp + 3 else mp - 9);
          y = yoe + era * 400 + (if m \<le> 2 then 1 else 0)
      in pad_left 4 (show_int y) @ ''-'' @ pad_left 2 (show_int m) @ ''-'' @ pad_left 2 (show_int d))"

definition generateAndCreate :: "ssh_deps \<Rightarrow> id \<Rightarrow> string option \<Rightarrow> ('a db_scheme, generated_key) io" where
  "generateAndCreate D userId desiredName =
     (let safeName = sanitizeKeyName (or_opt desiredName ''My Generated Key'') in
      bnd (throw_if (\<not> truthy (jwk_n D) \<or> \<not> truthy (jwk_e D)) (BadRequest ''Unable to generate SSH key pair'')) (\<lambda>_.
      bnd (lift (buildSshRsaPublicKeyFromJwk (the (jwk_n D)) (the (jwk_e D)))) (\<lambda>sshPublicKey.
      bnd (lift (generateFingerprint (sha256_raw D) sshPublicKey)) (\<lambda>fingerprint.
      bnd (store_key \<lparr>k_id = key_id D, k_name = safeName, k_publicKey = sshPublicKey,
        k_fingerprint = fingerprint, k_userId = userId, k_createdAt = at_time D\<rparr>) (\<lambda>created.
      ret \<lparr>gk_key = created, gk_privateKey = pem_private D,
        gk_filename = ''cloudvm-'' @ safeName @ ''-'' @ iso_date (at_time D) @ ''.pem'',
        gk_notice = ''This private key is shown once. Save it securely now.''\<rparr>)))))"

definition find_key :: "id \<Rightarrow> 'a db_scheme \<Rightarrow> ssh_row option" where
  "find_key i s = List.find (\<lambda>k. k_id k = i) (sshKeys s)"

definition delete_key :: "id \<Rightarrow> id \<Rightarrow> ('a db_scheme, string) io" where
  "delete_key i userId =
     bnd (asks (find_key i)) (\<lambda>found.
     bnd (require (NotFound ''SSH key not found'') found) (\<lambda>sshKey.
     bnd (throw_if (k_userId sshKey \<noteq> userId) (Forbidden ''You do not own this SSH key'')) (\<lambda>_.
     bnd (modify (\<lambda>s. s\<lparr>sshKeys := delete_many (\<lambda>k. k_id k = i) (sshKeys s)\<rparr>)) (\<lambda>_.
     ret ''SSH key deleted successfully''))))"

section \<open>Reading the wire format\<close>

text \<open>
  RFC 4253, section 5 and 6.6: a field is its length in four bytes and its content, a number is
  in two's complement with the most significant byte first.
\<close>

definition be_value :: "string \<Rightarrow> nat" where
  "be_value s = foldl (\<lambda>a c. a * 256 + byte c) 0 s"

definition mpint_value :: "string \<Rightarrow> int" where
  "mpint_value s =
     int (be_value s) - (if s \<noteq> [] \<and> byte (hd s) \<ge> 128 then 2 ^ (8 * length s) else 0)"

definition read_field :: "string \<Rightarrow> (string \<times> string) option" where
  "read_field s =
     (let n = be_value (take 4 s); r = drop 4 s in
      if length s < 4 \<or> length r < n then None else Some (take n r, drop n r))"

lemma read_field_shorter: "read_field s = Some (f, r) \<Longrightarrow> length r < length s"
  by (auto simp: read_field_def Let_def split: if_splits)

function read_fields :: "string \<Rightarrow> string list option" where
  "read_fields s =
     (if s = [] then Some []
      else case read_field s of None \<Rightarrow> None | Some (f, r) \<Rightarrow> map_option ((#) f) (read_fields r))"
  by pat_completeness auto
termination by (relation "measure length") (auto intro: read_field_shorter)

declare read_fields.simps [simp del]

text \<open>The spelling of bytes in a JSON web key: base 64 for URLs, without padding.\<close>

definition b64url :: "string \<Rightarrow> string" where
  "b64url bs = map (\<lambda>c. if c = CHR ''+'' then CHR ''-'' else if c = CHR ''/'' then CHR ''_'' else c)
     (takeWhile (\<lambda>c. c \<noteq> CHR ''='') (b64_encode bs))"

lemma be_value_Nil [simp]: "be_value [] = 0"
  by (simp add: be_value_def)

lemma be_value_Cons: "be_value (c # cs) = byte c * 256 ^ length cs + be_value cs"
proof -
  have *: "foldl (\<lambda>a c. a * 256 + byte c) x cs = x * 256 ^ length cs + foldl (\<lambda>a c. a * 256 + byte c) 0 cs" for x
  proof (induction cs arbitrary: x)
    case (Cons d cs)
    show ?case unfolding foldl_Cons by (subst Cons, subst (2) Cons) (simp add: algebra_simps)
  qed simp
  show ?thesis using * [of "byte c"] by (simp add: be_value_def)
qed

lemma be_value_u32be [simp]: "n < 2 ^ 32 \<Longrightarrow> be_value (u32be n) = n"
proof -
  assume n: "n < 2 ^ 32"
  let ?a = "n div 256" let ?b = "?a div 256" let ?c = "?b div 256"
  have "be_value (u32be n) = n div 16777216 mod 256 * 16777216 + n div 65536 mod 256 * 65536 + ?a mod 256 * 256 + n mod 256"
    by (simp add: u32be_def be_value_Cons)
  moreover have "n div 16777216 mod 256 = ?c" "n div 65536 mod 256 = ?b mod 256"
    using n by (simp_all add: div_mult2_eq [symmetric] less_mult_imp_div_less)
  moreover have "n = ?a * 256 + n mod 256" "?a = ?b * 256 + ?a mod 256" "?b = ?c * 256 + ?b mod 256" by simp_all
  ultimately show ?thesis by linarith
qed

lemma length_u32be [simp]: "length (u32be n) = 4"
  by (simp add: u32be_def)

lemma read_field_encoded: "encodeSshField d = Inr x \<Longrightarrow> read_field (x @ r) = Some (d, r)"
  by (auto simp: encodeSshField_def read_field_def Let_def split: if_splits)

lemma read_fields_encoded: "encodeSshField d = Inr x \<Longrightarrow> read_fields (x @ r) = map_option ((#) d) (read_fields r)"
  by (subst read_fields.simps) (auto simp: read_field_encoded, auto simp: encodeSshField_def u32be_def split: if_splits)

lemma read_fields_Nil [simp]: "read_fields [] = Some []"
  by (simp add: read_fields.simps)

lemma be_value_drop_zeros [simp]: "be_value (drop_zeros s) = be_value s"
  by (induction s rule: drop_zeros.induct) (simp_all add: be_value_Cons)

lemma bit7_byte: "bit (byte c) 7 \<longleftrightarrow> byte c \<ge> 128"
proof -
  have "byte c < 256" by simp
  then consider "byte c div 128 = 0" "byte c < 128" | "byte c div 128 = 1" "byte c \<ge> 128" by linarith
  then show ?thesis unfolding bit_iff_odd by cases simp_all
qed

lemma mpint_value_body [simp]: "mpint_value (mpint_body s) = int (be_value s)"
proof -
  have "be_value (mpint_body s) = be_value s"
    by (auto simp: mpint_body_def Let_def be_value_Cons) (metis be_value_Nil be_value_drop_zeros)
  moreover have "\<not> byte (hd (mpint_body s)) \<ge> 128"
    by (auto simp: mpint_body_def Let_def bit7_byte)
  ultimately show ?thesis by (simp add: mpint_value_def)
qed

lemma length_mpint_body: "length (mpint_body s) \<le> length s + 2"
proof -
  have "length (drop_zeros s) \<le> length s" by (induction s rule: drop_zeros.induct) auto
  then show ?thesis by (simp add: mpint_body_def Let_def)
qed

section \<open>Texts without white space\<close>

lemma collapse_ws_id: "(\<forall>c \<in> set s. \<not> is_ws c) \<Longrightarrow> collapse_ws s = s"
  by (induction s) auto

lemma collapse_ws_words:
  "(\<forall>c \<in> set a. \<not> is_ws c) \<Longrightarrow> (\<forall>c \<in> set b. \<not> is_ws c) \<Longrightarrow> b \<noteq> [] \<Longrightarrow> collapse_ws (a @ CHR '' '' # b) = a @ CHR '' '' # b"
proof (induction a)
  case Nil
  have "is_ws CHR '' ''" by code_simp
  then show ?case using Nil by (cases b) (auto simp: collapse_ws_id)
qed auto

lemma trim_ends: "s \<noteq> [] \<Longrightarrow> \<not> is_ws (hd s) \<Longrightarrow> \<not> is_ws (last s) \<Longrightarrow> trim s = s"
  using dropWhile_eq_self_iff [of is_ws s] dropWhile_eq_self_iff [of is_ws "rev s"] by (simp add: trim_def hd_rev)

lemma is_ws_b64 [simp]: "n < 64 \<Longrightarrow> \<not> is_ws (b64_char n)"
  by (auto simp: is_ws_def b64_char_byte Let_def)

lemma b64_encode_no_ws: "\<forall>c \<in> set (b64_encode s). \<not> is_ws c"
proof -
  have "\<not> is_ws CHR ''=''" by code_simp
  then show ?thesis by (induction s rule: b64_encode.induct) simp_all
qed

lemma split_ws_words:
  assumes "\<forall>c \<in> set a. \<not> is_ws c" "\<forall>c \<in> set b. \<not> is_ws c" "a \<noteq> []" "b \<noteq> []"
  shows "split_ws (trim (a @ CHR '' '' # b)) = [a, b]"
proof -
  have "is_ws CHR '' ''" by code_simp
  then have "CHR '' '' \<notin> set a" "CHR '' '' \<notin> set b" using assms by auto
  moreover have "trim (a @ CHR '' '' # b) = a @ CHR '' '' # b"
    using assms by (intro trim_ends) (auto simp: hd_append)
  ultimately show ?thesis using assms by (simp add: split_ws_def collapse_ws_words split_on_append split_on_single)
qed

lemma fingerprint_of_built:
  assumes "payload \<noteq> []"
  shows "generateFingerprint h (''ssh-rsa '' @ b64_encode payload) =
    Inr (''SHA256:'' @ rev (dropWhile (\<lambda>c. c = CHR ''='') (rev (b64_encode (h payload)))))"
proof -
  have "\<forall>c \<in> set ''ssh-rsa''. \<not> is_ws c" by code_simp
  then have "split_ws (trim (''ssh-rsa'' @ CHR '' '' # b64_encode payload)) = [''ssh-rsa'', b64_encode payload]"
    using assms b64_encode_no_ws by (intro split_ws_words) auto
  then show ?thesis by (simp add: generateFingerprint_def)
qed

section \<open>The generated key\<close>

lemma b64_char_not_url [simp]:
  assumes "n < 64"
  shows "CHR ''-'' \<noteq> b64_char n" "CHR ''_'' \<noteq> b64_char n"
proof -
  have "byte (b64_char n) \<noteq> 45" "byte (b64_char n) \<noteq> 95" using assms by (auto simp: b64_char_byte)
  then have "b64_char n \<noteq> CHR ''-''" "b64_char n \<noteq> CHR ''_''" by auto
  then show "CHR ''-'' \<noteq> b64_char n" "CHR ''_'' \<noteq> b64_char n" by metis+
qed

lemma b64_encode_no_url: "CHR ''-'' \<notin> set (b64_encode s)" "CHR ''_'' \<notin> set (b64_encode s)"
  by (induction s rule: b64_encode.induct) simp_all

lemma b64_sextets_cut: "b64_sextets (takeWhile (\<lambda>c. c \<noteq> CHR ''='') s @ replicate k (CHR ''='')) = b64_sextets s"
  by (cases k) (simp_all add: b64_sextets_def takeWhile_append)

lemma base64UrlToBuffer_b64url [simp]: "base64UrlToBuffer (b64url bs) = bs"
proof -
  let ?t = "takeWhile (\<lambda>c. c \<noteq> CHR ''='') (b64_encode bs)"
  have "c \<noteq> CHR ''-'' \<and> c \<noteq> CHR ''_''" if "c \<in> set ?t" for c
    using that b64_encode_no_url [of bs] by (metis set_takeWhileD)
  then have "map ((\<lambda>c. if c = CHR ''-'' then CHR ''+'' else if c = CHR ''_'' then CHR ''/'' else c) \<circ>
      (\<lambda>c. if c = CHR ''+'' then CHR ''-'' else if c = CHR ''/'' then CHR ''_'' else c)) ?t = ?t"
    by (intro map_idI) auto
  then have "base64UrlToBuffer (b64url bs) =
      b64_decode (?t @ replicate (if length ?t mod 4 \<noteq> 0 then 4 - length ?t mod 4 else 0) (CHR ''=''))"
    by (simp add: base64UrlToBuffer_def b64url_def Let_def)
  then show ?thesis by (simp only: b64_decode_def b64_sextets_cut) (simp add: b64_decode_def [symmetric])
qed

lemma built_key:
  assumes "length n + 2 < 2 ^ 32" "length e + 2 < 2 ^ 32"
  obtains payload where "buildSshRsaPublicKeyFromJwk (b64url n) (b64url e) = Inr (''ssh-rsa '' @ b64_encode payload)"
    "payload \<noteq> []" "read_fields payload = Some [''ssh-rsa'', mpint_body e, mpint_body n]"
proof -
  obtain k where k: "encodeSshField ''ssh-rsa'' = Inr k" "k \<noteq> []" by (simp add: encodeSshField_def u32be_def)
  obtain x y where xy: "encodeMpint e = Inr x" "encodeMpint n = Inr y"
    using assms length_mpint_body [of n] length_mpint_body [of e] by (simp add: encodeMpint_def encodeSshField_def)
  have "read_fields (k @ x @ y @ []) = Some [''ssh-rsa'', mpint_body e, mpint_body n]"
    using k xy unfolding encodeMpint_def by (simp only: read_fields_encoded) simp
  then show ?thesis using that [of "k @ x @ y"] k xy by (simp add: buildSshRsaPublicKeyFromJwk_def)
qed

section \<open>Properties\<close>

lemma store_key_eq:
  "store_key r s =
     (if key_clash r s then (Inl (Conflict ''This SSH key is already registered to your account''), s)
      else if find_user (k_userId r) s = None then (Inl (PrismaError ''P2003''), s)
      else (Inr r, s\<lparr>sshKeys := sshKeys s @ [r]\<rparr>))"
  by (simp add: store_key_def insert_key_def bnd_eq throw_if_eq try_catch_eq)

definition fingerprint_text :: "string \<Rightarrow> string" where
  "fingerprint_text digest = ''SHA256:'' @ rev (dropWhile (\<lambda>c. c = CHR ''='') (rev (b64_encode digest)))"

text \<open>
  C29: a generated public key reads back by the wire format of RFC 4253 as an RSA key whose exponent and
  modulus are the numbers of the generated pair, positive whatever their first bit; it is stored
  with the fingerprint of exactly these bytes and returned with the pair's private key.
\<close>
theorem generated_key_reads_back:
  assumes "jwk_n D = Some (b64url n)" "jwk_e D = Some (b64url e)" "n \<noteq> []" "e \<noteq> []"
    "length n + 2 < 2 ^ 32" "length e + 2 < 2 ^ 32" "find_user userId s \<noteq> None"
    "\<And>k. k \<in> set (sshKeys s) \<Longrightarrow> k_id k \<noteq> key_id D"
    "\<And>k p. k \<in> set (sshKeys s) \<Longrightarrow> k_userId k = userId \<Longrightarrow>
       buildSshRsaPublicKeyFromJwk (b64url n) (b64url e) = Inr p \<Longrightarrow> generateFingerprint (sha256_raw D) p \<noteq> Inr (k_fingerprint k)"
  shows "\<exists>g payload fe fn. generateAndCreate D userId name s = (Inr g, s\<lparr>sshKeys := sshKeys s @ [gk_key g]\<rparr>) \<and>
    k_publicKey (gk_key g) = ''ssh-rsa '' @ b64_encode payload \<and>
    read_fields payload = Some [''ssh-rsa'', fe, fn] \<and>
    mpint_value fe = int (be_value e) \<and> mpint_value fn = int (be_value n) \<and>
    k_fingerprint (gk_key g) = fingerprint_text (sha256_raw D payload) \<and>
    k_userId (gk_key g) = userId \<and> gk_privateKey g = pem_private D"
proof -
  obtain payload where p: "buildSshRsaPublicKeyFromJwk (b64url n) (b64url e) = Inr (''ssh-rsa '' @ b64_encode payload)"
    "payload \<noteq> []" "read_fields payload = Some [''ssh-rsa'', mpint_body e, mpint_body n]"
    using built_key assms(5,6) by metis
  have ne: "b64url n \<noteq> []" "b64url e \<noteq> []"
    using base64UrlToBuffer_b64url [of n] base64UrlToBuffer_b64url [of e] assms(3,4)
    by (auto simp: base64UrlToBuffer_def b64_decode_def)
  let ?r = "\<lparr>k_id = key_id D, k_name = sanitizeKeyName (or_opt name ''My Generated Key''),
     k_publicKey = ''ssh-rsa '' @ b64_encode payload, k_fingerprint = fingerprint_text (sha256_raw D payload),
     k_userId = userId, k_createdAt = at_time D\<rparr>"
  let ?g = "\<lparr>gk_key = ?r, gk_privateKey = pem_private D,
     gk_filename = ''cloudvm-'' @ k_name ?r @ ''-'' @ iso_date (at_time D) @ ''.pem'',
     gk_notice = ''This private key is shown once. Save it securely now.''\<rparr>"
  note fp = fingerprint_of_built [OF p(2), of "sha256_raw D", folded fingerprint_text_def]
  have "k_fingerprint k \<noteq> fingerprint_text (sha256_raw D payload)" if "k \<in> set (sshKeys s)" "k_userId k = userId" for k
    using assms(9) [OF that p(1)] fp by auto
  then have "\<not> key_clash ?r s" using assms(8) by (auto simp: key_clash_def)
  then have "generateAndCreate D userId name s = (Inr ?g, s\<lparr>sshKeys := sshKeys s @ [gk_key ?g]\<rparr>)"
    using ne assms(1,2,7) p(1) fp by (simp add: generateAndCreate_def bnd_eq throw_if_eq store_key_eq Let_def del: append.simps)
  then show ?thesis using p(3)
    by - (rule exI [of _ ?g], rule exI [of _ payload], rule exI [of _ "mpint_body e"], rule exI [of _ "mpint_body n"], simp)
qed

text \<open>The word of a public key that its fingerprint depends on.\<close>

definition key_data :: "string \<Rightarrow> string option" where
  "key_data publicKey = (case split_ws (trim publicKey) of _ # data # _ \<Rightarrow> Some data | _ \<Rightarrow> None)"

lemma generateFingerprint_data:
  "generateFingerprint h pk =
     (case key_data pk of None \<Rightarrow> Inl (BadRequest ''Invalid SSH public key format'') | Some d \<Rightarrow> Inr (fingerprint_text (h (b64_decode d))))"
  by (simp add: generateFingerprint_def key_data_def fingerprint_text_def Let_def split: list.split)

text \<open>
  A registered key is refused to the same user afterwards, whatever its comment, its spacing, its
  name or the word before its data.
\<close>
theorem key_registered_once:
  assumes "create_key D userId dto s = (Inr k, t)" "key_data (dto_publicKey dto') = key_data (dto_publicKey dto)"
    "sha256_raw D' = sha256_raw D"
  shows "create_key D' userId dto' t = (Inl (Conflict ''This SSH key is already registered to your account''), t)"
proof -
  obtain d where d: "key_data (dto_publicKey dto) = Some d"
    using assms(1) by (cases "key_data (dto_publicKey dto)") (simp_all add: create_key_def generateFingerprint_data bnd_eq)
  then have "k \<in> set (sshKeys t)" "k_userId k = userId" "k_fingerprint k = fingerprint_text (sha256_raw D (b64_decode d))"
    using assms(1) by (auto simp: create_key_def generateFingerprint_data bnd_eq store_key_eq split: if_splits)
  then show ?thesis using d assms(2,3)
    by (auto simp: create_key_def generateFingerprint_data bnd_eq store_key_eq key_clash_def)
qed

definition ssh_keys_ok :: "'a db_scheme \<Rightarrow> bool" where
  "ssh_keys_ok s \<longleftrightarrow> distinct (map k_id (sshKeys s)) \<and> distinct (map (\<lambda>k. (k_userId k, k_fingerprint k)) (sshKeys s)) \<and>
     (\<forall>k \<in> set (sshKeys s). find_user (k_userId k) s \<noteq> None)"

lemma store_key_ok [preserves_intros]: "preserves ssh_keys_ok (store_key r)"
proof (rule preservesI)
  fix s x t assume "ssh_keys_ok s" "store_key r s = (x, t)"
  then show "ssh_keys_ok t"
    by (auto simp: store_key_eq ssh_keys_ok_def key_clash_def find_user_def split: if_splits; blast)
qed

text \<open>
  Under every operation on keys, whether it succeeds or not, the identifiers of the keys stay unique, no user has
  two keys with one fingerprint, and every key has its user.
\<close>
theorem keys_stay_unique:
  "preserves ssh_keys_ok (create_key D userId dto) \<and> preserves ssh_keys_ok (generateAndCreate D userId name) \<and>
   preserves ssh_keys_ok (delete_key i userId) \<and> preserves ssh_keys_ok (findAllByUser userId)"
proof (intro conjI)
  have "preserves ssh_keys_ok (modify (\<lambda>s. s\<lparr>sshKeys := delete_many (\<lambda>k. k_id k = i) (sshKeys s)\<rparr>))"
    by (rule preserves_modify) (auto simp: ssh_keys_ok_def delete_many_def distinct_map_filter find_user_def)
  then show "preserves ssh_keys_ok (delete_key i userId)"
    unfolding delete_key_def by (intro preserves_intros; simp)+
qed (unfold create_key_def generateAndCreate_def findAllByUser_def, (intro preserves_intros; simp)+)

text \<open>
  A key is deleted exactly by its owner: then this key and no other is gone, and otherwise the key is not there
  or belongs to somebody else, and nothing changes.
\<close>
theorem delete_key_outcome:
  "delete_key i userId s =
     (case find_key i s of
        None \<Rightarrow> (Inl (NotFound ''SSH key not found''), s)
      | Some k \<Rightarrow>
          if k_userId k = userId
          then (Inr ''SSH key deleted successfully'', s\<lparr>sshKeys := filter (\<lambda>x. k_id x \<noteq> k_id k) (sshKeys s)\<rparr>)
          else (Inl (Forbidden ''You do not own this SSH key''), s))"
  by (auto simp: delete_key_def bnd_eq throw_if_eq require_eq find_key_def delete_many_def dest: find_Some_set split: option.split)

lemma collapse_ws_set: "c \<in> set (collapse_ws s) \<Longrightarrow> c \<in> set s \<and> \<not> is_ws c \<or> c = CHR '' ''"
proof (induction s)
  case (Cons a s)
  then show ?case by (cases s) (auto split: if_splits)
qed simp

text \<open>
  The name of a generated key has one to 48 characters, all of them letters, digits, hyphens or underscores,
  so that the file name made from it has no separator.
\<close>
theorem safe_key_name:
  "1 \<le> length (sanitizeKeyName input) \<and> length (sanitizeKeyName input) \<le> 48 \<and>
   list_all (\<lambda>c. is_alpha c \<or> is_digit c \<or> c = CHR ''-'' \<or> c = CHR ''_'') (sanitizeKeyName input)"
proof -
  have fixed: "list_all (\<lambda>c. is_alpha c \<or> is_digit c \<or> c = CHR ''-'' \<or> c = CHR ''_'') ''generated-key''" by code_simp
  let ?b = "take 48 (map (\<lambda>c. if c = CHR '' '' then CHR ''-'' else c)
            (collapse_ws (filter key_name_char (trim (or_str input ''generated-key'')))))"
  have "is_alpha c \<or> is_digit c \<or> c = CHR ''-'' \<or> c = CHR ''_''" if "c \<in> set ?b" for c
    using that by (auto simp: key_name_char_def dest!: in_set_takeD collapse_ws_set split: if_splits)
  then show ?thesis using fixed
    by (cases "?b = []") (auto simp: sanitizeKeyName_def Let_def list_all_iff Suc_le_eq)
qed

section \<open>Examples\<close>

definition sample_key_db :: db where
  "sample_key_db = empty_db\<lparr>users := [\<lparr>u_id = ''u1'', u_email = ''ada@cloud.tn'', u_googleId = None, u_password = ''h'',
     u_firstName = ''Ada'', u_lastName = ''L'', u_role = USER, u_isActive = True, u_mfaEnabled = False, u_mfaSecret = None,
     u_mfaEnabledAt = None, u_mfaRecoveryCodeHashes = [], u_mfaRecoveryCodesGeneratedAt = None,
     u_studentEmailVerified = False, u_studentEmailVerifiedAt = None, u_createdAt = 0\<rparr>]\<rparr>"

text \<open>The identity stands for SHA-256, and the modulus has its first bit set.\<close>

definition sample_modulus :: string where
  "sample_modulus = [char_of (200 :: nat), char_of (7 :: nat)]"

definition sample_exponent :: string where
  "sample_exponent = [char_of (1 :: nat), char_of (0 :: nat), char_of (1 :: nat)]"

definition sample_key_deps :: ssh_deps where
  "sample_key_deps = \<lparr>at_time = 1750000000000, key_id = ''k1'', sha256_raw = (\<lambda>s. s), jwk_n = Some (b64url sample_modulus),
     jwk_e = Some (b64url sample_exponent), pem_private = ''PEM''\<rparr>"

lemma sample_key_facts:
  "sshKeys sample_key_db = []" "find_user ''u1'' sample_key_db \<noteq> None"
  "jwk_n sample_key_deps = Some (b64url sample_modulus)" "jwk_e sample_key_deps = Some (b64url sample_exponent)"
  by (simp_all add: sample_key_db_def sample_key_deps_def empty_db_def find_user_def)

theorem generated_key_reads_back_witness:
  "\<exists>g payload fe fn. generateAndCreate sample_key_deps ''u1'' (Some ''a b'') sample_key_db =
      (Inr g, sample_key_db\<lparr>sshKeys := sshKeys sample_key_db @ [gk_key g]\<rparr>) \<and>
    k_publicKey (gk_key g) = ''ssh-rsa '' @ b64_encode payload \<and>
    read_fields payload = Some [''ssh-rsa'', fe, fn] \<and> mpint_value fe = 65537 \<and> mpint_value fn = 51207"
proof -
  have v: "int (be_value sample_exponent) = 65537" "int (be_value sample_modulus) = 51207"
    by (simp_all add: sample_exponent_def sample_modulus_def be_value_Cons)
  have l: "sample_modulus \<noteq> []" "sample_exponent \<noteq> []" "length sample_modulus + 2 < 2 ^ 32" "length sample_exponent + 2 < 2 ^ 32"
    by (simp_all add: sample_modulus_def sample_exponent_def)
  have "\<exists>g payload fe fn. generateAndCreate sample_key_deps ''u1'' (Some ''a b'') sample_key_db =
        (Inr g, sample_key_db\<lparr>sshKeys := sshKeys sample_key_db @ [gk_key g]\<rparr>) \<and>
      k_publicKey (gk_key g) = ''ssh-rsa '' @ b64_encode payload \<and>
      read_fields payload = Some [''ssh-rsa'', fe, fn] \<and>
      mpint_value fe = int (be_value sample_exponent) \<and> mpint_value fn = int (be_value sample_modulus) \<and>
      k_fingerprint (gk_key g) = fingerprint_text (sha256_raw sample_key_deps payload) \<and>
      k_userId (gk_key g) = ''u1'' \<and> gk_privateKey g = pem_private sample_key_deps"
    by (rule generated_key_reads_back) (use l sample_key_facts in simp_all)
  then show ?thesis unfolding v by blast
qed

definition sample_dto :: "string \<Rightarrow> string \<Rightarrow> create_key_dto" where
  "sample_dto n k = \<lparr>dto_name = n, dto_publicKey = k\<rparr>"

lemma sample_key_created: "fst (create_key sample_key_deps ''u1'' (sample_dto ''laptop'' ''ssh-rsa AAAA me@home'') sample_key_db) =
    Inr \<lparr>k_id = ''k1'', k_name = ''laptop'', k_publicKey = ''ssh-rsa AAAA me@home'', k_fingerprint = ''SHA256:AAAA'',
      k_userId = ''u1'', k_createdAt = 1750000000000\<rparr>"
  by code_simp

theorem key_registered_once_witness:
  "fst (create_key sample_key_deps ''u1'' (sample_dto ''other'' '' ssh-rsa   AAAA'')
     (snd (create_key sample_key_deps ''u1'' (sample_dto ''laptop'' ''ssh-rsa AAAA me@home'') sample_key_db))) =
   Inl (Conflict ''This SSH key is already registered to your account'')"
proof -
  have "key_data (dto_publicKey (sample_dto ''other'' '' ssh-rsa   AAAA'')) =
      key_data (dto_publicKey (sample_dto ''laptop'' ''ssh-rsa AAAA me@home''))" by code_simp
  from key_registered_once [OF _ this refl, of sample_key_deps "''u1''" sample_key_db, OF prod_eqI]
  show ?thesis using sample_key_created by simp
qed

lemma iso_date_sample: "iso_date 1750000000000 = ''2025-06-15''" "iso_date 951782400000 = ''2000-02-29''" "iso_date 0 = ''1970-01-01''"
  by code_simp+

end
