(* ===== verification/Ai_Text.thy ===== *)
theory Ai_Text
  imports Request_Security Js_Regex Js_Number
begin

text \<open>
  \<open>services/ai/src/ai/ai.service.ts\<close>, what the assistant reads from a message: sanitising, the
  patterns of prompt injection and of questions out of scope, the images, and the action on a machine
  that a message asks for.
\<close>

section \<open>Messages\<close>

definition is_control :: "char \<Rightarrow> bool" where
  "is_control c \<longleftrightarrow> of_char c \<le> (31 :: nat) \<or> of_char c = (127 :: nat)"

definition sanitizeUserMessage :: "string \<Rightarrow> string" where
  "sanitizeUserMessage input = trim (collapse_ws (map (\<lambda>c. if is_control c then CHR '' '' else c) input))"

definition promptInjectionPatterns :: "regex list" where
  "promptInjectionPatterns =
     [seq_r [word_i ''ignore'', plus_r ws_r, word_i ''previous'', plus_r ws_r, word_i ''instructions''],
      seq_r [word_i ''you'', plus_r ws_r, word_i ''are'', plus_r ws_r, word_i ''now''],
      seq_r [word_i ''pretend'', plus_r ws_r, word_i ''you'', plus_r ws_r, word_i ''are''],
      seq_r [word_i ''system'', Rep ws_r, word_i '':''],
      seq_r [word_i ''act'', plus_r ws_r, word_i ''as'']]"

definition detectPromptInjection :: "string \<Rightarrow> bool" where
  "detectPromptInjection message = list_ex (\<lambda>p. regex_test p message) promptInjectionPatterns"

definition dot_star :: regex where
  "dot_star = Rep any_char"

definition blockedPatterns :: "regex list" where
  "blockedPatterns =
     [alt_r (map word_i [''what model'', ''which model'', ''your model'', ''llm'', ''gpt'', ''claude'', ''qwen'', ''gemini'', ''openai'', ''anthropic'']),
      alt_r (map word_i [''system prompt'', ''prompt injection'', ''hidden prompt'', ''jailbreak'']),
      alt_r [seq_r [word_i ''where'', dot_star, word_i ''data''], word_i ''database location'',
        seq_r [word_i ''where'', dot_star, word_i ''stored''], word_i ''storage path'', word_i ''server path''],
      alt_r (map word_i [''api key'', ''secret key'', ''token leak'', ''credentials'']),
      alt_r (map word_i [''who made you'', ''how are you built'', ''architecture of your model''])]"

definition platformScopeHints :: regex where
  "platformScopeHints =
     alt_r (map word_i [''vm'', ''virtual machine'', ''ssh'', ''quota'', ''dashboard'', ''profile'', ''login'', ''register'', ''terminal'',
       ''cloudvm'', ''plan'', ''instance'', ''error'', ''failed'', ''cannot'', ''can'' @ [CHR 0x27] @ ''t'', ''issue'', ''bug''])"

definition isOutOfScopeQuestion :: "string \<Rightarrow> bool" where
  "isOutOfScopeQuestion message =
     (let lower = toLowerCase message; isBlocked = list_ex (\<lambda>p. regex_test p lower) blockedPatterns in
      if \<not> isBlocked then False else \<not> regex_test platformScopeHints lower)"

section \<open>Images\<close>

text \<open>The text before and after the first occurrence of a separator.\<close>

fun before_str :: "string \<Rightarrow> string \<Rightarrow> string" where
  "before_str p [] = []"
| "before_str p (c # cs) = (if starts_with (c # cs) p then [] else c # before_str p cs)"

fun after_str :: "string \<Rightarrow> string \<Rightarrow> string option" where
  "after_str p [] = None"
| "after_str p (c # cs) = (if starts_with (c # cs) p then Some (drop (length p) (c # cs)) else after_str p cs)"

definition max_image_bytes :: "process_env \<Rightarrow> rat option" where
  "max_image_bytes pe = map_option (max 1) (js_Number (or_opt (pe ''AI_MAX_IMAGE_BYTES'') ''1048576''))"

definition image_ok :: "rat option \<Rightarrow> string \<Rightarrow> bool" where
  "image_ok maxBytes item =
     (if \<not> starts_with item ''data:image/'' \<or> \<not> str_includes item '';base64,'' then False
      else let base64 = (case after_str '';base64,'' item of None \<Rightarrow> [] | Some r \<Rightarrow> before_str '';base64,'' r);
               approxBytes = int (length base64) * 3 div 4 in
        case maxBytes of None \<Rightarrow> False | Some m \<Rightarrow> of_int approxBytes \<le> m)"

definition sanitizeImages :: "process_env \<Rightarrow> string list option \<Rightarrow> string list" where
  "sanitizeImages pe images =
     (case images of
        None \<Rightarrow> []
      | Some xs \<Rightarrow> filter (image_ok (max_image_bytes pe)) (map trim (take 3 xs)))"

section \<open>Actions\<close>

definition hex_class :: regex where
  "hex_class = Sat (\<lambda>c. is_digit c \<or> to_lower_char c \<in> set ''abcdef'')"

definition times_r :: "nat \<Rightarrow> regex \<Rightarrow> regex" where
  "times_r n r = seq_r (replicate n r)"

definition uuid_r :: regex where
  "uuid_r = seq_r
     [times_r 8 hex_class, exact ''-'', times_r 4 hex_class, exact ''-'',
      Sat (\<lambda>c. c \<in> set ''12345''), times_r 3 hex_class, exact ''-'',
      Sat (\<lambda>c. to_lower_char c \<in> set ''89ab''), times_r 3 hex_class, exact ''-'', times_r 12 hex_class]"

definition is_uuid :: "string \<Rightarrow> bool" where
  "is_uuid s = regex_test (seq_r [LineStart, uuid_r, LineEnd]) s"

text \<open>\<open>message.match(uuid)?.[0]\<close>: a match is 36 characters long.\<close>

definition uuid_in :: "string \<Rightarrow> string option" where
  "uuid_in s = map_option (\<lambda>i. take 36 (drop i s)) (List.find (\<lambda>i. ends_at uuid_r s i \<noteq> []) [0..<Suc (length s)])"

definition allowedActions :: "string list" where
  "allowedActions = [''start'', ''stop'', ''restart'']"

definition validateStructuredAction :: "string \<Rightarrow> string \<Rightarrow> id \<Rightarrow> id \<Rightarrow> exn + unit" where
  "validateStructuredAction vmId action userId expectedUserId =
     (if \<not> is_uuid vmId then Inl (BadRequest ''Invalid VM action payload: vmId must be a UUID'')
      else if action \<notin> set allowedActions then Inl (BadRequest ''Invalid VM action payload: action is not allowed'')
      else if userId \<noteq> expectedUserId then Inl (Unauthorized ''Invalid VM action payload: user mismatch'')
      else Inr ())"

record vm_item =
  it_id :: id
  it_name :: string
  it_status :: string

definition asked_action :: "string \<Rightarrow> string option" where
  "asked_action lower =
     (if str_includes lower ''restart'' \<or> str_includes lower ''reboot'' then Some ''restart''
      else if str_includes lower ''start'' then Some ''start''
      else if str_includes lower ''stop'' then Some ''stop'' else None)"

definition asked_machine :: "string \<Rightarrow> vm_item list \<Rightarrow> vm_item option" where
  "asked_machine message vms =
     (let lower = toLowerCase message;
          byId = (case uuid_in message of Some i \<Rightarrow> List.find (\<lambda>vm. it_id vm = i) vms | None \<Rightarrow> None)
      in case byId of Some vm \<Rightarrow> Some vm
         | None \<Rightarrow> List.find (\<lambda>vm. str_includes lower (toLowerCase (it_name vm))) vms)"

section \<open>Facts\<close>

lemma asked_action_allowed: "asked_action lower = Some a \<Longrightarrow> a \<in> set allowedActions"
  by (auto simp: asked_action_def allowedActions_def split: if_splits)

lemma asked_machine_in: "asked_machine message vms = Some vm \<Longrightarrow> vm \<in> set vms"
  by (auto simp: asked_machine_def Let_def dest: find_Some_set split: option.splits)

lemma asked_machine_Nil [simp]: "asked_machine message [] = None"
  by (simp add: asked_machine_def split: option.split)

lemma validateStructuredAction_ok_iff:
  "validateStructuredAction v a u u' = Inr () \<longleftrightarrow> is_uuid v \<and> a \<in> set allowedActions \<and> u = u'"
  by (simp add: validateStructuredAction_def)

text \<open>
  At most three images pass, every one is a base 64 image URL of the request, and its estimated size is within
  the configured limit; without a numeric limit none passes.
\<close>
theorem images_bounded:
  "length (sanitizeImages pe images) \<le> 3 \<and>
   list_all (\<lambda>i. i \<in> trim ` set (case images of None \<Rightarrow> [] | Some xs \<Rightarrow> xs) \<and> starts_with i ''data:image/'' \<and>
     (case max_image_bytes pe of None \<Rightarrow> False
      | Some m \<Rightarrow> of_int (int (length (before_str '';base64,'' (the (after_str '';base64,'' i)))) * 3 div 4) \<le> m)) (sanitizeImages pe images)"
proof (cases images)
  case (Some xs)
  have inc: "after_str p s \<noteq> None" if "str_includes s p" "p \<noteq> []" for p s
    using that by (induction s) (auto simp: starts_with_def)
  have "length (filter q (map trim (take 3 xs))) \<le> 3" for q
    by (rule order.trans [OF length_filter_le]) simp
  then show ?thesis using Some inc [of _ "'';base64,''"]
    by (auto simp: sanitizeImages_def list_all_iff image_ok_def Let_def dest: in_set_takeD split: if_splits option.splits)
      (metis option.distinct(1))
qed (simp add: sanitizeImages_def)

end
