(* ===== verification/Ai_Safety.thy ===== *)
theory Ai_Safety
  imports Ai_Service Base64
begin

text \<open>
  What the assistant does: whose conversations it reads and writes, which actions it sends to the vm
  service, what a chat leaves behind, and how it gets along with the guard of the vm service, which
  is the one of \<open>Request_Security\<close>.
\<close>

section \<open>Runs\<close>

lemma ensureConversationOwner_eq:
  "ensureConversationOwner c u s =
     (case List.find (\<lambda>x. cv_id x = c \<and> cv_userId x = u) (conversations s) of
        None \<Rightarrow> (Inl (NotFound ''Conversation not found''), s) | Some x \<Rightarrow> (Inr x, s))"
  by (simp add: ensureConversationOwner_def bnd_eq require_eq split: option.split)

lemma create_message_Inr_iff [io_iffs]:
  "create_message m s = (Inr r, t) \<longleftrightarrow>
     r = m \<and> (\<exists>c \<in> set (conversations s). cv_id c = ms_conversationId m) \<and> t = s\<lparr>ai_messages := ai_messages s @ [m]\<rparr>"
  by (auto simp: create_message_def io_iffs)

lemma create_message_Inl: "create_message m s = (Inl e, t) \<Longrightarrow> t = s"
  by (auto simp: create_message_def io_iffs)

lemma assistant_message_Inr_iff [io_iffs]:
  "assistant_message D c w p mo s = (Inr r, t) \<longleftrightarrow>
     r = \<lparr>ms_id = reply_message D, ms_conversationId = c, ms_role = AssistantRole, ms_content = w,
       ms_provider = Some p, ms_model = Some mo, ms_createdAt = ai_now D\<rparr> \<and>
     (\<exists>x \<in> set (conversations s). cv_id x = c) \<and> t = s\<lparr>ai_messages := ai_messages s @ [r]\<rparr>"
  by (auto simp: assistant_message_def io_iffs)

lemma resolveConversationId_Inr:
  assumes "resolveConversationId D u dto s = (Inr c, t)"
  shows "(\<exists>x \<in> set (conversations t). cv_id x = c \<and> cv_userId x = u) \<and> ai_messages t = ai_messages s \<and>
    sent_actions t = sent_actions s \<and>
    (if truthy (cd_conversationId dto) then t = s \<and> cd_conversationId dto = Some c
     else conversations t = conversations s @ [\<lparr>cv_id = c, cv_userId = u, cv_title = Some (take 60 (cd_message dto)),
       cv_createdAt = ai_now D, cv_updatedAt = ai_now D\<rparr>])"
  using assms
  by (auto simp: resolveConversationId_def bnd_eq ensureConversationOwner_eq truthy_def dest: find_Some_set
      split: if_splits option.splits)

section \<open>Conversations\<close>

definition owns :: "id \<Rightarrow> id \<Rightarrow> ai_state \<Rightarrow> bool" where
  "owns u c s \<longleftrightarrow> (\<exists>x \<in> set (conversations s). cv_id x = c \<and> cv_userId x = u)"

text \<open>
  Nobody reads or continues somebody else's conversation: both are answered as if it did not exist, before anything
  is fetched or written.
\<close>
theorem foreign_conversation_refused:
  assumes "\<not> owns (au_userId user) c s" "c \<noteq> []" "cd_conversationId dto = Some c"
  shows "chat D user dto s = (Inl (NotFound ''Conversation not found''), s) \<and>
    getMessages user c s = (Inl (NotFound ''Conversation not found''), s)"
proof -
  have "List.find (\<lambda>x. cv_id x = c \<and> cv_userId x = au_userId user) (conversations s) = None"
    using assms(1) by (auto simp: find_None_iff owns_def)
  then show ?thesis using assms(2,3)
    by (simp add: chat_def getMessages_def resolveConversationId_def bnd_eq ensureConversationOwner_eq Let_def)
qed

lemma chat_outcome:
  assumes "chat D user dto s = (Inr r, t)"
  obtains s' u a where "resolveConversationId D (au_userId user) dto s = (Inr (rs_conversationId r), s')"
    "t = s'\<lparr>ai_messages := ai_messages s' @ [u, a]\<rparr>"
    "u = \<lparr>ms_id = user_message D, ms_conversationId = rs_conversationId r, ms_role = UserRole,
       ms_content = sanitizeUserMessage (cd_message dto), ms_provider = None, ms_model = None, ms_createdAt = ai_now D\<rparr>"
    "a = rs_message r" "ms_conversationId a = rs_conversationId r" "ms_role a = AssistantRole"
    "\<exists>ctx. fetchAppContext D user = Inr ctx \<and>
       detectPendingAction D (sanitizeUserMessage (cd_message dto)) user (ctx_vms ctx) = Inr (rs_pendingAction r)"
proof -
  obtain c s' ctx p where c: "resolveConversationId D (au_userId user) dto s = (Inr c, s')" "fetchAppContext D user = Inr ctx"
    "detectPendingAction D (sanitizeUserMessage (cd_message dto)) user (ctx_vms ctx) = Inr p"
    using assms unfolding chat_def Let_def bnd_Inr_iff lift_eq by auto
  let ?u = "\<lparr>ms_id = user_message D, ms_conversationId = c, ms_role = UserRole, ms_content = sanitizeUserMessage (cd_message dto),
     ms_provider = None, ms_model = None, ms_createdAt = ai_now D\<rparr>"
  have "\<exists>a. r = \<lparr>rs_conversationId = c, rs_message = a, rs_pendingAction = p\<rparr> \<and> ms_conversationId a = c \<and> ms_role a = AssistantRole \<and>
      t = s'\<lparr>ai_messages := ai_messages s' @ [?u, a]\<rparr>"
    using assms c unfolding chat_def Let_def bnd_Inr_iff lift_eq
    by (auto simp: create_message_Inr_iff assistant_message_Inr_iff bnd_Inr_iff split: option.splits if_splits)
  then show thesis using that [of s' ?u] c by auto
qed

text \<open>
  A chat that succeeds appends exactly two messages to one conversation of the user, the sanitised question and
  the returned answer, creates that conversation only when none was named, and sends no action to the vm service.
\<close>
theorem chat_appends_question_and_answer:
  assumes "chat D user dto s = (Inr r, t)"
  shows "\<exists>q. ai_messages t = ai_messages s @ [q, rs_message r] \<and> ms_role q = UserRole \<and>
    ms_content q = sanitizeUserMessage (cd_message dto) \<and> ms_conversationId q = rs_conversationId r \<and>
    ms_role (rs_message r) = AssistantRole \<and> ms_conversationId (rs_message r) = rs_conversationId r \<and>
    owns (au_userId user) (rs_conversationId r) t \<and> sent_actions t = sent_actions s \<and>
    (if truthy (cd_conversationId dto) then conversations t = conversations s
     else butlast (conversations t) = conversations s)"
proof -
  obtain s' u a where c: "resolveConversationId D (au_userId user) dto s = (Inr (rs_conversationId r), s')"
    "t = s'\<lparr>ai_messages := ai_messages s' @ [u, a]\<rparr>" "a = rs_message r" "ms_conversationId a = rs_conversationId r"
    "ms_role a = AssistantRole"
    "u = \<lparr>ms_id = user_message D, ms_conversationId = rs_conversationId r, ms_role = UserRole,
       ms_content = sanitizeUserMessage (cd_message dto), ms_provider = None, ms_model = None, ms_createdAt = ai_now D\<rparr>"
    using chat_outcome [OF assms] by metis
  from resolveConversationId_Inr [OF c(1)] c(2-6) show ?thesis
    by (intro exI [of _ u]) (auto simp: owns_def)
qed

lemma chat_offers:
  "chat D user dto s = (Inr r, t) \<Longrightarrow> \<exists>ctx. fetchAppContext D user = Inr ctx \<and>
     detectPendingAction D (sanitizeUserMessage (cd_message dto)) user (ctx_vms ctx) = Inr (rs_pendingAction r)"
  by (erule chat_outcome)

section \<open>Actions\<close>

lemma detectPendingAction_Some:
  assumes "detectPendingAction D w user vms = Inr (Some p)"
  shows "is_uuid (pa_vmId p)" "pa_action p \<in> set allowedActions" "actionConfirmSecret D \<noteq> []"
    "\<exists>vm \<in> set vms. it_id vm = pa_vmId p \<and> it_name vm = pa_vmName p"
    "confirmationToken p = sign_action D (actionConfirmSecret D)
       \<lparr>ap_sub = au_userId user, ap_vmId = pa_vmId p, ap_vmName = pa_vmName p, ap_action = pa_action p\<rparr>"
  using assms validateStructuredAction_ok_iff
  by (auto simp: detectPendingAction_def createActionConfirmationToken_def Let_def dest!: asked_machine_in
      split: option.splits if_splits sum.splits)

definition confirmed :: "ai_deps \<Rightarrow> auth_user \<Rightarrow> confirm_dto \<Rightarrow> action_payload \<Rightarrow> bool" where
  "confirmed D user dto p \<longleftrightarrow> actionConfirmSecret D \<noteq> [] \<and> verify_action D (actionConfirmSecret D) (cf_token dto) = Some p \<and>
     ap_sub p = au_userId user \<and> is_uuid (ap_vmId p) \<and> ap_action p \<in> set allowedActions"

definition request_for :: "action_payload \<Rightarrow> string \<Rightarrow> action_request" where
  "request_for p tok = \<lparr>ar_vmId = ap_vmId p, ar_token = tok, ar_action = ap_action p\<rparr>"

lemma confirmAction_confirmed:
  assumes "confirmed D user dto p" "createInternalToken D user = Inr tok"
  shows "confirmAction D user dto s =
    bnd (lift (action_outcome p (fetch_action D (request_for p tok)))) (record_action D user dto p)
      (s\<lparr>sent_actions := sent_actions s @ [request_for p tok]\<rparr>)"
proof -
  have "validateStructuredAction (ap_vmId p) (ap_action p) (ap_sub p) (au_userId user) = Inr ()"
    using assms(1) by (simp add: confirmed_def validateStructuredAction_ok_iff)
  then show ?thesis using assms
    by (simp add: confirmAction_def confirmed_def send_action_def bnd_eq throw_if_eq require_eq request_for_def)
qed

lemma confirmAction_unconfirmed:
  assumes "\<not> (\<exists>p tok. confirmed D user dto p \<and> createInternalToken D user = Inr tok)"
  shows "\<exists>e. confirmAction D user dto s = (Inl e, s)"
proof -
  have "validateStructuredAction v a u u \<noteq> Inr ()" if "\<not> (is_uuid v \<and> a \<in> set allowedActions)" for v a u
    using that by (simp add: validateStructuredAction_ok_iff)
  then show ?thesis using assms
    by (auto simp: confirmAction_def confirmed_def bnd_eq throw_if_eq require_eq split: option.splits sum.splits) blast+
qed

text \<open>Messages and conversations are written without sending anything.\<close>

lemma create_message_sends_nothing [preserves_intros]: "preserves (\<lambda>t. sent_actions t = X) (create_message m)"
  unfolding create_message_def by (intro preserves_intros preserves_modify; simp)+

lemma assistant_message_sends_nothing [preserves_intros]: "preserves (\<lambda>t. sent_actions t = X) (assistant_message D c w p mo)"
  unfolding assistant_message_def by (intro preserves_intros)

lemma owner_check_sends_nothing [preserves_intros]: "preserves (\<lambda>t. sent_actions t = X) (ensureConversationOwner c u)"
  unfolding ensureConversationOwner_def by (intro preserves_intros)

lemma record_action_keeps: "preserves (\<lambda>t. sent_actions t = X) (record_action D user dto p res)"
  unfolding record_action_def Let_def by (intro preserves_intros)

lemma chat_sends_nothing [preserves_intros]: "preserves (\<lambda>t. sent_actions t = X) (chat D user dto)"
  unfolding chat_def resolveConversationId_def Let_def by (intro preserves_intros preserves_modify; simp)

lemma reading_sends_nothing [preserves_intros]:
  "preserves (\<lambda>t. sent_actions t = X) (createConversation D user title)" "preserves (\<lambda>t. sent_actions t = X) (listConversations user)"
  "preserves (\<lambda>t. sent_actions t = X) (getMessages user i)"
  unfolding createConversation_def listConversations_def getMessages_def by (intro preserves_intros preserves_modify; simp)+

text \<open>The request that a confirmation makes: none unless the token is this user's, for one of the safe actions on a machine.\<close>

definition sent_by_confirmation :: "ai_deps \<Rightarrow> auth_user \<Rightarrow> confirm_dto \<Rightarrow> action_request list" where
  "sent_by_confirmation D user dto =
     (case verify_action D (actionConfirmSecret D) (cf_token dto) of
        None \<Rightarrow> []
      | Some p \<Rightarrow>
          (case createInternalToken D user of
             Inl e \<Rightarrow> []
           | Inr tok \<Rightarrow>
               if actionConfirmSecret D \<noteq> [] \<and> ap_sub p = au_userId user \<and> is_uuid (ap_vmId p) \<and> ap_action p \<in> {''start'', ''stop'', ''restart''}
               then [\<lparr>ar_vmId = ap_vmId p, ar_token = tok, ar_action = ap_action p\<rparr>] else []))"

lemma confirmation_sends:
  "sent_actions (snd (confirmAction D user dto s)) = sent_actions s @ sent_by_confirmation D user dto"
proof (cases "\<exists>p tok. confirmed D user dto p \<and> createInternalToken D user = Inr tok")
  case True
  then obtain p tok where p: "confirmed D user dto p" "createInternalToken D user = Inr tok" by blast
  let ?s = "s\<lparr>sent_actions := sent_actions s @ [request_for p tok]\<rparr>"
  have "preserves (\<lambda>t. sent_actions t = sent_actions ?s) (bnd (lift (action_outcome p (fetch_action D (request_for p tok)))) (record_action D user dto p))"
    by (intro preserves_intros record_action_keeps)
  from preservesD [OF this, of ?s "fst (confirmAction D user dto s)" "snd (confirmAction D user dto s)"]
  have "sent_actions (snd (confirmAction D user dto s)) = sent_actions s @ [request_for p tok]"
    using confirmAction_confirmed [OF p, of s] by simp
  moreover have "sent_by_confirmation D user dto = [request_for p tok]"
    using p by (simp add: confirmed_def sent_by_confirmation_def request_for_def allowedActions_def)
  ultimately show ?thesis by simp
next
  case False
  then have "sent_by_confirmation D user dto = []"
    by (auto simp: confirmed_def sent_by_confirmation_def allowedActions_def split: option.split sum.split)
  then show ?thesis using False confirmAction_unconfirmed [of D user dto s] by auto
qed

text \<open>
  What a chat offers can be confirmed: when a token reads back as what was signed, confirming the offered action sends
  exactly it to the vm service and, if that accepts, reports it done; in the hands of another user the same token is refused
  and nothing is sent.
\<close>
theorem offered_action_confirmed:
  assumes "chat D user dto s = (Inr r, t)" "rs_pendingAction r = Some p"
    "\<And>secret q. verify_action D secret (sign_action D secret q) = Some q"
    "fetch_action D \<lparr>ar_vmId = pa_vmId p, ar_token = tok, ar_action = pa_action p\<rparr> = Response 200 text (Some msg)"
    "createInternalToken D user = Inr tok" "au_userId other \<noteq> au_userId user"
  shows "\<exists>m. confirmAction D user \<lparr>cf_token = confirmationToken p, cf_conversationId = None\<rparr> t =
      (Inr \<lparr>cx_action = pa_action p, cx_vmId = pa_vmId p, cx_vmName = pa_vmName p, cx_message = m\<rparr>,
       t\<lparr>sent_actions := sent_actions t @ [\<lparr>ar_vmId = pa_vmId p, ar_token = tok, ar_action = pa_action p\<rparr>]\<rparr>) \<and>
    confirmAction D other \<lparr>cf_token = confirmationToken p, cf_conversationId = c\<rparr> t =
      (Inl (Unauthorized ''Confirmation token does not belong to current user''), t)"
proof -
  obtain ctx :: app_context where "detectPendingAction D (sanitizeUserMessage (cd_message dto)) user (ctx_vms ctx) = Inr (Some p)"
    using chat_offers [OF assms(1)] assms(2) by auto
  note d = detectPendingAction_Some [OF this]
  let ?q = "\<lparr>ap_sub = au_userId user, ap_vmId = pa_vmId p, ap_vmName = pa_vmName p, ap_action = pa_action p\<rparr>"
  have v: "verify_action D (actionConfirmSecret D) (confirmationToken p) = Some ?q" using assms(3) d(5) by simp
  have "confirmed D user \<lparr>cf_token = confirmationToken p, cf_conversationId = None\<rparr> ?q" using v d by (simp add: confirmed_def)
  from confirmAction_confirmed [OF this assms(5)] have
    "\<exists>m. confirmAction D user \<lparr>cf_token = confirmationToken p, cf_conversationId = None\<rparr> t =
      (Inr \<lparr>cx_action = pa_action p, cx_vmId = pa_vmId p, cx_vmName = pa_vmName p, cx_message = m\<rparr>,
       t\<lparr>sent_actions := sent_actions t @ [\<lparr>ar_vmId = pa_vmId p, ar_token = tok, ar_action = pa_action p\<rparr>]\<rparr>)"
    using assms(4) by (simp add: request_for_def action_outcome_def response_ok_def json_body_def record_action_def bnd_eq Let_def)
  moreover have "confirmAction D other \<lparr>cf_token = confirmationToken p, cf_conversationId = c\<rparr> t =
      (Inl (Unauthorized ''Confirmation token does not belong to current user''), t)"
    using v d(3) assms(6) by (simp add: confirmAction_def bnd_eq throw_if_eq require_eq)
  ultimately show ?thesis by blast
qed

section \<open>The prompt\<close>

lemma insort_key_snoc: "f x \<le> f m \<Longrightarrow> insort_key f x (ys @ [m]) = insort_key f x ys @ [m]"
  by (induction ys) auto

lemma sort_key_snoc: "(\<And>x. x \<in> set xs \<Longrightarrow> f x \<le> f m) \<Longrightarrow> sort_key f (xs @ [m]) = sort_key f xs @ [m]"
  by (induction xs) (simp_all add: insort_key_snoc)

text \<open>
  Without a history in the request, the prompt is made of the twenty oldest messages of the conversation: from the
  twenty-first on, a new message does not reach the provider.
\<close>
theorem latest_message_not_in_prompt:
  assumes "history \<in> {None, Some []}" "20 \<le> length (messages_of c s)" "ms_conversationId m = c"
    "\<And>x. x \<in> set (ai_messages s) \<Longrightarrow> ms_createdAt x \<le> ms_createdAt m"
  shows "buildPromptMessages user c history inc ctx images injected (s\<lparr>ai_messages := ai_messages s @ [m]\<rparr>) =
    buildPromptMessages user c history inc ctx images injected s"
proof -
  have "messages_of c (s\<lparr>ai_messages := ai_messages s @ [m]\<rparr>) = messages_of c s @ [m]"
    using assms(3,4) sort_key_snoc [of "filter (\<lambda>x. ms_conversationId x = c) (ai_messages s)" ms_createdAt m]
    by (simp add: messages_of_def)
  then have "take 20 (messages_of c (s\<lparr>ai_messages := ai_messages s @ [m]\<rparr>)) = take 20 (messages_of c s)"
    using assms(2) by simp
  then show ?thesis using assms(1) by (auto simp: buildPromptMessages_def)
qed

section \<open>Providers\<close>

definition answers :: "ai_deps \<Rightarrow> prompt_message list \<Rightarrow> provider \<Rightarrow> bool" where
  "answers D ms q \<longleftrightarrow> (case provider_chat D q ms of Inl _ \<Rightarrow> False | Inr _ \<Rightarrow> True)"

lemma try_providers_iff:
  "try_providers D ms ps es = Inr r \<longleftrightarrow> (\<exists>p. List.find (answers D ms) ps = Some p \<and> provider_chat D p ms = Inr r)"
  by (induction ps arbitrary: es) (auto simp: answers_def split: sum.splits)

lemma try_providers_Inl:
  "try_providers D ms ps es = Inl es' \<Longrightarrow>
     es' = es @ map (\<lambda>q. provider_name q @ '': '' @ exn_message (projl (provider_chat D q ms))) ps \<and>
     List.find (answers D ms) ps = None"
  by (induction ps arbitrary: es) (fastforce simp: answers_def split: sum.splits)+

definition order_of_providers :: "ai_deps \<Rightarrow> provider list" where
  "order_of_providers D = filter (provider_available D) (getProvidersByPreference D)"

definition out_of_memory :: "ai_deps \<Rightarrow> prompt_message list \<Rightarrow> provider \<Rightarrow> bool" where
  "out_of_memory D ms q \<longleftrightarrow> is_memory_error (provider_name q @ '': '' @ exn_message (projl (provider_chat D q ms)))"

text \<open>
  The answer of a chat comes from the first available provider in the configured order that does not fail; the only
  other answer is the fixed text for an image, when every provider failed and one of them for lack of memory.
\<close>
theorem completion_from_first_success:
  "generateCompletion D ms hasImages = Inr r \<longleftrightarrow>
     (case List.find (answers D ms) (order_of_providers D) of
        Some p \<Rightarrow> provider_chat D p ms = Inr r
      | None \<Rightarrow> hasImages \<and> list_ex (out_of_memory D ms) (order_of_providers D) \<and> r = vision_fallback)"
proof (cases "try_providers D ms (order_of_providers D) []")
  case (Inl es)
  note f = try_providers_Inl [OF Inl]
  have "list_ex is_memory_error es \<longleftrightarrow> list_ex (out_of_memory D ms) (order_of_providers D)"
    using f by (simp add: list_ex_iff out_of_memory_def)
  then show ?thesis using Inl f unfolding generateCompletion_def Let_def order_of_providers_def [symmetric] by auto
next
  case (Inr x)
  then obtain p where p: "List.find (answers D ms) (order_of_providers D) = Some p" "provider_chat D p ms = Inr x"
    unfolding try_providers_iff by blast
  then have "order_of_providers D \<noteq> []" by auto
  then show ?thesis using Inr p unfolding generateCompletion_def Let_def order_of_providers_def [symmetric] by simp
qed

section \<open>The guard of the vm service\<close>

text \<open>
  A request with a bearer token, as the assistant sends it, and a route behind a guard: where the guard
  refuses, the route answers 401 or not at all.
\<close>

definition bearer_request :: "request \<Rightarrow> string \<Rightarrow> request" where
  "bearer_request base tok = base\<lparr>authorization := Some (''Bearer '' @ tok)\<rparr>"

definition behind_guard :: "(request \<Rightarrow> exn + auth_user) \<Rightarrow> request \<Rightarrow> string \<Rightarrow> 'a fetch_result \<Rightarrow> bool" where
  "behind_guard guard base tok response \<longleftrightarrow>
     (case guard (bearer_request base tok) of
        Inl _ \<Rightarrow> (case response of FetchFail \<Rightarrow> True | Response st _ _ \<Rightarrow> st = 401)
      | Inr _ \<Rightarrow> True)"

lemma internal_token_refused:
  assumes "createInternalToken D user = Inr tok" "\<And>t. bearer (Some (''Bearer '' @ t)) = Some t"
    "\<And>secret secret' p q. verify secret (sign_access D secret' p) = Some q \<Longrightarrow> q = p"
  shows "\<exists>e. jwt_guard sha verify bearer pe (bearer_request base tok) = Inl e"
proof -
  obtain secret p where p: "tok = sign_access D secret p" "fp p = None"
    using assms(1) by (auto simp: createInternalToken_def Let_def split: if_splits)
  have "jwt_token bearer (bearer_request base tok) = Inr (Some tok)"
    using assms(2) by (simp add: jwt_token_def bearer_request_def)
  moreover have "\<exists>e. jwt_validate sha req q = Inl e" if "verify k tok = Some q" for k q req
    using assms(3) [of k secret p q] that p by (simp add: jwt_validate_def Let_def)
  ultimately show ?thesis by (auto simp: jwt_guard_def split: sum.split option.split)
qed

text \<open>
  C31: the assistant cannot act. It signs its internal token without a fingerprint, and the guard of the vm service
  refuses such a token from every address; so no machine is ever in the context of a chat, no action is ever
  offered, and a confirmation never succeeds.
\<close>
theorem assistant_never_acts:
  assumes "\<And>t. bearer (Some (''Bearer '' @ t)) = Some t"
    "\<And>secret secret' p q. verify secret (sign_access D secret' p) = Some q \<Longrightarrow> q = p"
    "\<And>tok. behind_guard (jwt_guard sha verify bearer pe) base tok (fetch_vms D tok)"
    "\<And>r. behind_guard (jwt_guard sha verify bearer pe) base (ar_token r) (fetch_action D r)"
  shows "(case fst (chat D user dto s) of Inl _ \<Rightarrow> True | Inr r \<Rightarrow> rs_pendingAction r = None) \<and>
    (\<exists>e. fst (confirmAction D user dto' s) = Inl e)"
proof
  have refused: "\<exists>e. jwt_guard sha verify bearer pe (bearer_request base tok) = Inl e" if "createInternalToken D user = Inr tok" for tok
    by (rule internal_token_refused [OF that]) (use assms(1,2) in blast)+
  show "case fst (chat D user dto s) of Inl _ \<Rightarrow> True | Inr r \<Rightarrow> rs_pendingAction r = None"
  proof (cases "chat D user dto s")
    case (Pair x t)
    show ?thesis
    proof (cases x)
      case (Inr r)
      obtain ctx where c: "fetchAppContext D user = Inr ctx"
        "detectPendingAction D (sanitizeUserMessage (cd_message dto)) user (ctx_vms ctx) = Inr (rs_pendingAction r)"
        using chat_offers [of D user dto s r t] Pair Inr by auto
      obtain tok where tok: "createInternalToken D user = Inr tok"
        using c(1) by (auto simp: fetchAppContext_def split: sum.splits)
      have "fetch_vms D tok = FetchFail \<or> (\<exists>w b. fetch_vms D tok = Response 401 w b)"
        using assms(3) [of tok] refused [OF tok] by (cases "fetch_vms D tok") (auto simp: behind_guard_def)
      then have "ctx_vms ctx = []"
        using c(1) tok by (auto simp: fetchAppContext_def settled_def response_ok_def split: sum.splits)
      then have "rs_pendingAction r = None" using c(2) by (auto simp: detectPendingAction_def split: option.splits)
      then show ?thesis using Pair Inr by simp
    qed (simp add: Pair)
  qed
  show "\<exists>e. fst (confirmAction D user dto' s) = Inl e"
  proof (cases "\<exists>p tok. confirmed D user dto' p \<and> createInternalToken D user = Inr tok")
    case True
    then obtain p tok where p: "confirmed D user dto' p" "createInternalToken D user = Inr tok" by blast
    have "behind_guard (jwt_guard sha verify bearer pe) base tok (fetch_action D (request_for p tok))"
      using assms(4) [of "request_for p tok"] by (simp add: request_for_def)
    then have "\<exists>e. action_outcome p (fetch_action D (request_for p tok)) = Inl e"
      using refused [OF p(2)] by (auto simp: behind_guard_def action_outcome_def response_ok_def Let_def split: fetch_result.splits)
    then show ?thesis using confirmAction_confirmed [OF p, of s] by (auto simp: bnd_eq)
  next
    case False
    then show ?thesis using confirmAction_unconfirmed [of D user dto' s] by auto
  qed
qed

section \<open>Examples\<close>

text \<open>Tokens for the examples: the fields in base 64, with dots between them.\<close>

definition sample_sign :: "string \<Rightarrow> action_payload \<Rightarrow> string" where
  "sample_sign secret q = b64_encode (ap_sub q) @ CHR ''.'' # b64_encode (ap_vmId q) @ CHR ''.'' # b64_encode (ap_vmName q) @
     CHR ''.'' # b64_encode (ap_action q)"

definition sample_verify :: "string \<Rightarrow> string \<Rightarrow> action_payload option" where
  "sample_verify secret t =
     (case split_on CHR ''.'' t of
        [a, b, c, d] \<Rightarrow> Some \<lparr>ap_sub = b64_decode a, ap_vmId = b64_decode b, ap_vmName = b64_decode c, ap_action = b64_decode d\<rparr>
      | _ \<Rightarrow> None)"

lemma sample_verify_sign: "sample_verify secret (sample_sign secret q) = Some q"
  by (simp add: sample_verify_def sample_sign_def split_on_append split_on_single b64_encode_no_dot)

definition access_sign :: "string \<Rightarrow> jwt_payload \<Rightarrow> string" where
  "access_sign secret p = b64_encode (sub p) @ CHR ''.'' # b64_encode (jwt_email p) @ CHR ''.'' # b64_encode (jwt_role p) @
     (case fp p of None \<Rightarrow> [] | Some f \<Rightarrow> CHR ''.'' # b64_encode f)"

definition access_verify :: "string \<Rightarrow> string \<Rightarrow> jwt_payload option" where
  "access_verify secret t =
     (case split_on CHR ''.'' t of
        [a, b, c] \<Rightarrow> Some \<lparr>sub = b64_decode a, jwt_email = b64_decode b, jwt_role = b64_decode c, fp = None\<rparr>
      | [a, b, c, d] \<Rightarrow> Some \<lparr>sub = b64_decode a, jwt_email = b64_decode b, jwt_role = b64_decode c, fp = Some (b64_decode d)\<rparr>
      | _ \<Rightarrow> None)"

lemma access_verify_sign: "access_verify secret (access_sign secret' p) = Some p"
  by (cases "fp p") (simp_all add: access_verify_def access_sign_def split_on_append split_on_single b64_encode_no_dot)

definition sample_uuid :: string where
  "sample_uuid = ''0a1b2c3d-1111-4222-8333-0123456789ab''"

text \<open>Services that answer everything, and ones behind the guard.\<close>

definition open_deps :: ai_deps where
  "open_deps = \<lparr>ai_env = [''JWT_SECRET'' \<mapsto> ''s'', ''AI_ACTION_CONFIRM_SECRET'' \<mapsto> ''k''], ai_now = 5, new_conversation = ''c1'',
     user_message = ''m1'', reply_message = ''m2'', sign_access = access_sign, sign_action = sample_sign, verify_action = sample_verify,
     fetch_stats = (\<lambda>_. FetchFail), fetch_vms = (\<lambda>_. Response 200 [] (Some (VmArray [\<lparr>it_id = sample_uuid, it_name = ''web'', it_status = ''RUNNING''\<rparr>]))),
     fetch_profile = (\<lambda>_. FetchFail), fetch_action = (\<lambda>_. Response 200 [] (Some None)),
     fetch_ollama = (\<lambda>_ _. FetchFail), fetch_openrouter = (\<lambda>_ _. FetchFail)\<rparr>"

definition guarded_deps :: ai_deps where
  "guarded_deps = open_deps\<lparr>fetch_vms := (\<lambda>_. Response 401 [] None), fetch_action := (\<lambda>_. Response 401 [] None)\<rparr>"

definition ai_user :: "id \<Rightarrow> auth_user" where
  "ai_user i = \<lparr>au_userId = i, au_email = ''a@b.c'', au_role = ''USER''\<rparr>"

definition ai_dto :: "string \<Rightarrow> id option \<Rightarrow> chat_dto" where
  "ai_dto w c = \<lparr>cd_message = w, cd_conversationId = c, cd_includeContext = None, cd_history = None, cd_images = None\<rparr>"

definition ai_empty :: ai_state where
  "ai_empty = \<lparr>conversations = [], ai_messages = [], sent_actions = []\<rparr>"

definition offer :: pending_action where
  "offer = \<lparr>pa_action = ''stop'', pa_vmId = sample_uuid, pa_vmName = ''web'',
     confirmationToken = sample_sign ''k'' \<lparr>ap_sub = ''u1'', ap_vmId = sample_uuid, ap_vmName = ''web'', ap_action = ''stop''\<rparr>\<rparr>"

definition offering_chat :: "(exn + chat_response) \<times> ai_state" where
  "offering_chat = chat open_deps (ai_user ''u1'') (ai_dto ''please stop web'' None) ai_empty"

lemma sample_is_uuid: "is_uuid sample_uuid"
  by code_simp

lemma offering_chat_ok: "map_sum (\<lambda>_. ()) rs_pendingAction (fst offering_chat) = Inr (Some offer)"
  by code_simp

theorem foreign_conversation_refused_witness:
  "chat open_deps (ai_user ''u2'') (ai_dto ''hi'' (Some ''c1'')) (snd offering_chat) =
     (Inl (NotFound ''Conversation not found''), snd offering_chat) \<and>
   getMessages (ai_user ''u2'') ''c1'' (snd offering_chat) = (Inl (NotFound ''Conversation not found''), snd offering_chat)"
proof -
  have "\<not> owns (au_userId (ai_user ''u2'')) ''c1'' (snd offering_chat)" by code_simp
  then show ?thesis by (rule foreign_conversation_refused) (simp_all add: ai_dto_def)
qed

lemma offering_chat_run:
  obtains r where "chat open_deps (ai_user ''u1'') (ai_dto ''please stop web'' None) ai_empty = (Inr r, snd offering_chat)"
    "rs_pendingAction r = Some offer"
  using offering_chat_ok by (cases "fst offering_chat") (auto simp: offering_chat_def prod_eq_iff)

theorem chat_appends_question_and_answer_witness:
  "\<exists>q a. ai_messages (snd offering_chat) = [q, a] \<and> ms_content q = ''please stop web'' \<and> ms_role a = AssistantRole"
proof -
  obtain r where "chat open_deps (ai_user ''u1'') (ai_dto ''please stop web'' None) ai_empty = (Inr r, snd offering_chat)"
    by (rule offering_chat_run)
  from chat_appends_question_and_answer [OF this] obtain q where
    "ai_messages (snd offering_chat) = ai_messages ai_empty @ [q, rs_message r]"
    "ms_content q = sanitizeUserMessage (cd_message (ai_dto ''please stop web'' None))" "ms_role (rs_message r) = AssistantRole" by blast
  moreover have "sanitizeUserMessage (cd_message (ai_dto ''please stop web'' None)) = ''please stop web''" by code_simp
  ultimately show ?thesis by (simp add: ai_empty_def)
qed

definition sample_confirm :: confirm_dto where
  "sample_confirm = \<lparr>cf_token = confirmationToken offer, cf_conversationId = None\<rparr>"

definition internal_token :: string where
  "internal_token = access_sign ''s'' \<lparr>sub = ''u1'', jwt_email = ''a@b.c'', jwt_role = ''USER'', fp = None\<rparr>"

lemma internal_token_eq: "createInternalToken open_deps (ai_user ''u1'') = Inr internal_token"
  by (simp add: createInternalToken_def open_deps_def ai_user_def internal_token_def)

theorem offered_action_confirmed_witness:
  "fst (confirmAction open_deps (ai_user ''u2'') sample_confirm (snd offering_chat)) =
     Inl (Unauthorized ''Confirmation token does not belong to current user'') \<and>
   sent_actions (snd (confirmAction open_deps (ai_user ''u1'') sample_confirm (snd offering_chat))) =
     [\<lparr>ar_vmId = sample_uuid, ar_token = internal_token, ar_action = ''stop''\<rparr>]"
proof -
  obtain r where r: "chat open_deps (ai_user ''u1'') (ai_dto ''please stop web'' None) ai_empty = (Inr r, snd offering_chat)"
    "rs_pendingAction r = Some offer" by (rule offering_chat_run)
  have v: "verify_action open_deps k (sign_action open_deps k q) = Some q" for k q
    by (simp add: open_deps_def sample_verify_sign)
  have f: "fetch_action open_deps \<lparr>ar_vmId = pa_vmId offer, ar_token = internal_token, ar_action = pa_action offer\<rparr> = Response 200 [] (Some None)"
    by (simp add: open_deps_def)
  have "au_userId (ai_user ''u2'') \<noteq> au_userId (ai_user ''u1'')" by (simp add: ai_user_def)
  from offered_action_confirmed [OF r v f internal_token_eq this, of None]
  have "\<exists>m. confirmAction open_deps (ai_user ''u1'') sample_confirm (snd offering_chat) =
      (Inr m, (snd offering_chat)\<lparr>sent_actions := sent_actions (snd offering_chat) @
        [\<lparr>ar_vmId = pa_vmId offer, ar_token = internal_token, ar_action = pa_action offer\<rparr>]\<rparr>)"
    "confirmAction open_deps (ai_user ''u2'') sample_confirm (snd offering_chat) =
      (Inl (Unauthorized ''Confirmation token does not belong to current user''), snd offering_chat)"
    unfolding sample_confirm_def by blast+
  moreover have "sent_actions (snd offering_chat) = []" by code_simp
  ultimately show ?thesis by (auto simp: offer_def)
qed

definition long_conversation :: ai_state where
  "long_conversation = \<lparr>conversations = [], ai_messages = map (\<lambda>i. \<lparr>ms_id = show_nat i, ms_conversationId = ''c1'', ms_role = UserRole,
     ms_content = show_nat i, ms_provider = None, ms_model = None, ms_createdAt = int i\<rparr>) [0..<20], sent_actions = []\<rparr>"

definition late_question :: message_row where
  "late_question = \<lparr>ms_id = ''q'', ms_conversationId = ''c1'', ms_role = UserRole, ms_content = ''is my VM up?'', ms_provider = None,
     ms_model = None, ms_createdAt = 99\<rparr>"

definition no_context :: app_context where
  "no_context = \<lparr>ctx_stats = zero_stats, ctx_vms = [], ctx_quota = None\<rparr>"

theorem latest_message_not_in_prompt_witness:
  "buildPromptMessages (ai_user ''u1'') ''c1'' None False no_context [] False (long_conversation\<lparr>ai_messages := ai_messages long_conversation @ [late_question]\<rparr>) =
   buildPromptMessages (ai_user ''u1'') ''c1'' None False no_context [] False long_conversation"
  by (rule latest_message_not_in_prompt)
    (auto simp: long_conversation_def late_question_def messages_of_def comp_def)

abbreviation sample_guard :: "request \<Rightarrow> exn + auth_user" where
  "sample_guard \<equiv> jwt_guard (\<lambda>x. x) access_verify (map_option (drop 7)) sample_secret_env"

lemma sample_behind_guard: "behind_guard sample_guard sample_request t (Response 401 [] None)"
  by (simp add: behind_guard_def split: sum.split)

theorem assistant_never_acts_witness:
  "\<exists>e. fst (confirmAction guarded_deps (ai_user ''u1'') sample_confirm (snd offering_chat)) = Inl e"
proof -
  have "(case fst (chat guarded_deps (ai_user ''u1'') (ai_dto ''please stop web'' None) (snd offering_chat)) of
        Inl _ \<Rightarrow> True | Inr r \<Rightarrow> rs_pendingAction r = None) \<and>
      (\<exists>e. fst (confirmAction guarded_deps (ai_user ''u1'') sample_confirm (snd offering_chat)) = Inl e)"
    by (rule assistant_never_acts [where bearer = "map_option (drop 7)" and verify = access_verify and sha = "\<lambda>x. x"
          and pe = sample_secret_env and base = sample_request])
      (simp_all add: guarded_deps_def open_deps_def access_verify_sign sample_behind_guard)
  then show ?thesis by blast
qed

end
