(* ===== verification/Ai_Chat_Gateway.thy ===== *)
theory Ai_Chat_Gateway
  imports Ai_Service Web_Socket Rate_Window
begin

text \<open>
  \<open>services/ai/src/ai/ai-chat.gateway.ts\<close>: the chat over a socket, and the guard of
  \<open>services/ai/src/common/guards/ai-rate-limit.guard.ts\<close>. The functions on cookies, addresses and
  fingerprints are those of \<open>Web_Socket\<close>, with the same text.

  The state keeps what the gateway emitted to each socket and which sockets it closed. Closing a
  socket runs the handler of disconnections. The requests carry the types that the source declares.
\<close>

section \<open>State\<close>

datatype ai_event =
    AiMeta string id id "string option" "string option" "pending_action option"
  | AiChunk string string
  | AiDone string
  | AiError string string

record ai_gateway =
  gw_ai :: ai_state
  gw_users :: "(string, auth_user) js_map"
  eventRateWindowStats :: "(string, int \<times> nat) js_map"
  gw_emitted :: "(string \<times> ai_event) list"
  gw_closed :: "string list"

record ai_socket_deps =
  as_sha256 :: "string \<Rightarrow> string"
  as_verify :: "string \<Rightarrow> jwt_payload option"
  as_service :: ai_deps
  fresh_request_id :: string

definition maxEventsPerSecond :: nat where
  "maxEventsPerSecond = 2"

section \<open>Connections\<close>

definition ai_handleDisconnect :: "string \<Rightarrow> ai_gateway \<Rightarrow> ai_gateway" where
  "ai_handleDisconnect i s = s\<lparr>eventRateWindowStats := map_delete i (eventRateWindowStats s), gw_users := map_delete i (gw_users s)\<rparr>"

definition ai_disconnect :: "string \<Rightarrow> ai_gateway \<Rightarrow> ai_gateway" where
  "ai_disconnect i s = ai_handleDisconnect i (s\<lparr>gw_closed := gw_closed s @ [i]\<rparr>)"

definition ai_handleConnection :: "ai_socket_deps \<Rightarrow> socket \<Rightarrow> ai_gateway \<Rightarrow> ai_gateway" where
  "ai_handleConnection D client s =
     (case socket_token client of
        Inl _ \<Rightarrow> ai_disconnect (so_id client) s
      | Inr token \<Rightarrow>
          if \<not> truthy token then ai_disconnect (so_id client) s
          else case as_verify D (the token) of
              None \<Rightarrow> ai_disconnect (so_id client) s
            | Some payload \<Rightarrow>
                if \<not> truthy (fp payload) \<or> fp payload \<noteq> Some (buildSocketFingerprint (as_sha256 D) client)
                then ai_disconnect (so_id client) s
                else s\<lparr>gw_users := map_set (so_id client)
                       \<lparr>au_userId = sub payload, au_email = jwt_email payload, au_role = jwt_role payload\<rparr> (gw_users s)\<rparr>)"

section \<open>Messages\<close>

definition ai_emit :: "string \<Rightarrow> ai_event \<Rightarrow> ai_gateway \<Rightarrow> ai_gateway" where
  "ai_emit i ev s = s\<lparr>gw_emitted := gw_emitted s @ [(i, ev)]\<rparr>"

definition allowEventRate :: "time \<Rightarrow> string \<Rightarrow> ai_gateway \<Rightarrow> bool \<times> ai_gateway" where
  "allowEventRate now i s =
     (case map_get (eventRateWindowStats s) i of
        None \<Rightarrow> (True, s\<lparr>eventRateWindowStats := map_set i (now, 1) (eventRateWindowStats s)\<rparr>)
      | Some (windowStartMs, countInWindow) \<Rightarrow>
          if now - windowStartMs \<ge> 1000
          then (True, s\<lparr>eventRateWindowStats := map_set i (now, 1) (eventRateWindowStats s)\<rparr>)
          else (countInWindow + 1 \<le> maxEventsPerSecond,
                s\<lparr>eventRateWindowStats := map_set i (windowStartMs, countInWindow + 1) (eventRateWindowStats s)\<rparr>))"

text \<open>\<open>content.split(/(\s+)/).filter(Boolean)\<close>: the runs of white space and of other characters.\<close>

function split_runs :: "string \<Rightarrow> string list" where
  "split_runs [] = []"
| "split_runs (c # cs) =
     (c # takeWhile (\<lambda>d. is_ws d = is_ws c) cs) # split_runs (dropWhile (\<lambda>d. is_ws d = is_ws c) cs)"
  by pat_completeness auto
termination by (relation "measure length") (auto simp: less_Suc_eq_le length_dropWhile_le)

record ai_payload =
  ax_requestId :: "string option"
  ax_message :: "string option"
  ax_conversationId :: "id option"
  ax_includeContext :: "bool option"
  ax_images :: "string list option"

definition payload_dto :: "ai_payload \<Rightarrow> chat_dto" where
  "payload_dto p = \<lparr>cd_message = the (ax_message p), cd_conversationId = ax_conversationId p,
     cd_includeContext = ax_includeContext p, cd_history = None, cd_images = ax_images p\<rparr>"

definition reply_events :: "string \<Rightarrow> chat_response \<Rightarrow> ai_event list" where
  "reply_events requestId r =
     AiMeta requestId (rs_conversationId r) (ms_id (rs_message r)) (ms_provider (rs_message r)) (ms_model (rs_message r)) (rs_pendingAction r) #
     map (AiChunk requestId) (split_runs (ms_content (rs_message r))) @ [AiDone requestId]"

definition run_chat :: "ai_socket_deps \<Rightarrow> string \<Rightarrow> string \<Rightarrow> auth_user \<Rightarrow> ai_payload \<Rightarrow> ai_gateway \<Rightarrow> ai_gateway" where
  "run_chat D i requestId user p s =
     (case chat (as_service D) user (payload_dto p) (gw_ai s) of
        (Inr r, ai') \<Rightarrow> s\<lparr>gw_ai := ai', gw_emitted := gw_emitted s @ map (Pair i) (reply_events requestId r)\<rparr>
      | (Inl e, ai') \<Rightarrow> ai_emit i (AiError requestId (exn_message e)) (s\<lparr>gw_ai := ai'\<rparr>))"

definition handleAiChat :: "ai_socket_deps \<Rightarrow> time \<Rightarrow> string \<Rightarrow> ai_payload \<Rightarrow> ai_gateway \<Rightarrow> ai_gateway" where
  "handleAiChat D now i p s =
     (let requestId = or_opt (ax_requestId p) (fresh_request_id D) in
      case map_get (gw_users s) i of
        None \<Rightarrow> ai_emit i (AiError requestId ''Unauthorized socket session'') s
      | Some user \<Rightarrow>
          if \<not> truthy (ax_message p) then ai_emit i (AiError requestId ''Message is required'') s
          else case allowEventRate now i s of
              (False, s') \<Rightarrow>
                ai_disconnect i (ai_emit i (AiError requestId ''Too many chat messages. Maximum 2 messages per second.'') s')
            | (True, s') \<Rightarrow> run_chat D i requestId user p s')"

section \<open>The guard on requests\<close>

definition guard_windowMs :: int where
  "guard_windowMs = 60000"

definition guard_maxRequests :: "process_env \<Rightarrow> rat option" where
  "guard_maxRequests pe = map_option (max 1) (js_Number (or_opt (pe ''AI_RATE_LIMIT_PER_MIN'') ''20''))"

definition guard_key :: "auth_user option \<Rightarrow> string option \<Rightarrow> string" where
  "guard_key user ip = or_opt (map_option au_userId user) (or_opt ip ''anonymous'')"

definition guard_canActivate :: "rat option \<Rightarrow> time \<Rightarrow> string \<Rightarrow> (string, int list) js_map \<Rightarrow> (exn + bool) \<times> (string, int list) js_map" where
  "guard_canActivate maxRequests now key hits =
     (let previous = nullish (map_get hits key) []; recent = filter (\<lambda>ts. now - ts \<le> guard_windowMs) previous in
      if (case maxRequests of None \<Rightarrow> False | Some m \<Rightarrow> of_nat (length recent) \<ge> m)
      then (Inl (TooManyRequests ''Too many AI requests. Please retry in a moment.''), hits)
      else (Inr True, map_set key (recent @ [now]) hits))"

section \<open>The chunks are the answer\<close>

lemma concat_split_runs: "concat (split_runs w) = w"
  by (induction w rule: split_runs.induct) simp_all

lemma split_runs_nonempty: "x \<in> set (split_runs w) \<Longrightarrow> x \<noteq> []"
  by (induction w rule: split_runs.induct) auto

definition chunk_texts :: "string \<Rightarrow> ai_event list \<Rightarrow> string" where
  "chunk_texts requestId evs = concat (map (\<lambda>ev. case ev of AiChunk q w \<Rightarrow> if q = requestId then w else [] | _ \<Rightarrow> []) evs)"

text \<open>
  The chunks that a socket receives for a request, put together, are the stored answer, white space included;
  they stand between the one announcement and the one end mark, and none of them is empty.
\<close>
theorem chunks_reassemble:
  "reply_events q r = hd (reply_events q r) # map (AiChunk q) (split_runs (ms_content (rs_message r))) @ [AiDone q] \<and>
   chunk_texts q (reply_events q r) = ms_content (rs_message r) \<and> [] \<notin> set (split_runs (ms_content (rs_message r)))"
proof -
  have "concat (map (\<lambda>ev. case ev of AiChunk q' w \<Rightarrow> if q' = q then w else [] | _ \<Rightarrow> []) (map (AiChunk q) ws)) = concat ws" for ws
    by (induction ws) simp_all
  then have "chunk_texts q (reply_events q r) = ms_content (rs_message r)"
    by (simp add: chunk_texts_def reply_events_def concat_split_runs)
  then show ?thesis using split_runs_nonempty by (auto simp: reply_events_def)
qed

section \<open>Who chats\<close>

definition token_user :: "jwt_payload \<Rightarrow> auth_user" where
  "token_user p = \<lparr>au_userId = sub p, au_email = jwt_email p, au_role = jwt_role p\<rparr>"

definition admits :: "ai_socket_deps \<Rightarrow> socket \<Rightarrow> jwt_payload \<Rightarrow> bool" where
  "admits D client p \<longleftrightarrow> (\<exists>tok. socket_token client = Inr (Some tok) \<and> as_verify D tok = Some p \<and>
     fp p = Some (buildSocketFingerprint (as_sha256 D) client))"

lemma handleConnection_cases:
  obtains "ai_handleConnection D client s = ai_disconnect (so_id client) s"
  | p where "admits D client p" "ai_handleConnection D client s = s\<lparr>gw_users := map_set (so_id client) (token_user p) (gw_users s)\<rparr>"
proof (cases "socket_token client")
  case (Inl e)
  then show thesis using that(1) by (simp add: ai_handleConnection_def)
next
  case (Inr token)
  show thesis
  proof (cases "truthy token \<and> as_verify D (the token) \<noteq> None")
    case True
    then obtain tok p where p: "token = Some tok" "tok \<noteq> []" "as_verify D tok = Some p" by (cases token) auto
    then show thesis using Inr that
      by (cases "truthy (fp p) \<and> fp p = Some (buildSocketFingerprint (as_sha256 D) client)")
        (auto simp: ai_handleConnection_def admits_def token_user_def)
  next
    case False
    then show thesis using Inr that(1) by (auto simp: ai_handleConnection_def)
  qed
qed

lemma disconnect_users: "gw_users (ai_disconnect i s) = map_delete i (gw_users s)" "gw_ai (ai_disconnect i s) = gw_ai s"
  by (simp_all add: ai_disconnect_def ai_handleDisconnect_def)

lemma handleConnection_users:
  assumes "map_get (gw_users (ai_handleConnection D client s)) i = Some u"
  shows "map_get (gw_users s) i = Some u \<or> i = so_id client \<and> (\<exists>p. admits D client p \<and> u = token_user p)"
proof (rule handleConnection_cases [of D client s])
  assume "ai_handleConnection D client s = ai_disconnect (so_id client) s"
  then show ?thesis using assms js_map.get_remove [of "so_id client" "gw_users s" i] by (simp add: disconnect_users split: if_splits)
next
  fix p assume "admits D client p" "ai_handleConnection D client s = s\<lparr>gw_users := map_set (so_id client) (token_user p) (gw_users s)\<rparr>"
  then show ?thesis using assms js_map.get_put [of "so_id client" "token_user p" "gw_users s" i] by (auto split: if_splits)
qed

lemma allowEventRate_frame:
  "allowEventRate now i s = (ok, s') \<Longrightarrow> gw_users s' = gw_users s \<and> gw_ai s' = gw_ai s"
  by (auto simp: allowEventRate_def split: option.splits if_splits)

lemma run_chat_frame:
  "gw_users (run_chat D i q u p s) = gw_users s" "gw_ai (run_chat D i q u p s) = snd (chat (as_service D) u (payload_dto p) (gw_ai s))"
  by (simp_all add: run_chat_def ai_emit_def split: prod.split sum.split)

lemma emit_frame: "gw_users (ai_emit i ev s) = gw_users s" "gw_ai (ai_emit i ev s) = gw_ai s"
  by (simp_all add: ai_emit_def)

lemma handleAiChat_cases:
  obtains "gw_users (handleAiChat D now i p s) = gw_users s" "gw_ai (handleAiChat D now i p s) = gw_ai s"
  | "gw_users (handleAiChat D now i p s) = map_delete i (gw_users s)" "gw_ai (handleAiChat D now i p s) = gw_ai s"
  | u where "map_get (gw_users s) i = Some u" "gw_users (handleAiChat D now i p s) = gw_users s"
    "gw_ai (handleAiChat D now i p s) = snd (chat (as_service D) u (payload_dto p) (gw_ai s))"
proof -
  note d = handleAiChat_def Let_def emit_frame run_chat_frame disconnect_users
  obtain ok s' where ok: "allowEventRate now i s = (ok, s')" by fastforce
  note frame = allowEventRate_frame [OF ok]
  show thesis
  proof (cases "map_get (gw_users s) i")
    case None
    then show thesis using that(1) by (simp add: d)
  next
    case (Some u)
    show thesis
    proof (cases "truthy (ax_message p)")
      case True
      then show thesis using that(2,3) Some ok frame by (cases ok) (simp_all add: d)
    qed (use that(1) Some in \<open>simp add: d\<close>)
  qed
qed

lemma handleAiChat_users:
  assumes "map_get (gw_users (handleAiChat D now j p s)) i = Some u"
  shows "map_get (gw_users s) i = Some u"
  by (rule handleAiChat_cases [of D now j p s]) (use assms js_map.get_remove [of j "gw_users s" i] in \<open>simp_all split: if_splits\<close>)

lemma handleAiChat_ai:
  assumes "gw_ai (handleAiChat D now i p s) \<noteq> gw_ai s"
  obtains u where "map_get (gw_users s) i = Some u"
    "gw_ai (handleAiChat D now i p s) = snd (chat (as_service D) u (payload_dto p) (gw_ai s))"
  by (rule handleAiChat_cases [of D now i p s]) (use assms that in simp_all)

text \<open>Sockets connect, send and leave in any order; \<open>cs\<close> are the handshakes so far.\<close>

inductive ai_history :: "ai_socket_deps \<Rightarrow> ai_gateway \<Rightarrow> socket list \<Rightarrow> ai_gateway \<Rightarrow> bool" for D s0 where
  start: "gw_users s0 = [] \<Longrightarrow> ai_history D s0 [] s0"
| connect: "ai_history D s0 cs s \<Longrightarrow> ai_history D s0 (client # cs) (ai_handleConnection D client s)"
| message: "ai_history D s0 cs s \<Longrightarrow> ai_history D s0 cs (handleAiChat D now i p s)"
| leave: "ai_history D s0 cs s \<Longrightarrow> ai_history D s0 cs (ai_handleDisconnect i s)"

lemma users_admitted:
  assumes "ai_history D s0 cs s" "map_get (gw_users s) i = Some u"
  shows "\<exists>client \<in> set cs. so_id client = i \<and> (\<exists>p. admits D client p \<and> u = token_user p)"
  using assms
proof (induction arbitrary: u rule: ai_history.induct)
  case (connect cs s client)
  then show ?case using handleConnection_users [OF connect.prems] by auto
next
  case (message cs s now j p)
  then show ?case using handleAiChat_users [OF message.prems] by blast
next
  case (leave cs s j)
  then show ?case by (auto simp: ai_handleDisconnect_def js_map.get_remove split: if_splits)
qed simp

text \<open>
  In every history a message of a socket reaches the assistant only when the handshake of that socket carried a
  verified token with the fingerprint of the socket, and then the chat runs in the name of that token.
\<close>
theorem socket_chat_authorised:
  assumes "ai_history D s0 cs s" "gw_ai (handleAiChat D now i p s) \<noteq> gw_ai s"
  shows "\<exists>client \<in> set cs. \<exists>payload. so_id client = i \<and> admits D client payload \<and>
    gw_ai (handleAiChat D now i p s) = snd (chat (as_service D) (token_user payload) (payload_dto p) (gw_ai s))"
proof -
  obtain u where u: "map_get (gw_users s) i = Some u"
    "gw_ai (handleAiChat D now i p s) = snd (chat (as_service D) u (payload_dto p) (gw_ai s))"
    by (rule handleAiChat_ai [OF assms(2)])
  then show ?thesis using users_admitted [OF assms(1) u(1)] by blast
qed

section \<open>Two messages a second\<close>

interpretation ai_second: rate_window "window_step maxEventsPerSecond 1000" maxEventsPerSecond 1000
  by (rule rate_window_step) simp

lemma allowEventRate_window:
  "allowEventRate now i s = (ok, s') \<Longrightarrow>
     window_step maxEventsPerSecond 1000 now 1 (map_get (eventRateWindowStats s) i) = (ok, map_get (eventRateWindowStats s') i) \<and>
     (j \<noteq> i \<longrightarrow> map_get (eventRateWindowStats s') j = map_get (eventRateWindowStats s) j)"
  by (auto simp: allowEventRate_def window_step_def maxEventsPerSecond_def map_get_set split: option.splits if_splits)

fun rate_run :: "(time \<times> string) list \<Rightarrow> ai_gateway \<Rightarrow> (time \<times> string) list" where
  "rate_run [] s = []"
| "rate_run (x # xs) s = (case allowEventRate (fst x) (snd x) s of (ok, s') \<Rightarrow> (if ok then [x] else []) @ rate_run xs s')"

definition let_in :: "string \<Rightarrow> (time \<times> string) list \<Rightarrow> (int \<times> nat) list" where
  "let_in i xs = map (\<lambda>x. (fst x, 1)) (filter (\<lambda>x. snd x = i) xs)"

lemma rate_run_let_through:
  "let_in i (rate_run xs s) = ai_second.let_through (let_in i xs) (map_get (eventRateWindowStats s) i)"
proof (induction xs arbitrary: s)
  case (Cons x xs)
  obtain ok s' where ok: "allowEventRate (fst x) (snd x) s = (ok, s')" by fastforce
  note w = allowEventRate_window [OF ok, of i]
  show ?case using Cons [of s'] w ok by (cases "snd x = i") (auto simp: let_in_def)
qed (simp add: let_in_def)

text \<open>
  Whatever the sockets send, at most four messages of one socket get past the limit in any second, wherever it starts.
\<close>
theorem socket_messages_bounded:
  assumes "sorted (map fst xs)" "map_get (eventRateWindowStats s) i = None"
  shows "amount_in t (t + 1000) (let_in i (rate_run xs s)) \<le> 4"
proof -
  have "sorted (map fst (let_in i xs))"
    using sorted_filter [OF assms(1), of "\<lambda>x. snd x = i"] by (simp add: let_in_def comp_def)
  then show ?thesis
    using ai_second.let_through_bound [of "let_in i xs" t] assms(2) by (simp add: rate_run_let_through maxEventsPerSecond_def)
qed

section \<open>The sliding minute of the guard\<close>

fun guard_run :: "rat option \<Rightarrow> (time \<times> string) list \<Rightarrow> (string, int list) js_map \<Rightarrow> (time \<times> string) list" where
  "guard_run m [] hits = []"
| "guard_run m (x # xs) hits =
     (case guard_canActivate m (fst x) (snd x) hits of
        (Inr _, hits') \<Rightarrow> x # guard_run m xs hits'
      | (Inl _, hits') \<Rightarrow> guard_run m xs hits')"

text \<open>
  What the guard remembers of a key: all its accepted times \<open>acc\<close> that are not older than a window before some
  time \<open>low\<close> in the past.
\<close>

definition remembers :: "(string, int list) js_map \<Rightarrow> string \<Rightarrow> int list \<Rightarrow> int \<Rightarrow> bool" where
  "remembers hits key acc now \<longleftrightarrow>
     (\<exists>low \<le> now. nullish (map_get hits key) [] = filter (\<lambda>ts. low - guard_windowMs \<le> ts) acc) \<and> (\<forall>ts \<in> set acc. ts \<le> now)"

definition in_window :: "int \<Rightarrow> int list \<Rightarrow> nat" where
  "in_window t acc = length (filter (\<lambda>ts. t \<le> ts \<and> ts \<le> t + guard_windowMs) acc)"

lemma length_filter_imp: "(\<And>x. P x \<Longrightarrow> Q x) \<Longrightarrow> length (filter P xs) \<le> length (filter Q xs)"
  by (induction xs) (auto simp: le_SucI)

lemma recent_eq:
  assumes "remembers hits key acc now'" "now' \<le> now"
  shows "filter (\<lambda>ts. now - ts \<le> guard_windowMs) (nullish (map_get hits key) []) = filter (\<lambda>ts. now - guard_windowMs \<le> ts) acc"
proof -
  obtain low where "low \<le> now'" "nullish (map_get hits key) [] = filter (\<lambda>ts. low - guard_windowMs \<le> ts) acc"
    using assms(1) by (auto simp: remembers_def)
  then show ?thesis using assms(2) by (auto intro!: filter_cong)
qed

lemma guard_accepts:
  assumes "remembers hits key acc now'" "now' \<le> now" "guard_canActivate (Some m) now key hits = (Inr b, hits')"
    "\<forall>t. of_nat (in_window t acc) < m + 1" "0 < m"
  shows "remembers hits' key (acc @ [now]) now" "\<forall>t. of_nat (in_window t (acc @ [now])) < m + 1"
proof -
  let ?recent = "filter (\<lambda>ts. now - guard_windowMs \<le> ts) acc"
  have r: "of_nat (length ?recent) < m" "hits' = map_set key (?recent @ [now]) hits"
    using assms(3) recent_eq [OF assms(1,2)] by (auto simp: guard_canActivate_def Let_def split: if_splits)
  have old: "\<forall>ts \<in> set acc. ts \<le> now" using assms(1,2) by (auto simp: remembers_def)
  then show "remembers hits' key (acc @ [now]) now"
    unfolding remembers_def r(2) by (auto simp: map_get_set guard_windowMs_def)
  show "\<forall>t. of_nat (in_window t (acc @ [now])) < m + 1"
  proof
    fix t
    show "of_nat (in_window t (acc @ [now])) < m + 1"
    proof (cases "t \<le> now \<and> now \<le> t + guard_windowMs")
      case True
      have "in_window t acc \<le> length ?recent"
        unfolding in_window_def using True by (intro length_filter_imp) auto
      then have "of_nat (in_window t acc) < m" using r(1) by (meson le_less_trans of_nat_le_iff)
      then show ?thesis using True by (simp add: in_window_def)
    next
      case False
      then have "in_window t (acc @ [now]) = in_window t acc" by (auto simp: in_window_def)
      then show ?thesis using assms(4) by simp
    qed
  qed
qed

lemma guard_other: "guard_canActivate m now k hits = (r, hits') \<Longrightarrow> key \<noteq> k \<Longrightarrow> map_get hits' key = map_get hits key"
  by (auto simp: guard_canActivate_def Let_def map_get_set split: if_splits)

lemma guard_refused: "guard_canActivate m now k hits = (Inl e, hits') \<Longrightarrow> hits' = hits"
  by (auto simp: guard_canActivate_def Let_def split: if_splits)

definition accepted_times :: "string \<Rightarrow> (time \<times> string) list \<Rightarrow> int list" where
  "accepted_times key xs = map fst (filter (\<lambda>x. snd x = key) xs)"

lemma guard_run_bound:
  assumes "remembers hits key acc now" "\<forall>t. of_nat (in_window t acc) < m + 1" "0 < m"
    "sorted (map fst xs)" "\<forall>x \<in> set xs. now \<le> fst x"
  shows "of_nat (in_window t (acc @ accepted_times key (guard_run (Some m) xs hits))) < m + 1"
  using assms
proof (induction xs arbitrary: hits acc now)
  case Nil
  then show ?case by (simp add: accepted_times_def)
next
  case (Cons x xs)
  obtain r hits' where run: "guard_canActivate (Some m) (fst x) (snd x) hits = (r, hits')" by fastforce
  have later: "now \<le> fst x" "\<forall>y \<in> set xs. fst x \<le> fst y" "sorted (map fst xs)" using Cons.prems(4,5) by auto
  have keep: "remembers h key acc (fst x)" if "map_get h key = map_get hits key" for h
    using Cons.prems(1) later(1) that unfolding remembers_def by (metis order.trans)
  consider "\<exists>b. r = Inr b" "snd x = key" | "\<exists>b. r = Inr b" "snd x \<noteq> key" | "\<exists>e. r = Inl e" by (cases r) auto
  then show ?case
  proof cases
    case 1
    then have "remembers hits' key (acc @ [fst x]) (fst x)" "\<forall>t. of_nat (in_window t (acc @ [fst x])) < m + 1"
      using guard_accepts [OF Cons.prems(1) later(1) _ Cons.prems(2,3)] run by auto
    from Cons.IH [OF this Cons.prems(3) later(3,2)] show ?thesis using 1 run by (auto simp: accepted_times_def)
  next
    case 2
    then have "remembers hits' key acc (fst x)" using keep guard_other [OF run] by auto
    from Cons.IH [OF this Cons.prems(2,3) later(3,2)] show ?thesis using 2 run by (auto simp: accepted_times_def)
  next
    case 3
    then have "remembers hits' key acc (fst x)" using keep [of hits'] guard_refused [of "Some m" "fst x" "snd x" hits _ hits'] run by auto
    from Cons.IH [OF this Cons.prems(2,3) later(3,2)] show ?thesis using 3 run by (auto simp: accepted_times_def)
  qed
qed

text \<open>
  The guard on requests keeps its limit over every minute, wherever it starts: of one key never more requests than the
  limit rounded up are accepted between a time and a minute later, both included.
\<close>
theorem guard_bounded:
  assumes "sorted (map fst xs)" "guard_maxRequests pe = Some m"
  shows "of_nat (in_window t (accepted_times key (guard_run (guard_maxRequests pe) xs []))) < m + 1"
proof -
  have m: "1 \<le> m" using assms(2) by (auto simp: guard_maxRequests_def)
  define now where "now = (if xs = [] then 0 else fst (hd xs))"
  have "\<forall>x \<in> set xs. now \<le> fst x" using assms(1) by (cases xs) (auto simp: now_def)
  moreover have "remembers [] key [] now" by (auto simp: remembers_def)
  ultimately show ?thesis
    using guard_run_bound [of "[]" key "[]" now m xs t] assms m by (simp add: in_window_def)
qed

section \<open>Examples\<close>

definition quiet_gateway :: ai_gateway where
  "quiet_gateway = \<lparr>gw_ai = \<lparr>conversations = [], ai_messages = [], sent_actions = []\<rparr>, gw_users = [], eventRateWindowStats = [],
     gw_emitted = [], gw_closed = []\<rparr>"

theorem socket_messages_bounded_witness:
  "amount_in 0 1000 (let_in ''k1'' (rate_run [(0, ''k1''), (10, ''k1''), (20, ''k2''), (30, ''k1'')] quiet_gateway)) \<le> 4"
  using socket_messages_bounded [of "[(0, ''k1''), (10, ''k1''), (20, ''k2''), (30, ''k1'')]" quiet_gateway "''k1''" 0]
  by (simp add: quiet_gateway_def)

lemma third_message_refused: "rate_run [(0, ''k1''), (10, ''k1''), (30, ''k1'')] quiet_gateway = [(0, ''k1''), (10, ''k1'')]"
  by code_simp

theorem guard_bounded_witness:
  "of_nat (in_window 0 (accepted_times ''u1'' (guard_run (guard_maxRequests [''AI_RATE_LIMIT_PER_MIN'' \<mapsto> ''2'']) [(0, ''u1''), (9, ''u1''), (60000, ''u1'')] []))) < (3 :: rat)"
proof -
  have "guard_maxRequests [''AI_RATE_LIMIT_PER_MIN'' \<mapsto> ''2''] = Some 2" by code_simp
  from guard_bounded [OF _ this, of "[(0, ''u1''), (9, ''u1''), (60000, ''u1'')]" 0 "''u1''"] show ?thesis by simp
qed


definition chat_socket_deps :: ai_socket_deps where
  "chat_socket_deps = \<lparr>as_sha256 = (\<lambda>x. x),
     as_verify = (\<lambda>t. if t = ''tok'' then Some (sample_payload (Some ''10.0.0.7|curl'')) else None),
     as_service = \<lparr>ai_env = [''JWT_SECRET'' \<mapsto> ''s''], ai_now = 5, new_conversation = ''c1'', user_message = ''m1'', reply_message = ''m2'',
       sign_access = (\<lambda>_ _. ''t''), sign_action = (\<lambda>_ _. ''a''), verify_action = (\<lambda>_ _. None), fetch_stats = (\<lambda>_. FetchFail),
       fetch_vms = (\<lambda>_. FetchFail), fetch_profile = (\<lambda>_. FetchFail), fetch_action = (\<lambda>_. FetchFail),
       fetch_ollama = (\<lambda>_ _. Response 200 [] (Some \<lparr>rp_content = Some ''hello there'', rp_model = None\<rparr>)), fetch_openrouter = (\<lambda>_ _. FetchFail)\<rparr>,
     fresh_request_id = ''r1''\<rparr>"

definition hello :: ai_payload where
  "hello = \<lparr>ax_requestId = None, ax_message = Some ''hi'', ax_conversationId = None, ax_includeContext = Some False, ax_images = None\<rparr>"

theorem socket_chat_authorised_witness:
  "\<exists>client payload. so_id client = ''k1'' \<and> admits chat_socket_deps client payload \<and>
     gw_ai (handleAiChat chat_socket_deps 0 ''k1'' hello (ai_handleConnection chat_socket_deps (socket_of sample_request ''k1'') quiet_gateway)) =
     snd (chat (as_service chat_socket_deps) (token_user payload) (payload_dto hello)
       (gw_ai (ai_handleConnection chat_socket_deps (socket_of sample_request ''k1'') quiet_gateway)))"
proof -
  let ?s = "ai_handleConnection chat_socket_deps (socket_of sample_request ''k1'') quiet_gateway"
  have "ai_history chat_socket_deps quiet_gateway [socket_of sample_request ''k1''] ?s"
    by (intro ai_history.connect ai_history.start) (simp add: quiet_gateway_def)
  moreover have "conversations (gw_ai (handleAiChat chat_socket_deps 0 ''k1'' hello ?s)) \<noteq> conversations (gw_ai ?s)" by code_simp
  then have "gw_ai (handleAiChat chat_socket_deps 0 ''k1'' hello ?s) \<noteq> gw_ai ?s" by metis
  ultimately show ?thesis using socket_chat_authorised by blast
qed

end
