(* ===== verification/Auth_Totp.thy ===== *)
theory Auth_Totp
  imports Js_Number Internal_Api "HOL-Library.Word"
begin

unbundle bit_operations_syntax

text \<open>
  \<open>services/auth/src/common/security/totp.util.ts\<close>: the base-32 coding of the secret, and the
  generation and verification of time-based one-time codes.

  A \<open>Buffer\<close> is a list of bytes; the accumulator of the two loops is a 32-bit integer, as the
  shift operators of the language make it. The HMAC is a parameter.
\<close>

type_synonym buffer = "8 word list"

section \<open>Base 32\<close>

definition BASE32_ALPHABET :: string where
  "BASE32_ALPHABET = ''ABCDEFGHIJKLMNOPQRSTUVWXYZ234567''"

definition b32_char :: "32 word \<Rightarrow> char" where
  "b32_char i = BASE32_ALPHABET ! unat i"

fun b32_emit :: "nat \<Rightarrow> 32 word \<Rightarrow> string \<times> nat" where
  "b32_emit bits v =
     (if 5 \<le> bits then (case b32_emit (bits - 5) v of (out, b) \<Rightarrow> (b32_char (drop_bit (bits - 5) v AND 31) # out, b))
      else ([], bits))"

declare b32_emit.simps [simp del]

fun b32_encode_loop :: "nat \<Rightarrow> 32 word \<Rightarrow> buffer \<Rightarrow> string \<times> nat \<times> 32 word" where
  "b32_encode_loop bits v [] = ([], bits, v)"
| "b32_encode_loop bits v (x # xs) =
     (let v' = push_bit 8 v OR ucast x in
      case b32_emit (bits + 8) v' of (out, b) \<Rightarrow>
        (case b32_encode_loop b v' xs of (rest, b', v'') \<Rightarrow> (out @ rest, b', v'')))"

definition base32Encode :: "buffer \<Rightarrow> string" where
  "base32Encode buf =
     (case b32_encode_loop 0 0 buf of (out, bits, v) \<Rightarrow>
        let output = (if bits > 0 then out @ [b32_char (push_bit (5 - bits) v AND 31)] else out) in
        output @ replicate ((8 - length output mod 8) mod 8) (CHR ''=''))"

fun index_of :: "char \<Rightarrow> string \<Rightarrow> nat option" where
  "index_of c [] = None"
| "index_of c (x # xs) = (if x = c then Some 0 else map_option Suc (index_of c xs))"

fun b32_decode_loop :: "nat \<Rightarrow> 32 word \<Rightarrow> string \<Rightarrow> exn + buffer" where
  "b32_decode_loop bits v [] = Inr []"
| "b32_decode_loop bits v (c # cs) =
     (case index_of c BASE32_ALPHABET of
        None \<Rightarrow> Inl (PlainError ''Invalid base32 character'')
      | Some index \<Rightarrow>
          let v' = push_bit 5 v OR of_nat index; b = bits + 5 in
          if 8 \<le> b
          then (case b32_decode_loop (b - 8) v' cs of
                  Inl e \<Rightarrow> Inl e | Inr r \<Rightarrow> Inr (ucast (drop_bit (b - 8) v' AND 0xFF) # r))
          else b32_decode_loop b v' cs)"

definition strip_padding :: "string \<Rightarrow> string" where
  "strip_padding s = rev (dropWhile (\<lambda>c. c = CHR ''='') (rev s))"

definition base32Decode :: "string \<Rightarrow> exn + buffer" where
  "base32Decode input = b32_decode_loop 0 0 (filter (\<lambda>c. \<not> is_ws c) (strip_padding (toUpperCase input)))"

section \<open>One-time codes\<close>

definition generateTotpSecret :: "buffer \<Rightarrow> string" where
  "generateTotpSecret random20 = base32Encode random20"

definition generateMfaCode :: "nat \<Rightarrow> string" where
  "generateMfaCode random = pad_left 6 (show_nat random)"

definition buildOtpAuthUrl :: "string \<Rightarrow> string \<Rightarrow> string \<Rightarrow> string" where
  "buildOtpAuthUrl secret label issuer =
     ''otpauth://totp/'' @ encodeURIComponent label @ ''?secret='' @ secret @ ''&issuer='' @ encodeURIComponent issuer @
     ''&algorithm=SHA1&digits=6&period=30''"

text \<open>\<open>buf[i] & m\<close> is zero past the end of the buffer.\<close>

definition byte_at :: "buffer \<Rightarrow> nat \<Rightarrow> 32 word" where
  "byte_at h i = (if i < length h then ucast (h ! i) else 0)"

definition uint32_be :: "nat \<Rightarrow> buffer" where
  "uint32_be n = map (\<lambda>k. of_nat (n div 256 ^ k)) [3, 2, 1, 0]"

type_synonym hmac = "buffer \<Rightarrow> buffer \<Rightarrow> buffer"

definition totp_counter :: "time \<Rightarrow> exn + buffer" where
  "totp_counter forUnixTime =
     (let timestep = \<lfloor>js_div (js_div (of_int forUnixTime) 1000) 30\<rfloor>; high = timestep div 2 ^ 32 in
      if high < 0 \<or> 2 ^ 32 \<le> high then Inl (PlainError ''RangeError'')
      else Inr (uint32_be (nat high) @ uint32_be (nat (timestep mod 2 ^ 32))))"

definition truncate_hmac :: "buffer \<Rightarrow> string" where
  "truncate_hmac h =
     (let offset = unat (byte_at h (length h - 1) AND 0x0F);
          binary = push_bit 24 (byte_at h offset AND 0x7F) OR push_bit 16 (byte_at h (offset + 1) AND 0xFF) OR
                   push_bit 8 (byte_at h (offset + 2) AND 0xFF) OR (byte_at h (offset + 3) AND 0xFF) in
      pad_left 6 (show_nat (unat binary mod 1000000)))"

definition generateTotpCode :: "hmac \<Rightarrow> string \<Rightarrow> time \<Rightarrow> exn + string" where
  "generateTotpCode H secret forUnixTime =
     (case base32Decode secret of
        Inl e \<Rightarrow> Inl e
      | Inr secretKey \<Rightarrow> (case totp_counter forUnixTime of
          Inl e \<Rightarrow> Inl e
        | Inr counter \<Rightarrow> Inr (truncate_hmac (H secretKey counter))))"

fun try_offsets :: "hmac \<Rightarrow> string \<Rightarrow> time \<Rightarrow> string \<Rightarrow> int list \<Rightarrow> exn + bool" where
  "try_offsets H secret now code [] = Inr False"
| "try_offsets H secret now code (offset # rest) =
     (case generateTotpCode H secret (now + offset * 30000) of
        Inl e \<Rightarrow> Inl e
      | Inr candidate \<Rightarrow> if candidate = code then Inr True else try_offsets H secret now code rest)"

definition verifyTotpCode :: "hmac \<Rightarrow> time \<Rightarrow> string \<Rightarrow> string \<Rightarrow> int \<Rightarrow> exn + bool" where
  "verifyTotpCode H now secret code window =
     (let normalizedCode = trim code in
      if \<not> six_digits normalizedCode then Inr False
      else try_offsets H secret now normalizedCode [- window..window])"

section \<open>The accumulator\<close>

text \<open>Only the low \<open>bits\<close> bits of the accumulator matter; they are its value modulo a power of two.\<close>

lemma window_bits:
  fixes v :: "32 word"
  assumes "k \<le> b" "b \<le> 32"
  shows "unat (take_bit k (drop_bit (b - k) v)) = unat v mod 2 ^ b div 2 ^ (b - k)"
proof -
  have "unat (take_bit k (drop_bit (b - k) v)) = take_bit k (drop_bit (b - k) (unat v))"
    using unsigned_less [of v, where 'a = nat]
    by (simp add: unsigned_take_bit_eq unsigned_drop_bit_eq take_bit_nat_eq_self)
  also have "\<dots> = (unat v div 2 ^ (b - k)) mod 2 ^ k" by (simp only: take_bit_eq_mod drop_bit_eq_div)
  also have "\<dots> = unat v mod 2 ^ b div 2 ^ (b - k)"
    using assms mod_mult2_eq [of "unat v" "2 ^ (b - k)" "2 ^ k"] by (simp add: power_add [symmetric])
  finally show ?thesis .
qed

lemma shift_in:
  fixes v w :: "32 word"
  assumes "b + k \<le> 32" "unat w < 2 ^ k"
  shows "unat (push_bit k v OR w) mod 2 ^ (b + k) = (unat v mod 2 ^ b) * 2 ^ k + unat w"
proof -
  have w: "take_bit k (unat w) = unat w" using assms(2) by (simp add: take_bit_nat_eq_self)
  then have w': "take_bit (b + k) (unat w) = unat w"
    using assms(2) by (intro take_bit_nat_eq_self) (metis le_add2 order_less_le_trans one_le_numeral power_increasing)
  have low: "bit (unat w) n \<Longrightarrow> n < k" for n using w by (metis bit_take_bit_iff)
  have "unat (push_bit k v OR w) mod 2 ^ (b + k) = take_bit (b + k) (push_bit k (unat v)) OR unat w"
    using assms(1) w' by (simp add: unsigned_or_eq unsigned_push_bit_eq take_bit_eq_mod [symmetric] min_def)
  also have "\<dots> = push_bit k (take_bit b (unat v)) OR unat w"
    by (simp add: take_bit_push_bit)
  also have "\<dots> = push_bit k (take_bit b (unat v)) + unat w"
    by (intro disjunctive_add [symmetric]) (auto simp: bit_push_bit_iff dest: low)
  finally show ?thesis by (simp add: push_bit_eq_mult take_bit_eq_mod)
qed

lemma mod_window:
  assumes "k \<le> b"
  shows "(m :: nat) mod 2 ^ b = (m mod 2 ^ b div 2 ^ (b - k)) * 2 ^ (b - k) + m mod 2 ^ (b - k)"
proof -
  have "(2 :: nat) ^ b = 2 ^ k * 2 ^ (b - k)" using assms by (metis le_add_diff_inverse power_add)
  then have "m mod 2 ^ b mod 2 ^ (b - k) = m mod 2 ^ (b - k)" by (simp add: mod_mod_cancel)
  then show ?thesis by (metis div_mult_mod_eq)
qed

lemma unat_low_byte: "unat (ucast (take_bit 8 (w :: 32 word)) :: 8 word) = unat (take_bit 8 w)"
  by (simp add: unsigned_ucast_eq unsigned_take_bit_eq)

lemma unat_ucast_byte: "unat (ucast (x :: 8 word) :: 32 word) = unat x"
  using unsigned_less [of x, where 'a = nat] by (simp add: unsigned_ucast_eq take_bit_nat_eq_self)

lemma and_31: "(v :: 32 word) AND 31 = take_bit 5 v"
  by (simp add: take_bit_eq_mask mask_eq_exp_minus_1)

lemma and_255: "(v :: 32 word) AND 0xFF = take_bit 8 v"
  by (simp add: take_bit_eq_mask mask_eq_exp_minus_1)

section \<open>Digits\<close>

text \<open>The number whose digits of \<open>k\<close> bits are given, the most significant one first.\<close>

definition digits_number :: "nat \<Rightarrow> nat list \<Rightarrow> nat" where
  "digits_number k ds = foldl (\<lambda>a d. a * 2 ^ k + d) 0 ds"

lemma digits_number_from: "foldl (\<lambda>a d. a * 2 ^ k + d) r ds = r * 2 ^ (k * length ds) + digits_number k ds"
  unfolding digits_number_def
proof (induction ds arbitrary: r)
  case (Cons d ds)
  show ?case using Cons.IH [of "r * 2 ^ k + d"] Cons.IH [of d] by (simp add: power_add algebra_simps)
qed simp

lemma digits_number_simps [simp]:
  "digits_number k [] = 0"
  "digits_number k (d # ds) = d * 2 ^ (k * length ds) + digits_number k ds"
  "digits_number k (ds @ es) = digits_number k ds * 2 ^ (k * length es) + digits_number k es"
  using digits_number_from [of k d ds] digits_number_from [of k "digits_number k ds" es] by (simp_all add: digits_number_def)

lemma digits_number_bound: "\<forall>d \<in> set ds. d < 2 ^ k \<Longrightarrow> digits_number k ds < 2 ^ (k * length ds)"
proof (induction ds)
  case (Cons d ds)
  then have "d * 2 ^ (k * length ds) + digits_number k ds < (d + 1) * 2 ^ (k * length ds)" by simp
  also have "\<dots> \<le> 2 ^ k * 2 ^ (k * length ds)" using Cons.prems by (intro mult_right_mono) auto
  finally show ?case by (simp add: power_add)
qed simp

lemma digits_number_inject:
  "length ds = length es \<Longrightarrow> \<forall>d \<in> set ds. d < 2 ^ k \<Longrightarrow> \<forall>d \<in> set es. d < 2 ^ k \<Longrightarrow>
     digits_number k ds = digits_number k es \<Longrightarrow> ds = es"
proof (induction ds es rule: list_induct2)
  case (Cons d ds e es)
  have b: "digits_number k ds < 2 ^ (k * length es)" "digits_number k es < 2 ^ (k * length es)"
    using digits_number_bound [of ds k] digits_number_bound [of es k] Cons by auto
  have "d = (d * 2 ^ (k * length es) + digits_number k ds) div 2 ^ (k * length es)"
    "e = (e * 2 ^ (k * length es) + digits_number k es) div 2 ^ (k * length es)" using b by simp_all
  then have "d = e" using Cons by (metis digits_number_simps(2))
  then show ?case using Cons by simp
qed simp

section \<open>Encoding and decoding\<close>

abbreviation b32_digit :: "nat \<Rightarrow> char" where
  "b32_digit d \<equiv> BASE32_ALPHABET ! d"

lemma emit_digits:
  assumes "b32_emit bits v = (out, b)" "bits \<le> 32"
  shows "\<exists>ds. out = map b32_digit ds \<and> (\<forall>d \<in> set ds. d < 32) \<and> b < 5 \<and> bits = 5 * length ds + b \<and>
    unat v mod 2 ^ bits = digits_number 5 ds * 2 ^ b + unat v mod 2 ^ b"
  using assms
proof (induction bits v arbitrary: out b rule: b32_emit.induct)
  case (1 bits v)
  show ?case
  proof (cases "5 \<le> bits")
    case False
    then show ?thesis using "1.prems"(1) by (auto simp: b32_emit.simps)
  next
    case True
    then obtain out' where o: "b32_emit (bits - 5) v = (out', b)" "out = b32_char (drop_bit (bits - 5) v AND 31) # out'"
      using "1.prems"(1) by (auto simp: b32_emit.simps [of bits] split: prod.splits)
    have le: "bits - 5 \<le> 32" using "1.prems"(2) by simp
    obtain ds where ds: "out' = map b32_digit ds" "\<forall>d \<in> set ds. d < 32" "b < 5" "bits - 5 = 5 * length ds + b"
      "unat v mod 2 ^ (bits - 5) = digits_number 5 ds * 2 ^ b + unat v mod 2 ^ b"
      using "1.IH" [OF True o(1) le] by blast
    define d where "d = unat v mod 2 ^ bits div 2 ^ (bits - 5)"
    have d: "unat (drop_bit (bits - 5) v AND 31) = d"
      unfolding and_31 d_def using True "1.prems"(2) by (rule window_bits)
    have "take_bit 5 (unat (drop_bit (bits - 5) v)) < 2 ^ 5" by (rule take_bit_nat_less_exp)
    then have "d < 32" using d by (simp add: and_31 unsigned_take_bit_eq)
    have "unat v mod 2 ^ bits = d * 2 ^ (bits - 5) + unat v mod 2 ^ (bits - 5)"
      unfolding d_def using True by (rule mod_window)
    then show ?thesis
      using ds True o(2) d \<open>d < 32\<close> by (intro exI [of _ "d # ds"]) (simp add: b32_char_def power_add algebra_simps)
  qed
qed

lemma encode_digits:
  assumes "b32_encode_loop bits v xs = (out, b, v')" "bits < 5"
  shows "\<exists>ds. out = map b32_digit ds \<and> (\<forall>d \<in> set ds. d < 32) \<and> b < 5 \<and> bits + 8 * length xs = 5 * length ds + b \<and>
    (unat v mod 2 ^ bits) * 2 ^ (8 * length xs) + digits_number 8 (map unat xs) =
      digits_number 5 ds * 2 ^ b + unat v' mod 2 ^ b"
  using assms
proof (induction xs arbitrary: bits v out)
  case (Cons x xs)
  let ?v = "push_bit 8 v OR ucast x :: 32 word"
  obtain out1 b1 out2 where o: "b32_emit (bits + 8) ?v = (out1, b1)" "b32_encode_loop b1 ?v xs = (out2, b, v')" "out = out1 @ out2"
    using Cons.prems(1) by (auto simp: Let_def split: prod.splits)
  obtain ds1 where d1: "out1 = map b32_digit ds1" "\<forall>d \<in> set ds1. d < 32" "b1 < 5" "bits + 8 = 5 * length ds1 + b1"
    "unat ?v mod 2 ^ (bits + 8) = digits_number 5 ds1 * 2 ^ b1 + unat ?v mod 2 ^ b1"
    using emit_digits [OF o(1)] Cons.prems(2) by auto
  obtain ds2 where d2: "out2 = map b32_digit ds2" "\<forall>d \<in> set ds2. d < 32" "b < 5" "b1 + 8 * length xs = 5 * length ds2 + b"
    "(unat ?v mod 2 ^ b1) * 2 ^ (8 * length xs) + digits_number 8 (map unat xs) = digits_number 5 ds2 * 2 ^ b + unat v' mod 2 ^ b"
    using Cons.IH [OF o(2) d1(3)] by auto
  have x: "unat (ucast x :: 32 word) = unat x" by (rule unat_ucast_byte)
  have "unat ?v mod 2 ^ (bits + 8) = (unat v mod 2 ^ bits) * 2 ^ 8 + unat x"
    using shift_in [of bits 8 "ucast x" v] Cons.prems(2) x unsigned_less [of x, where 'a = nat] by simp
  then have eq: "(unat v mod 2 ^ bits) * 2 ^ 8 + unat x = digits_number 5 ds1 * 2 ^ b1 + unat ?v mod 2 ^ b1" using d1(5) by simp
  have "((unat v mod 2 ^ bits) * 2 ^ 8 + unat x) * 2 ^ (8 * length xs) + digits_number 8 (map unat xs) =
      digits_number 5 ds1 * (2 ^ b1 * 2 ^ (8 * length xs)) + (digits_number 5 ds2 * 2 ^ b + unat v' mod 2 ^ b)"
    unfolding eq d2(5) [symmetric] by (simp only: distrib_right mult.assoc add.assoc)
  also have "2 ^ b1 * 2 ^ (8 * length xs) = (2 :: nat) ^ (5 * length ds2) * 2 ^ b" using d2(4) by (simp add: power_add [symmetric])
  finally show ?case
    using o(3) d1 d2 by (intro exI [of _ "ds1 @ ds2"]) (auto simp: power_add algebra_simps)
qed auto

lemma index_of_nth: "distinct s \<Longrightarrow> i < length s \<Longrightarrow> index_of (s ! i) s = Some i"
proof (induction s arbitrary: i)
  case (Cons x s)
  then show ?case by (cases i) auto
qed simp

lemma index_of_digit: "d < 32 \<Longrightarrow> index_of (b32_digit d) BASE32_ALPHABET = Some d"
  by (rule index_of_nth) (simp_all add: BASE32_ALPHABET_def)

lemma decode_digits:
  assumes "\<forall>d \<in> set ds. d < 32" "bits < 8"
  shows "\<exists>xs b. b32_decode_loop bits v (map b32_digit ds) = Inr xs \<and> b < 8 \<and> bits + 5 * length ds = 8 * length xs + b \<and>
    (\<exists>r < 2 ^ b. (unat v mod 2 ^ bits) * 2 ^ (5 * length ds) + digits_number 5 ds = digits_number 8 (map unat xs) * 2 ^ b + r)"
  using assms
proof (induction ds arbitrary: bits v)
  case Nil
  then show ?case by (intro exI [of _ "[]"] exI [of _ bits]) auto
next
  case (Cons d ds)
  let ?v = "push_bit 5 v OR of_nat d :: 32 word" and ?n = "5 * length ds"
  have d: "unat (of_nat d :: 32 word) = d" using Cons.prems(1) by (simp add: unat_of_nat)
  have v: "unat ?v mod 2 ^ (bits + 5) = (unat v mod 2 ^ bits) * 2 ^ 5 + d"
    using shift_in [of bits 5 "of_nat d" v] Cons.prems d by simp
  have start: "(unat v mod 2 ^ bits) * 2 ^ (5 * length (d # ds)) + digits_number 5 (d # ds) =
      (unat ?v mod 2 ^ (bits + 5)) * 2 ^ ?n + digits_number 5 ds"
    unfolding v by (simp add: power_add algebra_simps)
  show ?case
  proof (cases "8 \<le> bits + 5")
    case False
    then obtain xs b where xs: "b32_decode_loop (bits + 5) ?v (map b32_digit ds) = Inr xs" "b < 8"
      "bits + 5 + ?n = 8 * length xs + b"
      "\<exists>r < 2 ^ b. (unat ?v mod 2 ^ (bits + 5)) * 2 ^ ?n + digits_number 5 ds = digits_number 8 (map unat xs) * 2 ^ b + r"
      using Cons.IH [of "bits + 5" ?v] Cons.prems(1) by auto
    then show ?thesis
      unfolding start using False Cons.prems(1) by (intro exI [of _ xs] exI [of _ b]) (simp add: index_of_digit Let_def)
  next
    case True
    let ?b = "bits + 5 - 8"
    have lt: "?b < 8" using Cons.prems(2) by simp
    then obtain xs b where xs: "b32_decode_loop ?b ?v (map b32_digit ds) = Inr xs" "b < 8" "?b + ?n = 8 * length xs + b"
      "\<exists>r < 2 ^ b. (unat ?v mod 2 ^ ?b) * 2 ^ ?n + digits_number 5 ds = digits_number 8 (map unat xs) * 2 ^ b + r"
      using Cons.IH [of ?b ?v] Cons.prems(1) by auto
    define y :: "8 word" where "y = ucast (drop_bit ?b ?v AND 0xFF)"
    have "unat (drop_bit ?b ?v AND 0xFF) = unat ?v mod 2 ^ (bits + 5) div 2 ^ ?b"
      unfolding and_255 using True Cons.prems(2) by (intro window_bits) auto
    moreover have "unat y = unat (drop_bit ?b ?v AND 0xFF)"
      unfolding y_def and_255 by (rule unat_low_byte)
    ultimately have y: "unat y = unat ?v mod 2 ^ (bits + 5) div 2 ^ ?b" by simp
    have split: "unat ?v mod 2 ^ (bits + 5) = unat y * 2 ^ ?b + unat ?v mod 2 ^ ?b"
      unfolding y using True by (rule mod_window)
    have e: "(2 :: nat) ^ ?b * 2 ^ ?n = 2 ^ (8 * length xs) * 2 ^ b" using xs(3) by (simp add: power_add [symmetric])
    obtain r where r: "r < 2 ^ b" "(unat ?v mod 2 ^ ?b) * 2 ^ ?n + digits_number 5 ds = digits_number 8 (map unat xs) * 2 ^ b + r"
      using xs(4) by blast
    have "(unat ?v mod 2 ^ (bits + 5)) * 2 ^ ?n + digits_number 5 ds =
        unat y * (2 ^ ?b * 2 ^ ?n) + ((unat ?v mod 2 ^ ?b) * 2 ^ ?n + digits_number 5 ds)"
      unfolding split by (simp add: algebra_simps)
    also have "\<dots> = digits_number 8 (map unat (y # xs)) * 2 ^ b + r"
      unfolding e r(2) by (simp add: algebra_simps)
    finally show ?thesis
      unfolding start using True Cons.prems(1) xs r(1)
      by (intro exI [of _ "y # xs"] exI [of _ b]) (auto simp: index_of_digit Let_def y_def)
  qed
qed

lemma b32_digit_plain: "d < 32 \<Longrightarrow> to_upper_char (b32_digit d) = b32_digit d \<and> \<not> is_ws (b32_digit d) \<and> b32_digit d \<noteq> CHR ''=''"
proof -
  have "\<forall>c \<in> set BASE32_ALPHABET. to_upper_char c = c \<and> \<not> is_ws c \<and> c \<noteq> CHR ''=''"
    by (simp add: BASE32_ALPHABET_def to_upper_char_def is_ws_def Let_def)
  moreover have "length BASE32_ALPHABET = 32" by (simp add: BASE32_ALPHABET_def)
  ultimately show "d < 32 \<Longrightarrow> ?thesis" by simp
qed

lemma normalize_digits:
  assumes "\<forall>d \<in> set ds. d < 32"
  shows "filter (\<lambda>c. \<not> is_ws c) (strip_padding (toUpperCase (map b32_digit ds @ replicate n (CHR ''='')))) = map b32_digit ds"
proof -
  have plain: "\<forall>c \<in> set (map b32_digit ds). to_upper_char c = c \<and> \<not> is_ws c \<and> c \<noteq> CHR ''=''"
    using assms b32_digit_plain by auto
  have "toUpperCase (map b32_digit ds @ replicate n (CHR ''='')) = map b32_digit ds @ replicate n (CHR ''='')"
    using plain by (auto simp: toUpperCase_def to_upper_char_def Let_def intro!: map_idI)
  moreover have "dropWhile (\<lambda>c. c = CHR ''='') (replicate n (CHR ''='') @ w) = dropWhile (\<lambda>c. c = CHR ''='') w" for w
    by (induction n) simp_all
  then have "strip_padding (map b32_digit ds @ replicate n (CHR ''='')) = map b32_digit ds"
    using plain by (simp add: strip_padding_def dropWhile_none)
  ultimately show ?thesis using plain by (simp add: filter_id_conv)
qed

text \<open>Decoding what the encoder wrote gives the bytes back.\<close>

lemma base32_roundtrip_secret: "base32Decode (base32Encode xs) = Inr xs"
proof -
  obtain out bits v where o: "b32_encode_loop 0 0 xs = (out, bits, v)" by (metis prod_cases3)
  obtain ds where ds: "out = map b32_digit ds" "\<forall>d \<in> set ds. d < 32" "bits < 5" "8 * length xs = 5 * length ds + bits"
    "digits_number 8 (map unat xs) = digits_number 5 ds * 2 ^ bits + unat v mod 2 ^ bits"
    using encode_digits [OF o] by auto
  define es where "es = (if bits > 0 then ds @ [(unat v mod 2 ^ bits) * 2 ^ (5 - bits)] else ds)"
  define pad where "pad = (if bits > 0 then 5 - bits else 0)"
  have "unat (push_bit (5 - bits) v AND 31) = unat (push_bit (5 - bits) v) mod 2 ^ 5"
    by (simp only: and_31 unsigned_take_bit_eq take_bit_eq_mod [where 'a = nat])
  then have "unat (push_bit (5 - bits) v AND 31) = (unat v mod 2 ^ bits) * 2 ^ (5 - bits)"
    using shift_in [of bits "5 - bits" 0 v] ds(3) by simp
  moreover have "(unat v mod 2 ^ bits) * 2 ^ (5 - bits) < 32"
  proof -
    have "(unat v mod 2 ^ bits) * 2 ^ (5 - bits) < 2 ^ bits * 2 ^ (5 - bits)" by simp
    also have "\<dots> = 32" using ds(3) by (simp add: power_add [symmetric])
    finally show ?thesis .
  qed
  ultimately have es: "base32Encode xs = map b32_digit es @ replicate ((8 - length es mod 8) mod 8) (CHR ''='')"
    "\<forall>d \<in> set es. d < 32" using o ds by (auto simp: base32Encode_def es_def b32_char_def Let_def)
  have "(2 :: nat) ^ bits * 2 ^ (5 - bits) = 32" using ds(3) by (simp add: power_add [symmetric])
  then have "digits_number 5 ds * 2 ^ bits * 2 ^ (5 - bits) = digits_number 5 ds * 32" by (simp only: mult.assoc)
  then have num: "digits_number 5 es = digits_number 8 (map unat xs) * 2 ^ pad"
    unfolding es_def pad_def ds(5) by (simp add: distrib_right)
  have len: "5 * length es = 8 * length xs + pad" "pad < 8" using ds(3,4) by (auto simp: es_def pad_def)
  obtain ys b r where ys: "b32_decode_loop 0 0 (map b32_digit es) = Inr ys" "b < 8" "5 * length es = 8 * length ys + b"
    "r < 2 ^ b" "digits_number 5 es = digits_number 8 (map unat ys) * 2 ^ b + r"
    using decode_digits [OF es(2), of 0 0] by auto
  have eq: "8 * length ys + b = 8 * length xs + pad" using len(1) ys(3) by simp
  then have "length ys = length xs"
    using len(2) ys(2) by (cases "length ys" "length xs" rule: linorder_cases) linarith+
  moreover have "b = pad" using eq calculation by simp
  moreover have "digits_number 8 (map unat ys) = digits_number 8 (map unat xs)"
  proof -
    have "digits_number 8 (map unat ys) = digits_number 5 es div 2 ^ pad" using ys(4,5) \<open>b = pad\<close> by simp
    then show ?thesis using num by simp
  qed
  moreover have "\<forall>d \<in> set (map unat zs). d < 2 ^ 8" for zs :: buffer using unsigned_less [where 'b = 8 and 'a = nat] by auto
  ultimately have "map unat ys = map unat xs" using digits_number_inject [of "map unat ys" "map unat xs" 8] by simp
  then have "ys = xs" by (rule map_injective) (simp add: inj_def word_unat_eq_iff)
  then show ?thesis using ys(1) normalize_digits [OF es(2)] by (simp add: base32Decode_def es(1))
qed

section \<open>Codes\<close>

text \<open>The code of a key at a time, when the counter can be written.\<close>

definition totp :: "hmac \<Rightarrow> buffer \<Rightarrow> time \<Rightarrow> string" where
  "totp H key t = (case totp_counter t of Inl _ \<Rightarrow> [] | Inr c \<Rightarrow> truncate_hmac (H key c))"

lemma show_nat_length: "n < 10 ^ k \<Longrightarrow> 0 < k \<Longrightarrow> length (show_nat n) \<le> k"
proof (induction n arbitrary: k rule: show_nat.induct)
  case (1 n)
  show ?case
  proof (cases "n < 10")
    case True
    then show ?thesis using "1.prems" by (subst show_nat.simps) simp
  next
    case False
    then have "1 < k" using "1.prems" by (cases k) (auto simp: less_Suc_eq)
    then have "n div 10 < 10 ^ (k - 1)" using "1.prems" by (cases k) auto
    then have "length (show_nat (n div 10)) \<le> k - 1" using "1.IH" [OF False] \<open>1 < k\<close> by simp
    then show ?thesis using False \<open>1 < k\<close> by (subst show_nat.simps) simp
  qed
qed

lemma pad_six: "n < 1000000 \<Longrightarrow> six_digits (pad_left 6 (show_nat n))"
  using show_nat_length [of n 6] show_nat_digits [of n]
  by (auto simp: six_digits_def pad_left_def list_all_iff is_digit_def)

lemma truncate_six: "six_digits (truncate_hmac h)"
  unfolding truncate_hmac_def Let_def by (rule pad_six) simp

lemma trim_six: "six_digits s \<Longrightarrow> trim s = s"
  by (rule trim_no_ws) (auto simp: six_digits_def list_all_iff is_digit_def is_ws_def Let_def)

text \<open>Every date of the language has a counter.\<close>

lemma totp_counter_date:
  assumes "0 \<le> t" "t \<le> 8640000000000000"
  shows "\<exists>c. totp_counter t = Inr c"
proof -
  let ?a = "js_div (of_int t) 1000" and ?s = "\<lfloor>js_div (js_div (of_int t) 1000) 30\<rfloor>"
  have a: "0 \<le> ?a" "?a \<le> of_int 8640000000000"
    using assms fl_mono [of "of_int t / 1000" "of_int 8640000000000"] fl_of_int [of 8640000000000]
    by (simp_all add: js_div_def fl_nonneg)
  then have "0 \<le> js_div ?a 30" "js_div ?a 30 \<le> of_int 288000000000"
    using fl_mono [of "?a / 30" "of_int 288000000000"] fl_of_int [of 288000000000]
    by (simp_all add: js_div_def fl_nonneg)
  then have "0 \<le> ?s" "?s \<le> 288000000000" by (simp_all add: floor_le_iff)
  moreover have "0 \<le> n div 2 ^ 32 \<and> n div 2 ^ 32 < 2 ^ 32" if "0 \<le> n" "n \<le> 288000000000" for n :: int
    using zdiv_mono1 [OF that(2), of "2 ^ 32"] that(1) by (simp add: pos_imp_zdiv_nonneg_iff)
  ultimately have "0 \<le> ?s div 2 ^ 32 \<and> ?s div 2 ^ 32 < 2 ^ 32" by blast
  then show ?thesis unfolding totp_counter_def Let_def by simp
qed

lemma totp_code_date:
  "0 \<le> t \<Longrightarrow> t \<le> 8640000000000000 \<Longrightarrow> generateTotpCode H (base32Encode key) t = Inr (totp H key t) \<and> six_digits (totp H key t)"
  using totp_counter_date [of t] by (auto simp: generateTotpCode_def base32_roundtrip_secret totp_def truncate_six)

text \<open>
  C26: a one-time code is right exactly when it is the code of the step before, of this or of the
  next step: for a secret that \<open>generateTotpSecret\<close> gave, \<open>verifyTotpCode\<close> with window one
  accepts a code, up to surrounding space, if and only if it is one of those three codes of the
  key, and never fails. A code generated within thirty seconds before or after is accepted.
\<close>

theorem verifyTotpCode_iff:
  assumes "30000 \<le> now" "now \<le> 8639999999970000"
  shows "verifyTotpCode H now (generateTotpSecret key) code 1 =
    Inr (trim code \<in> {totp H key (now - 30000), totp H key now, totp H key (now + 30000)})"
proof -
  have w: "[- 1..1 :: int] = [-1, 0, 1]" by (simp add: upto.simps)
  have gen: "generateTotpCode H (base32Encode key) (now + k * 30000) = Inr (totp H key (now + k * 30000)) \<and>
      six_digits (totp H key (now + k * 30000))" if "k \<in> {-1, 0, 1}" for k
    using that assms by (intro totp_code_date) auto
  show ?thesis
    using gen [of "-1"] gen [of 0] gen [of 1]
    by (auto simp: verifyTotpCode_def generateTotpSecret_def w Let_def)
qed

lemma sample_truncate: "truncate_hmac ([0, 0, 1, 0]) = ''000256''"
proof -
  have "truncate_hmac [0, 0, 1, 0] = pad_left 6 (show_nat 256)" by (simp add: truncate_hmac_def byte_at_def Let_def)
  also have "show_nat 256 = ''256''" by code_simp
  finally show ?thesis by (simp add: pad_left_def numeral_3_eq_3)
qed

theorem verifyTotpCode_iff_witness:
  "verifyTotpCode (\<lambda>_ _. [0, 0, 1, 0]) 1700000000000 (generateTotpSecret [1, 2, 3]) '' 000256'' 1 = Inr True"
proof -
  obtain c where "totp_counter 1700000000000 = Inr c" using totp_counter_date [of 1700000000000] by auto
  then have "totp (\<lambda>_ _. [0, 0, 1, 0]) [1, 2, 3] 1700000000000 = ''000256''" by (simp add: totp_def sample_truncate)
  moreover have "trim '' 000256'' = ''000256''" by (simp add: trim_def is_ws_def Let_def)
  ultimately show ?thesis
    using verifyTotpCode_iff [of 1700000000000 "\<lambda>_ _. [0, 0, 1, 0]" "[1, 2, 3]" "'' 000256''"] by simp
qed

end
