(* ===== verification/Redis_Kv.thy ===== *)
theory Redis_Kv
  imports Cloud_Schema
begin

text \<open>
  The Redis server as the services use it: keys with a value and an expiry, and the commands
  \<open>GET\<close>, \<open>SET .. EX\<close>, \<open>DEL\<close>, \<open>TTL\<close>, \<open>INCR\<close> and \<open>EXPIRE\<close> as functions of the clock and the
  contents. A value is a number or a payload that the code stores as JSON.

  The interface that a single-use key offers its clients is a locale, and the commands are an
  instance of it.
\<close>

datatype 'p rvalue = RNum int | RObj 'p

type_synonym 'p redis = "string \<Rightarrow> ('p rvalue \<times> time option) option"

definition rd_live :: "time \<Rightarrow> 'p redis \<Rightarrow> string \<Rightarrow> ('p rvalue \<times> time option) option" where
  "rd_live now kv k =
     (case kv k of
        None \<Rightarrow> None
      | Some (v, None) \<Rightarrow> Some (v, None)
      | Some (v, Some e) \<Rightarrow> if now < e then Some (v, Some e) else None)"

definition rd_get :: "time \<Rightarrow> 'p redis \<Rightarrow> string \<Rightarrow> 'p rvalue option" where
  "rd_get now kv k = map_option fst (rd_live now kv k)"

definition rd_set_ex :: "time \<Rightarrow> string \<Rightarrow> 'p rvalue \<Rightarrow> int \<Rightarrow> 'p redis \<Rightarrow> 'p redis" where
  "rd_set_ex now k v secs kv = kv(k \<mapsto> (v, Some (now + secs * 1000)))"

definition rd_del :: "string list \<Rightarrow> 'p redis \<Rightarrow> 'p redis" where
  "rd_del ks kv = (\<lambda>k. if k \<in> set ks then None else kv k)"

text \<open>The remaining seconds, rounded as the server does; \<open>-1\<close> without an expiry, \<open>-2\<close> without a key.\<close>

definition rd_ttl :: "time \<Rightarrow> 'p redis \<Rightarrow> string \<Rightarrow> int" where
  "rd_ttl now kv k =
     (case rd_live now kv k of
        None \<Rightarrow> - 2 | Some (_, None) \<Rightarrow> - 1 | Some (_, Some e) \<Rightarrow> (e - now + 500) div 1000)"

text \<open>\<open>INCR\<close> keeps the expiry and refuses a value that is not an integer.\<close>

definition rd_incr :: "time \<Rightarrow> string \<Rightarrow> 'p redis \<Rightarrow> (int \<times> 'p redis) option" where
  "rd_incr now k kv =
     (case rd_live now kv k of
        None \<Rightarrow> Some (1, kv(k \<mapsto> (RNum 1, None)))
      | Some (RNum n, e) \<Rightarrow> Some (n + 1, kv(k \<mapsto> (RNum (n + 1), e)))
      | Some (RObj _, _) \<Rightarrow> None)"

definition rd_expire :: "time \<Rightarrow> string \<Rightarrow> int \<Rightarrow> 'p redis \<Rightarrow> 'p redis" where
  "rd_expire now k secs kv =
     (case rd_live now kv k of
        None \<Rightarrow> kv
      | Some (v, _) \<Rightarrow> if secs \<le> 0 then kv(k := None) else kv(k \<mapsto> (v, Some (now + secs * 1000))))"

lemma rd_get_set: "rd_get now' (rd_set_ex now k v secs kv) k' =
    (if k' = k then (if now' < now + secs * 1000 then Some v else None) else rd_get now' kv k')"
  by (simp add: rd_get_def rd_live_def rd_set_ex_def)

lemma rd_get_del: "rd_get now (rd_del ks kv) k = (if k \<in> set ks then None else rd_get now kv k)"
  by (simp add: rd_get_def rd_live_def rd_del_def)

lemma rd_get_expires: "now \<le> now' \<Longrightarrow> rd_get now kv k = None \<Longrightarrow> rd_get now' kv k = None"
  by (auto simp: rd_get_def rd_live_def split: option.splits if_splits)

lemma rd_ttl_positive: "0 < rd_ttl now kv k \<Longrightarrow> \<exists>v e. kv k = Some (v, Some e) \<and> now < e"
  by (auto simp: rd_ttl_def rd_live_def split: option.splits if_splits)

lemma rd_ttl_set: "1 \<le> secs \<Longrightarrow> rd_ttl now (rd_set_ex now k v secs kv) k = secs"
proof -
  assume "1 \<le> secs"
  moreover have "(secs * 1000 + 500) div 1000 = secs" by simp
  ultimately show ?thesis by (simp add: rd_ttl_def rd_live_def rd_set_ex_def)
qed

section \<open>Single-use keys\<close>

text \<open>
  What the clients rely on: a key is found until it expires or is deleted, other keys are not
  touched, and a key that is gone does not come back by itself. Then a key that was deleted
  after its use stays gone, whatever is done with other keys.
\<close>

locale expiring_keys =
  fixes lookup :: "time \<Rightarrow> 's \<Rightarrow> string \<Rightarrow> 'v option"
    and put :: "time \<Rightarrow> string \<Rightarrow> 'v \<Rightarrow> int \<Rightarrow> 's \<Rightarrow> 's"
    and remove :: "string list \<Rightarrow> 's \<Rightarrow> 's"
  assumes lookup_put: "lookup t' (put t k v n s) k' =
      (if k' = k then (if t' < t + n * 1000 then Some v else None) else lookup t' s k')"
    and lookup_remove: "lookup t (remove ks s) k = (if k \<in> set ks then None else lookup t s k)"
    and stays_gone: "t \<le> t' \<Longrightarrow> lookup t s k = None \<Longrightarrow> lookup t' s k = None"
begin

lemma removed_gone: "k \<in> set ks \<Longrightarrow> lookup t (remove ks s) k = None"
  by (simp add: lookup_remove)

lemma gone_after_put: "lookup t s k = None \<Longrightarrow> t \<le> t' \<Longrightarrow> k' \<noteq> k \<Longrightarrow> lookup t' (put t'' k' v n s) k = None"
  by (simp add: lookup_put stays_gone)

lemma gone_after_remove: "lookup t s k = None \<Longrightarrow> t \<le> t' \<Longrightarrow> lookup t' (remove ks s) k = None"
  by (simp add: lookup_remove stays_gone)

lemma put_until_expiry: "t' < t + n * 1000 \<Longrightarrow> lookup t' (put t k v n s) k = Some v"
  by (simp add: lookup_put)

lemma put_expired: "t + n * 1000 \<le> t' \<Longrightarrow> lookup t' (put t k v n s) k = None"
  by (simp add: lookup_put)

end

interpretation rd: expiring_keys rd_get rd_set_ex rd_del
  by unfold_locales (simp_all add: rd_get_set rd_get_del rd_get_expires)

end
