(* ===== verification/Auth_Service.thy ===== *)
theory Auth_Service
  imports Request_Security Auth_Totp Redis_Kv Account_Rows
begin

text \<open>
  \<open>services/auth/src/auth/auth.service.ts\<close>: registration, the login with its lock-out, captcha
  and anomaly check, the second factor with its challenges, set-up and recovery codes, the login
  with Google, and the sessions: issue, rotation and revocation of refresh tokens.

  One call takes one reading of the clock. A payload in Redis is the value that the code stores
  as JSON and parses back; a value of another kind under its key is a text that does not parse.
  The log lines are left out. Parameters: \<open>bcrypt\<close>, SHA-256, the HMAC, the signature and
  verification of tokens, the random draws, and the user service's answer to the projection.
\<close>

section \<open>Payloads\<close>

datatype mfa_mode = Temporary | Totp

record mfa_challenge =
  ch_userId :: id
  ch_email :: string
  ch_fingerprint :: string
  ch_rememberMe :: bool
  ch_mode :: mfa_mode
  ch_code :: "string option"

record mfa_setup =
  st_userId :: id
  st_email :: string
  st_secret :: string
  st_fingerprint :: string

record login_context =
  lc_fingerprint :: string
  lc_ip :: string
  lc_userAgent :: string
  lc_lastSeenAt :: time

datatype auth_payload = Challenge mfa_challenge | Setup mfa_setup | Context login_context

record refresh_payload =
  rp_sub :: "id option"
  rp_jti :: "string option"
  rp_type :: "string option"
  rp_exp :: "int option"

section \<open>Configuration\<close>

record auth_config =
  lockWindowSeconds :: rat
  lockProgressiveMultiplier :: rat
  lockMaxSeconds :: rat
  maxFailedAttempts :: rat
  captchaEnabled :: bool
  captchaFailThreshold :: rat
  captchaSharedSecret :: string
  adminMfaEnabled :: bool
  mfaTtlSeconds :: rat
  mfaIssuer :: string
  mfaSetupTtlSeconds :: rat
  mfaTempBootstrapEnabled :: bool
  mfaMaxAttempts :: rat
  mfaRecoveryCodesCount :: rat
  anomalyRiskThreshold :: rat
  anomalyBlock :: bool
  loginContextTtlSeconds :: rat

text \<open>
  The fields of the class, from the environment; \<open>None\<close> where a value is no number, for which
  the class has fields that are not numbers and this model says nothing.
\<close>

definition config_number :: "process_env \<Rightarrow> string \<Rightarrow> string \<Rightarrow> rat \<Rightarrow> rat option" where
  "config_number pe key dflt low = map_option (max low) (js_Number (or_opt (pe key) dflt))"

definition config_flag :: "process_env \<Rightarrow> string \<Rightarrow> string \<Rightarrow> string" where
  "config_flag pe key dflt = toLowerCase (or_opt (pe key) dflt)"

definition load_auth_config :: "process_env \<Rightarrow> auth_config option" where
  "load_auth_config pe =
     (case (config_number pe ''AUTH_LOCK_WINDOW_MINUTES'' ''15'' 1, config_number pe ''AUTH_LOCK_PROGRESSIVE_MULTIPLIER'' ''1'' 1,
            config_number pe ''AUTH_LOCK_MAX_MINUTES'' ''60'' 1, config_number pe ''AUTH_LOCK_MAX_ATTEMPTS'' ''5'' 1,
            config_number pe ''AUTH_CAPTCHA_FAIL_THRESHOLD'' ''3'' 1, config_number pe ''ADMIN_MFA_TTL_SECONDS'' ''300'' 60,
            config_number pe ''ADMIN_MFA_SETUP_TTL_SECONDS'' ''600'' 60, config_number pe ''ADMIN_MFA_MAX_ATTEMPTS'' ''5'' 1,
            config_number pe ''ADMIN_MFA_RECOVERY_CODES_COUNT'' ''10'' 5, config_number pe ''AUTH_ANOMALY_RISK_THRESHOLD'' ''70'' 1,
            config_number pe ''AUTH_LOGIN_CONTEXT_TTL_SECONDS'' ''7776000'' 3600) of
        (Some w, Some m, Some x, Some a, Some c, Some t, Some st, Some ma, Some rc, Some an, Some lc) \<Rightarrow>
          Some \<lparr>lockWindowSeconds = js_mul w 60, lockProgressiveMultiplier = m, lockMaxSeconds = js_mul x 60, maxFailedAttempts = a,
            captchaEnabled = (config_flag pe ''AUTH_CAPTCHA_ENABLED'' ''false'' = ''true''), captchaFailThreshold = c,
            captchaSharedSecret = trim (or_opt (pe ''AUTH_CAPTCHA_SHARED_SECRET'') []),
            adminMfaEnabled = (config_flag pe ''ADMIN_MFA_ENABLED'' ''true'' \<noteq> ''false''), mfaTtlSeconds = t,
            mfaIssuer = or_opt (pe ''ADMIN_MFA_ISSUER'') ''CloudVM'', mfaSetupTtlSeconds = st,
            mfaTempBootstrapEnabled = (config_flag pe ''ADMIN_MFA_TEMP_BOOTSTRAP_ENABLED'' ''true'' \<noteq> ''false''),
            mfaMaxAttempts = ma, mfaRecoveryCodesCount = rc, anomalyRiskThreshold = an,
            anomalyBlock = (toLowerCase (trim (or_opt (pe ''AUTH_ANOMALY_MODE'') ''log'')) = ''block''),
            loginContextTtlSeconds = lc\<rparr>
      | _ \<Rightarrow> None)"

section \<open>State and parameters\<close>

text \<open>The database, the contents of Redis, and the projections the user service accepted, oldest first.\<close>

record auth_state = db +
  redis :: "auth_payload redis"
  projected :: "sync_payload list"

text \<open>
  What one call takes from outside. \<open>sign_access\<close> and \<open>sign_ws\<close> sign with the access secret,
  \<open>sign_refresh\<close> and \<open>verify_refresh\<close> take theirs; \<open>verify_refresh\<close> is the payload of a token
  whose signature and expiry are in order. The \<open>n\<close>-th hash of a call has its own salt.
\<close>

record auth_deps =
  au_env :: process_env
  au_cfg :: auth_config
  au_now :: time
  redis_up :: bool
  au_sha256 :: "string \<Rightarrow> string"
  au_hmac :: hmac
  au_compare :: "string \<Rightarrow> string \<Rightarrow> bool"
  au_hash :: "nat \<Rightarrow> string \<Rightarrow> string"
  user_uuid :: id
  session_uuid :: id
  audit_uuid :: id
  challenge_uuid :: string
  jti_uuid :: string
  random_otp :: nat
  random_secret :: buffer
  random_recovery :: "nat \<Rightarrow> buffer"
  random_password :: string
  sign_access :: "jwt_payload \<Rightarrow> string"
  sign_ws :: "jwt_payload \<Rightarrow> string"
  sign_refresh :: "string \<Rightarrow> string \<Rightarrow> id \<Rightarrow> string \<Rightarrow> string"
  verify_refresh :: "string \<Rightarrow> string \<Rightarrow> refresh_payload option"
  sync_at :: "string \<Rightarrow> string \<Rightarrow> sync_payload \<Rightarrow> unit fetch_result"

section \<open>Durations\<close>

definition unit_factor :: "string \<Rightarrow> int option" where
  "unit_factor u =
     (if u = [] \<or> u = ''ms'' then Some 1 else if u = ''s'' then Some 1000 else if u = ''m'' then Some 60000
      else if u = ''h'' then Some 3600000 else if u = ''d'' then Some 86400000 else None)"

definition parseDurationMs :: "string \<Rightarrow> rat \<Rightarrow> rat" where
  "parseDurationMs value fallbackMs =
     (let raw = trim value; amount = takeWhile is_digit raw in
      case unit_factor (toLowerCase (dropWhile is_digit raw)) of
        Some f \<Rightarrow> if amount = [] then fallbackMs else js_mul (fl (of_int (digits_value amount))) (of_int f)
      | None \<Rightarrow> fallbackMs)"

definition parseDurationSeconds :: "string \<Rightarrow> rat \<Rightarrow> int" where
  "parseDurationSeconds value fallbackSeconds = \<lceil>js_div (parseDurationMs value (js_mul fallbackSeconds 1000)) 1000\<rceil>"

section \<open>Redis\<close>

definition getLockKey :: "string \<Rightarrow> string" where
  "getLockKey email = ''security:auth:lock:'' @ toLowerCase email"

definition getFailKey :: "string \<Rightarrow> string" where
  "getFailKey email = ''security:auth:fail:'' @ toLowerCase email"

definition getRefreshReuseKey :: "string \<Rightarrow> string" where
  "getRefreshReuseKey jti = ''security:auth:refresh-used:'' @ jti"

definition getLockStreakKey :: "string \<Rightarrow> string" where
  "getLockStreakKey email = ''security:auth:lock-streak:'' @ toLowerCase email"

definition getMfaChallengeKey :: "string \<Rightarrow> string" where
  "getMfaChallengeKey challengeId = ''security:auth:mfa:challenge:'' @ challengeId"

definition getMfaAttemptsKey :: "string \<Rightarrow> string" where
  "getMfaAttemptsKey challengeId = ''security:auth:mfa:attempts:'' @ challengeId"

definition getMfaSetupKey :: "id \<Rightarrow> string" where
  "getMfaSetupKey userId = ''security:auth:mfa:setup:'' @ userId"

definition getLoginContextKey :: "id \<Rightarrow> string" where
  "getLoginContextKey userId = ''security:auth:login-context:'' @ userId"

definition ensureRedisConnected :: "auth_deps \<Rightarrow> (auth_state, unit) io" where
  "ensureRedisConnected D = throw_if (\<not> redis_up D) (PlainError ''Redis'')"

text \<open>The server takes whole seconds above zero only.\<close>

definition seconds_arg :: "rat \<Rightarrow> int option" where
  "seconds_arg x = (if of_int \<lfloor>x\<rfloor> = x \<and> 0 < x then Some \<lfloor>x\<rfloor> else None)"

definition redis_get :: "auth_deps \<Rightarrow> string \<Rightarrow> (auth_state, auth_payload rvalue option) io" where
  "redis_get D k = asks (\<lambda>s. rd_get (au_now D) (redis s) k)"

definition redis_set :: "auth_deps \<Rightarrow> string \<Rightarrow> auth_payload rvalue \<Rightarrow> rat \<Rightarrow> (auth_state, unit) io" where
  "redis_set D k v secs =
     bnd (require (PlainError ''ReplyError'') (seconds_arg secs)) (\<lambda>n.
     modify (\<lambda>s. s\<lparr>redis := rd_set_ex (au_now D) k v n (redis s)\<rparr>))"

definition redis_del :: "string list \<Rightarrow> (auth_state, unit) io" where
  "redis_del ks = modify (\<lambda>s. s\<lparr>redis := rd_del ks (redis s)\<rparr>)"

definition redis_incr :: "auth_deps \<Rightarrow> string \<Rightarrow> (auth_state, int) io" where
  "redis_incr D k =
     bnd (asks (\<lambda>s. rd_incr (au_now D) k (redis s))) (\<lambda>r.
     bnd (require (PlainError ''ReplyError'') r) (\<lambda>(n, kv).
     bnd (modify (\<lambda>s. s\<lparr>redis := kv\<rparr>)) (\<lambda>_. ret n)))"

definition redis_expire :: "auth_deps \<Rightarrow> string \<Rightarrow> rat \<Rightarrow> (auth_state, unit) io" where
  "redis_expire D k secs =
     bnd (require (PlainError ''ReplyError'') (seconds_arg secs)) (\<lambda>n.
     modify (\<lambda>s. s\<lparr>redis := rd_expire (au_now D) k n (redis s)\<rparr>))"

section \<open>Recovery codes and passwords\<close>

definition svc_getUserAgent :: "request \<Rightarrow> string" where
  "svc_getUserAgent req =
     (case user_agent req of
        Many (v # _) \<Rightarrow> or_str v ''unknown'' | Many [] \<Rightarrow> ''unknown''
      | One v \<Rightarrow> or_str v ''unknown'' | NoHeader \<Rightarrow> ''unknown'')"

definition normalizeRecoveryCode :: "string \<Rightarrow> string" where
  "normalizeRecoveryCode input =
     toUpperCase (filter (\<lambda>c. is_alpha c \<or> is_digit c) (filter (\<lambda>c. \<not> is_ws c) input))"

definition hex_upper :: "buffer \<Rightarrow> string" where
  "hex_upper xs = concat (map (\<lambda>x. [hex_digit (unat x div 16), hex_digit (unat x mod 16)]) xs)"

definition generateRecoveryCodes :: "auth_deps \<Rightarrow> string list" where
  "generateRecoveryCodes D =
     map (\<lambda>i. let raw = hex_upper (random_recovery D i) in take 4 raw @ ''-'' @ take 4 (drop 4 raw))
       [0..<nat \<lfloor>mfaRecoveryCodesCount (au_cfg D)\<rfloor>]"

definition hashRecoveryCodes :: "auth_deps \<Rightarrow> string list \<Rightarrow> string list" where
  "hashRecoveryCodes D codes = map (\<lambda>(i, code). au_hash D i (normalizeRecoveryCode code)) (enumerate 0 codes)"

fun remove_match :: "(string \<Rightarrow> bool) \<Rightarrow> string list \<Rightarrow> string list option" where
  "remove_match p [] = None"
| "remove_match p (h # hs) = (if p h then Some hs else map_option ((#) h) (remove_match p hs))"

definition consumeRecoveryCode :: "auth_deps \<Rightarrow> id \<Rightarrow> string \<Rightarrow> (auth_state, bool) io" where
  "consumeRecoveryCode D userId code =
     (let normalized = normalizeRecoveryCode code in
      if length normalized < 8 then ret False
      else bnd (asks (find_user userId)) (\<lambda>r.
        case r of
          None \<Rightarrow> ret False
        | Some user \<Rightarrow>
            (case remove_match (au_compare D normalized) (u_mfaRecoveryCodeHashes user) of
               None \<Rightarrow> ret False
             | Some hashes \<Rightarrow>
                 bnd (update_user userId (\<lambda>u. u\<lparr>u_mfaRecoveryCodeHashes := hashes\<rparr>)) (\<lambda>_. ret True))))"

definition assertCurrentPassword :: "auth_deps \<Rightarrow> id \<Rightarrow> string \<Rightarrow> (auth_state, user_row) io" where
  "assertCurrentPassword D userId password =
     bnd (asks (find_user userId)) (\<lambda>r.
     bnd (require (Unauthorized ''User not found or inactive'') (case r of Some u \<Rightarrow> if u_isActive u then Some u else None | None \<Rightarrow> None)) (\<lambda>user.
     bnd (throw_if (\<not> au_compare D password (u_password user)) (Unauthorized ''Invalid password for MFA re-authentication'')) (\<lambda>_.
     ret user)))"

text \<open>The write of the audit row is caught when it fails: without the user, or with an identifier that is taken.\<close>

definition logMfaAudit :: "auth_deps \<Rightarrow> id \<Rightarrow> string \<Rightarrow> request \<Rightarrow> (string \<times> string) list option \<Rightarrow> (auth_state, unit) io" where
  "logMfaAudit D userId action req metadata =
     modify (\<lambda>s. if find_user userId s = None \<or> (\<exists>a \<in> set (mfaAuditLogs s). a_id a = audit_uuid D) then s
       else s\<lparr>mfaAuditLogs := mfaAuditLogs s @ [\<lparr>a_id = audit_uuid D, a_userId = userId, a_action = action,
              a_ip = Some (getClientIp req), a_userAgent = Some (svc_getUserAgent req), a_metadata = metadata,
              a_createdAt = au_now D\<rparr>]\<rparr>)"

definition safeCodeEqual :: "string \<Rightarrow> string \<Rightarrow> bool" where
  "safeCodeEqual expected received \<longleftrightarrow> length expected = length received \<and> expected = received"

section \<open>The projection\<close>

definition getUserSyncUrl :: "process_env \<Rightarrow> string" where
  "getUserSyncUrl pe =
     (let direct = (case pe ''USER_SERVICE_SYNC_URL'' of None \<Rightarrow> [] | Some v \<Rightarrow> trim v) in
      if direct \<noteq> [] then direct
      else rev (dropWhile (\<lambda>c. c = CHR ''/'') (rev (or_opt (pe ''USER_SERVICE_URL'') ''http://user:3003''))) @ ''/users/internal/sync'')"

definition projection :: "user_row \<Rightarrow> sync_payload" where
  "projection u = \<lparr>y_id = u_id u, y_email = u_email u, y_googleId = Some (u_googleId u), y_firstName = u_firstName u,
     y_lastName = u_lastName u, y_role = Some (role_name (u_role u)), y_isActive = Some (u_isActive u),
     y_mfaEnabled = Some (u_mfaEnabled u), y_mfaEnabledAt = u_mfaEnabledAt u\<rparr>"

definition syncUserProjection :: "auth_deps \<Rightarrow> user_row \<Rightarrow> (auth_state, unit) io" where
  "syncUserProjection D user =
     (let syncToken = trim (or_opt (au_env D ''INTER_SERVICE_SYNC_TOKEN'') []) in
      if syncToken = [] then ret ()
      else case sync_at D (getUserSyncUrl (au_env D)) syncToken (projection user) of
          FetchFail \<Rightarrow> throw (PlainError ''fetch failed'')
        | Response st text _ \<Rightarrow>
            if response_ok st then modify (\<lambda>s. s\<lparr>projected := projected s @ [projection user]\<rparr>)
            else throw (PlainError (''sync failed with status '' @ show_nat st @ '': '' @ text)))"

definition sync_best_effort :: "auth_deps \<Rightarrow> user_row \<Rightarrow> (auth_state, unit) io" where
  "sync_best_effort D user = try_catch (syncUserProjection D user) (\<lambda>_. ret ())"

section \<open>Tokens\<close>

definition fingerprint_of :: "auth_deps \<Rightarrow> request \<Rightarrow> string" where
  "fingerprint_of D req = buildRequestFingerprint (au_sha256 D) req"

text \<open>A date past the last date of the language is invalid, and the database client refuses it.\<close>

definition refresh_expiry :: "auth_deps \<Rightarrow> time option" where
  "refresh_expiry D =
     (let t = js_add (of_int (au_now D)) (parseDurationMs (or_opt (au_env D ''JWT_REFRESH_EXPIRES_IN'') ''7d'') 604800000) in
      if t \<le> 8640000000000000 then Some \<lfloor>t\<rfloor> else None)"

definition insert_refresh :: "refresh_row \<Rightarrow> (auth_state, unit) io" where
  "insert_refresh r =
     bnd (asks (\<lambda>s. \<exists>x \<in> set (refreshTokens s). r_id x = r_id r \<or> r_token x = r_token r)) (\<lambda>clash.
     bnd (throw_if clash (PrismaError ''P2002'')) (\<lambda>_.
     bnd (asks (\<lambda>s. find_user (r_userId r) s = None)) (\<lambda>orphan.
     bnd (throw_if orphan (PrismaError ''P2003'')) (\<lambda>_.
     modify (\<lambda>s. s\<lparr>refreshTokens := refreshTokens s @ [r]\<rparr>)))))"

definition new_refresh_token :: "auth_deps \<Rightarrow> id \<Rightarrow> string" where
  "new_refresh_token D userId =
     sign_refresh D (or_opt (au_env D ''JWT_REFRESH_SECRET'') []) (or_opt (au_env D ''JWT_REFRESH_EXPIRES_IN'') ''7d'')
       userId (jti_uuid D)"

definition new_access_token :: "auth_deps \<Rightarrow> user_row \<Rightarrow> request \<Rightarrow> string" where
  "new_access_token D user req =
     sign_access D \<lparr>sub = u_id user, jwt_email = u_email user, jwt_role = role_name (u_role user),
       fp = Some (fingerprint_of D req)\<rparr>"

definition generateTokens :: "auth_deps \<Rightarrow> user_row \<Rightarrow> request \<Rightarrow> (auth_state, string \<times> string) io" where
  "generateTokens D user req =
     bnd (require (PrismaError ''validation'') (refresh_expiry D)) (\<lambda>expiresAt.
     bnd (insert_refresh \<lparr>r_id = session_uuid D, r_token = new_refresh_token D (u_id user), r_userId = u_id user,
            r_expiresAt = expiresAt, r_createdAt = au_now D\<rparr>) (\<lambda>_.
     ret (new_access_token D user req, new_refresh_token D (u_id user))))"

section \<open>The context of the last login\<close>

definition as_context :: "auth_payload rvalue option \<Rightarrow> login_context option" where
  "as_context v =
     (case v of
        Some (RObj (Context c)) \<Rightarrow> if lc_fingerprint c = [] \<or> lc_ip c = [] \<or> lc_userAgent c = [] then None else Some c
      | _ \<Rightarrow> None)"

definition getPreviousLoginContext :: "auth_deps \<Rightarrow> id \<Rightarrow> (auth_state, login_context option) io" where
  "getPreviousLoginContext D userId =
     bnd (ensureRedisConnected D) (\<lambda>_.
     bnd (redis_get D (getLoginContextKey userId)) (\<lambda>raw. ret (as_context raw)))"

definition storeLoginContext :: "auth_deps \<Rightarrow> id \<Rightarrow> request \<Rightarrow> (auth_state, unit) io" where
  "storeLoginContext D userId req =
     try_catch
       (bnd (ensureRedisConnected D) (\<lambda>_.
        redis_set D (getLoginContextKey userId)
          (RObj (Context \<lparr>lc_fingerprint = fingerprint_of D req, lc_ip = getClientIp req,
             lc_userAgent = svc_getUserAgent req, lc_lastSeenAt = au_now D\<rparr>))
          (loginContextTtlSeconds (au_cfg D))))
       (\<lambda>_. ret ())"

definition anomaly_score :: "auth_deps \<Rightarrow> request \<Rightarrow> login_context \<Rightarrow> int" where
  "anomaly_score D req previous =
     (if fingerprint_of D req \<noteq> lc_fingerprint previous then 70 else 0) +
     (if getClientIp req \<noteq> lc_ip previous then 25 else 0) +
     (if svc_getUserAgent req \<noteq> lc_userAgent previous then 15 else 0) +
     (if js_div (of_int (au_now D - lc_lastSeenAt previous)) 86400000 > 30 then 10 else 0)"

definition evaluateLoginAnomaly :: "auth_deps \<Rightarrow> id \<Rightarrow> request \<Rightarrow> (auth_state, bool) io" where
  "evaluateLoginAnomaly D userId req =
     bnd (getPreviousLoginContext D userId) (\<lambda>previous.
     ret (case previous of None \<Rightarrow> False | Some c \<Rightarrow> of_int (anomaly_score D req c) \<ge> anomalyRiskThreshold (au_cfg D)))"

section \<open>Lock-out and captcha\<close>

definition lock_text :: "int \<Rightarrow> string" where
  "lock_text minutes = ''Too many failed login attempts. Try again in '' @ show_int minutes @ '' minute(s).''"

definition assertNotLocked :: "auth_deps \<Rightarrow> string \<Rightarrow> (auth_state, unit) io" where
  "assertNotLocked D email =
     bnd (ensureRedisConnected D) (\<lambda>_.
     bnd (asks (\<lambda>s. rd_ttl (au_now D) (redis s) (getLockKey email))) (\<lambda>ttl.
     throw_if (ttl > 0) (TooManyRequests (lock_text \<lceil>js_div (of_int ttl) 60\<rceil>))))"

definition progressive_seconds :: "auth_config \<Rightarrow> int \<Rightarrow> rat" where
  "progressive_seconds c streak =
     min (lockMaxSeconds c)
       (of_int (Math_round (js_mul (lockWindowSeconds c) (fl (lockProgressiveMultiplier c ^ nat (max 0 (streak - 1)))))))"

definition registerFailedLogin :: "auth_deps \<Rightarrow> string \<Rightarrow> (auth_state, unit) io" where
  "registerFailedLogin D email =
     bnd (ensureRedisConnected D) (\<lambda>_.
     bnd (redis_incr D (getFailKey email)) (\<lambda>attempts.
     bnd (if attempts = 1 then redis_expire D (getFailKey email) (lockWindowSeconds (au_cfg D)) else ret ()) (\<lambda>_.
     if of_int attempts \<ge> maxFailedAttempts (au_cfg D) then
       bnd (redis_incr D (getLockStreakKey email)) (\<lambda>streak.
       bnd (redis_expire D (getLockStreakKey email) 86400) (\<lambda>_.
       let secs = progressive_seconds (au_cfg D) streak in
       bnd (redis_set D (getLockKey email) (RNum 1) secs) (\<lambda>_.
       throw (TooManyRequests (lock_text \<lceil>js_div secs 60\<rceil>)))))
     else ret ())))"

definition isCaptchaRequired :: "auth_deps \<Rightarrow> string \<Rightarrow> (auth_state, bool) io" where
  "isCaptchaRequired D email =
     (if \<not> captchaEnabled (au_cfg D) then ret False
      else bnd (ensureRedisConnected D) (\<lambda>_.
        bnd (redis_get D (getFailKey email)) (\<lambda>raw.
        ret (case raw of None \<Rightarrow> False
          | Some (RNum n) \<Rightarrow> of_int n \<ge> captchaFailThreshold (au_cfg D) | Some (RObj _) \<Rightarrow> False))))"

definition assertCaptchaIfNeeded :: "auth_deps \<Rightarrow> string \<Rightarrow> string option \<Rightarrow> (auth_state, unit) io" where
  "assertCaptchaIfNeeded D email captchaToken =
     bnd (isCaptchaRequired D email) (\<lambda>required.
     if \<not> required then ret ()
     else
       let token = trim (or_opt captchaToken []); secret = captchaSharedSecret (au_cfg D) in
       bnd (throw_if (token = []) (Forbidden ''CAPTCHA verification required'')) (\<lambda>_.
       throw_if (secret \<noteq> [] \<and> \<not> safeCodeEqual secret token) (Forbidden ''CAPTCHA verification failed'')))"

definition clearFailedLogins :: "auth_deps \<Rightarrow> string \<Rightarrow> (auth_state, unit) io" where
  "clearFailedLogins D email =
     bnd (ensureRedisConnected D) (\<lambda>_. redis_del [getFailKey email, getLockKey email])"

definition getFreePlanQuota :: "process_env \<Rightarrow> exn + quota_limits" where
  "getFreePlanQuota pe =
     (case (js_Number (or_opt (pe ''AUTH_FREE_PLAN_MAX_VMS'') ''2''), js_Number (or_opt (pe ''AUTH_FREE_PLAN_MAX_CPU'') ''2''),
            js_Number (or_opt (pe ''AUTH_FREE_PLAN_MAX_RAM_MB'') ''4096''), js_Number (or_opt (pe ''AUTH_FREE_PLAN_MAX_DISK_GB'') ''40'')) of
        (Some v, Some c, Some m, Some d) \<Rightarrow>
          if v < 1 \<or> c < 1 \<or> m < 512 \<or> d < 5 then Inl (InternalServerError ''Invalid AUTH_FREE_PLAN_* configuration'')
          else Inr \<lparr>l_maxVms = \<lfloor>v\<rfloor>, l_maxCpu = \<lfloor>c\<rfloor>, l_maxRamMb = \<lfloor>m\<rfloor>, l_maxDiskGb = \<lfloor>d\<rfloor>\<rparr>
      | _ \<Rightarrow> Inl (InternalServerError ''Invalid AUTH_FREE_PLAN_* configuration''))"

section \<open>Registration and login\<close>

record register_dto =
  rg_email :: string
  rg_password :: string
  rg_firstName :: string
  rg_lastName :: string

record login_dto =
  lg_email :: string
  lg_password :: string
  lg_rememberMe :: bool
  lg_captchaToken :: "string option"

text \<open>What a session gives back: the tokens and the user without the password.\<close>

record session =
  se_accessToken :: string
  se_refreshToken :: string
  se_user :: user_row

definition new_account :: "auth_deps \<Rightarrow> string \<Rightarrow> string option \<Rightarrow> string \<Rightarrow> string \<Rightarrow> string \<Rightarrow> user_row" where
  "new_account D email googleId hash firstName lastName =
     \<lparr>u_id = user_uuid D, u_email = email, u_googleId = googleId, u_password = hash, u_firstName = firstName, u_lastName = lastName,
      u_role = USER, u_isActive = True, u_mfaEnabled = False, u_mfaSecret = None, u_mfaEnabledAt = None,
      u_mfaRecoveryCodeHashes = [], u_mfaRecoveryCodesGeneratedAt = None, u_studentEmailVerified = False,
      u_studentEmailVerifiedAt = None, u_createdAt = au_now D\<rparr>"

definition issue_session :: "auth_deps \<Rightarrow> user_row \<Rightarrow> request \<Rightarrow> (auth_state, session) io" where
  "issue_session D user req =
     bnd (generateTokens D user req) (\<lambda>(accessToken, refreshToken).
     bnd (storeLoginContext D (u_id user) req) (\<lambda>_.
     ret \<lparr>se_accessToken = accessToken, se_refreshToken = refreshToken, se_user = excludePassword user\<rparr>))"

definition register :: "auth_deps \<Rightarrow> register_dto \<Rightarrow> request \<Rightarrow> (auth_state, session) io" where
  "register D dto req =
     bnd (asks (find_user_email (rg_email dto))) (\<lambda>existing.
     bnd (throw_if (existing \<noteq> None) (Conflict ''Email already in use'')) (\<lambda>_.
     bnd (insert_user (new_account D (rg_email dto) None (au_hash D 0 (rg_password dto)) (rg_firstName dto) (rg_lastName dto))) (\<lambda>user.
     bnd (sync_best_effort D user) (\<lambda>_.
     issue_session D user req))))"

datatype login_result =
    LoggedIn session
  | MfaRequired string "string option"
  | MfaEnrollmentRequired

definition store_challenge :: "auth_deps \<Rightarrow> user_row \<Rightarrow> request \<Rightarrow> bool \<Rightarrow> mfa_mode \<Rightarrow> string option \<Rightarrow> (auth_state, unit) io" where
  "store_challenge D user req rememberMe mode code =
     bnd (ensureRedisConnected D) (\<lambda>_.
     redis_set D (getMfaChallengeKey (challenge_uuid D))
       (RObj (Challenge \<lparr>ch_userId = u_id user, ch_email = u_email user, ch_fingerprint = fingerprint_of D req,
          ch_rememberMe = rememberMe, ch_mode = mode, ch_code = code\<rparr>))
       (mfaTtlSeconds (au_cfg D)))"

definition check_credentials :: "auth_deps \<Rightarrow> login_dto \<Rightarrow> (auth_state, user_row) io" where
  "check_credentials D dto =
     bnd (asks (find_user_email (lg_email dto))) (\<lambda>r.
     case r of
       None \<Rightarrow> bnd (registerFailedLogin D (lg_email dto)) (\<lambda>_. throw (Unauthorized ''Invalid credentials''))
     | Some user \<Rightarrow>
         if \<not> au_compare D (lg_password dto) (u_password user)
         then bnd (registerFailedLogin D (lg_email dto)) (\<lambda>_. throw (Unauthorized ''Invalid credentials''))
         else if \<not> u_isActive user
         then bnd (registerFailedLogin D (lg_email dto)) (\<lambda>_. throw (Unauthorized ''Account is deactivated''))
         else ret user)"

definition finish_login :: "auth_deps \<Rightarrow> login_dto \<Rightarrow> request \<Rightarrow> user_row \<Rightarrow> (auth_state, login_result) io" where
  "finish_login D dto req user =
     (if u_mfaEnabled user \<and> truthy (u_mfaSecret user) then
       bnd (store_challenge D user req (lg_rememberMe dto) Totp None) (\<lambda>_.
       ret (MfaRequired (challenge_uuid D) None))
     else if adminMfaEnabled (au_cfg D) \<and> u_role user = ADMIN then
       (if \<not> mfaTempBootstrapEnabled (au_cfg D) then ret MfaEnrollmentRequired
        else let code = generateMfaCode (random_otp D) in
          bnd (store_challenge D user req (lg_rememberMe dto) Temporary (Some code)) (\<lambda>_.
          ret (MfaRequired (challenge_uuid D) (Some code))))
     else bnd (issue_session D user req) (\<lambda>se. ret (LoggedIn se)))"

definition login :: "auth_deps \<Rightarrow> login_dto \<Rightarrow> request \<Rightarrow> (auth_state, login_result) io" where
  "login D dto req =
     bnd (assertNotLocked D (lg_email dto)) (\<lambda>_.
     bnd (assertCaptchaIfNeeded D (lg_email dto) (lg_captchaToken dto)) (\<lambda>_.
     bnd (check_credentials D dto) (\<lambda>user.
     bnd (clearFailedLogins D (lg_email dto)) (\<lambda>_.
     bnd (sync_best_effort D user) (\<lambda>_.
     bnd (evaluateLoginAnomaly D (u_id user) req) (\<lambda>detected.
     bnd (throw_if (detected \<and> anomalyBlock (au_cfg D))
            (Forbidden ''Suspicious login detected. Please retry from a trusted network or contact support.'')) (\<lambda>_.
     finish_login D dto req user)))))))"

section \<open>Login with Google\<close>

record google_profile =
  gp_id :: string
  gp_email :: "string option"
  gp_displayName :: string
  gp_givenName :: string
  gp_familyName :: string

datatype google_result = GoogleError string | GoogleSession session

definition inferred_names :: "google_profile \<Rightarrow> string \<times> string" where
  "inferred_names p =
     (let display = trim (gp_displayName p); ws = split_on CHR '' '' display in
      (or_str (trim (gp_givenName p)) (or_str (hd ws) ''Google''),
       or_str (trim (gp_familyName p)) (or_str (join_with '' '' (tl ws)) ''User'')))"

definition find_or_create_google :: "auth_deps \<Rightarrow> google_profile \<Rightarrow> string \<Rightarrow> bool \<Rightarrow> (auth_state, user_row option) io" where
  "find_or_create_google D p email allowCreate =
     bnd (asks (find_user_email email)) (\<lambda>existing.
     case existing of
       Some u \<Rightarrow> ret (Some u)
     | None \<Rightarrow>
         if \<not> allowCreate then ret None
         else case inferred_names p of (firstName, lastName) \<Rightarrow>
           bnd (insert_user (new_account D email (Some (gp_id p)) (au_hash D 0 (random_password D)) firstName lastName)) (\<lambda>u. ret (Some u)))"

definition findOrCreateGoogleUser :: "auth_deps \<Rightarrow> google_profile \<Rightarrow> request \<Rightarrow> (auth_state, google_result) io" where
  "findOrCreateGoogleUser D p req =
     (let email = (case gp_email p of None \<Rightarrow> [] | Some e \<Rightarrow> toLowerCase (trim e)) in
      if email = [] then ret (GoogleError ''google_email_missing'')
      else
        bnd (lift (parseCookie req ''google_intent'')) (\<lambda>c.
        bnd (find_or_create_google D p email (toLowerCase (or_opt c ''login'') = ''register'')) (\<lambda>found.
        case found of
          None \<Rightarrow> ret (GoogleError ''account_not_found'')
        | Some user \<Rightarrow>
            if \<not> u_isActive user then ret (GoogleError ''account_inactive'')
            else
              bnd (if \<not> truthy (u_googleId user) \<or> u_googleId user \<noteq> Some (gp_id p)
                   then update_user (u_id user) (\<lambda>u. u\<lparr>u_googleId := Some (gp_id p)\<rparr>) else ret user) (\<lambda>user'.
              bnd (sync_best_effort D user') (\<lambda>_.
              bnd (issue_session D user' req) (\<lambda>se. ret (GoogleSession se)))))))"

section \<open>The second factor\<close>

definition as_challenge :: "auth_payload rvalue \<Rightarrow> mfa_challenge option" where
  "as_challenge v = (case v of RObj (Challenge c) \<Rightarrow> Some c | _ \<Rightarrow> None)"

definition check_mfa_code :: "auth_deps \<Rightarrow> mfa_challenge \<Rightarrow> user_row \<Rightarrow> string \<Rightarrow> request \<Rightarrow> (auth_state, bool) io" where
  "check_mfa_code D c user code req =
     (case ch_mode c of
        Totp \<Rightarrow>
          bnd (if truthy (u_mfaSecret user)
               then lift (verifyTotpCode (au_hmac D) (au_now D) (the (u_mfaSecret user)) code 1) else ret False) (\<lambda>ok.
          if ok then ret True
          else bnd (consumeRecoveryCode D (ch_userId c) code) (\<lambda>consumed.
            if consumed then bnd (logMfaAudit D (ch_userId c) ''recovery_code_used'' req None) (\<lambda>_. ret True)
            else ret False))
      | Temporary \<Rightarrow> ret (truthy (ch_code c) \<and> safeCodeEqual (the (ch_code c)) code))"

definition register_failed_mfa :: "auth_deps \<Rightarrow> string \<Rightarrow> (auth_state, 'a) io" where
  "register_failed_mfa D challengeId =
     bnd (redis_incr D (getMfaAttemptsKey challengeId)) (\<lambda>attempts.
     bnd (if attempts = 1 then redis_expire D (getMfaAttemptsKey challengeId) (mfaTtlSeconds (au_cfg D)) else ret ()) (\<lambda>_.
     if of_int attempts \<ge> mfaMaxAttempts (au_cfg D) then
       bnd (redis_del [getMfaChallengeKey challengeId, getMfaAttemptsKey challengeId]) (\<lambda>_.
       throw (TooManyRequests ''Too many failed MFA attempts. Start login again.''))
     else throw (Unauthorized ''Invalid MFA code'')))"

definition verifyAdminMfa :: "auth_deps \<Rightarrow> string \<Rightarrow> string \<Rightarrow> request \<Rightarrow> (auth_state, session \<times> bool) io" where
  "verifyAdminMfa D challengeId code req =
     (let keys = [getMfaChallengeKey challengeId, getMfaAttemptsKey challengeId] in
      bnd (ensureRedisConnected D) (\<lambda>_.
      bnd (redis_get D (getMfaChallengeKey challengeId)) (\<lambda>raw.
      bnd (require (Unauthorized ''MFA challenge expired or invalid'') raw) (\<lambda>v.
      case as_challenge v of
        None \<Rightarrow> bnd (redis_del keys) (\<lambda>_. throw (Unauthorized ''MFA challenge is corrupted''))
      | Some c \<Rightarrow>
          if ch_fingerprint c \<noteq> fingerprint_of D req
          then bnd (redis_del keys) (\<lambda>_. throw (Unauthorized ''MFA challenge fingerprint mismatch''))
          else
            bnd (asks (find_user (ch_userId c))) (\<lambda>r.
            bnd (require (Unauthorized ''User not found or inactive'')
                   (case r of Some u \<Rightarrow> if u_isActive u then Some u else None | None \<Rightarrow> None)) (\<lambda>user.
            bnd (check_mfa_code D c user code req) (\<lambda>ok.
            if \<not> ok then register_failed_mfa D challengeId
            else
              bnd (redis_del keys) (\<lambda>_.
              bnd (issue_session D user req) (\<lambda>se. ret (se, ch_rememberMe c))))))))))"

definition as_setup :: "auth_payload rvalue \<Rightarrow> mfa_setup option" where
  "as_setup v = (case v of RObj (Setup x) \<Rightarrow> Some x | _ \<Rightarrow> None)"

record setup_result =
  sr_mfaEnabled :: bool
  sr_expiresInSeconds :: rat
  sr_secret :: string
  sr_otpAuthUrl :: string
  sr_accountName :: string

definition setupAdminTotp :: "auth_deps \<Rightarrow> id \<Rightarrow> request \<Rightarrow> (auth_state, setup_result) io" where
  "setupAdminTotp D userId req =
     bnd (asks (find_user userId)) (\<lambda>r.
     bnd (require (Unauthorized ''Only authenticated users can configure MFA'') r) (\<lambda>user.
     bnd (ensureRedisConnected D) (\<lambda>_.
     let secret = generateTotpSecret (random_secret D); issuer = mfaIssuer (au_cfg D) in
     bnd (redis_set D (getMfaSetupKey (u_id user))
            (RObj (Setup \<lparr>st_userId = u_id user, st_email = u_email user, st_secret = secret, st_fingerprint = fingerprint_of D req\<rparr>))
            (mfaSetupTtlSeconds (au_cfg D))) (\<lambda>_.
     ret \<lparr>sr_mfaEnabled = u_mfaEnabled user, sr_expiresInSeconds = mfaSetupTtlSeconds (au_cfg D), sr_secret = secret,
          sr_otpAuthUrl = buildOtpAuthUrl secret (issuer @ '':'' @ u_email user) issuer, sr_accountName = u_email user\<rparr>))))"

text \<open>The metadata of an audit row are its members with the printed values, numbers as integers.\<close>

definition setupAdminTotpWithPassword :: "auth_deps \<Rightarrow> id \<Rightarrow> string \<Rightarrow> request \<Rightarrow> (auth_state, setup_result) io" where
  "setupAdminTotpWithPassword D userId currentPassword req =
     bnd (assertCurrentPassword D userId currentPassword) (\<lambda>_.
     bnd (setupAdminTotp D userId req) (\<lambda>result.
     bnd (logMfaAudit D userId ''setup_issued'' req
            (Some [(''setupExpiresInSeconds'', show_int \<lfloor>sr_expiresInSeconds result\<rfloor>),
                   (''wasPreviouslyEnabled'', if sr_mfaEnabled result then ''true'' else ''false'')])) (\<lambda>_.
     ret result)))"

definition enableAdminTotp :: "auth_deps \<Rightarrow> id \<Rightarrow> string \<Rightarrow> request \<Rightarrow> (auth_state, string list) io" where
  "enableAdminTotp D userId code req =
     bnd (ensureRedisConnected D) (\<lambda>_.
     bnd (redis_get D (getMfaSetupKey userId)) (\<lambda>raw.
     bnd (require (Unauthorized ''MFA setup session expired. Re-run setup.'') raw) (\<lambda>v.
     case as_setup v of
       None \<Rightarrow> bnd (redis_del [getMfaSetupKey userId]) (\<lambda>_. throw (Unauthorized ''MFA setup session is invalid''))
     | Some setup \<Rightarrow>
         bnd (throw_if (st_userId setup \<noteq> userId) (Unauthorized ''MFA setup does not belong to current user'')) (\<lambda>_.
         if st_fingerprint setup \<noteq> fingerprint_of D req
         then bnd (redis_del [getMfaSetupKey userId]) (\<lambda>_. throw (Unauthorized ''MFA setup fingerprint mismatch''))
         else
           bnd (lift (verifyTotpCode (au_hmac D) (au_now D) (st_secret setup) code 1)) (\<lambda>ok.
           bnd (throw_if (\<not> ok) (Unauthorized ''Invalid TOTP code'')) (\<lambda>_.
           bnd (asks (find_user userId)) (\<lambda>r.
           bnd (throw_if (r = None) (Unauthorized ''Only authenticated users can configure MFA'')) (\<lambda>_.
           let codes = generateRecoveryCodes D in
           bnd (update_user userId (\<lambda>u. u\<lparr>u_mfaEnabled := True, u_mfaSecret := Some (st_secret setup),
                  u_mfaRecoveryCodeHashes := hashRecoveryCodes D codes,
                  u_mfaRecoveryCodesGeneratedAt := Some (au_now D), u_mfaEnabledAt := Some (au_now D)\<rparr>)) (\<lambda>_.
           bnd (redis_del [getMfaSetupKey userId]) (\<lambda>_.
           bnd (logMfaAudit D userId ''setup_enabled'' req (Some [(''recoveryCodesCount'', show_nat (length codes))])) (\<lambda>_.
           ret codes)))))))))))"

definition disableAdminTotp :: "auth_deps \<Rightarrow> id \<Rightarrow> string \<Rightarrow> request \<Rightarrow> (auth_state, unit) io" where
  "disableAdminTotp D userId currentPassword req =
     bnd (assertCurrentPassword D userId currentPassword) (\<lambda>_.
     bnd (update_user userId (\<lambda>u. u\<lparr>u_mfaEnabled := False, u_mfaSecret := None, u_mfaRecoveryCodeHashes := [],
            u_mfaRecoveryCodesGeneratedAt := None, u_mfaEnabledAt := None\<rparr>)) (\<lambda>_.
     bnd (ensureRedisConnected D) (\<lambda>_.
     bnd (redis_del [getMfaSetupKey userId]) (\<lambda>_.
     logMfaAudit D userId ''setup_disabled'' req None))))"

definition regenerateRecoveryCodes :: "auth_deps \<Rightarrow> id \<Rightarrow> string \<Rightarrow> request \<Rightarrow> (auth_state, string list) io" where
  "regenerateRecoveryCodes D userId currentPassword req =
     bnd (assertCurrentPassword D userId currentPassword) (\<lambda>user.
     bnd (throw_if (\<not> u_mfaEnabled user) (Unauthorized ''Enable MFA before generating recovery codes'')) (\<lambda>_.
     let codes = generateRecoveryCodes D in
     bnd (update_user userId (\<lambda>u. u\<lparr>u_mfaRecoveryCodeHashes := hashRecoveryCodes D codes,
            u_mfaRecoveryCodesGeneratedAt := Some (au_now D)\<rparr>)) (\<lambda>_.
     bnd (logMfaAudit D userId ''recovery_codes_regenerated'' req (Some [(''recoveryCodesCount'', show_nat (length codes))])) (\<lambda>_.
     ret codes))))"

record mfa_status =
  ms_mfaEnabled :: bool
  ms_mfaEnabledAt :: "time option"
  ms_recoveryCodesRemaining :: nat
  ms_recoveryCodesGeneratedAt :: "time option"

definition getMfaStatus :: "id \<Rightarrow> (auth_state, mfa_status) io" where
  "getMfaStatus userId =
     bnd (asks (find_user userId)) (\<lambda>r.
     bnd (require (Unauthorized ''Only authenticated users can view MFA status'') r) (\<lambda>u.
     ret \<lparr>ms_mfaEnabled = u_mfaEnabled u, ms_mfaEnabledAt = u_mfaEnabledAt u,
          ms_recoveryCodesRemaining = length (u_mfaRecoveryCodeHashes u),
          ms_recoveryCodesGeneratedAt = u_mfaRecoveryCodesGeneratedAt u\<rparr>))"

definition getMfaAuditTrail :: "id \<Rightarrow> (auth_state, (string \<times> string \<times> string \<times> time \<times> (string \<times> string) list option) list) io" where
  "getMfaAuditTrail userId =
     bnd (asks (find_user userId)) (\<lambda>r.
     bnd (throw_if (r = None) (Unauthorized ''Only authenticated users can view MFA audit trail'')) (\<lambda>_.
     asks (\<lambda>s. map (\<lambda>a. (a_action a, or_opt (a_ip a) ''unknown'', or_opt (a_userAgent a) ''unknown'', a_createdAt a, a_metadata a))
       (take 20 (sort_key (\<lambda>a. - a_createdAt a) (filter (\<lambda>a. a_userId a = userId) (mfaAuditLogs s)))))))"

section \<open>Sessions\<close>

definition find_refresh :: "string \<Rightarrow> auth_state \<Rightarrow> refresh_row option" where
  "find_refresh token s = List.find (\<lambda>r. r_token r = token) (refreshTokens s)"

definition delete_refresh :: "(refresh_row \<Rightarrow> bool) \<Rightarrow> (auth_state, unit) io" where
  "delete_refresh p = modify (\<lambda>s. s\<lparr>refreshTokens := delete_many p (refreshTokens s)\<rparr>)"

definition reuse_ttl :: "auth_deps \<Rightarrow> refresh_payload \<Rightarrow> int" where
  "reuse_ttl D p =
     max 1 (case rp_exp p of
       Some e \<Rightarrow> if e = 0 then parseDurationSeconds (or_opt (au_env D ''JWT_REFRESH_EXPIRES_IN'') ''7d'') 604800
                 else e - au_now D div 1000
     | None \<Rightarrow> parseDurationSeconds (or_opt (au_env D ''JWT_REFRESH_EXPIRES_IN'') ''7d'') 604800)"

definition refresh_claims :: "auth_deps \<Rightarrow> string \<Rightarrow> (id \<times> string \<times> refresh_payload) option" where
  "refresh_claims D token =
     (case verify_refresh D (or_opt (au_env D ''JWT_REFRESH_SECRET'') []) token of
        None \<Rightarrow> None
      | Some p \<Rightarrow>
          if \<not> truthy (rp_sub p) \<or> \<not> truthy (rp_jti p) \<or> rp_type p \<noteq> Some ''refresh'' then None
          else Some (the (rp_sub p), the (rp_jti p), p))"

text \<open>The foreign key makes the row's user exist; a row without one would give \<open>null\<close>, read here as a \<open>TypeError\<close>.\<close>

definition refreshTokens_handler :: "auth_deps \<Rightarrow> string \<Rightarrow> request \<Rightarrow> (auth_state, session) io" where
  "refreshTokens_handler D refreshToken req =
     bnd (throw_if (refreshToken = []) (Unauthorized ''Invalid refresh token'')) (\<lambda>_.
     bnd (require (Unauthorized ''Invalid refresh token'') (refresh_claims D refreshToken)) (\<lambda>(subject, jti, p).
     bnd (ensureRedisConnected D) (\<lambda>_.
     bnd (redis_get D (getRefreshReuseKey jti)) (\<lambda>wasUsed.
     bnd (asks (find_refresh refreshToken)) (\<lambda>stored.
     if wasUsed \<noteq> None \<or> stored = None then
       bnd (delete_refresh (\<lambda>r. r_userId r = subject)) (\<lambda>_.
       throw (Unauthorized ''Refresh token reuse detected. All sessions revoked.''))
     else
       let row = the stored in
       bnd (delete_refresh (\<lambda>r. r_id r = r_id row)) (\<lambda>_.
       bnd (throw_if (r_expiresAt row < au_now D) (Unauthorized ''Refresh token expired'')) (\<lambda>_.
       bnd (redis_set D (getRefreshReuseKey jti) (RNum 1) (of_int (reuse_ttl D p))) (\<lambda>_.
       bnd (asks (find_user (r_userId row))) (\<lambda>u.
       bnd (require (PlainError ''TypeError'') u) (\<lambda>user.
       bnd (generateTokens D user req) (\<lambda>(accessToken, newRefresh).
       ret \<lparr>se_accessToken = accessToken, se_refreshToken = newRefresh, se_user = excludePassword user\<rparr>)))))))))))"

definition logout :: "string \<Rightarrow> (auth_state, string) io" where
  "logout refreshToken =
     bnd (if refreshToken \<noteq> [] then delete_refresh (\<lambda>r. r_token r = refreshToken) else ret ()) (\<lambda>_.
     ret ''Logged out successfully'')"

definition logoutAllSessions :: "id \<Rightarrow> (auth_state, string) io" where
  "logoutAllSessions userId =
     bnd (delete_refresh (\<lambda>r. r_userId r = userId)) (\<lambda>_. ret ''Logged out from all sessions'')"

definition auth_changePassword :: "auth_deps \<Rightarrow> id \<Rightarrow> string \<Rightarrow> string \<Rightarrow> (auth_state, string) io" where
  "auth_changePassword D userId oldPassword newPassword =
     bnd (assertCurrentPassword D userId oldPassword) (\<lambda>_.
     bnd (update_user userId (\<lambda>u. u\<lparr>u_password := au_hash D 0 newPassword\<rparr>)) (\<lambda>user.
     bnd (sync_best_effort D user) (\<lambda>_.
     ret ''Password changed successfully'')))"

definition auth_getProfile :: "id \<Rightarrow> (auth_state, user_row \<times> quota_row option) io" where
  "auth_getProfile userId =
     bnd (asks (find_user userId)) (\<lambda>r.
     bnd (require (NotFound ''User not found'') r) (\<lambda>user.
     bnd (asks (find_quota userId)) (\<lambda>q. ret (excludePassword user, q))))"

definition generateWsTicket :: "auth_deps \<Rightarrow> id \<Rightarrow> request \<Rightarrow> (auth_state, string) io" where
  "generateWsTicket D userId req =
     bnd (asks (find_user userId)) (\<lambda>r.
     bnd (require (NotFound ''User not found'') r) (\<lambda>user.
     bnd (throw_if (\<not> u_isActive user) (Unauthorized ''User is inactive'')) (\<lambda>_.
     ret (sign_ws D \<lparr>sub = userId, jwt_email = u_email user, jwt_role = role_name (u_role user), fp = Some (fingerprint_of D req)\<rparr>))))"

end
