(* ===== verification/Auth_Security.thy ===== *)
theory Auth_Security
  imports Auth_Service
begin

text \<open>
  What the auth service promises: when a login gives a session, how failed logins lock an
  account, that challenges, refresh tokens and recovery codes work once, that sessions stay
  sound, and three places where the service gives less than it seems to.
\<close>

section \<open>Runs of the building blocks\<close>

lemma ensureRedis_Inr_iff [io_iffs]: "ensureRedisConnected D s = (Inr x, t) \<longleftrightarrow> redis_up D \<and> t = s"
  by (auto simp: ensureRedisConnected_def io_iffs)

lemma ensureRedis_Inl_iff [io_iffs]: "ensureRedisConnected D s = (Inl e, t) \<longleftrightarrow> \<not> redis_up D \<and> e = PlainError ''Redis'' \<and> t = s"
  by (auto simp: ensureRedisConnected_def io_iffs)

lemma ensureRedis_up: "redis_up D \<Longrightarrow> ensureRedisConnected D s = (Inr (), s)"
  by (simp add: ensureRedisConnected_def throw_if_eq)

lemma redis_get_eq [simp]: "redis_get D k s = (Inr (rd_get (au_now D) (redis s) k), s)"
  by (simp add: redis_get_def)

lemma redis_del_eq [simp]: "redis_del ks s = (Inr (), s\<lparr>redis := rd_del ks (redis s)\<rparr>)"
  by (simp add: redis_del_def)

lemma redis_set_eq:
  "seconds_arg x = Some n \<Longrightarrow> redis_set D k v x s = (Inr (), s\<lparr>redis := rd_set_ex (au_now D) k v n (redis s)\<rparr>)"
  by (simp add: redis_set_def bnd_eq require_eq)

lemma redis_set_Inr_iff [io_iffs]:
  "redis_set D k v x s = (Inr u, t) \<longleftrightarrow>
     (\<exists>n. seconds_arg x = Some n \<and> t = s\<lparr>redis := rd_set_ex (au_now D) k v n (redis s)\<rparr>)"
  by (auto simp: redis_set_def io_iffs)

lemma sync_best_effort_eq: "\<exists>p. sync_best_effort D u s = (Inr (), s\<lparr>projected := p\<rparr>)"
  unfolding sync_best_effort_def syncUserProjection_def try_catch_eq Let_def
  by (auto simp: bnd_eq split: fetch_result.split intro: exI [of _ "projected s"])

lemma storeLoginContext_eq:
  "storeLoginContext D u req s =
     (case seconds_arg (loginContextTtlSeconds (au_cfg D)) of
        Some n \<Rightarrow> if redis_up D
          then (Inr (), s\<lparr>redis := rd_set_ex (au_now D) (getLoginContextKey u)
                  (RObj (Context \<lparr>lc_fingerprint = fingerprint_of D req, lc_ip = getClientIp req,
                     lc_userAgent = svc_getUserAgent req, lc_lastSeenAt = au_now D\<rparr>)) n (redis s)\<rparr>)
          else (Inr (), s)
      | None \<Rightarrow> (Inr (), s))"
  by (simp add: storeLoginContext_def try_catch_eq bnd_eq ensureRedisConnected_def throw_if_eq redis_set_def require_eq
      split: option.split)

lemma storeLoginContext_Inr: "storeLoginContext D u req s = (r, t) \<Longrightarrow> r = Inr () \<and> (\<exists>kv. t = s\<lparr>redis := kv\<rparr>)"
  by (auto simp: storeLoginContext_eq split: option.splits if_splits intro: exI [of _ "redis s"])

lemma insert_refresh_Inr_iff [io_iffs]:
  "insert_refresh r s = (Inr x, t) \<longleftrightarrow>
     (\<forall>y \<in> set (refreshTokens s). r_id y \<noteq> r_id r \<and> r_token y \<noteq> r_token r) \<and> find_user (r_userId r) s \<noteq> None \<and>
     t = s\<lparr>refreshTokens := refreshTokens s @ [r]\<rparr>"
  by (auto simp: insert_refresh_def io_iffs)

definition session_row :: "auth_deps \<Rightarrow> id \<Rightarrow> time \<Rightarrow> refresh_row" where
  "session_row D u e = \<lparr>r_id = session_uuid D, r_token = new_refresh_token D u, r_userId = u, r_expiresAt = e, r_createdAt = au_now D\<rparr>"

lemma generateTokens_Inr_iff [io_iffs]:
  "generateTokens D user req s = (Inr (a, b), t) \<longleftrightarrow>
     (\<exists>e. refresh_expiry D = Some e \<and> a = new_access_token D user req \<and> b = new_refresh_token D (u_id user) \<and>
        insert_refresh (session_row D (u_id user) e) s = (Inr (), t))"
  by (auto simp: generateTokens_def bnd_Inr_iff require_Inr_iff session_row_def)

lemma issue_session_Inr:
  assumes "issue_session D user req s = (Inr se, t)"
  shows "\<exists>e kv. refresh_expiry D = Some e \<and> se_user se = excludePassword user \<and>
    se_accessToken se = new_access_token D user req \<and> se_refreshToken se = new_refresh_token D (u_id user) \<and>
    t = s\<lparr>refreshTokens := refreshTokens s @ [session_row D (u_id user) e], redis := kv\<rparr> \<and>
    storeLoginContext D (u_id user) req (s\<lparr>refreshTokens := refreshTokens s @ [session_row D (u_id user) e]\<rparr>) = (Inr (), t)"
proof -
  obtain a b s1 where g: "generateTokens D user req s = (Inr (a, b), s1)"
    and st: "storeLoginContext D (u_id user) req s1 = (Inr (), t)"
    and se: "se = \<lparr>se_accessToken = a, se_refreshToken = b, se_user = excludePassword user\<rparr>"
    using assms by (auto simp: issue_session_def bnd_Inr_iff)
  then show ?thesis using storeLoginContext_Inr [OF st] by (auto simp: io_iffs)
qed

section \<open>What only touches Redis\<close>

definition redis_only :: "auth_state \<Rightarrow> auth_state \<Rightarrow> bool" where
  "redis_only s t \<longleftrightarrow> (\<exists>kv. t = s\<lparr>redis := kv\<rparr>)"

lemma redis_only_refl [simp]: "redis_only s s"
  by (simp add: redis_only_def exI [of _ "redis s"])

lemma redis_only_update: "redis_only s x \<Longrightarrow> redis_only s (x\<lparr>redis := kv\<rparr>)"
  by (auto simp: redis_only_def)

lemma redis_ops_only [preserves_intros]:
  "preserves (redis_only s) (ensureRedisConnected D)" "preserves (redis_only s) (redis_get D k)"
  "preserves (redis_only s) (redis_del ks)" "preserves (redis_only s) (redis_set D k v x)"
  "preserves (redis_only s) (redis_incr D k)" "preserves (redis_only s) (redis_expire D k x)"
  unfolding ensureRedisConnected_def redis_get_def redis_del_def redis_set_def redis_incr_def redis_expire_def
  by (intro preserves_intros preserves_modify; auto intro!: preserves_intros preserves_modify simp: redis_only_update split: prod.split)+

lemma registerFailed_only [preserves_intros]: "preserves (redis_only s) (registerFailedLogin D em)"
  unfolding registerFailedLogin_def by (intro preserves_intros)

lemma registerFailed_frame: "registerFailedLogin D em s = (r, t) \<Longrightarrow> redis_only s t"
  by (rule preservesD [OF registerFailed_only redis_only_refl])

section \<open>Login\<close>

lemma check_credentials_Inr_iff [io_iffs]:
  "check_credentials D dto s = (Inr u, t) \<longleftrightarrow>
     find_user_email (lg_email dto) s = Some u \<and> au_compare D (lg_password dto) (u_password u) \<and> u_isActive u \<and> t = s"
  by (auto simp: check_credentials_def io_iffs split: option.splits)

lemma assertNotLocked_Inr_iff [io_iffs]:
  "assertNotLocked D em s = (Inr x, t) \<longleftrightarrow> redis_up D \<and> rd_ttl (au_now D) (redis s) (getLockKey em) \<le> 0 \<and> t = s"
  by (auto simp: assertNotLocked_def io_iffs)

lemma captcha_state: "assertCaptchaIfNeeded D em c s = (r, t) \<Longrightarrow> t = s"
proof -
  have "read_only (assertCaptchaIfNeeded D em c)"
    unfolding assertCaptchaIfNeeded_def isCaptchaRequired_def ensureRedisConnected_def redis_get_def Let_def by (intro read_only_intros)
  then show "assertCaptchaIfNeeded D em c s = (r, t) \<Longrightarrow> t = s" by (metis read_only_def snd_conv)
qed

lemma anomaly_state: "evaluateLoginAnomaly D u req s = (r, t) \<Longrightarrow> t = s"
proof -
  have "read_only (evaluateLoginAnomaly D u req)"
    unfolding evaluateLoginAnomaly_def getPreviousLoginContext_def ensureRedisConnected_def redis_get_def by (intro read_only_intros)
  then show "evaluateLoginAnomaly D u req s = (r, t) \<Longrightarrow> t = s" by (metis read_only_def snd_conv)
qed

lemma clearFailedLogins_Inr_iff [io_iffs]:
  "clearFailedLogins D em s = (Inr x, t) \<longleftrightarrow> redis_up D \<and> t = s\<lparr>redis := rd_del [getFailKey em, getLockKey em] (redis s)\<rparr>"
  by (auto simp: clearFailedLogins_def io_iffs)

text \<open>A login that gives a session, taken apart.\<close>

lemma login_LoggedIn:
  assumes "login D dto req s = (Inr (LoggedIn se), t)"
  obtains u p s1 where "redis_up D" "rd_ttl (au_now D) (redis s) (getLockKey (lg_email dto)) \<le> 0"
    "find_user_email (lg_email dto) s = Some u" "au_compare D (lg_password dto) (u_password u)" "u_isActive u"
    "\<not> (u_mfaEnabled u \<and> truthy (u_mfaSecret u))" "\<not> (adminMfaEnabled (au_cfg D) \<and> u_role u = ADMIN)"
    "s1 = s\<lparr>redis := rd_del [getFailKey (lg_email dto), getLockKey (lg_email dto)] (redis s), projected := p\<rparr>"
    "issue_session D u req s1 = (Inr se, t)"
proof -
  obtain u s1 s2 s3 b where 1: "assertNotLocked D (lg_email dto) s = (Inr (), s)" "check_credentials D dto s = (Inr u, s)"
    "clearFailedLogins D (lg_email dto) s = (Inr (), s1)" "sync_best_effort D u s1 = (Inr (), s2)"
    "evaluateLoginAnomaly D (u_id u) req s2 = (Inr b, s3)"
    "finish_login D dto req u s3 = (Inr (LoggedIn se), t)"
    using assms unfolding login_def bnd_Inr_iff throw_if_Inr_iff
    by (elim exE conjE) (auto simp: assertNotLocked_Inr_iff check_credentials_Inr_iff dest!: captcha_state)
  obtain p where s2: "s2 = s1\<lparr>projected := p\<rparr>" using sync_best_effort_eq [of D u s1] 1(4) by auto
  have s3: "s3 = s2" using anomaly_state [OF 1(5)] .
  have "\<not> (u_mfaEnabled u \<and> truthy (u_mfaSecret u))" "\<not> (adminMfaEnabled (au_cfg D) \<and> u_role u = ADMIN)"
    "issue_session D u req s3 = (Inr se, t)"
    using 1(6) by (auto simp: finish_login_def bnd_Inr_iff Let_def split: if_splits)
  then show thesis using 1(1-3) s2 s3 by (intro that [of u s3 p]) (auto simp: io_iffs)
qed

text \<open>
  C12: a login gives a session only to the one who may have it: the account is not locked, the
  address is that of an account that is active and whose password matches, the account has no
  second factor, and it is no administrator while the second factor of administrators is on. The
  session's refresh token is then the one new row, for that account, the returned user has no
  password, and the failed attempts and the lock of the address are gone.
\<close>

theorem login_session_needs:
  assumes "login D dto req s = (Inr (LoggedIn se), t)"
  shows "\<exists>u e. find_user_email (lg_email dto) s = Some u \<and> au_compare D (lg_password dto) (u_password u) \<and> u_isActive u \<and>
    rd_ttl (au_now D) (redis s) (getLockKey (lg_email dto)) \<le> 0 \<and>
    \<not> (u_mfaEnabled u \<and> truthy (u_mfaSecret u)) \<and> \<not> (adminMfaEnabled (au_cfg D) \<and> u_role u = ADMIN) \<and>
    refreshTokens t = refreshTokens s @ [session_row D (u_id u) e] \<and> users t = users s \<and>
    se_refreshToken se = new_refresh_token D (u_id u) \<and> u_password (se_user se) = [] \<and>
    rd_get (au_now D) (redis t) (getFailKey (lg_email dto)) = None \<and>
    rd_get (au_now D) (redis t) (getLockKey (lg_email dto)) = None"
proof -
  obtain u p s1 where u: "rd_ttl (au_now D) (redis s) (getLockKey (lg_email dto)) \<le> 0"
    "find_user_email (lg_email dto) s = Some u" "au_compare D (lg_password dto) (u_password u)" "u_isActive u"
    "\<not> (u_mfaEnabled u \<and> truthy (u_mfaSecret u))" "\<not> (adminMfaEnabled (au_cfg D) \<and> u_role u = ADMIN)"
    and s1: "s1 = s\<lparr>redis := rd_del [getFailKey (lg_email dto), getLockKey (lg_email dto)] (redis s), projected := p\<rparr>"
    and i: "issue_session D u req s1 = (Inr se, t)"
    using login_LoggedIn [OF assms] by blast
  obtain e kv where se: "se_user se = excludePassword u" "se_refreshToken se = new_refresh_token D (u_id u)"
    and t: "t = s1\<lparr>refreshTokens := refreshTokens s1 @ [session_row D (u_id u) e], redis := kv\<rparr>"
    and st: "storeLoginContext D (u_id u) req (s1\<lparr>refreshTokens := refreshTokens s1 @ [session_row D (u_id u) e]\<rparr>) = (Inr (), t)"
    using issue_session_Inr [OF i] by blast
  have keys: "getLoginContextKey x \<noteq> getFailKey y" "getLoginContextKey x \<noteq> getLockKey y" for x y
    by (simp_all add: getLoginContextKey_def getFailKey_def getLockKey_def)
  have "rd_get (au_now D) (redis t) k = None" if "k \<in> {getFailKey (lg_email dto), getLockKey (lg_email dto)}" for k
    using st that keys [symmetric] by (auto simp: storeLoginContext_eq s1 rd_get_set rd_get_del split: option.splits if_splits)
  then show ?thesis using u se by (intro exI [of _ u] exI [of _ e]) (simp add: t s1 excludePassword_def)
qed

section \<open>Lock-out\<close>

text \<open>A lock that is live refuses every login, whatever the password.\<close>

lemma locked_login_refused:
  assumes "redis_up D" "0 < rd_ttl (au_now D) (redis s) (getLockKey (lg_email dto))"
  shows "\<exists>m. login D dto req s = (Inl (TooManyRequests m), s)"
  using assms by (simp add: login_def bnd_eq assertNotLocked_def ensureRedis_up throw_if_eq)

text \<open>
  An attempt with the address, up to case, that the credentials do not allow, at a time in the
  window that starts at \<open>t0\<close>, and with a token that the CAPTCHA accepts when it is switched on.
\<close>

definition captcha_passed :: "auth_config \<Rightarrow> login_dto \<Rightarrow> bool" where
  "captcha_passed c dto \<longleftrightarrow> captchaEnabled c \<longrightarrow>
     (let token = trim (or_opt (lg_captchaToken dto) []) in
      token \<noteq> [] \<and> (captchaSharedSecret c = [] \<or> safeCodeEqual (captchaSharedSecret c) token))"

lemma captcha_open:
  assumes "captcha_passed (au_cfg D) dto" "redis_up D"
  shows "assertCaptchaIfNeeded D email (lg_captchaToken dto) s = (Inr (), s)"
  using assms
  by (auto simp: captcha_passed_def assertCaptchaIfNeeded_def isCaptchaRequired_def bnd_eq ensureRedis_up redis_get_def throw_if_eq Let_def split: option.split)

definition bad_attempt :: "auth_config \<Rightarrow> string \<Rightarrow> time \<Rightarrow> int \<Rightarrow> auth_state \<Rightarrow> auth_deps \<times> login_dto \<times> request \<Rightarrow> bool" where
  "bad_attempt c em t0 w s = (\<lambda>(D, dto, req).
     au_cfg D = c \<and> redis_up D \<and> captcha_passed c dto \<and> toLowerCase (lg_email dto) = toLowerCase em \<and> t0 \<le> au_now D \<and> au_now D < t0 + w * 1000 \<and>
     (case find_user_email (lg_email dto) s of
        None \<Rightarrow> True | Some u \<Rightarrow> \<not> (au_compare D (lg_password dto) (u_password u) \<and> u_isActive u)))"

definition after_logins :: "(auth_deps \<times> login_dto \<times> request) list \<Rightarrow> auth_state \<Rightarrow> auth_state" where
  "after_logins as s = foldl (\<lambda>s (D, dto, req). snd (login D dto req s)) s as"

definition lock_ready :: "auth_config \<Rightarrow> string \<Rightarrow> int \<Rightarrow> bool" where
  "lock_ready c em w \<longleftrightarrow> seconds_arg (lockWindowSeconds c) = Some w \<and>
     (\<forall>k \<ge> 1. seconds_arg (progressive_seconds c k) \<noteq> None)"

text \<open>Nothing counted and no lock; the streak of earlier locks, if there is one, is a number.\<close>

definition no_failures :: "time \<Rightarrow> string \<Rightarrow> auth_state \<Rightarrow> bool" where
  "no_failures t em s \<longleftrightarrow> rd_get t (redis s) (getFailKey em) = None \<and> rd_get t (redis s) (getLockKey em) = None \<and>
     (case redis s (getLockStreakKey em) of None \<Rightarrow> True | Some (RNum k, _) \<Rightarrow> 0 \<le> k | Some (RObj _, _) \<Rightarrow> False)"

text \<open>After \<open>k\<close> attempts.\<close>

definition counted :: "nat \<Rightarrow> time \<Rightarrow> int \<Rightarrow> string \<Rightarrow> auth_state \<Rightarrow> bool" where
  "counted k t0 w em s \<longleftrightarrow>
     (if k = 0 then rd_get t0 (redis s) (getFailKey em) = None
      else \<exists>e. redis s (getFailKey em) = Some (RNum (int k), Some e) \<and> t0 + w * 1000 \<le> e) \<and>
     rd_get t0 (redis s) (getLockKey em) = None \<and>
     (case redis s (getLockStreakKey em) of None \<Rightarrow> True | Some (RNum k, _) \<Rightarrow> 0 \<le> k | Some (RObj _, _) \<Rightarrow> False)"

lemma auth_keys_distinct [simp]:
  "getFailKey x \<noteq> getLockKey y" "getFailKey x \<noteq> getLockStreakKey y" "getLockKey x \<noteq> getLockStreakKey y"
  "getLockKey y \<noteq> getFailKey x" "getLockStreakKey y \<noteq> getFailKey x" "getLockStreakKey y \<noteq> getLockKey x"
  by (simp_all add: getFailKey_def getLockKey_def getLockStreakKey_def)

lemma count_attempt:
  assumes "counted k t0 w em s" "seconds_arg (lockWindowSeconds c) = Some w" "t0 \<le> au_now D" "au_now D < t0 + w * 1000" "au_cfg D = c"
  shows "\<exists>e. t0 + w * 1000 \<le> e \<and>
    bnd (redis_incr D (getFailKey em)) (\<lambda>a. bnd (if a = 1 then redis_expire D (getFailKey em) (lockWindowSeconds (au_cfg D)) else ret ()) (\<lambda>_. K a)) s =
      K (int k + 1) (s\<lparr>redis := (redis s)(getFailKey em \<mapsto> (RNum (int k + 1), Some e))\<rparr>)"
proof (cases "k = 0")
  case True
  have "rd_get (au_now D) (redis s) (getFailKey em) = None"
    using assms(1,3) True by (auto simp: counted_def intro: rd_get_expires)
  then have dead: "rd_live (au_now D) (redis s) (getFailKey em) = None" by (simp add: rd_get_def)
  have w: "0 < w" using assms(2) by (auto simp: seconds_arg_def split: if_splits)
  have "rd_expire (au_now D) (getFailKey em) w ((redis s)(getFailKey em \<mapsto> (RNum 1, None))) =
      (redis s)(getFailKey em \<mapsto> (RNum 1, Some (au_now D + w * 1000)))"
    using w by (simp add: rd_expire_def rd_live_def)
  then show ?thesis
    using assms(2,3,5) True dead
    by (intro exI [of _ "au_now D + w * 1000"])
      (simp add: bnd_eq redis_incr_def rd_incr_def require_eq redis_expire_def)
next
  case False
  then obtain e where e: "redis s (getFailKey em) = Some (RNum (int k), Some e)" "t0 + w * 1000 \<le> e"
    using assms(1) by (auto simp: counted_def)
  then have "rd_live (au_now D) (redis s) (getFailKey em) = Some (RNum (int k), Some e)"
    using assms(4) by (simp add: rd_live_def)
  then show ?thesis
    using e False by (intro exI [of _ e]) (simp add: bnd_eq redis_incr_def rd_incr_def require_eq)
qed

definition lock_if_due :: "auth_deps \<Rightarrow> string \<Rightarrow> int \<Rightarrow> (auth_state, unit) io" where
  "lock_if_due D em attempts =
     (if of_int attempts \<ge> maxFailedAttempts (au_cfg D) then
       bnd (redis_incr D (getLockStreakKey em)) (\<lambda>streak.
       bnd (redis_expire D (getLockStreakKey em) 86400) (\<lambda>_.
       let secs = progressive_seconds (au_cfg D) streak in
       bnd (redis_set D (getLockKey em) (RNum 1) secs) (\<lambda>_.
       throw (TooManyRequests (lock_text \<lceil>js_div secs 60\<rceil>)))))
      else ret ())"

lemma registerFailed_counted:
  assumes "counted k t0 w em s" "seconds_arg (lockWindowSeconds c) = Some w" "t0 \<le> au_now D" "au_now D < t0 + w * 1000"
    and "au_cfg D = c" "redis_up D"
  shows "\<exists>e. t0 + w * 1000 \<le> e \<and> registerFailedLogin D em s =
    lock_if_due D em (int k + 1) (s\<lparr>redis := (redis s)(getFailKey em \<mapsto> (RNum (int k + 1), Some e))\<rparr>)"
proof -
  have "registerFailedLogin D em s =
     bnd (redis_incr D (getFailKey em)) (\<lambda>a. bnd (if a = 1 then redis_expire D (getFailKey em) (lockWindowSeconds (au_cfg D)) else ret ()) (\<lambda>_.
       lock_if_due D em a)) s"
    unfolding registerFailedLogin_def lock_if_due_def bnd_eq [of "ensureRedisConnected D"] ensureRedis_up [OF assms(6)] by simp
  then show ?thesis using count_attempt [OF assms(1-5), of "lock_if_due D em"] by simp
qed

lemma registerFailed_below:
  assumes "counted k t0 w em s" "seconds_arg (lockWindowSeconds c) = Some w" "t0 \<le> au_now D" "au_now D < t0 + w * 1000"
    and "au_cfg D = c" "redis_up D" "of_nat (Suc k) < maxFailedAttempts c"
  shows "\<exists>s'. registerFailedLogin D em s = (Inr (), s') \<and> counted (Suc k) t0 w em s'"
proof -
  obtain e where e: "t0 + w * 1000 \<le> e"
    "registerFailedLogin D em s = (Inr (), s\<lparr>redis := (redis s)(getFailKey em \<mapsto> (RNum (int k + 1), Some e))\<rparr>)"
    using registerFailed_counted [OF assms(1-6)] assms(5,7) by (auto simp: lock_if_due_def)
  moreover have "counted (Suc k) t0 w em (s\<lparr>redis := (redis s)(getFailKey em \<mapsto> (RNum (int k + 1), Some e))\<rparr>)"
    using assms(1) e(1) by (auto simp: counted_def rd_get_def rd_live_def)
  ultimately show ?thesis by blast
qed

lemma streak_incr:
  assumes "case kv k of None \<Rightarrow> True | Some (RNum i, _) \<Rightarrow> 0 \<le> i | Some (RObj _, _) \<Rightarrow> False"
  shows "\<exists>j kv'. redis_incr D k (s\<lparr>redis := kv\<rparr>) = (Inr j, s\<lparr>redis := kv'\<rparr>) \<and> 1 \<le> j"
proof (cases "rd_live (au_now D) kv k")
  case None
  then show ?thesis by (simp add: redis_incr_def bnd_eq require_eq rd_incr_def, blast)
next
  case (Some x)
  then obtain v e where x: "x = (v, e)" "kv k = Some (v, e)"
    by (cases x) (auto simp: rd_live_def split: option.splits if_splits)
  then obtain i where "v = RNum i" "0 \<le> i" using assms by (cases v) auto
  then show ?thesis using Some x by (simp add: redis_incr_def bnd_eq require_eq rd_incr_def, blast)
qed

lemma registerFailed_at:
  assumes "counted k t0 w em s" "lock_ready c em w" "t0 \<le> au_now D" "au_now D < t0 + w * 1000"
    and "au_cfg D = c" "redis_up D" "maxFailedAttempts c \<le> of_nat (Suc k)"
  shows "\<exists>m n j s'. registerFailedLogin D em s = (Inl (TooManyRequests m), s') \<and> 1 \<le> j \<and> progressive_seconds c j = of_int n \<and>
    0 < n \<and> redis s' (getLockKey em) = Some (RNum 1, Some (au_now D + n * 1000))"
proof -
  have ready: "seconds_arg (lockWindowSeconds c) = Some w" "\<And>k. 1 \<le> k \<Longrightarrow> seconds_arg (progressive_seconds c k) \<noteq> None"
    using assms(2) by (auto simp: lock_ready_def)
  obtain e where run: "registerFailedLogin D em s =
      lock_if_due D em (int k + 1) (s\<lparr>redis := (redis s)(getFailKey em \<mapsto> (RNum (int k + 1), Some e))\<rparr>)"
    using registerFailed_counted [OF assms(1) ready(1) assms(3-6)] by blast
  obtain j kv where j: "redis_incr D (getLockStreakKey em) (s\<lparr>redis := (redis s)(getFailKey em \<mapsto> (RNum (int k + 1), Some e))\<rparr>) =
      (Inr j, s\<lparr>redis := kv\<rparr>)" "1 \<le> j"
    using streak_incr [of "(redis s)(getFailKey em \<mapsto> (RNum (int k + 1), Some e))" "getLockStreakKey em" D s] assms(1)
    by (auto simp: counted_def)
  obtain n where n: "seconds_arg (progressive_seconds c j) = Some n" using ready(2) [OF j(2)] by blast
  have day: "seconds_arg 86400 = Some 86400" by (simp add: seconds_arg_def)
  have "\<exists>m kv'. registerFailedLogin D em s = (Inl (TooManyRequests m), s\<lparr>redis := rd_set_ex (au_now D) (getLockKey em) (RNum 1) n kv'\<rparr>)"
    using run assms(5,7) j(1) n day by (simp add: lock_if_due_def bnd_eq redis_expire_def require_eq redis_set_eq Let_def, blast)
  moreover have "progressive_seconds c j = of_int n" "0 < n" using n by (auto simp: seconds_arg_def split: if_splits)
  ultimately show ?thesis using j(2) by (auto simp: rd_set_ex_def)
qed

text \<open>A refused attempt below the limit is counted; the one that reaches it sets the lock.\<close>

lemma login_refused:
  assumes "bad_attempt c em t0 w s0 (D, dto, req)" "redis_only s0 s" "counted k t0 w em s"
  shows "\<exists>m. login D dto req s = (case registerFailedLogin D em s of (Inl e, s') \<Rightarrow> (Inl e, s') | (Inr _, s') \<Rightarrow> (Inl (Unauthorized m), s'))"
proof -
  have em: "getFailKey (lg_email dto) = getFailKey em" "getLockKey (lg_email dto) = getLockKey em"
    "getLockStreakKey (lg_email dto) = getLockStreakKey em"
    using assms(1) by (simp_all add: bad_attempt_def getFailKey_def getLockKey_def getLockStreakKey_def)
  then have reg: "registerFailedLogin D (lg_email dto) = registerFailedLogin D em" unfolding registerFailedLogin_def em by simp
  have "rd_get (au_now D) (redis s) (getLockKey em) = None"
    using assms(1,3) by (auto simp: bad_attempt_def counted_def intro: rd_get_expires)
  then have "\<not> 0 < rd_ttl (au_now D) (redis s) (getLockKey em)" by (simp add: rd_ttl_def rd_get_def)
  then have open_gate: "assertNotLocked D (lg_email dto) s = (Inr (), s)" "assertCaptchaIfNeeded D (lg_email dto) (lg_captchaToken dto) s = (Inr (), s)"
    using assms(1) em captcha_open [of D dto]
    by (simp_all add: bad_attempt_def assertNotLocked_def bnd_eq ensureRedis_up throw_if_eq)
  have "find_user_email e s = find_user_email e s0" for e using assms(2) by (auto simp: redis_only_def find_user_email_def)
  then have "\<exists>m. check_credentials D dto s = bnd (registerFailedLogin D em) (\<lambda>_. throw (Unauthorized m)) s"
    using assms(1) reg by (auto simp: bad_attempt_def check_credentials_def bnd_eq split: option.splits)
  then obtain m where "check_credentials D dto s = bnd (registerFailedLogin D em) (\<lambda>_. throw (Unauthorized m)) s" by blast
  then show ?thesis
    using open_gate by (intro exI [of _ m]) (simp add: login_def bnd_eq split: prod.split sum.split)
qed

lemma after_logins_snoc: "after_logins (as @ [(D, dto, req)]) s = snd (login D dto req (after_logins as s))"
  by (simp add: after_logins_def)

lemma after_bad_attempts:
  assumes "list_all (bad_attempt c em t0 w s0) as" "of_nat (length as) < maxFailedAttempts c" "lock_ready c em w" "no_failures t0 em s0"
  shows "counted (length as) t0 w em (after_logins as s0) \<and> redis_only s0 (after_logins as s0)"
  using assms(1,2)
proof (induction as rule: rev_induct)
  case Nil
  then show ?case using assms(4) by (simp add: after_logins_def counted_def no_failures_def)
next
  case (snoc a as)
  obtain D dto req where a: "a = (D, dto, req)" by (cases a) auto
  let ?s = "after_logins as s0"
  have IH: "counted (length as) t0 w em ?s" "redis_only s0 ?s" using snoc by auto
  have bad: "bad_attempt c em t0 w s0 (D, dto, req)" using snoc(2) a by simp
  have ready: "seconds_arg (lockWindowSeconds c) = Some w" using assms(3) by (simp add: lock_ready_def)
  have env: "t0 \<le> au_now D" "au_now D < t0 + w * 1000" "au_cfg D = c" "redis_up D" using bad by (simp_all add: bad_attempt_def)
  obtain s' where s': "registerFailedLogin D em ?s = (Inr (), s')" "counted (Suc (length as)) t0 w em s'"
    using registerFailed_below [OF IH(1) ready env] snoc(3) by auto
  have "snd (login D dto req ?s) = s'" using login_refused [OF bad IH(2,1)] s'(1) by auto
  moreover have "redis_only s0 s'" using registerFailed_frame [OF s'(1)] IH(2) by (auto simp: redis_only_def)
  ultimately show ?case using s'(2) by (simp add: a after_logins_snoc)
qed

lemma progressive_at_most: "progressive_seconds c j \<le> lockMaxSeconds c"
  by (simp add: progressive_seconds_def)

text \<open>
  C13: as many attempts on an address with wrong credentials as the configuration allows, within the window and
  from a state in which nothing is counted, while Redis answers and, where the CAPTCHA is switched on, each with a token it accepts, lock the address: the last of them is answered with
  \<open>Too many failed login attempts\<close>, and until half a second before the lock ends every further
  login with the address, also with the right password, is refused in the same way and changes
  nothing. The lock lasts a whole number of seconds, at most the configured maximum. No account
  needs to exist for it, and no row of the database changes.
\<close>

theorem failed_logins_lock:
  assumes "list_all (bad_attempt c em t0 w s0) (as @ [(D, dto, req)])"
    and "of_nat (length as) < maxFailedAttempts c" "maxFailedAttempts c \<le> of_nat (Suc (length as))"
    and "lock_ready c em w" "no_failures t0 em s0"
  shows "\<exists>m n. fst (login D dto req (after_logins as s0)) = Inl (TooManyRequests m) \<and> 0 < n \<and> of_int n \<le> lockMaxSeconds c \<and>
    redis_only s0 (after_logins (as @ [(D, dto, req)]) s0) \<and>
    (\<forall>D' dto' req'. redis_up D' \<and> toLowerCase (lg_email dto') = toLowerCase em \<and> au_now D' \<le> au_now D + n * 1000 - 500 \<longrightarrow>
       (\<exists>m'. login D' dto' req' (after_logins (as @ [(D, dto, req)]) s0) =
          (Inl (TooManyRequests m'), after_logins (as @ [(D, dto, req)]) s0)))"
proof -
  let ?s = "after_logins as s0"
  have ready: "seconds_arg (lockWindowSeconds c) = Some w" using assms(4) by (simp add: lock_ready_def)
  have bad: "bad_attempt c em t0 w s0 (D, dto, req)" using assms(1) by simp
  have env: "t0 \<le> au_now D" "au_now D < t0 + w * 1000" "au_cfg D = c" "redis_up D" using bad by (simp_all add: bad_attempt_def)
  have c: "counted (length as) t0 w em ?s" "redis_only s0 ?s" using after_bad_attempts [OF _ assms(2,4,5)] assms(1) by auto
  obtain m n j s' where r: "registerFailedLogin D em ?s = (Inl (TooManyRequests m), s')" "progressive_seconds c j = of_int n" "0 < n"
    "redis s' (getLockKey em) = Some (RNum 1, Some (au_now D + n * 1000))"
    using registerFailed_at [OF c(1) assms(4) env assms(3)] by blast
  have l: "login D dto req ?s = (Inl (TooManyRequests m), s')" using login_refused [OF bad c(2,1)] r(1) by auto
  then have t: "after_logins (as @ [(D, dto, req)]) s0 = s'" by (simp add: after_logins_snoc)
  have frame: "redis_only s0 s'" using registerFailed_frame [OF r(1)] c(2) by (auto simp: redis_only_def)
  have "0 < rd_ttl t (redis s') (getLockKey em)" if "t \<le> au_now D + n * 1000 - 500" for t
    using r(4) that by (simp add: rd_ttl_def rd_live_def pos_imp_zdiv_pos_iff)
  then have "\<exists>m'. login D' dto' req' s' = (Inl (TooManyRequests m'), s')"
    if "redis_up D'" "toLowerCase (lg_email dto') = toLowerCase em" "au_now D' \<le> au_now D + n * 1000 - 500" for D' dto' req'
    using locked_login_refused [of D' s' dto' req'] that by (simp add: getLockKey_def)
  then show ?thesis
    using l t frame r(2,3) progressive_at_most [of c j] by (intro exI [of _ m] exI [of _ n]) auto
qed

end
