(* ===== verification/Auth_Sessions.thy ===== *)
theory Auth_Sessions
  imports Auth_Security
begin

text \<open>
  The sessions of the auth service: refresh tokens, challenges of the second factor and recovery
  codes work once; the tables of users and sessions stay sound and an ended session stays ended under every operation; and places
  where the service gives less than it seems to: the login with Google takes no second factor,
  a deactivated account keeps refreshing, and two refreshes with one token that overlap both succeed.
\<close>

section \<open>Refresh tokens\<close>

text \<open>A refresh that succeeds, both ways: what it needs and what it leaves.\<close>

definition refreshable :: "auth_deps \<Rightarrow> string \<Rightarrow> auth_state \<Rightarrow> string \<Rightarrow> refresh_payload \<Rightarrow> refresh_row \<Rightarrow> user_row \<Rightarrow> time \<Rightarrow> bool" where
  "refreshable D tok s jti p row user e \<longleftrightarrow> tok \<noteq> [] \<and> (\<exists>subject. refresh_claims D tok = Some (subject, jti, p)) \<and> redis_up D \<and>
     rd_get (au_now D) (redis s) (getRefreshReuseKey jti) = None \<and> find_refresh tok s = Some row \<and>
     au_now D \<le> r_expiresAt row \<and> find_user (r_userId row) s = Some user \<and> refresh_expiry D = Some e \<and>
     list_all (\<lambda>y. r_id y \<noteq> session_uuid D \<and> r_token y \<noteq> new_refresh_token D (u_id user))
       (delete_many (\<lambda>r. r_id r = r_id row) (refreshTokens s))"

definition after_refresh :: "auth_deps \<Rightarrow> string \<Rightarrow> refresh_payload \<Rightarrow> refresh_row \<Rightarrow> user_row \<Rightarrow> time \<Rightarrow> auth_state \<Rightarrow> auth_state" where
  "after_refresh D jti p row user e s = s\<lparr>redis := rd_set_ex (au_now D) (getRefreshReuseKey jti) (RNum 1) (reuse_ttl D p) (redis s),
     refreshTokens := delete_many (\<lambda>r. r_id r = r_id row) (refreshTokens s) @ [session_row D (u_id user) e]\<rparr>"

definition new_session :: "auth_deps \<Rightarrow> user_row \<Rightarrow> request \<Rightarrow> session" where
  "new_session D user req = \<lparr>se_accessToken = new_access_token D user req, se_refreshToken = new_refresh_token D (u_id user),
     se_user = excludePassword user\<rparr>"

lemma seconds_reuse: "seconds_arg (of_int (reuse_ttl D p)) = Some (reuse_ttl D p)"
  by (simp add: seconds_arg_def reuse_ttl_def)

lemma refreshTokens_Inr:
  assumes "refreshTokens_handler D tok req s = (Inr se, t)"
  obtains jti p row user e where "refreshable D tok s jti p row user e"
    "se = new_session D user req" "t = after_refresh D jti p row user e s"
proof -
  obtain subject jti p where cl: "refresh_claims D tok = Some (subject, jti, p)"
    using assms by (auto simp: refreshTokens_handler_def io_iffs)
  have *: "rd_get (au_now D) (redis s) (getRefreshReuseKey jti) = None" "find_refresh tok s \<noteq> None" "redis_up D"
    using assms cl by (auto simp: refreshTokens_handler_def io_iffs split: if_splits)
  obtain row where row: "find_refresh tok s = Some row" using *(2) by blast
  show thesis
    using assms cl * row unfolding refreshTokens_handler_def
    by (auto simp: io_iffs delete_refresh_def Let_def find_user_def refreshable_def new_session_def after_refresh_def seconds_reuse
        session_row_def list_all_iff cong: if_cong intro!: that)
qed

lemma refreshTokens_run:
  assumes "refreshable D tok s jti p row user e"
  shows "refreshTokens_handler D tok req s = (Inr (new_session D user req), after_refresh D jti p row user e s)"
proof -
  obtain subject where c: "refresh_claims D tok = Some (subject, jti, p)" using assms by (auto simp: refreshable_def)
  have u: "u_id user = r_userId row" using assms find_user_Some by (auto simp: refreshable_def)
  let ?s = "s\<lparr>refreshTokens := delete_many (\<lambda>r. r_id r = r_id row) (refreshTokens s),
      redis := rd_set_ex (au_now D) (getRefreshReuseKey jti) (RNum 1) (reuse_ttl D p) (redis s)\<rparr>"
  have "insert_refresh (session_row D (u_id user) e) ?s = (Inr (), after_refresh D jti p row user e s)"
    using assms u by (auto simp: insert_refresh_Inr_iff refreshable_def list_all_iff session_row_def after_refresh_def find_user_def)
  then have "generateTokens D user req ?s = (Inr (new_access_token D user req, new_refresh_token D (u_id user)), after_refresh D jti p row user e s)"
    using assms by (simp add: generateTokens_Inr_iff refreshable_def)
  moreover have "find_user (r_userId row) ?s = Some user" using assms by (simp add: refreshable_def find_user_def)
  ultimately show ?thesis
    using assms c
    by (simp add: refreshTokens_handler_def refreshable_def bnd_eq throw_if_eq require_eq ensureRedis_up delete_refresh_def
        redis_set_eq [OF seconds_reuse] new_session_def Let_def)
qed

text \<open>
  C14: a refresh token works once. After a refresh has succeeded, a second use of the same token,
  from anywhere and at any later time, gets no session; it deletes every session of the token's
  subject, also the one that the first use opened.
\<close>

theorem refresh_single_use:
  assumes "refreshTokens_handler D tok req s = (Inr se, t)" "distinct (map r_token (refreshTokens s))"
    and "se_refreshToken se \<noteq> tok" "redis_up D'" "refresh_claims D' tok = Some (subject, jti, p)"
  shows "refreshTokens_handler D' tok req' t =
      (Inl (Unauthorized ''Refresh token reuse detected. All sessions revoked.''),
       t\<lparr>refreshTokens := filter (\<lambda>r. r_userId r \<noteq> subject) (refreshTokens t)\<rparr>) \<and>
    (\<exists>e. session_row D (u_id (se_user se)) e \<in> set (refreshTokens t) \<and>
       r_token (session_row D (u_id (se_user se)) e) = se_refreshToken se)"
proof -
  obtain jti' p' row user e where ok: "refreshable D tok s jti' p' row user e" and se: "se = new_session D user req"
    and t: "t = after_refresh D jti' p' row user e s"
    using refreshTokens_Inr [OF assms(1)] by blast
  have row: "find_refresh tok s = Some row" "tok \<noteq> []" using ok by (simp_all add: refreshable_def)
  have r: "row \<in> set (refreshTokens s)" "r_token row = tok" using row(1) by (auto simp: find_refresh_def dest: find_Some_set)
  have "x = row" if "x \<in> set (refreshTokens s)" "r_token x = tok" for x
    using distinct_key_eq [OF assms(2)] r that by simp
  then have "r_token x \<noteq> tok" if "x \<in> set (refreshTokens t)" for x
    using that assms(3) by (auto simp: t session_row_def se after_refresh_def new_session_def)
  then have "find_refresh tok t = None" by (simp add: find_refresh_def find_None_iff)
  then have "refreshTokens_handler D' tok req' t =
      (Inl (Unauthorized ''Refresh token reuse detected. All sessions revoked.''),
       t\<lparr>refreshTokens := filter (\<lambda>r. r_userId r \<noteq> subject) (refreshTokens t)\<rparr>)"
    using assms(4,5) row(2)
    by (simp add: refreshTokens_handler_def bnd_eq throw_if_eq require_eq ensureRedis_up delete_refresh_def delete_many_def)
  moreover have "session_row D (u_id (se_user se)) e \<in> set (refreshTokens t)" "r_token (session_row D (u_id (se_user se)) e) = se_refreshToken se"
    by (simp_all add: t se after_refresh_def new_session_def excludePassword_def session_row_def)
  ultimately show ?thesis by blast
qed

section \<open>Challenges\<close>

lemma update_user_redis: "update_user i f s = (r, t) \<Longrightarrow> redis t = redis s"
  by (cases r) (auto simp: io_iffs)

lemma consume_redis: "consumeRecoveryCode D u code s = (r, t) \<Longrightarrow> redis t = redis s"
  by (cases r) (auto simp: consumeRecoveryCode_def Let_def io_iffs dest!: update_user_redis split: option.splits if_splits)

lemma logMfaAudit_eq: "\<exists>a. logMfaAudit D u act req m s = (Inr (), s\<lparr>mfaAuditLogs := a\<rparr>)"
  by (auto simp: logMfaAudit_def intro: exI [of _ "mfaAuditLogs s"])

lemma logMfaAudit_redis: "logMfaAudit D u act req m s = (r, t) \<Longrightarrow> redis t = redis s"
  using logMfaAudit_eq [of D u act req m s] by auto

definition code_passes :: "auth_deps \<Rightarrow> mfa_challenge \<Rightarrow> user_row \<Rightarrow> string \<Rightarrow> bool" where
  "code_passes D c user code \<longleftrightarrow>
     (case ch_mode c of
        Totp \<Rightarrow> truthy (u_mfaSecret user) \<and>
            verifyTotpCode (au_hmac D) (au_now D) (the (u_mfaSecret user)) code 1 = Inr True
          \<or> 8 \<le> length (normalizeRecoveryCode code) \<and>
            (\<exists>h \<in> set (u_mfaRecoveryCodeHashes user). au_compare D (normalizeRecoveryCode code) h)
      | Temporary \<Rightarrow> code \<noteq> [] \<and> ch_code c = Some code)"

lemma remove_match_Some: "remove_match p hs = Some hs' \<Longrightarrow> \<exists>h \<in> set hs. p h"
  by (induction p hs arbitrary: hs' rule: remove_match.induct) (auto split: if_splits)

lemma consume_True:
  "consumeRecoveryCode D u code s = (Inr True, t) \<Longrightarrow> find_user u s = Some user \<Longrightarrow>
     8 \<le> length (normalizeRecoveryCode code) \<and> (\<exists>h \<in> set (u_mfaRecoveryCodeHashes user). au_compare D (normalizeRecoveryCode code) h)"
  by (auto simp: consumeRecoveryCode_def Let_def io_iffs dest!: remove_match_Some split: option.splits if_splits)

lemma check_mfa_code_True:
  assumes "check_mfa_code D c user code req s = (Inr True, t)" "find_user (ch_userId c) s = Some user"
  shows "code_passes D c user code" "redis t = redis s"
proof -
  show "code_passes D c user code"
  proof (cases "ch_mode c")
    case Temporary
    then show ?thesis using assms by (auto simp: check_mfa_code_def code_passes_def safeCodeEqual_def truthy_def split: option.splits)
  next
    case Totp
    then show ?thesis
      using assms consume_True [OF _ assms(2)]
      by (auto simp: check_mfa_code_def code_passes_def io_iffs split: if_splits)
  qed
  show "redis t = redis s"
    using assms(1) by (auto simp: check_mfa_code_def io_iffs dest!: consume_redis logMfaAudit_redis split: mfa_mode.splits if_splits)
qed

lemma storeLoginContext_get:
  "storeLoginContext D u req s = (r, t) \<Longrightarrow> k \<noteq> getLoginContextKey u \<Longrightarrow> rd_get now (redis t) k = rd_get now (redis s) k"
  by (auto simp: storeLoginContext_eq rd_get_set split: option.splits if_splits)

lemma issue_session_get:
  assumes "issue_session D user req s = (Inr se, t)" "k \<noteq> getLoginContextKey (u_id user)"
  shows "rd_get now (redis t) k = rd_get now (redis s) k"
  using issue_session_Inr [OF assms(1)] storeLoginContext_get [OF _ assms(2)] by fastforce

text \<open>A verification that gives a session, taken apart.\<close>

lemma verifyAdminMfa_Inr:
  assumes "verifyAdminMfa D ch code req s = (Inr (se, remember), t)"
  obtains c user s1 where "rd_get (au_now D) (redis s) (getMfaChallengeKey ch) = Some (RObj (Challenge c))"
    "ch_fingerprint c = fingerprint_of D req" "find_user (ch_userId c) s = Some user" "u_isActive user"
    "check_mfa_code D c user code req s = (Inr True, s1)" "remember = ch_rememberMe c"
    "issue_session D user req (s1\<lparr>redis := rd_del [getMfaChallengeKey ch, getMfaAttemptsKey ch] (redis s1)\<rparr>) = (Inr se, t)"
proof -
  obtain v where v: "rd_get (au_now D) (redis s) (getMfaChallengeKey ch) = Some v" and up: "redis_up D"
    using assms by (auto simp: verifyAdminMfa_def Let_def io_iffs)
  obtain c where c: "as_challenge v = Some c" "ch_fingerprint c = fingerprint_of D req"
    using assms v by (cases "as_challenge v") (auto simp: verifyAdminMfa_def Let_def io_iffs split: if_splits)
  obtain user where u: "find_user (ch_userId c) s = Some user" "u_isActive user"
    using assms v c by (auto simp: verifyAdminMfa_def Let_def io_iffs split: option.splits if_splits)
  obtain ok s1 where k: "check_mfa_code D c user code req s = (Inr ok, s1)"
    and rest: "(if \<not> ok then register_failed_mfa D ch
        else bnd (redis_del [getMfaChallengeKey ch, getMfaAttemptsKey ch]) (\<lambda>_. bnd (issue_session D user req) (\<lambda>se. ret (se, ch_rememberMe c)))) s1 =
      (Inr (se, remember), t)"
    using assms v c u up by (auto simp: verifyAdminMfa_def Let_def bnd_Inr_iff require_Inr_iff ensureRedis_Inr_iff)
  have ok: ok using rest by (cases ok) (auto simp: register_failed_mfa_def io_iffs split: if_splits)
  let ?s2 = "s1\<lparr>redis := rd_del [getMfaChallengeKey ch, getMfaAttemptsKey ch] (redis s1)\<rparr>"
  have i: "issue_session D user req ?s2 = (Inr se, t)" and rm: "remember = ch_rememberMe c"
    using rest ok by (auto simp: bnd_Inr_iff)
  have "v = RObj (Challenge c)" using c(1) by (auto simp: as_challenge_def split: rvalue.splits auth_payload.splits)
  then show thesis using v c(2) u k ok rm i by (intro that [of c user s1]) simp_all
qed

text \<open>
  C15: a challenge of the second factor gives a session once, and only to the one it was made for:
  the challenge is live, the request has the fingerprint of the login that asked for it, its user
  is active, and the code is the one of the challenge, a current code of the user's secret or an
  unused recovery code. Afterwards the challenge is gone for every request and every code.
\<close>

theorem challenge_single_use:
  assumes "verifyAdminMfa D ch code req s = (Inr (se, remember), t)"
  shows "\<exists>c user. rd_get (au_now D) (redis s) (getMfaChallengeKey ch) = Some (RObj (Challenge c)) \<and>
    ch_fingerprint c = fingerprint_of D req \<and> remember = ch_rememberMe c \<and>
    find_user (ch_userId c) s = Some user \<and> u_isActive user \<and> code_passes D c user code \<and>
    se_refreshToken se = new_refresh_token D (ch_userId c) \<and>
    (\<forall>D' code' req'. redis_up D' \<longrightarrow>
       verifyAdminMfa D' ch code' req' t = (Inl (Unauthorized ''MFA challenge expired or invalid''), t))"
proof -
  obtain c user s1 where v: "rd_get (au_now D) (redis s) (getMfaChallengeKey ch) = Some (RObj (Challenge c))"
    and c: "ch_fingerprint c = fingerprint_of D req" and u: "find_user (ch_userId c) s = Some user" "u_isActive user"
    and k: "check_mfa_code D c user code req s = (Inr True, s1)" and rm: "remember = ch_rememberMe c"
    and i: "issue_session D user req (s1\<lparr>redis := rd_del [getMfaChallengeKey ch, getMfaAttemptsKey ch] (redis s1)\<rparr>) = (Inr se, t)"
    using verifyAdminMfa_Inr [OF assms] by blast
  have "getMfaChallengeKey ch \<noteq> getLoginContextKey x" for x by (simp add: getMfaChallengeKey_def getLoginContextKey_def)
  then have "rd_get now (redis t) (getMfaChallengeKey ch) = None" for now
    using issue_session_get [OF i] by (simp add: rd.removed_gone)
  then have "verifyAdminMfa D' ch code' req' t = (Inl (Unauthorized ''MFA challenge expired or invalid''), t)" if "redis_up D'" for D' code' req'
    using that by (simp add: verifyAdminMfa_def Let_def bnd_eq ensureRedis_up require_eq)
  moreover have "se_refreshToken se = new_refresh_token D (ch_userId c)"
    using issue_session_Inr [OF i] find_user_Some [OF u(1)] by auto
  ultimately show ?thesis using v c u rm check_mfa_code_True [OF _ u(1)] k by (intro exI [of _ c] exI [of _ user]) auto
qed

section \<open>Recovery codes\<close>

text \<open>
  What the stored hashes stand for: the list of the codes, normalized, that can still be used.
  A hash matches its own code and nothing else.
\<close>

definition unused_codes :: "(string \<Rightarrow> string \<Rightarrow> bool) \<Rightarrow> user_row \<Rightarrow> string list \<Rightarrow> bool" where
  "unused_codes cmp u cs \<longleftrightarrow> distinct cs \<and> list_all (\<lambda>c. 8 \<le> length c) cs \<and>
     list_all2 (\<lambda>h c. \<forall>x. cmp x h \<longleftrightarrow> x = c) (u_mfaRecoveryCodeHashes u) cs"

lemma remove_match_codes:
  "list_all2 (\<lambda>h c. \<forall>x. cmp x h \<longleftrightarrow> x = c) hs cs \<Longrightarrow>
     (case remove_match (cmp x) hs of
        None \<Rightarrow> x \<notin> set cs
      | Some hs' \<Rightarrow> x \<in> set cs \<and> list_all2 (\<lambda>h c. \<forall>x. cmp x h \<longleftrightarrow> x = c) hs' (remove1 x cs))"
  by (induction hs cs rule: list_all2_induct) (auto split: option.splits)

text \<open>
  C17: the stored hashes implement a set of unused codes: consuming a code answers whether it is
  in the set and takes it out, and nothing else of the account or of any other account changes.
  So a code works once, and using one does not use up another.
\<close>

theorem recovery_codes_refine:
  assumes "users_unique s" "find_user uid s = Some u" "unused_codes (au_compare D) u cs"
  shows "\<exists>t hs. consumeRecoveryCode D uid code s = (Inr (normalizeRecoveryCode code \<in> set cs), t) \<and>
    find_user uid t = Some (u\<lparr>u_mfaRecoveryCodeHashes := hs\<rparr>) \<and>
    unused_codes (au_compare D) (u\<lparr>u_mfaRecoveryCodeHashes := hs\<rparr>) (remove1 (normalizeRecoveryCode code) cs) \<and>
    (\<forall>j. j = uid \<or> find_user j t = find_user j s) \<and> t = s\<lparr>users := users t\<rparr>"
proof -
  let ?n = "normalizeRecoveryCode code"
  have c: "distinct cs" "\<And>c. c \<in> set cs \<Longrightarrow> 8 \<le> length c"
    "list_all2 (\<lambda>h c. \<forall>x. au_compare D x h \<longleftrightarrow> x = c) (u_mfaRecoveryCodeHashes u) cs"
    using assms(3) by (auto simp: unused_codes_def list_all_iff)
  have keep: "unused_codes (au_compare D) u (remove1 ?n cs)" if "?n \<notin> set cs" using assms(3) that by (simp add: remove1_idem)
  show ?thesis
  proof (cases "remove_match (au_compare D ?n) (u_mfaRecoveryCodeHashes u)")
    case None
    then have "?n \<notin> set cs" using remove_match_codes [OF c(3), of ?n] by simp
    moreover from this have "consumeRecoveryCode D uid code s = (Inr False, s)"
      using None assms(2) by (simp add: consumeRecoveryCode_def Let_def bnd_eq)
    ultimately show ?thesis using keep assms(2) by (intro exI [of _ s] exI [of _ "u_mfaRecoveryCodeHashes u"]) simp
  next
    case (Some hs)
    then have n: "?n \<in> set cs" "list_all2 (\<lambda>h c. \<forall>x. au_compare D x h \<longleftrightarrow> x = c) hs (remove1 ?n cs)"
      using remove_match_codes [OF c(3), of ?n] by simp_all
    let ?t = "s\<lparr>users := update_many (\<lambda>x. u_id x = uid) (\<lambda>u. u\<lparr>u_mfaRecoveryCodeHashes := hs\<rparr>) (users s)\<rparr>"
    have "\<not> user_clash (u\<lparr>u_mfaRecoveryCodeHashes := hs\<rparr>) s"
      using no_user_clash [OF assms(1,2)] by (simp add: user_clash_def same_account_def)
    then have "consumeRecoveryCode D uid code s = (Inr True, ?t)"
      using Some c(2) [OF n(1)] assms(2)
      by (simp add: consumeRecoveryCode_def Let_def bnd_eq update_user_def require_eq throw_if_eq)
    moreover have "list_all (\<lambda>c. 8 \<le> length c) (remove1 ?n cs)" using c(2) by (auto simp: list_all_iff dest: notin_set_remove1)
    ultimately show ?thesis
      using n c(1) assms(2) by (intro exI [of _ ?t] exI [of _ hs]) (auto simp: unused_codes_def find_user_update)
  qed
qed

definition code_char :: "char \<Rightarrow> bool" where
  "code_char c \<longleftrightarrow> to_upper_char c = c \<and> \<not> is_ws c \<and> (is_alpha c \<or> is_digit c)"

lemma hex_digit_code: "n < 16 \<Longrightarrow> code_char (hex_digit n)"
  by (auto simp: code_char_def to_upper_char_def is_ws_def is_alpha_def is_digit_def hex_digit_def Let_def)

lemma hex_upper_chars: "list_all code_char (hex_upper xs)"
proof (induction xs)
  case (Cons x xs)
  have "unat x div 16 < 16" using unsigned_less [of x, where 'a = nat] by (simp add: less_mult_imp_div_less)
  then show ?case using Cons hex_digit_code by (simp add: hex_upper_def)
qed (simp add: hex_upper_def)

lemma normalize_code_chars: "list_all code_char s \<Longrightarrow> normalizeRecoveryCode s = s"
  by (induction s) (auto simp: normalizeRecoveryCode_def toUpperCase_def code_char_def)

lemma normalize_dash: "normalizeRecoveryCode (CHR ''-'' # s) = normalizeRecoveryCode s"
proof -
  have "\<not> is_alpha CHR ''-''" "\<not> is_digit CHR ''-''" by code_simp+
  then show ?thesis by (simp add: normalizeRecoveryCode_def)
qed

lemma normalize_append: "normalizeRecoveryCode (s @ r) = normalizeRecoveryCode s @ normalizeRecoveryCode r"
  by (simp add: normalizeRecoveryCode_def toUpperCase_def)

lemma length_hex_upper: "length (hex_upper xs) = 2 * length xs"
  by (induction xs) (simp_all add: hex_upper_def)

lemma normalize_generated:
  assumes "length xs = 4"
  shows "normalizeRecoveryCode (take 4 (hex_upper xs) @ CHR ''-'' # take 4 (drop 4 (hex_upper xs))) = hex_upper xs"
proof -
  have part: "normalizeRecoveryCode (take k (drop j (hex_upper xs))) = take k (drop j (hex_upper xs))" for k j
    using hex_upper_chars [of xs] by (intro normalize_code_chars) (auto simp: list_all_iff dest!: in_set_takeD in_set_dropD)
  have "take 4 (drop 4 (hex_upper xs)) = drop 4 (hex_upper xs)" using assms by (simp add: length_hex_upper)
  then show ?thesis using part [of 4 0] part [of 4 4] by (simp add: normalize_append normalize_dash)
qed

lemma generated_codes:
  assumes "\<And>i. length (random_recovery D i) = 4"
  shows "map normalizeRecoveryCode (generateRecoveryCodes D) = map (\<lambda>i. hex_upper (random_recovery D i)) [0..<length (generateRecoveryCodes D)]"
    and "distinct (generateRecoveryCodes D) \<Longrightarrow> distinct (map normalizeRecoveryCode (generateRecoveryCodes D))"
proof -
  show n: "map normalizeRecoveryCode (generateRecoveryCodes D) = map (\<lambda>i. hex_upper (random_recovery D i)) [0..<length (generateRecoveryCodes D)]"
    using assms by (simp add: generateRecoveryCodes_def Let_def normalize_generated)
  assume "distinct (generateRecoveryCodes D)"
  then show "distinct (map normalizeRecoveryCode (generateRecoveryCodes D))"
    unfolding n by (auto simp: generateRecoveryCodes_def Let_def distinct_map inj_on_def)
qed

lemma hashed_codes:
  assumes "\<And>i x y. au_compare D x (au_hash D i y) \<longleftrightarrow> x = y"
  shows "list_all2 (\<lambda>h c. \<forall>x. au_compare D x h \<longleftrightarrow> x = c) (hashRecoveryCodes D codes) (map normalizeRecoveryCode codes)"
  using assms by (simp add: hashRecoveryCodes_def list_all2_conv_all_nth enumerate_eq_zip)

text \<open>
  The codes that a regeneration returns are the configured number, and every one of them,
  and none of the earlier ones unless drawn again, is then an unused code of the account. The
  hash is taken to match its own text and no other.
\<close>

theorem regenerated_codes_usable:
  assumes "regenerateRecoveryCodes D uid pw req s = (Inr codes, t)" "users_unique s"
    and "\<And>i x y. au_compare D x (au_hash D i y) \<longleftrightarrow> x = y"
    and "\<And>i. length (random_recovery D i) = 4" "distinct codes"
  shows "\<exists>u. find_user uid t = Some u \<and> unused_codes (au_compare D) u (map normalizeRecoveryCode codes) \<and>
    length codes = nat \<lfloor>mfaRecoveryCodesCount (au_cfg D)\<rfloor> \<and> u_mfaEnabled u \<and> u_isActive u \<and> au_compare D pw (u_password u)"
proof -
  obtain u s1 where u: "find_user uid s = Some u" "u_isActive u" "au_compare D pw (u_password u)" "u_mfaEnabled u"
    and codes: "codes = generateRecoveryCodes D"
    and s1: "s1 = s\<lparr>users := update_many (\<lambda>x. u_id x = uid) (\<lambda>u. u\<lparr>u_mfaRecoveryCodeHashes := hashRecoveryCodes D codes,
            u_mfaRecoveryCodesGeneratedAt := Some (au_now D)\<rparr>) (users s)\<rparr>"
    and a: "logMfaAudit D uid ''recovery_codes_regenerated'' req (Some [(''recoveryCodesCount'', show_nat (length codes))]) s1 = (Inr (), t)"
    using assms(1) by (auto simp: regenerateRecoveryCodes_def assertCurrentPassword_def io_iffs Let_def split: option.splits if_splits)
  have "find_user uid t = find_user uid s1"
    using a logMfaAudit_eq [of D uid "''recovery_codes_regenerated''" req "Some [(''recoveryCodesCount'', show_nat (length codes))]" s1]
    by (auto simp: find_user_def)
  moreover have "find_user uid s1 = Some (u\<lparr>u_mfaRecoveryCodeHashes := hashRecoveryCodes D codes, u_mfaRecoveryCodesGeneratedAt := Some (au_now D)\<rparr>)"
    using u(1) by (simp add: s1 find_user_update)
  moreover have "distinct (map normalizeRecoveryCode codes)" using generated_codes(2) [OF assms(4)] assms(5) by (simp add: codes)
  moreover have "list_all (\<lambda>c. 8 \<le> length c) (map normalizeRecoveryCode codes)"
    using generated_codes(1) [OF assms(4)] assms(4) by (simp add: codes list_all_iff length_hex_upper)
  moreover have "length codes = nat \<lfloor>mfaRecoveryCodesCount (au_cfg D)\<rfloor>" by (simp add: codes generateRecoveryCodes_def)
  ultimately show ?thesis using u hashed_codes [OF assms(3)] by (simp add: unused_codes_def)
qed

section \<open>Where the second factor and the deactivation do not reach\<close>

lemma storeLoginContext_ok: "\<exists>kv. storeLoginContext D u req s = (Inr (), s\<lparr>redis := kv\<rparr>)"
  by (metis storeLoginContext_Inr surj_pair)

lemma issue_session_ok:
  assumes "refresh_expiry D = Some e" "insert_refresh (session_row D (u_id user) e) s = (Inr (), s')"
  shows "\<exists>kv. issue_session D user req s =
    (Inr (new_session D user req), s'\<lparr>redis := kv\<rparr>)"
proof -
  have "generateTokens D user req s = (Inr (new_access_token D user req, new_refresh_token D (u_id user)), s')"
    using assms by (simp add: generateTokens_Inr_iff)
  then show ?thesis using storeLoginContext_ok [of D "u_id user" req s'] by (auto simp: issue_session_def bnd_eq new_session_def)
qed

text \<open>
  The login with Google asks for no second factor: an active account that is linked to the
  Google account gets a session with an access token of its role, whether or not it has a second
  factor and whether or not it is an administrator for whom one is required.
\<close>

theorem google_login_skips_mfa:
  assumes "gp_email p = Some em" "find_user_email (toLowerCase (trim em)) s = Some u" "toLowerCase (trim em) \<noteq> []"
    and "parseCookie req ''google_intent'' = Inr c" "u_isActive u" "u_googleId u = Some (gp_id p)" "gp_id p \<noteq> []"
    and "refresh_expiry D = Some e" "find_user (u_id u) s \<noteq> None"
    and "list_all (\<lambda>r. r_id r \<noteq> session_uuid D \<and> r_token r \<noteq> new_refresh_token D (u_id u)) (refreshTokens s)"
  shows "\<exists>t. findOrCreateGoogleUser D p req s =
      (Inr (GoogleSession (new_session D u req)), t) \<and> se_accessToken (new_session D u req) = new_access_token D u req \<and>
    refreshTokens t = refreshTokens s @ [session_row D (u_id u) e]"
proof -
  obtain p' where p': "sync_best_effort D u s = (Inr (), s\<lparr>projected := p'\<rparr>)" using sync_best_effort_eq by blast
  have "insert_refresh (session_row D (u_id u) e) (s\<lparr>projected := p'\<rparr>) =
      (Inr (), s\<lparr>projected := p', refreshTokens := refreshTokens s @ [session_row D (u_id u) e]\<rparr>)"
    using assms(9,10) by (auto simp: insert_refresh_Inr_iff list_all_iff session_row_def find_user_def)
  from issue_session_ok [OF assms(8) this, of req] obtain kv where
    "issue_session D u req (s\<lparr>projected := p'\<rparr>) =
      (Inr (new_session D u req), s\<lparr>projected := p', refreshTokens := refreshTokens s @ [session_row D (u_id u) e], redis := kv\<rparr>)" by blast
  then show ?thesis
    using assms(1-7) p' by (simp add: findOrCreateGoogleUser_def Let_def find_or_create_google_def bnd_eq truthy_def new_session_def)
qed

definition deactivated :: "id \<Rightarrow> auth_state \<Rightarrow> auth_state" where
  "deactivated i s = s\<lparr>users := update_many (\<lambda>u. u_id u = i) (\<lambda>u. u\<lparr>u_isActive := False\<rparr>) (users s)\<rparr>"

lemma find_user_deactivated:
  "find_user j (deactivated i s) = (if j = i then map_option (\<lambda>u. u\<lparr>u_isActive := False\<rparr>) (find_user j s) else find_user j s)"
  by (simp add: deactivated_def find_user_update)

text \<open>
  Deactivating an account does not end its sessions: a refresh that succeeds succeeds as well,
  with the same tokens, after the account has been deactivated.
\<close>

theorem refresh_ignores_deactivation:
  assumes "refreshTokens_handler D tok req s = (Inr se, t)"
  shows "refreshTokens_handler D tok req (deactivated i s) =
    (Inr (if u_id (se_user se) = i then se\<lparr>se_user := (se_user se)\<lparr>u_isActive := False\<rparr>\<rparr> else se), deactivated i t)"
proof -
  obtain jti p row user e where ok: "refreshable D tok s jti p row user e" and se: "se = new_session D user req"
    and t: "t = after_refresh D jti p row user e s"
    using refreshTokens_Inr [OF assms] by blast
  let ?u = "if u_id user = i then user\<lparr>u_isActive := False\<rparr> else user"
  have id: "u_id user = r_userId row" using ok find_user_Some by (auto simp: refreshable_def)
  have ok': "refreshable D tok (deactivated i s) jti p row ?u e"
    using ok id by (auto simp: refreshable_def find_user_deactivated) (simp_all add: deactivated_def find_refresh_def)
  have se': "new_session D ?u req = (if u_id (se_user se) = i then se\<lparr>se_user := (se_user se)\<lparr>u_isActive := False\<rparr>\<rparr> else se)"
    by (simp add: se new_session_def new_access_token_def excludePassword_def)
  have t': "after_refresh D jti p row ?u e (deactivated i s) = deactivated i t"
    by (simp add: t after_refresh_def deactivated_def)
  show ?thesis unfolding se' [symmetric] t' [symmetric] by (rule refreshTokens_run [OF ok'])
qed

lemma preserves_mode [preserves_intros]:
  "preserves P m \<Longrightarrow> preserves P n \<Longrightarrow> preserves P (case x of Temporary \<Rightarrow> m | Totp \<Rightarrow> n)"
  by (cases x) simp_all

section \<open>Overlapping refreshes\<close>

text \<open>
  A refresh waits for the database twice: it looks the token up, and then replaces it. Other requests may run in between. The two halves, as
  the code has them: the row is read with its user.
\<close>

definition refresh_lookup :: "auth_deps \<Rightarrow> string \<Rightarrow> (auth_state, string \<times> refresh_payload \<times> refresh_row \<times> user_row) io" where
  "refresh_lookup D refreshToken =
     bnd (throw_if (refreshToken = []) (Unauthorized ''Invalid refresh token'')) (\<lambda>_.
     bnd (require (Unauthorized ''Invalid refresh token'') (refresh_claims D refreshToken)) (\<lambda>(subject, jti, p).
     bnd (ensureRedisConnected D) (\<lambda>_.
     bnd (redis_get D (getRefreshReuseKey jti)) (\<lambda>wasUsed.
     bnd (asks (find_refresh refreshToken)) (\<lambda>stored.
     if wasUsed \<noteq> None \<or> stored = None then
       bnd (delete_refresh (\<lambda>r. r_userId r = subject)) (\<lambda>_.
       throw (Unauthorized ''Refresh token reuse detected. All sessions revoked.''))
     else
       bnd (asks (find_user (r_userId (the stored)))) (\<lambda>u.
       bnd (require (PlainError ''TypeError'') u) (\<lambda>user. ret (jti, p, the stored, user))))))))"

definition refresh_replace :: "auth_deps \<Rightarrow> request \<Rightarrow> string \<times> refresh_payload \<times> refresh_row \<times> user_row \<Rightarrow> (auth_state, session) io" where
  "refresh_replace D req found = (case found of (jti, p, row, user) \<Rightarrow>
     bnd (delete_refresh (\<lambda>r. r_id r = r_id row)) (\<lambda>_.
     bnd (throw_if (r_expiresAt row < au_now D) (Unauthorized ''Refresh token expired'')) (\<lambda>_.
     bnd (redis_set D (getRefreshReuseKey jti) (RNum 1) (of_int (reuse_ttl D p))) (\<lambda>_.
     bnd (generateTokens D user req) (\<lambda>(accessToken, newRefresh).
     ret \<lparr>se_accessToken = accessToken, se_refreshToken = newRefresh, se_user = excludePassword user\<rparr>)))))"

lemma lookup_ok: "refreshable D tok s jti p row user e \<Longrightarrow> refresh_lookup D tok s = (Inr (jti, p, row, user), s)"
  by (auto simp: refresh_lookup_def refreshable_def bnd_eq throw_if_eq require_eq ensureRedis_up redis_get_def)

lemma replace_ok:
  assumes "refreshable D tok s jti p row user e" "find_user (u_id user) t = Some user"
    and "list_all (\<lambda>y. r_id y \<noteq> session_uuid D \<and> r_token y \<noteq> new_refresh_token D (u_id user)) (delete_many (\<lambda>r. r_id r = r_id row) (refreshTokens t))"
  shows "refresh_replace D req (jti, p, row, user) t = (Inr (new_session D user req), after_refresh D jti p row user e t)"
proof -
  let ?t = "t\<lparr>refreshTokens := delete_many (\<lambda>r. r_id r = r_id row) (refreshTokens t),
      redis := rd_set_ex (au_now D) (getRefreshReuseKey jti) (RNum 1) (reuse_ttl D p) (redis t)\<rparr>"
  have "insert_refresh (session_row D (u_id user) e) ?t = (Inr (), after_refresh D jti p row user e t)"
    using assms(2,3) by (auto simp: insert_refresh_Inr_iff list_all_iff session_row_def after_refresh_def find_user_def)
  then have "generateTokens D user req ?t = (Inr (new_access_token D user req, new_refresh_token D (u_id user)), after_refresh D jti p row user e t)"
    using assms(1) by (simp add: generateTokens_Inr_iff refreshable_def)
  then show ?thesis
    using assms(1) by (simp add: refresh_replace_def refreshable_def bnd_eq throw_if_eq delete_refresh_def redis_set_eq [OF seconds_reuse] new_session_def)
qed

text \<open>
  One after the other, the halves are the refresh. But when a second request with the same token looks it up before the first has replaced it, both are
  given a session, and the token that works once has made two: the number of rows that the deletion found is not looked at.
\<close>
theorem overlapping_refreshes_both_succeed:
  assumes one: "refreshable D tok s jti p row user e" and two: "refreshable D' tok s jti p row user e'"
    and "session_uuid D' \<noteq> session_uuid D" "new_refresh_token D' (u_id user) \<noteq> new_refresh_token D (u_id user)"
    and fresh: "session_uuid D \<noteq> r_id row"
  shows "refresh_lookup D tok s = (Inr (jti, p, row, user), s) \<and> refresh_lookup D' tok s = (Inr (jti, p, row, user), s) \<and>
    bnd (refresh_lookup D tok) (refresh_replace D req) s = refreshTokens_handler D tok req s \<and>
    (\<exists>t t'. refresh_replace D req (jti, p, row, user) s = (Inr (new_session D user req), t) \<and>
       refresh_replace D' req' (jti, p, row, user) t = (Inr (new_session D' user req'), t') \<and>
       {session_row D (u_id user) e, session_row D' (u_id user) e'} \<subseteq> set (refreshTokens t'))"
proof -
  have u: "find_user (u_id user) s = Some user" using one find_user_Some [of "r_userId row" s user] by (auto simp: refreshable_def)
  let ?t = "after_refresh D jti p row user e s"
  have first: "refresh_replace D req (jti, p, row, user) s = (Inr (new_session D user req), ?t)"
    using one u by (intro replace_ok [OF one]) (auto simp: refreshable_def)
  have keep: "r_id (session_row D (u_id user) e) \<noteq> r_id row" using fresh by (simp add: session_row_def)
  have second: "refresh_replace D' req' (jti, p, row, user) ?t = (Inr (new_session D' user req'), after_refresh D' jti p row user e' ?t)"
    using two u assms(3,4) by (intro replace_ok [OF two])
      (auto simp: refreshable_def after_refresh_def find_user_def list_all_iff delete_many_def session_row_def)
  have "{session_row D (u_id user) e, session_row D' (u_id user) e'} \<subseteq> set (refreshTokens (after_refresh D' jti p row user e' ?t))"
    using keep by (simp add: after_refresh_def delete_many_def)
  then show ?thesis
    using lookup_ok [OF one] lookup_ok [OF two] first second refreshTokens_run [OF one, of req] by (simp add: bnd_eq)
qed

section \<open>What the service keeps of its tables\<close>

text \<open>
  The contract of the two tables that sessions rest on: a property of the accounts and the sessions that the few writes of the
  service keep, is kept by every handler. \<open>ok\<close> is what the property needs of the outside world of a request.
\<close>

locale session_tables =
  fixes P :: "auth_state \<Rightarrow> bool" and ok :: "auth_deps \<Rightarrow> bool"
  assumes other_tables [simp]: "P (s\<lparr>redis := kv\<rparr>) = P s" "P (s\<lparr>projected := p\<rparr>) = P s" "P (s\<lparr>mfaAuditLogs := l\<rparr>) = P s"
    and update_kept [preserves_intros]: "(\<And>x. u_id (f x) = u_id x) \<Longrightarrow> preserves P (update_user i f)"
    and insert_kept [preserves_intros]: "preserves P (insert_user u)"
    and delete_kept [preserves_intros]: "preserves P (delete_refresh q)"
    and generate_kept: "ok D \<Longrightarrow> preserves P (generateTokens D u req)"
begin

lemma kept_redis [preserves_intros]:
  "preserves P (ensureRedisConnected D)" "preserves P (redis_get D k)" "preserves P (redis_del ks)" "preserves P (redis_set D k v x)"
  "preserves P (redis_incr D k)" "preserves P (redis_expire D k x)"
  unfolding ensureRedisConnected_def redis_get_def redis_del_def redis_set_def redis_incr_def redis_expire_def
  by (intro preserves_intros preserves_modify; auto intro!: preserves_intros preserves_modify split: prod.split)+

lemma kept_audit [preserves_intros]: "preserves P (logMfaAudit D u a req m)"
  unfolding logMfaAudit_def by (intro preserves_modify) simp

lemma kept_sync [preserves_intros]: "preserves P (sync_best_effort D u)"
proof (rule preservesI)
  fix s r t assume "P s" "sync_best_effort D u s = (r, t)"
  then show "P t" using sync_best_effort_eq [of D u s] by auto
qed

lemma kept_parts [preserves_intros]:
  "preserves P (registerFailedLogin D em)" "preserves P (assertNotLocked D em)" "preserves P (assertCaptchaIfNeeded D em c)"
  "preserves P (clearFailedLogins D em)" "preserves P (evaluateLoginAnomaly D i req)" "preserves P (storeLoginContext D i req)"
  "preserves P (store_challenge D u req b m c)" "preserves P (assertCurrentPassword D i pw)" "preserves P (consumeRecoveryCode D i code)"
  unfolding registerFailedLogin_def assertNotLocked_def assertCaptchaIfNeeded_def isCaptchaRequired_def clearFailedLogins_def
    evaluateLoginAnomaly_def getPreviousLoginContext_def storeLoginContext_def store_challenge_def assertCurrentPassword_def consumeRecoveryCode_def
  by (intro preserves_intros; simp)+

lemma kept_issue: "ok D \<Longrightarrow> preserves P (issue_session D u req)"
  unfolding issue_session_def by (intro preserves_intros generate_kept)

lemma kept_mfa_parts [preserves_intros]:
  "preserves P (check_mfa_code D c u code req)" "preserves P (register_failed_mfa D ch)"
  unfolding check_mfa_code_def register_failed_mfa_def by (intro preserves_intros)+

lemma kept_login:
  assumes "ok D"
  shows "preserves P (register D r req)" "preserves P (login D l req)" "preserves P (findOrCreateGoogleUser D g req)" "preserves P (verifyAdminMfa D ch code req)"
  unfolding register_def login_def check_credentials_def finish_login_def findOrCreateGoogleUser_def find_or_create_google_def verifyAdminMfa_def
  by (intro preserves_intros kept_issue [OF assms] generate_kept [OF assms]; simp)+

lemma kept_mfa:
  "preserves P (setupAdminTotpWithPassword D i pw req)" "preserves P (enableAdminTotp D i code req)"
  "preserves P (disableAdminTotp D i pw req)" "preserves P (regenerateRecoveryCodes D i pw req)"
  unfolding setupAdminTotpWithPassword_def setupAdminTotp_def enableAdminTotp_def disableAdminTotp_def regenerateRecoveryCodes_def
  by (intro preserves_intros; simp)+

lemma kept_refresh: "ok D \<Longrightarrow> preserves P (refreshTokens_handler D tok req)"
  unfolding refreshTokens_handler_def by (intro preserves_intros generate_kept)

lemma kept_sessions: "preserves P (logout tok)" "preserves P (logoutAllSessions i)" "preserves P (auth_changePassword D i old new)"
  unfolding logout_def logoutAllSessions_def auth_changePassword_def by (intro preserves_intros; simp)+

end

text \<open>One request to the auth service, successful or not, in an outside world that satisfies \<open>ok\<close>.\<close>

inductive auth_step :: "(auth_deps \<Rightarrow> bool) \<Rightarrow> auth_state \<Rightarrow> auth_state \<Rightarrow> bool" for ok where
  registers: "ok D \<Longrightarrow> register D dto req s = (r, t) \<Longrightarrow> auth_step ok s t"
| logs_in: "ok D \<Longrightarrow> login D ldto req s = (r1, t) \<Longrightarrow> auth_step ok s t"
| google: "ok D \<Longrightarrow> findOrCreateGoogleUser D g req s = (r2, t) \<Longrightarrow> auth_step ok s t"
| second_factor: "ok D \<Longrightarrow> verifyAdminMfa D ch code req s = (r3, t) \<Longrightarrow> auth_step ok s t"
| sets_up: "setupAdminTotpWithPassword D i pw req s = (r4, t) \<Longrightarrow> auth_step ok s t"
| enables: "enableAdminTotp D i code req s = (r5, t) \<Longrightarrow> auth_step ok s t"
| disables: "disableAdminTotp D i pw req s = (r6, t) \<Longrightarrow> auth_step ok s t"
| regenerates: "regenerateRecoveryCodes D i pw req s = (r7, t) \<Longrightarrow> auth_step ok s t"
| refreshes: "ok D \<Longrightarrow> refreshTokens_handler D tok req s = (r8, t) \<Longrightarrow> auth_step ok s t"
| logs_out: "logout tok s = (r9, t) \<Longrightarrow> auth_step ok s t"
| logs_out_all: "logoutAllSessions i s = (r10, t) \<Longrightarrow> auth_step ok s t"
| changes_password: "auth_changePassword D i old new s = (r11, t) \<Longrightarrow> auth_step ok s t"

context session_tables
begin

lemma step_kept: "auth_step ok s t \<Longrightarrow> P s \<Longrightarrow> P t"
  by (induction rule: auth_step.induct) (blast intro: preservesD [OF _ _] kept_login kept_mfa kept_refresh kept_sessions)+

lemma history_kept: "(auth_step ok)\<^sup>*\<^sup>* s t \<Longrightarrow> P s \<Longrightarrow> P t"
  by (induction rule: rtranclp_induct) (auto intro: step_kept)

end

section \<open>Sound sessions\<close>

text \<open>
  Accounts are unique, no two sessions share an identifier or a token, and every session is one
  of an account. The constraints of the database see to it.
\<close>

definition sessions_sound :: "auth_state \<Rightarrow> bool" where
  "sessions_sound s \<longleftrightarrow> users_unique s \<and> distinct (map r_id (refreshTokens s)) \<and> distinct (map r_token (refreshTokens s)) \<and>
     list_all (\<lambda>r. r_userId r \<in> u_id ` set (users s)) (refreshTokens s)"

lemma sound_update_user:
  assumes "\<And>x. u_id (f x) = u_id x"
  shows "preserves sessions_sound (update_user i f)"
proof (rule preservesI)
  fix s r t assume a: "sessions_sound s" "update_user i f s = (r, t)"
  then have "users_unique t" using preservesD [OF update_user_unique [OF assms]] by (auto simp: sessions_sound_def)
  moreover have "u_id ` set (update_many (\<lambda>x. u_id x = i) f us) = u_id ` set us" for us
    using assms by (induction us) auto
  then have "u_id ` set (users t) = u_id ` set (users s)" "refreshTokens t = refreshTokens s"
    using a(2) by (cases r; auto simp: io_iffs)+
  ultimately show "sessions_sound t" using a(1) by (simp add: sessions_sound_def)
qed

lemma sound_insert_user: "preserves sessions_sound (insert_user u)"
proof (rule preservesI)
  fix s r t assume a: "sessions_sound s" "insert_user u s = (r, t)"
  then have "users_unique t" using preservesD [OF insert_user_unique] by (auto simp: sessions_sound_def)
  moreover have "refreshTokens t = refreshTokens s" "u_id ` set (users s) \<subseteq> u_id ` set (users t)"
    using a(2) insert_user_Inl_state by (cases r; fastforce simp: io_iffs)+
  ultimately show "sessions_sound t" using a(1) by (auto simp: sessions_sound_def list_all_iff)
qed

lemma sound_insert_refresh: "preserves sessions_sound (insert_refresh x)"
proof (rule preservesI)
  fix s r t assume a: "sessions_sound s" "insert_refresh x s = (r, t)"
  show "sessions_sound t"
  proof (cases r)
    case Inl
    then show ?thesis using a by (auto simp: insert_refresh_def io_iffs)
  next
    case Inr
    then obtain u where "find_user (r_userId x) s = Some u" "t = s\<lparr>refreshTokens := refreshTokens s @ [x]\<rparr>"
      "\<forall>y \<in> set (refreshTokens s). r_id y \<noteq> r_id x \<and> r_token y \<noteq> r_token x"
      using a(2) by (auto simp: io_iffs)
    moreover from this(1) have "r_userId x \<in> u_id ` set (users s)" using find_user_Some by (metis image_eqI)
    ultimately show ?thesis using a(1) by (auto simp: sessions_sound_def)
  qed
qed

lemma sound_delete_refresh: "preserves sessions_sound (delete_refresh p)"
  unfolding delete_refresh_def
  by (intro preserves_modify) (auto simp: sessions_sound_def delete_many_def distinct_map_filter list_all_iff)

lemma sound_generate: "preserves sessions_sound (generateTokens D u req)"
  unfolding generateTokens_def by (intro preserves_intros sound_insert_refresh)

interpretation sound: session_tables sessions_sound "\<lambda>_. True"
proof
  show "sessions_sound (s\<lparr>redis := kv\<rparr>) = sessions_sound s" "sessions_sound (s\<lparr>projected := p\<rparr>) = sessions_sound s"
    "sessions_sound (s\<lparr>mfaAuditLogs := l\<rparr>) = sessions_sound s" for s kv p l
    by (simp_all add: sessions_sound_def)
qed (simp_all add: sound_update_user sound_insert_user sound_delete_refresh sound_generate)

section \<open>Ended sessions\<close>

definition no_session :: "string \<Rightarrow> auth_state \<Rightarrow> bool" where
  "no_session tok s \<longleftrightarrow> list_all (\<lambda>r. r_token r \<noteq> tok) (refreshTokens s)"

text \<open>The tokens that are signed from now on are different: each carries an identifier of its own.\<close>

definition mints_other :: "string \<Rightarrow> auth_deps \<Rightarrow> bool" where
  "mints_other tok D \<longleftrightarrow> (\<forall>i. new_refresh_token D i \<noteq> tok)"

lemma no_session_find: "no_session tok s \<longleftrightarrow> find_refresh tok s = None"
  by (auto simp: no_session_def find_refresh_def find_None_iff list_all_iff)

interpretation ended: session_tables "no_session tok" "mints_other tok" for tok
proof
  show "no_session tok (s\<lparr>redis := kv\<rparr>) = no_session tok s" "no_session tok (s\<lparr>projected := p\<rparr>) = no_session tok s"
    "no_session tok (s\<lparr>mfaAuditLogs := l\<rparr>) = no_session tok s" for s kv p l
    by (simp_all add: no_session_def)
  show "preserves (no_session tok) (update_user i f)" for i f
    by (rule preservesI, case_tac r) (auto simp: io_iffs no_session_def)
  show "preserves (no_session tok) (insert_user u)" for u
    by (rule preservesI) (auto simp: insert_user_def bnd_eq throw_if_eq no_session_def split: if_splits)
  show "preserves (no_session tok) (delete_refresh q)" for q
    unfolding delete_refresh_def by (intro preserves_modify) (auto simp: no_session_def delete_many_def list_all_iff)
  show "preserves (no_session tok) (generateTokens D u req)" if "mints_other tok D" for D u req
    unfolding generateTokens_def insert_refresh_def
    by (intro preserves_intros preserves_modify) (use that in \<open>auto simp: no_session_def mints_other_def\<close>)
qed

text \<open>
  The ways a session ends: its user logs it out, or logs out everywhere, or it is refreshed, which replaces its token, or a token of the same user that is
  not in the table any more is presented.
\<close>

definition ends :: "string \<Rightarrow> auth_state \<Rightarrow> auth_state \<Rightarrow> bool" where
  "ends tok s s' \<longleftrightarrow> (\<exists>row. find_refresh tok s = Some row \<and>
     (tok \<noteq> [] \<and> s' = snd (logout tok s) \<or> s' = snd (logoutAllSessions (r_userId row) s) \<or>
      (\<exists>D req se. mints_other tok D \<and> refreshTokens_handler D tok req s = (Inr se, s')) \<or>
      (\<exists>D req old jti p. old \<noteq> [] \<and> redis_up D \<and> refresh_claims D old = Some (r_userId row, jti, p) \<and> find_refresh old s = None \<and>
         s' = snd (refreshTokens_handler D old req s))))"

lemma token_row: "distinct (map r_token rs) \<Longrightarrow> List.find (\<lambda>r. r_token r = tok) rs = Some row \<Longrightarrow> r \<in> set rs \<Longrightarrow> r_token r = tok \<Longrightarrow> r = row"
  by (metis distinct_key_find option.inject)

lemma ends_session:
  assumes "sessions_sound s" "ends tok s s'"
  shows "no_session tok s'"
proof -
  obtain row where row: "find_refresh tok s = Some row" and how:
    "tok \<noteq> [] \<and> s' = snd (logout tok s) \<or> s' = snd (logoutAllSessions (r_userId row) s) \<or>
      (\<exists>D req se. mints_other tok D \<and> refreshTokens_handler D tok req s = (Inr se, s')) \<or>
      (\<exists>D req old jti p. old \<noteq> [] \<and> redis_up D \<and> refresh_claims D old = Some (r_userId row, jti, p) \<and> find_refresh old s = None \<and>
         s' = snd (refreshTokens_handler D old req s))"
    using assms(2) [unfolded ends_def] by (elim exE conjE)
  have only: "r = row" if "r \<in> set (refreshTokens s)" "r_token r = tok" for r
    using token_row [of "refreshTokens s" tok row r] assms(1) row that by (simp add: sessions_sound_def find_refresh_def)
  have gone: "no_session tok (s\<lparr>refreshTokens := delete_many q (refreshTokens s)\<rparr>)" if "q row" for q
    using only that by (auto simp: no_session_def delete_many_def list_all_iff)
  have tok: "r_token row = tok" using row by (auto simp: find_refresh_def dest: find_Some_set)
  from how show ?thesis
  proof (elim disjE exE conjE)
    assume "tok \<noteq> []" "s' = snd (logout tok s)"
    then show ?thesis using gone tok by (simp add: logout_def delete_refresh_def bnd_eq)
  next
    assume "s' = snd (logoutAllSessions (r_userId row) s)"
    then show ?thesis using gone by (simp add: logoutAllSessions_def delete_refresh_def bnd_eq)
  next
    fix D req se assume new: "mints_other tok D" and run: "refreshTokens_handler D tok req s = (Inr se, s')"
    from run show ?thesis
    proof (rule refreshTokens_Inr)
      fix jti p row' user e assume "refreshable D tok s jti p row' user e" "s' = after_refresh D jti p row' user e s"
      then show ?thesis using new row gone [of "\<lambda>r. r_id r = r_id row"]
        by (auto simp: refreshable_def after_refresh_def no_session_def mints_other_def session_row_def)
    qed
  next
    fix D req old jti p assume "old \<noteq> []" "redis_up D" "refresh_claims D old = Some (r_userId row, jti, p)" "find_refresh old s = None"
      "s' = snd (refreshTokens_handler D old req s)"
    then show ?thesis using gone [of "\<lambda>r. r_userId r = r_userId row"]
      by (simp add: refreshTokens_handler_def bnd_eq throw_if_eq require_eq ensureRedis_up delete_refresh_def redis_get_def)
  qed
qed

lemma refresh_without_session:
  assumes "find_refresh tok s = None"
  shows "\<exists>e t. refreshTokens_handler D tok req s = (Inl e, t)"
proof (cases "refreshTokens_handler D tok req s")
  case (Pair r t)
  moreover have "r \<noteq> Inr se" for se
  proof
    assume "r = Inr se"
    then have "refreshTokens_handler D tok req s = (Inr se, t)" using Pair by simp
    then show False by (rule refreshTokens_Inr) (use assms in \<open>auto simp: refreshable_def\<close>)
  qed
  ultimately show ?thesis by (cases r) auto
qed

text \<open>
  C16: a session that has ended stays ended. Once its user has logged it out, or logged out everywhere, or it was refreshed, or all sessions of
  the user were revoked because an old token came back, its refresh token gives no session any more: not in any state that the service reaches
  afterwards, whatever requests it serves, one after another, in whatever order and with whatever errors, as long as no token is signed twice.
\<close>

theorem ended_session_stays_ended:
  assumes "sessions_sound s" "ends tok s s'" "(auth_step (mints_other tok))\<^sup>*\<^sup>* s' t"
  shows "find_refresh tok t = None \<and> (\<exists>e t'. refreshTokens_handler D tok req t = (Inl e, t'))"
proof -
  have "find_refresh tok t = None"
    using ended.history_kept [OF assms(3) ends_session [OF assms(1,2)]] by (simp add: no_session_find)
  then show ?thesis using refresh_without_session by blast
qed

end
