(* ===== verification/Body_Checks.thy ===== *)
theory Body_Checks
  imports Request_Security Paging Js_Number
begin

text \<open>
  What the controllers of the services share: the checks of request bodies that appear in more than one
  service, the numbers of a query string, and the guards in front of a handler. A body that is refused
  never reaches its handler.
\<close>

section \<open>Bodies\<close>

text \<open>
  The expression of a password looks ahead for a lower case letter, an upper case letter, a digit and
  another character, and takes one line.
\<close>

definition line_char :: "char \<Rightarrow> bool" where
  "line_char c \<longleftrightarrow> (of_char c :: nat) \<noteq> 10 \<and> (of_char c :: nat) \<noteq> 13"

definition password_classes :: "string \<Rightarrow> bool" where
  "password_classes p \<longleftrightarrow>
     (\<exists>c \<in> set p. let n = of_char c :: nat in 97 \<le> n \<and> n \<le> 122) \<and>
     (\<exists>c \<in> set p. let n = of_char c :: nat in 65 \<le> n \<and> n \<le> 90) \<and>
     (\<exists>c \<in> set p. is_digit c) \<and> (\<exists>c \<in> set p. \<not> is_alpha c \<and> \<not> is_digit c) \<and>
     list_all line_char p"

definition password_ok :: "string \<Rightarrow> bool" where
  "password_ok p \<longleftrightarrow> 8 \<le> length p \<and> length p \<le> 128 \<and> password_classes p"

definition name_ok :: "string \<Rightarrow> bool" where
  "name_ok n \<longleftrightarrow> length n \<le> 100 \<and> CHR ''<'' \<notin> set n \<and> CHR ''>'' \<notin> set n"

definition valid_body :: "bool \<Rightarrow> ('s, unit) io" where
  "valid_body ok = throw_if (\<not> ok) (BadRequest ''Bad Request'')"

lemma valid_body_eq: "valid_body ok s = (if ok then Inr () else Inl (BadRequest ''Bad Request''), s)"
  by (simp add: valid_body_def throw_if_eq)

lemma valid_body_iffs [io_iffs]:
  "valid_body ok s = (Inr x, t) \<longleftrightarrow> ok \<and> t = s"
  "valid_body ok s = (Inl e, t) \<longleftrightarrow> \<not> ok \<and> e = BadRequest ''Bad Request'' \<and> t = s"
  by (auto simp: valid_body_eq)

lemma valid_body_preserves [preserves_intros]: "preserves P (valid_body ok)"
  by (simp add: preserves_def valid_body_eq)

section \<open>Numbers of a query\<close>

text \<open>\<open>parseInt(s, 10)\<close> for numbers below \<open>2 ^ 53\<close>: leading white space, a sign, the digits that follow.\<close>

definition parse_int :: "string \<Rightarrow> js_int" where
  "parse_int s =
     (let t = dropWhile is_ws s;
          signed = (t \<noteq> [] \<and> hd t \<in> set ''+-'');
          ds = takeWhile is_digit (if signed then tl t else t) in
      if ds = [] then NaN else Fin (if signed \<and> hd t = CHR ''-'' then - digits_value ds else digits_value ds))"

definition query_int :: "string option \<Rightarrow> js_int option" where
  "query_int q = (if truthy q then Some (parse_int (the q)) else None)"

section \<open>Guards\<close>

text \<open>A handler behind the guard of the token, and one behind the guard of the role as well.\<close>

definition with_user :: "exn + auth_user \<Rightarrow> (auth_user \<Rightarrow> ('s, 'a) io) \<Rightarrow> ('s, 'a) io" where
  "with_user guard k = bnd (lift guard) k"

definition with_admin :: "exn + auth_user \<Rightarrow> (auth_user \<Rightarrow> ('s, 'a) io) \<Rightarrow> ('s, 'a) io" where
  "with_admin guard k =
     with_user guard (\<lambda>u. bnd (lift (roles_canActivate [''ADMIN''] (Some u))) (\<lambda>ok.
       if ok then k u else throw (Forbidden ''Forbidden resource'')))"

lemma with_user_eq: "with_user guard k s = (case guard of Inl e \<Rightarrow> (Inl e, s) | Inr u \<Rightarrow> k u s)"
  by (simp add: with_user_def bnd_eq split: sum.split)

lemma with_user_Inr [simp]: "with_user (Inr u) k = k u"
  by (rule ext) (simp add: with_user_eq)

lemma preserves_list [preserves_intros]:
  "preserves P m \<Longrightarrow> (\<And>x xs. preserves P (k x xs)) \<Longrightarrow> preserves P (case l of [] \<Rightarrow> m | x # xs \<Rightarrow> k x xs)"
  by (cases l) simp_all

lemma with_admin_eq:
  "with_admin guard k s =
     (case guard of Inl e \<Rightarrow> (Inl e, s)
      | Inr u \<Rightarrow> if au_role u = ''ADMIN'' then k u s else (Inl (Forbidden ''Forbidden resource''), s))"
  by (simp add: with_admin_def with_user_eq bnd_eq roles_canActivate_def split: sum.split)

section \<open>Answers\<close>

definition answering :: "('a \<Rightarrow> 'b) \<Rightarrow> ('s, 'a) io \<Rightarrow> ('s, 'b) io" where
  "answering f m = bnd m (\<lambda>a. ret (f a))"

lemma answering_eq: "answering f m s = (case m s of (Inl e, t) \<Rightarrow> (Inl e, t) | (Inr a, t) \<Rightarrow> (Inr (f a), t))"
  by (auto simp: answering_def bnd_eq split: prod.split sum.split)

lemma answering_Inr_iff [io_iffs]: "answering f m s = (Inr b, t) \<longleftrightarrow> (\<exists>a. m s = (Inr a, t) \<and> b = f a)"
  by (auto simp: answering_eq split: prod.split sum.split)

lemma answering_preserves [preserves_intros]: "preserves P m \<Longrightarrow> preserves P (answering f m)"
  by (auto simp: preserves_def answering_eq split: prod.split sum.split)

end
