(* ===== verification/Auth_Controller.thy ===== *)
theory Auth_Controller
  imports Auth_Sessions Body_Checks
begin

text \<open>
  \<open>services/auth/src/auth/auth.controller.ts\<close> with its guards and the classes that validate the
  bodies: every endpoint of the auth service as the service call it makes and the cookies it sets.

  A handler runs on the state of the service and the cookies of the response so far; what was set
  before a \<open>throw\<close> stays set. Parameters: the verification of an access token, the reading of a bearer
  header, the validators of addresses and UUIDs, and the profile that Google vouches for. The texts
  that \<open>class-validator\<close> makes of a refused body are left out. A body's \<open>refreshToken\<close> is a string
  when it is there.
\<close>

section \<open>Cookies of the response\<close>

datatype same_site = Strict | Lax

record cookie_options =
  co_httpOnly :: bool
  co_secure :: bool
  co_sameSite :: same_site
  co_path :: string
  co_maxAge :: "rat option"

datatype cookie_op = SetCookie string string cookie_options | ClearCookie string cookie_options

type_synonym http_state = "auth_state \<times> cookie_op list"

definition service :: "(auth_state, 'a) io \<Rightarrow> (http_state, 'a) io" where
  "service m = (\<lambda>(s, out). case m s of (r, t) \<Rightarrow> (r, (t, out)))"

definition emit :: "cookie_op list \<Rightarrow> (http_state, unit) io" where
  "emit ops = modify (\<lambda>(s, out). (s, out @ ops))"

record web_request =
  wr_req :: request
  wr_secure :: bool
  wr_forwarded_proto :: header
  wr_path :: string
  wr_intent :: "string option"

record http_deps =
  hd_auth :: auth_deps
  hd_verify :: "string \<Rightarrow> string \<Rightarrow> jwt_payload option"
  hd_bearer :: "string option \<Rightarrow> string option"
  hd_isEmail :: "string \<Rightarrow> bool"
  hd_isUUID :: "string \<Rightarrow> bool"

section \<open>The bodies\<close>

definition register_dto_ok :: "http_deps \<Rightarrow> register_dto \<Rightarrow> bool" where
  "register_dto_ok H dto \<longleftrightarrow> hd_isEmail H (rg_email dto) \<and> password_ok (rg_password dto) \<and>
     name_ok (rg_firstName dto) \<and> name_ok (rg_lastName dto)"

definition login_dto_ok :: "http_deps \<Rightarrow> login_dto \<Rightarrow> bool" where
  "login_dto_ok H dto \<longleftrightarrow> hd_isEmail H (lg_email dto) \<and> password_ok (lg_password dto) \<and>
     (case lg_captchaToken dto of None \<Rightarrow> True | Some t \<Rightarrow> 8 \<le> length t \<and> length t \<le> 4096)"

definition verify_mfa_dto_ok :: "http_deps \<Rightarrow> string \<Rightarrow> string \<Rightarrow> bool" where
  "verify_mfa_dto_ok H challengeId code \<longleftrightarrow> hd_isUUID H challengeId \<and> six_digits code"

definition mfa_reauth_dto_ok :: "string \<Rightarrow> bool" where
  "mfa_reauth_dto_ok password \<longleftrightarrow> 8 \<le> length password"

definition change_password_dto_ok :: "string \<Rightarrow> bool" where
  "change_password_dto_ok newPassword \<longleftrightarrow> 8 \<le> length newPassword \<and> password_classes newPassword"

definition validated :: "bool \<Rightarrow> (http_state, unit) io" where
  "validated ok = throw_if (\<not> ok) (BadRequest ''Bad Request'')"

section \<open>The guards\<close>

text \<open>The auth service's strategy takes its secret as it stands, without the length check of the other services.\<close>

definition auth_jwt_guard :: "http_deps \<Rightarrow> request \<Rightarrow> exn + auth_user" where
  "auth_jwt_guard H req =
     (case jwt_token (hd_bearer H) req of
        Inl e \<Rightarrow> Inl e
      | Inr None \<Rightarrow> Inl (Unauthorized ''Unauthorized'')
      | Inr (Some t) \<Rightarrow>
          (case hd_verify H (or_opt (au_env (hd_auth H) ''JWT_SECRET'') []) t of
             None \<Rightarrow> Inl (Unauthorized ''Unauthorized'')
           | Some p \<Rightarrow> jwt_validate (au_sha256 (hd_auth H)) req p))"

definition guarded :: "http_deps \<Rightarrow> web_request \<Rightarrow> (id \<Rightarrow> (http_state, 'a) io) \<Rightarrow> (http_state, 'a) io" where
  "guarded H req k = bnd (lift (auth_jwt_guard H (wr_req req))) (\<lambda>u. k (au_userId u))"

definition shouldUseSecureCookies :: "process_env \<Rightarrow> web_request \<Rightarrow> bool" where
  "shouldUseSecureCookies pe req =
     (let policy = toLowerCase (or_opt (pe ''AUTH_COOKIE_SECURE'') ''auto'') in
      if policy = ''true'' then True
      else if policy = ''false'' then False
      else let forwardedProtoValue = (case wr_forwarded_proto req of
             NoHeader \<Rightarrow> None | One v \<Rightarrow> Some v | Many [] \<Rightarrow> None | Many (v # _) \<Rightarrow> Some v)
        in wr_secure req \<or> forwardedProtoValue = Some ''https'')"

text \<open>The guard of the login with Google has the same method.\<close>

definition google_guard_cookie :: "http_deps \<Rightarrow> web_request \<Rightarrow> (http_state, unit) io" where
  "google_guard_cookie H req =
     (if str_includes (wr_path req) ''/google/callback'' then ret ()
      else emit [SetCookie ''google_intent'' (if wr_intent req = Some ''register'' then ''register'' else ''login'')
                   \<lparr>co_httpOnly = True, co_secure = shouldUseSecureCookies (au_env (hd_auth H)) req, co_sameSite = Lax, co_path = ''/'',
                    co_maxAge = None\<rparr>])"

section \<open>The cookies of a session\<close>

definition max_age :: "rat \<Rightarrow> rat option" where
  "max_age ms = (if ms = 0 then None else Some ms)"

definition auth_cookies :: "http_deps \<Rightarrow> web_request \<Rightarrow> bool \<Rightarrow> session \<Rightarrow> cookie_op list" where
  "auth_cookies H req rememberMe tokens =
     (let pe = au_env (hd_auth H);
          secure = shouldUseSecureCookies pe req;
          accessMaxAge = (if rememberMe then max_age (parseDurationMs (or_opt (pe ''JWT_EXPIRES_IN'') ''15m'') 900000) else None);
          refreshMaxAge = (if rememberMe then max_age (parseDurationMs (or_opt (pe ''JWT_REFRESH_EXPIRES_IN'') ''7d'') 604800000) else None)
      in [SetCookie ''accessToken'' (se_accessToken tokens)
            \<lparr>co_httpOnly = True, co_secure = secure, co_sameSite = Strict, co_path = ''/'', co_maxAge = accessMaxAge\<rparr>,
          SetCookie ''refreshToken'' (se_refreshToken tokens)
            \<lparr>co_httpOnly = True, co_secure = secure, co_sameSite = Strict, co_path = ''/'', co_maxAge = refreshMaxAge\<rparr>])"

definition setAuthCookies :: "http_deps \<Rightarrow> web_request \<Rightarrow> bool \<Rightarrow> session \<Rightarrow> (http_state, unit) io" where
  "setAuthCookies H req rememberMe tokens = emit (auth_cookies H req rememberMe tokens)"

definition clearAuthCookies :: "http_deps \<Rightarrow> web_request \<Rightarrow> (http_state, unit) io" where
  "clearAuthCookies H req =
     (let secure = shouldUseSecureCookies (au_env (hd_auth H)) req in
      emit [ClearCookie ''accessToken'' \<lparr>co_httpOnly = True, co_secure = secure, co_sameSite = Strict, co_path = ''/'', co_maxAge = None\<rparr>,
            ClearCookie ''refreshToken'' \<lparr>co_httpOnly = True, co_secure = secure, co_sameSite = Strict, co_path = ''/'', co_maxAge = None\<rparr>])"

section \<open>The endpoints\<close>

definition http_register :: "http_deps \<Rightarrow> register_dto \<Rightarrow> web_request \<Rightarrow> (http_state, session) io" where
  "http_register H dto req =
     bnd (validated (register_dto_ok H dto)) (\<lambda>_.
     bnd (service (register (hd_auth H) dto (wr_req req))) (\<lambda>result.
     bnd (setAuthCookies H req True result) (\<lambda>_. ret result)))"

definition http_login :: "http_deps \<Rightarrow> login_dto \<Rightarrow> web_request \<Rightarrow> (http_state, login_result) io" where
  "http_login H dto req =
     bnd (validated (login_dto_ok H dto)) (\<lambda>_.
     bnd (service (login (hd_auth H) dto (wr_req req))) (\<lambda>result.
     case result of
       LoggedIn se \<Rightarrow> bnd (setAuthCookies H req (lg_rememberMe dto) se) (\<lambda>_. ret result)
     | _ \<Rightarrow> ret result))"

text \<open>\<open>GET google\<close>: the guard sets its cookie and the library redirects.\<close>

definition http_googleAuth :: "http_deps \<Rightarrow> web_request \<Rightarrow> (http_state, unit) io" where
  "http_googleAuth H req = google_guard_cookie H req"

definition app_origin :: "process_env \<Rightarrow> string" where
  "app_origin pe =
     (let origins = filter (\<lambda>w. w \<noteq> []) (map trim (split_on CHR '','' (or_opt (pe ''CORS_ORIGIN'') ''http://127.0.0.1:3000'')));
          originFallback = (case origins of [] \<Rightarrow> ''http://127.0.0.1:3000'' | w # _ \<Rightarrow> w)
      in rev (dropWhile (\<lambda>c. c = CHR ''/'') (rev (or_opt (pe ''PUBLIC_APP_ORIGIN'') originFallback))))"

text \<open>
  \<open>GET google/callback\<close>, redirecting. Without a profile the library refuses the request; with one its
  strategy makes the service's answer the user of the request.
\<close>

definition google_validate :: "http_deps \<Rightarrow> google_profile option \<Rightarrow> request \<Rightarrow> (auth_state, google_result) io" where
  "google_validate H profile req =
     (case profile of
        None \<Rightarrow> throw (Unauthorized ''Unauthorized'')
      | Some p \<Rightarrow> findOrCreateGoogleUser (hd_auth H) p req)"

definition google_failure :: "string \<Rightarrow> string" where
  "google_failure code =
     (if code = ''account_not_found'' then ''/login?error=google_account_not_found''
      else if code = ''account_inactive'' then ''/login?error=google_account_inactive''
      else ''/login?error=google_auth_failed'')"

definition http_googleCallback :: "http_deps \<Rightarrow> google_profile option \<Rightarrow> web_request \<Rightarrow> (http_state, string) io" where
  "http_googleCallback H profile req =
     bnd (google_guard_cookie H req) (\<lambda>_.
     bnd (service (google_validate H profile (wr_req req))) (\<lambda>user.
     let origin = app_origin (au_env (hd_auth H)) in
     bnd (emit [ClearCookie ''google_intent''
            \<lparr>co_httpOnly = True, co_secure = shouldUseSecureCookies (au_env (hd_auth H)) req, co_sameSite = Lax, co_path = ''/'', co_maxAge = None\<rparr>]) (\<lambda>_.
     case user of
       GoogleError code \<Rightarrow> ret (origin @ google_failure code)
     | GoogleSession se \<Rightarrow>
         bnd (lift (parseCookie (wr_req req) ''rememberMe'')) (\<lambda>c.
         bnd (setAuthCookies H req (c = Some ''1'') se) (\<lambda>_.
         ret (origin @ ''/dashboard''))))))"

definition http_verifyMfa :: "http_deps \<Rightarrow> string \<Rightarrow> string \<Rightarrow> web_request \<Rightarrow> (http_state, session \<times> bool) io" where
  "http_verifyMfa H challengeId code req =
     bnd (validated (verify_mfa_dto_ok H challengeId code)) (\<lambda>_.
     bnd (service (verifyAdminMfa (hd_auth H) challengeId code (wr_req req))) (\<lambda>(se, rememberMe).
     bnd (setAuthCookies H req rememberMe se) (\<lambda>_. ret (se, rememberMe))))"

definition http_setupMfa :: "http_deps \<Rightarrow> string \<Rightarrow> web_request \<Rightarrow> (http_state, setup_result) io" where
  "http_setupMfa H password req =
     guarded H req (\<lambda>userId. bnd (validated (mfa_reauth_dto_ok password)) (\<lambda>_.
       service (setupAdminTotpWithPassword (hd_auth H) userId password (wr_req req))))"

definition http_enableMfa :: "http_deps \<Rightarrow> string \<Rightarrow> web_request \<Rightarrow> (http_state, string list) io" where
  "http_enableMfa H code req =
     guarded H req (\<lambda>userId. bnd (validated (six_digits code)) (\<lambda>_.
       service (enableAdminTotp (hd_auth H) userId code (wr_req req))))"

definition http_disableMfa :: "http_deps \<Rightarrow> string \<Rightarrow> web_request \<Rightarrow> (http_state, unit) io" where
  "http_disableMfa H password req =
     guarded H req (\<lambda>userId. bnd (validated (mfa_reauth_dto_ok password)) (\<lambda>_.
       service (disableAdminTotp (hd_auth H) userId password (wr_req req))))"

definition http_regenerateRecoveryCodes :: "http_deps \<Rightarrow> string \<Rightarrow> web_request \<Rightarrow> (http_state, string list) io" where
  "http_regenerateRecoveryCodes H password req =
     guarded H req (\<lambda>userId. bnd (validated (mfa_reauth_dto_ok password)) (\<lambda>_.
       service (regenerateRecoveryCodes (hd_auth H) userId password (wr_req req))))"

definition http_mfaStatus :: "http_deps \<Rightarrow> web_request \<Rightarrow> (http_state, mfa_status) io" where
  "http_mfaStatus H req = guarded H req (\<lambda>userId. service (getMfaStatus userId))"

definition http_mfaAudit ::
    "http_deps \<Rightarrow> web_request \<Rightarrow> (http_state, (string \<times> string \<times> string \<times> time \<times> (string \<times> string) list option) list) io" where
  "http_mfaAudit H req = guarded H req (\<lambda>userId. service (getMfaAuditTrail userId))"

text \<open>\<open>bodyRefreshToken || cookieRefreshToken || ""\<close>.\<close>

definition presented_token :: "string option \<Rightarrow> string option \<Rightarrow> string" where
  "presented_token body c = or_opt body (or_opt c [])"

definition http_refresh :: "http_deps \<Rightarrow> string option \<Rightarrow> web_request \<Rightarrow> (http_state, session) io" where
  "http_refresh H body req =
     bnd (lift (parseCookie (wr_req req) ''refreshToken'')) (\<lambda>c.
     bnd (service (refreshTokens_handler (hd_auth H) (presented_token body c) (wr_req req))) (\<lambda>result.
     bnd (lift (parseCookie (wr_req req) ''rememberMe'')) (\<lambda>r.
     bnd (setAuthCookies H req (r = Some ''1'') result) (\<lambda>_. ret result))))"

definition http_logout :: "http_deps \<Rightarrow> string option \<Rightarrow> web_request \<Rightarrow> (http_state, string) io" where
  "http_logout H body req =
     bnd (lift (parseCookie (wr_req req) ''refreshToken'')) (\<lambda>c.
     bnd (clearAuthCookies H req) (\<lambda>_. service (logout (presented_token body c))))"

definition http_logoutAll :: "http_deps \<Rightarrow> web_request \<Rightarrow> (http_state, string) io" where
  "http_logoutAll H req =
     guarded H req (\<lambda>userId. bnd (clearAuthCookies H req) (\<lambda>_. service (logoutAllSessions userId)))"

definition http_changePassword :: "http_deps \<Rightarrow> string \<Rightarrow> string \<Rightarrow> web_request \<Rightarrow> (http_state, string) io" where
  "http_changePassword H oldPassword newPassword req =
     guarded H req (\<lambda>userId. bnd (validated (change_password_dto_ok newPassword)) (\<lambda>_.
       service (auth_changePassword (hd_auth H) userId oldPassword newPassword)))"

definition http_me :: "http_deps \<Rightarrow> web_request \<Rightarrow> (http_state, user_row \<times> quota_row option) io" where
  "http_me H req = guarded H req (\<lambda>userId. service (auth_getProfile userId))"

definition http_wsTicket :: "http_deps \<Rightarrow> web_request \<Rightarrow> (http_state, string) io" where
  "http_wsTicket H req = guarded H req (\<lambda>userId. service (generateWsTicket (hd_auth H) userId (wr_req req)))"

end
