(* ===== verification/Auth_Http.thy ===== *)
theory Auth_Http
  imports Auth_Controller
begin

text \<open>
  What the endpoints of the auth service promise: the flags of every cookie, the sessions behind the
  cookies, what the guard keeps out, and which bodies of the second factor and of a password get
  through.
\<close>

section \<open>The routes\<close>

datatype auth_call =
    Register register_dto
  | Login login_dto
  | GoogleAuth
  | GoogleCallback "google_profile option"
  | VerifyMfa string string
  | SetupMfa string
  | EnableMfa string
  | DisableMfa string
  | RegenerateCodes string
  | MfaStatus
  | MfaAudit
  | Refresh "string option"
  | Logout "string option"
  | LogoutAll
  | ChangePassword string string
  | Me
  | WsTicket

definition done_with :: "('s, 'a) io \<Rightarrow> ('s, unit) io" where
  "done_with m = bnd m (\<lambda>_. ret ())"

fun handle :: "http_deps \<Rightarrow> auth_call \<Rightarrow> web_request \<Rightarrow> (http_state, unit) io" where
  "handle H (Register dto) req = done_with (http_register H dto req)"
| "handle H (Login dto) req = done_with (http_login H dto req)"
| "handle H GoogleAuth req = done_with (http_googleAuth H req)"
| "handle H (GoogleCallback p) req = done_with (http_googleCallback H p req)"
| "handle H (VerifyMfa ch code) req = done_with (http_verifyMfa H ch code req)"
| "handle H (SetupMfa pw) req = done_with (http_setupMfa H pw req)"
| "handle H (EnableMfa code) req = done_with (http_enableMfa H code req)"
| "handle H (DisableMfa pw) req = done_with (http_disableMfa H pw req)"
| "handle H (RegenerateCodes pw) req = done_with (http_regenerateRecoveryCodes H pw req)"
| "handle H MfaStatus req = done_with (http_mfaStatus H req)"
| "handle H MfaAudit req = done_with (http_mfaAudit H req)"
| "handle H (Refresh body) req = done_with (http_refresh H body req)"
| "handle H (Logout body) req = done_with (http_logout H body req)"
| "handle H LogoutAll req = done_with (http_logoutAll H req)"
| "handle H (ChangePassword old new) req = done_with (http_changePassword H old new req)"
| "handle H Me req = done_with (http_me H req)"
| "handle H WsTicket req = done_with (http_wsTicket H req)"

lemmas endpoint_defs = done_with_def http_register_def http_login_def http_googleAuth_def http_googleCallback_def http_verifyMfa_def
  http_setupMfa_def http_enableMfa_def http_disableMfa_def http_regenerateRecoveryCodes_def http_mfaStatus_def http_mfaAudit_def
  http_refresh_def http_logout_def http_logoutAll_def http_changePassword_def http_me_def http_wsTicket_def

lemma service_iff [io_iffs]: "service m st = (r, st') \<longleftrightarrow> (\<exists>t. m (fst st) = (r, t) \<and> st' = (t, snd st))"
  by (cases st) (auto simp: service_def split: prod.split)

lemma emit_iff [io_iffs]: "emit ops st = (r, st') \<longleftrightarrow> r = Inr () \<and> st' = (fst st, snd st @ ops)"
  by (cases st) (auto simp: emit_def)

section \<open>The flags of the cookies\<close>

fun cookie_name :: "cookie_op \<Rightarrow> string" where
  "cookie_name (SetCookie n _ _) = n"
| "cookie_name (ClearCookie n _) = n"

fun cookie_flags :: "cookie_op \<Rightarrow> cookie_options" where
  "cookie_flags (SetCookie _ _ opts) = opts"
| "cookie_flags (ClearCookie _ opts) = opts"

definition protected_cookie :: "bool \<Rightarrow> cookie_op \<Rightarrow> bool" where
  "protected_cookie secure op \<longleftrightarrow> cookie_name op \<in> {''accessToken'', ''refreshToken'', ''google_intent''} \<and> co_httpOnly (cookie_flags op) \<and> co_secure (cookie_flags op) = secure \<and>
     co_path (cookie_flags op) = ''/'' \<and>
     co_sameSite (cookie_flags op) = (if cookie_name op = ''google_intent'' then Lax else Strict)"

definition out_protected :: "bool \<Rightarrow> http_state \<Rightarrow> bool" where
  "out_protected secure st \<longleftrightarrow> list_all (protected_cookie secure) (snd st)"

lemma service_keeps_out [preserves_intros]: "preserves (out_protected b) (service m)"
  by (auto simp: preserves_def out_protected_def service_def split: prod.split)

lemma emit_keeps_out: "list_all (protected_cookie b) ops \<Longrightarrow> preserves (out_protected b) (emit ops)"
  by (auto simp: preserves_def out_protected_def emit_def)

lemma preserves_login_result [preserves_intros]:
  "(\<And>se. preserves P (f se)) \<Longrightarrow> (\<And>a b. preserves P (g a b)) \<Longrightarrow> preserves P h \<Longrightarrow>
     preserves P (case r of LoggedIn se \<Rightarrow> f se | MfaRequired a b \<Rightarrow> g a b | MfaEnrollmentRequired \<Rightarrow> h)"
  by (cases r) simp_all

lemma preserves_google_result [preserves_intros]:
  "(\<And>c. preserves P (f c)) \<Longrightarrow> (\<And>se. preserves P (g se)) \<Longrightarrow>
     preserves P (case r of GoogleError c \<Rightarrow> f c | GoogleSession se \<Rightarrow> g se)"
  by (cases r) simp_all

lemma cookie_parts_protected [preserves_intros]:
  fixes H req defines "b \<equiv> shouldUseSecureCookies (au_env (hd_auth H)) req"
  shows "preserves (out_protected b) (setAuthCookies H req rm se)" "preserves (out_protected b) (clearAuthCookies H req)"
    "preserves (out_protected b) (google_guard_cookie H req)"
    "preserves (out_protected b) (emit [ClearCookie ''google_intent'' \<lparr>co_httpOnly = True, co_secure = b, co_sameSite = Lax, co_path = ''/'', co_maxAge = None\<rparr>])"
  unfolding setAuthCookies_def clearAuthCookies_def google_guard_cookie_def Let_def
  by (auto intro!: emit_keeps_out preserves_basic(1)
      simp: auth_cookies_def Let_def protected_cookie_def b_def)

lemma guarded_preserves [preserves_intros]: "(\<And>u. preserves P (k u)) \<Longrightarrow> preserves P (guarded H req k)"
  unfolding guarded_def by (intro preserves_intros)

lemma validated_preserves [preserves_intros]: "preserves P (validated b)"
  unfolding validated_def by (intro preserves_intros)

lemma handle_protects: "preserves (out_protected (shouldUseSecureCookies (au_env (hd_auth H)) req)) (handle H c req)"
  by (cases c) (simp_all only: handle.simps endpoint_defs, (intro preserves_intros; (rule preserves_intros)?)+)

lemma secure_policy:
  "shouldUseSecureCookies pe req \<longleftrightarrow>
     (let policy = toLowerCase (or_opt (pe ''AUTH_COOKIE_SECURE'') ''auto'') in
      policy = ''true'' \<or> policy \<noteq> ''false'' \<and>
        (wr_secure req \<or> wr_forwarded_proto req = One ''https'' \<or> (\<exists>vs. wr_forwarded_proto req = Many (''https'' # vs))))"
  by (auto simp: shouldUseSecureCookies_def Let_def split: header.splits list.splits)

text \<open>
  C33: every cookie that any endpoint sets or clears, also when it then fails, is one of three, hidden from scripts, for the whole
  site, and sent by no other site's requests; only the cookie that remembers why
  Google was asked is sent with a navigation from elsewhere. All of them are marked secure when \<open>AUTH_COOKIE_SECURE\<close> is \<open>true\<close>, none when it is
  \<open>false\<close>, and otherwise exactly when the request came over TLS, to the service or, by the first value of \<open>x-forwarded-proto\<close>, to the proxy before it. So a
  session's cookies are not always secure.
\<close>
theorem cookies_protected:
  assumes "handle H c req (s, []) = (r, (t, out))" "op \<in> set out"
  shows "cookie_name op \<in> {''accessToken'', ''refreshToken'', ''google_intent''} \<and>
    co_httpOnly (cookie_flags op) \<and> co_path (cookie_flags op) = ''/'' \<and>
    co_sameSite (cookie_flags op) = (if cookie_name op = ''google_intent'' then Lax else Strict) \<and>
    (co_secure (cookie_flags op) \<longleftrightarrow>
       (let policy = toLowerCase (or_opt (au_env (hd_auth H) ''AUTH_COOKIE_SECURE'') ''auto'') in
        policy = ''true'' \<or> policy \<noteq> ''false'' \<and>
          (wr_secure req \<or> wr_forwarded_proto req = One ''https'' \<or> (\<exists>vs. wr_forwarded_proto req = Many (''https'' # vs)))))"
proof -
  have "protected_cookie (shouldUseSecureCookies (au_env (hd_auth H)) req) op"
    using preservesD [OF handle_protects _ assms(1)] assms(2) by (simp add: out_protected_def list_all_iff)
  then show ?thesis unfolding protected_cookie_def secure_policy by blast
qed

section \<open>The sessions behind the cookies\<close>

definition opened :: "auth_deps \<Rightarrow> request \<Rightarrow> auth_state \<Rightarrow> session \<Rightarrow> bool" where
  "opened D req t se \<longleftrightarrow> (\<exists>u e. se = new_session D u req \<and> session_row D (u_id u) e \<in> set (refreshTokens t))"

lemma issue_opened: "issue_session D u req s = (Inr se, t) \<Longrightarrow> opened D req t se"
  by (drule issue_session_Inr) (auto simp: opened_def new_session_def session.equality intro!: exI [of _ u])

lemma refresh_opened: "refreshTokens_handler D tok req s = (Inr se, t) \<Longrightarrow> opened D req t se"
  by (erule refreshTokens_Inr) (auto simp: opened_def after_refresh_def)

lemma register_opened: "register D dto req s = (Inr se, t) \<Longrightarrow> opened D req t se"
  by (auto simp: register_def io_iffs dest: issue_opened)

lemma login_opened: "login D dto req s = (Inr (LoggedIn se), t) \<Longrightarrow> opened D req t se"
  by (erule login_LoggedIn) (rule issue_opened)

lemma google_opened: "findOrCreateGoogleUser D p req s = (Inr (GoogleSession se), t) \<Longrightarrow> opened D req t se"
  by (auto simp: findOrCreateGoogleUser_def io_iffs Let_def dest: issue_opened split: if_splits option.splits)

lemma verify_opened: "verifyAdminMfa D ch code req s = (Inr (se, rm), t) \<Longrightarrow> opened D req t se"
  by (erule verifyAdminMfa_Inr) (rule issue_opened)

lemmas opened_rules = register_opened login_opened google_opened verify_opened refresh_opened

text \<open>The cookies that carry a session among those of a response.\<close>

definition session_cookies :: "cookie_op list \<Rightarrow> cookie_op list" where
  "session_cookies out = filter (\<lambda>op. case op of SetCookie n _ _ \<Rightarrow> n \<noteq> ''google_intent'' | _ \<Rightarrow> False) out"

lemma session_cookies_simps [simp]:
  "session_cookies [] = []" "session_cookies (a @ b) = session_cookies a @ session_cookies b"
  "session_cookies (auth_cookies H req rm se) = auth_cookies H req rm se"
  "session_cookies (ClearCookie n opts # out) = session_cookies out" "session_cookies [SetCookie ''google_intent'' v opts] = []"
  by (simp_all add: session_cookies_def auth_cookies_def Let_def)

definition backed :: "http_deps \<Rightarrow> web_request \<Rightarrow> http_state \<Rightarrow> bool" where
  "backed H req st \<longleftrightarrow> session_cookies (snd st) = [] \<or>
     (\<exists>rm se. session_cookies (snd st) = auth_cookies H req rm se \<and> opened (hd_auth H) (wr_req req) (fst st) se)"

lemma no_session_kept [preserves_intros]:
  "preserves (\<lambda>st. session_cookies (snd st) = []) (service m)"
  "preserves (\<lambda>st. session_cookies (snd st) = []) (clearAuthCookies H req)"
  "preserves (\<lambda>st. session_cookies (snd st) = []) (google_guard_cookie H req)"
  by (auto simp: preserves_def service_def clearAuthCookies_def google_guard_cookie_def emit_def session_cookies_def Let_def split: prod.split)

lemma plain_no_session:
  assumes "case c of Register _ \<Rightarrow> False | Login _ \<Rightarrow> False | GoogleCallback _ \<Rightarrow> False | VerifyMfa _ _ \<Rightarrow> False | Refresh _ \<Rightarrow> False | _ \<Rightarrow> True"
  shows "preserves (\<lambda>st. session_cookies (snd st) = []) (handle H c req)"
  using assms
  by (cases c) (simp_all only: auth_call.case handle.simps endpoint_defs, (intro preserves_intros; (rule preserves_intros)?)+)

lemma login_result_iff [io_iffs]:
  "(case r of LoggedIn se \<Rightarrow> f se | MfaRequired a b \<Rightarrow> g a b | MfaEnrollmentRequired \<Rightarrow> h) st = x \<longleftrightarrow>
     (\<exists>se. r = LoggedIn se \<and> f se st = x) \<or> (\<exists>a b. r = MfaRequired a b \<and> g a b st = x) \<or> r = MfaEnrollmentRequired \<and> h st = x"
  by (cases r) simp_all

lemma google_result_iff [io_iffs]:
  "(case r of GoogleError code \<Rightarrow> f code | GoogleSession se \<Rightarrow> g se) st = x \<longleftrightarrow>
     (\<exists>code. r = GoogleError code \<and> f code st = x) \<or> (\<exists>se. r = GoogleSession se \<and> g se st = x)"
  by (cases r) simp_all

lemma session_calls_backed:
  assumes "handle H c req (s, []) = (r, st)" "c = Register dto \<or> c = Login ldto \<or> c = VerifyMfa ch code \<or> c = Refresh body"
  shows "backed H req st"
  using assms
  by (elim disjE; cases r)
    (auto simp: endpoint_defs io_iffs validated_def setAuthCookies_def backed_def dest: opened_rules)

lemma callback_backed:
  assumes "handle H (GoogleCallback p) req (s, []) = (r, st)"
  shows "backed H req st"
proof -
  obtain ops where g: "google_guard_cookie H req (s, []) = (Inr (), (s, ops))" "session_cookies ops = []"
    by (cases "str_includes (wr_path req) ''/google/callback''") (auto simp: google_guard_cookie_def emit_def intro: that)
  have "opened (hd_auth H) (wr_req req) t se" if "google_validate H p (wr_req req) s = (Inr (GoogleSession se), t)" for se t
    using that by (cases p) (auto simp: google_validate_def dest: google_opened)
  then show ?thesis
    using assms by (cases r) (auto simp: endpoint_defs io_iffs g setAuthCookies_def backed_def Let_def)
qed

text \<open>
  C32: whatever is asked of the auth service and however it ends, the response sets the cookies of a session only for
  one that the database holds: its refresh token is a stored row of an account, and its access token was
  signed for that account and for the client that asked.
\<close>
theorem session_cookies_backed:
  assumes "handle H c req (s, []) = (r, (t, out))" "session_cookies out \<noteq> []"
  shows "\<exists>u e rm. session_cookies out = auth_cookies H req rm (new_session (hd_auth H) u (wr_req req)) \<and>
    session_row (hd_auth H) (u_id u) e \<in> set (refreshTokens t)"
proof -
  have plain: "session_cookies out = []" if "case c of Register _ \<Rightarrow> False | Login _ \<Rightarrow> False | GoogleCallback _ \<Rightarrow> False |
      VerifyMfa _ _ \<Rightarrow> False | Refresh _ \<Rightarrow> False | _ \<Rightarrow> True"
    using preservesD [OF plain_no_session [OF that] _ assms(1)] by simp
  have "backed H req (t, out)"
  proof (cases c)
    case (GoogleCallback p)
    then show ?thesis using callback_backed assms(1) by blast
  qed (use plain assms(2) session_calls_backed [OF assms(1)] in auto)
  then show ?thesis using assms(2) by (auto simp: backed_def opened_def)
qed

section \<open>The guard\<close>

fun needs_token :: "auth_call \<Rightarrow> bool" where
  "needs_token (SetupMfa _) = True"
| "needs_token (EnableMfa _) = True"
| "needs_token (DisableMfa _) = True"
| "needs_token (RegenerateCodes _) = True"
| "needs_token MfaStatus = True"
| "needs_token MfaAudit = True"
| "needs_token LogoutAll = True"
| "needs_token (ChangePassword _ _) = True"
| "needs_token Me = True"
| "needs_token WsTicket = True"
| "needs_token _ = False"

lemma guarded_eq:
  "guarded H req k st = (case auth_jwt_guard H (wr_req req) of Inl e \<Rightarrow> (Inl e, st) | Inr u \<Rightarrow> k (au_userId u) st)"
  by (simp add: guarded_def bnd_eq split: sum.split)

text \<open>What belongs to an account: its row and its sessions.\<close>

definition account_of :: "id \<Rightarrow> auth_state \<Rightarrow> user_row option \<times> refresh_row list" where
  "account_of v s = (find_user v s, filter (\<lambda>r. r_userId r = v) (refreshTokens s))"

lemma account_of_frame [simp]:
  "account_of v (s\<lparr>redis := kv\<rparr>) = account_of v s" "account_of v (s\<lparr>projected := p\<rparr>) = account_of v s"
  "account_of v (s\<lparr>mfaAuditLogs := a\<rparr>) = account_of v s"
  by (simp_all add: account_of_def find_user_def)

definition same_account_as :: "id \<Rightarrow> auth_state \<Rightarrow> auth_state \<Rightarrow> bool" where
  "same_account_as v s0 s \<longleftrightarrow> account_of v s = account_of v s0"

lemma same_redis [preserves_intros]:
  "preserves (same_account_as v s0) (ensureRedisConnected D)" "preserves (same_account_as v s0) (redis_get D k)"
  "preserves (same_account_as v s0) (redis_set D k x n)" "preserves (same_account_as v s0) (redis_del ks)"
  unfolding ensureRedisConnected_def redis_get_def redis_set_def redis_del_def
  by (intro preserves_intros preserves_modify; simp add: same_account_as_def)+

lemma same_audit [preserves_intros]: "preserves (same_account_as v s0) (logMfaAudit D u a req m)"
  unfolding logMfaAudit_def by (intro preserves_modify) (simp add: same_account_as_def)

lemma same_sync [preserves_intros]: "preserves (same_account_as v s0) (sync_best_effort D u)"
proof (rule preservesI)
  fix s r t assume "same_account_as v s0 s" "sync_best_effort D u s = (r, t)"
  moreover obtain p where "sync_best_effort D u s = (Inr (), s\<lparr>projected := p\<rparr>)" using sync_best_effort_eq by blast
  ultimately show "same_account_as v s0 t" by (auto simp: same_account_as_def)
qed

lemma same_update_user:
  assumes "v \<noteq> u" "\<And>x. u_id (f x) = u_id x"
  shows "preserves (same_account_as v s0) (update_user u f)"
proof -
  have "account_of v (s\<lparr>users := update_many (\<lambda>x. u_id x = u) f (users s)\<rparr>) = account_of v s" for s
    using assms by (simp add: account_of_def find_user_update)
  then show ?thesis
    unfolding update_user_def by (intro preserves_intros preserves_modify) (simp add: same_account_as_def)
qed

lemma same_delete_refresh:
  assumes "v \<noteq> u"
  shows "preserves (same_account_as v s0) (delete_refresh (\<lambda>r. r_userId r = u))"
  unfolding delete_refresh_def
proof (intro preserves_modify)
  fix s assume "same_account_as v s0 s"
  moreover have "filter (\<lambda>r. r_userId r = v) (delete_many (\<lambda>r. r_userId r = u) xs) = filter (\<lambda>r. r_userId r = v) xs" for xs :: "refresh_row list"
    using assms by (induction xs) (auto simp: delete_many_def)
  ultimately show "same_account_as v s0 (s\<lparr>refreshTokens := delete_many (\<lambda>r. r_userId r = u) (refreshTokens s)\<rparr>)"
    by (simp add: same_account_as_def account_of_def find_user_def)
qed

lemma same_services:
  assumes "v \<noteq> u"
  shows "preserves (same_account_as v s0) (setupAdminTotpWithPassword D u pw req)"
    "preserves (same_account_as v s0) (enableAdminTotp D u code req)"
    "preserves (same_account_as v s0) (disableAdminTotp D u pw req)"
    "preserves (same_account_as v s0) (regenerateRecoveryCodes D u pw req)"
    "preserves (same_account_as v s0) (getMfaStatus u)" "preserves (same_account_as v s0) (getMfaAuditTrail u)"
    "preserves (same_account_as v s0) (logoutAllSessions u)" "preserves (same_account_as v s0) (auth_changePassword D u pw pw')"
    "preserves (same_account_as v s0) (auth_getProfile u)" "preserves (same_account_as v s0) (generateWsTicket D u req)"
  unfolding setupAdminTotpWithPassword_def setupAdminTotp_def enableAdminTotp_def disableAdminTotp_def regenerateRecoveryCodes_def
    assertCurrentPassword_def getMfaStatus_def getMfaAuditTrail_def logoutAllSessions_def auth_changePassword_def
    auth_getProfile_def generateWsTicket_def
  by (intro preserves_intros same_update_user same_delete_refresh assms; simp)+

lemma service_account:
  "preserves P m \<Longrightarrow> preserves (\<lambda>st. P (fst st)) (service m)"
  by (auto simp: preserves_def service_def split: prod.split)

lemma guarded_subject:
  "auth_jwt_guard H (wr_req req) = Inr u \<Longrightarrow> preserves P (k (au_userId u)) \<Longrightarrow> preserves P (guarded H req k)"
  by (simp add: preserves_def guarded_eq)

lemma emit_account [preserves_intros]: "preserves (\<lambda>st. P (fst st)) (clearAuthCookies H req)"
  by (auto simp: preserves_def clearAuthCookies_def emit_def Let_def)

text \<open>
  C34: an endpoint behind the guard does nothing for a request without a valid token of its client, neither in the
  database nor in the response; with one it leaves the rows and the sessions of every account but the token's alone.
\<close>
theorem guarded_acts_on_subject:
  assumes "needs_token c" "handle H c req (s, out) = (r, (t, out'))"
  shows "case auth_jwt_guard H (wr_req req) of
      Inl e \<Rightarrow> r = Inl e \<and> t = s \<and> out' = out
    | Inr u \<Rightarrow> (\<forall>v. v \<noteq> au_userId u \<longrightarrow> account_of v t = account_of v s)"
proof (cases "auth_jwt_guard H (wr_req req)")
  case (Inl e)
  then show ?thesis
    using assms by (cases c) (auto simp: endpoint_defs guarded_eq bnd_eq)
next
  case (Inr u)
  have "preserves (\<lambda>st. same_account_as v s (fst st)) (handle H c req)" if "v \<noteq> au_userId u" for v
    using assms(1) Inr that
    by (cases c; simp only: needs_token.simps handle.simps endpoint_defs)
      (intro preserves_bnd guarded_subject service_account same_services emit_account preserves_basic validated_preserves; simp)+
  then have "account_of v t = account_of v s" if "v \<noteq> au_userId u" for v
    using preservesD [of "\<lambda>st. same_account_as v s (fst st)" "handle H c req" "(s, out)" r "(t, out')"] assms(2) that
    by (simp add: same_account_as_def)
  then show ?thesis using Inr by simp
qed

section \<open>Bodies that get through\<close>

text \<open>
  The body of a second factor is six digits, and a recovery code has eight characters at least: no request to
  this endpoint uses a recovery code, and the codes that the service hands out are refused before it sees them.
\<close>
theorem recovery_codes_unusable:
  assumes "\<And>i. length (random_recovery (hd_auth H) i) = 4" "recovery \<in> set (generateRecoveryCodes (hd_auth H))"
  shows "http_verifyMfa H ch recovery req st = (Inl (BadRequest ''Bad Request''), st) \<and>
    (six_digits code \<longrightarrow> consumeRecoveryCode D u code = ret False)"
proof -
  have "length recovery = 9"
    using assms by (auto simp: generateRecoveryCodes_def Let_def length_hex_upper)
  then have "\<not> verify_mfa_dto_ok H ch recovery" by (simp add: verify_mfa_dto_ok_def six_digits_def)
  moreover have "length (normalizeRecoveryCode code) \<le> length code"
    unfolding normalizeRecoveryCode_def toUpperCase_def length_map by (rule order_trans [OF length_filter_le length_filter_le])
  ultimately show ?thesis
    by (simp add: http_verifyMfa_def validated_def bnd_eq throw_if_eq consumeRecoveryCode_def six_digits_def Let_def)
qed

text \<open>
  A password of more than 128 characters can be set but not used: the change takes it, and every login with it
  is refused as a malformed body, whatever the account.
\<close>
theorem long_password_locks_out:
  assumes "change_password_dto_ok new" "128 < length new" "auth_jwt_guard H (wr_req req) = Inr u"
    "find_user (au_userId u) s = Some row" "u_isActive row" "au_compare (hd_auth H) old (u_password row)" "users_unique s"
  shows "(\<exists>t. http_changePassword H old new req (s, out) = (Inr ''Password changed successfully'', (t, out)) \<and>
      find_user (au_userId u) t = Some (row\<lparr>u_password := au_hash (hd_auth H) 0 new\<rparr>)) \<and>
    (lg_password dto = new \<longrightarrow> http_login H' dto req' st = (Inl (BadRequest ''Bad Request''), st))"
proof -
  have nc: "\<not> user_clash (row\<lparr>u_password := p\<rparr>) s" for p
    using no_user_clash [OF assms(7,4)] by (simp add: user_clash_def same_account_def)
  let ?t = "s\<lparr>users := update_many (\<lambda>x. u_id x = au_userId u) (\<lambda>x. x\<lparr>u_password := au_hash (hd_auth H) 0 new\<rparr>) (users s)\<rparr>"
  obtain p where p: "sync_best_effort (hd_auth H) (row\<lparr>u_password := au_hash (hd_auth H) 0 new\<rparr>) ?t = (Inr (), ?t\<lparr>projected := p\<rparr>)"
    using sync_best_effort_eq by blast
  have "find_user (au_userId u) (?t\<lparr>projected := p\<rparr>) = Some (row\<lparr>u_password := au_hash (hd_auth H) 0 new\<rparr>)"
    using find_user_update [of "\<lambda>x. x\<lparr>u_password := au_hash (hd_auth H) 0 new\<rparr>" "au_userId u" "au_userId u" s] assms(4)
    by (simp add: find_user_def)
  moreover have "http_changePassword H old new req (s, out) = (Inr ''Password changed successfully'', (?t\<lparr>projected := p\<rparr>, out))"
    using assms p nc
    by (simp add: http_changePassword_def guarded_eq bnd_eq validated_def throw_if_eq service_def auth_changePassword_def
        assertCurrentPassword_def require_eq update_user_def)
  moreover have "\<not> login_dto_ok H' dto" if "lg_password dto = new"
    using that assms(2) by (simp add: login_dto_ok_def password_ok_def)
  ultimately show ?thesis by (auto simp: http_login_def validated_def bnd_eq throw_if_eq)
qed

end
