(* ===== verification/Auth_Witnesses.thy ===== *)
theory Auth_Witnesses
  imports Auth_Sessions
begin

text \<open>
  Concrete accounts and requests on which the theorems on the auth service apply: a small
  configuration, an account without a second factor, one with it, and the parameters as simple
  functions (a hash that keeps its text, a signature that lists the claims).
\<close>

definition sample_cfg :: auth_config where
  "sample_cfg = \<lparr>lockWindowSeconds = 900, lockProgressiveMultiplier = 1, lockMaxSeconds = 3600, maxFailedAttempts = 2,
     captchaEnabled = False, captchaFailThreshold = 3, captchaSharedSecret = [], adminMfaEnabled = True, mfaTtlSeconds = 300,
     mfaIssuer = ''CloudVM'', mfaSetupTtlSeconds = 600, mfaTempBootstrapEnabled = True, mfaMaxAttempts = 5,
     mfaRecoveryCodesCount = 5, anomalyRiskThreshold = 70, anomalyBlock = False, loginContextTtlSeconds = 3600\<rparr>"

text \<open>A signature that can be read back: each claim with its length before it.\<close>

definition counted :: "string \<Rightarrow> string" where
  "counted a = replicate (length a) (CHR ''1'') @ ''0'' @ a"

definition uncounted :: "string \<Rightarrow> string \<times> string" where
  "uncounted x = (let n = length (takeWhile (\<lambda>c. c = CHR ''1'') x) in (take n (drop (n + 1) x), drop (2 * n + 1) x))"

lemma uncounted_counted: "uncounted (counted a @ r) = (a, r)"
proof -
  have "takeWhile (\<lambda>c. c = CHR ''1'') (counted a @ r) = replicate (length a) (CHR ''1'')"
    unfolding counted_def append_assoc by (subst takeWhile_append2) simp_all
  then show ?thesis by (simp add: uncounted_def counted_def)
qed

definition sample_sign :: "jwt_payload \<Rightarrow> string" where
  "sample_sign p = counted (sub p) @ counted (jwt_email p) @ counted (jwt_role p) @ (case fp p of None \<Rightarrow> [] | Some f \<Rightarrow> ''f'' @ f)"

definition sample_read :: "string \<Rightarrow> jwt_payload option" where
  "sample_read x = (case uncounted x of (a, y) \<Rightarrow> case uncounted y of (b, z) \<Rightarrow> case uncounted z of (c, f) \<Rightarrow>
     Some \<lparr>sub = a, jwt_email = b, jwt_role = c, fp = (if f = [] then None else Some (tl f))\<rparr>)"

lemma sample_read_sign: "sample_read (sample_sign p) = Some p"
  by (simp add: sample_read_def sample_sign_def uncounted_counted split: option.split)

definition sample_auth :: "time \<Rightarrow> string \<Rightarrow> auth_deps" where
  "sample_auth now i = \<lparr>au_env = (\<lambda>_. None), au_cfg = sample_cfg, au_now = now, redis_up = True, au_sha256 = id,
     au_hmac = (\<lambda>_ _. [0, 0, 1, 0]), au_compare = (\<lambda>x h. h = CHR ''#'' # x), au_hash = (\<lambda>_ x. CHR ''#'' # x),
     user_uuid = i, session_uuid = i, audit_uuid = i, challenge_uuid = i, jti_uuid = i, random_otp = 123456,
     random_secret = [1, 2, 3], random_recovery = (\<lambda>n. [word_of_nat n, 0, 0, 0]), random_password = ''r'',
     sign_access = sample_sign, sign_ws = (\<lambda>p. sub p), sign_refresh = (\<lambda>_ _ u j. u @ ''.'' @ j),
     verify_refresh = (\<lambda>_ _. Some \<lparr>rp_sub = Some ''alice'', rp_jti = Some ''j'', rp_type = Some ''refresh'', rp_exp = None\<rparr>),
     sync_at = (\<lambda>_ _ _. FetchFail)\<rparr>"

definition sample_account :: "id \<Rightarrow> Role \<Rightarrow> bool \<Rightarrow> user_row" where
  "sample_account i r mfa = \<lparr>u_id = i, u_email = i @ ''@x'', u_googleId = Some i, u_password = ''#Passw0rd!'', u_firstName = i, u_lastName = i, u_role = r,
     u_isActive = True, u_mfaEnabled = mfa, u_mfaSecret = (if mfa then Some ''AEBAG==='' else None), u_mfaEnabledAt = None,
     u_mfaRecoveryCodeHashes = [''#CODE0001'', ''#CODE0002''], u_mfaRecoveryCodesGeneratedAt = None, u_studentEmailVerified = False,
     u_studentEmailVerifiedAt = None, u_createdAt = 0\<rparr>"

definition sample_auth_state :: auth_state where
  "sample_auth_state = (db.extend empty_db \<lparr>redis = Map.empty, projected = []\<rparr>)\<lparr>users :=
     [sample_account ''alice'' USER False, sample_account ''root'' ADMIN True]\<rparr>"

lemma sample_auth_simps [simp]:
  "au_env (sample_auth now i) = (\<lambda>_. None)" "au_cfg (sample_auth now i) = sample_cfg" "au_now (sample_auth now i) = now"
  "redis_up (sample_auth now i)" "au_sha256 (sample_auth now i) = id" "au_compare (sample_auth now i) x h \<longleftrightarrow> h = CHR ''#'' # x"
  "au_hash (sample_auth now i) n x = CHR ''#'' # x" "session_uuid (sample_auth now i) = i" "jti_uuid (sample_auth now i) = i"
  "sign_refresh (sample_auth now i) a b u j = u @ ''.'' @ j" "random_recovery (sample_auth now i) n = [word_of_nat n, 0, 0, 0]"
  "audit_uuid (sample_auth now i) = i" "sync_at (sample_auth now i) a b c = FetchFail"
  "verify_refresh (sample_auth now i) a b = Some \<lparr>rp_sub = Some ''alice'', rp_jti = Some ''j'', rp_type = Some ''refresh'', rp_exp = None\<rparr>"
  by (simp_all add: sample_auth_def)

lemma sample_cfg_simps [simp]:
  "lockWindowSeconds sample_cfg = 900" "lockProgressiveMultiplier sample_cfg = 1" "lockMaxSeconds sample_cfg = 3600"
  "maxFailedAttempts sample_cfg = 2" "\<not> captchaEnabled sample_cfg" "adminMfaEnabled sample_cfg" "mfaRecoveryCodesCount sample_cfg = 5"
  "loginContextTtlSeconds sample_cfg = 3600" "\<not> anomalyBlock sample_cfg"
  by (simp_all add: sample_cfg_def)

lemma sample_state_simps [simp]:
  "users sample_auth_state = [sample_account ''alice'' USER False, sample_account ''root'' ADMIN True]"
  "refreshTokens sample_auth_state = []" "redis sample_auth_state = Map.empty" "mfaAuditLogs sample_auth_state = []"
  by (simp_all add: sample_auth_state_def db.extend_def empty_db_def)

lemma sample_account_simps [simp]:
  "u_id (sample_account i r m) = i" "u_email (sample_account i r m) = i @ ''@x''" "u_googleId (sample_account i r m) = Some i"
  "u_password (sample_account i r m) = ''#Passw0rd!''" "u_role (sample_account i r m) = r" "u_isActive (sample_account i r m)"
  "u_mfaEnabled (sample_account i r m) = m" "u_mfaSecret (sample_account i r m) = (if m then Some ''AEBAG==='' else None)"
  "u_mfaRecoveryCodeHashes (sample_account i r m) = [''#CODE0001'', ''#CODE0002'']"
  by (simp_all add: sample_account_def)

lemma fl_of_numeral [simp]: "(numeral n :: int) < 2 ^ 53 \<Longrightarrow> fl (numeral n) = numeral n"
  using fl_of_int [of "numeral n"] by simp

lemma seven_days: "parseDurationMs ''7d'' x = 604800000"
proof -
  have "trim ''7d'' = ''7d''" "takeWhile is_digit ''7d'' = ''7''" "unit_factor (toLowerCase (dropWhile is_digit ''7d'')) = Some 86400000"
    "digits_value ''7'' = 7"
    by code_simp+
  then show ?thesis by (simp add: parseDurationMs_def Let_def js_mul_def)
qed

lemma sample_expiry: "refresh_expiry (sample_auth 1000 i) = Some 604801000" "refresh_expiry (sample_auth 2000 i) = Some 604802000"
  by (simp_all add: refresh_expiry_def or_opt_def seven_days js_add_def Let_def)

lemma sample_account_find [simp]:
  "find_user ''alice'' sample_auth_state = Some (sample_account ''alice'' USER False)"
  "find_user ''root'' sample_auth_state = Some (sample_account ''root'' ADMIN True)"
  "find_user_email ''alice@x'' sample_auth_state = Some (sample_account ''alice'' USER False)"
  "find_user_email ''root@x'' sample_auth_state = Some (sample_account ''root'' ADMIN True)"
  by (simp_all add: find_user_def find_user_email_def)

lemma sample_unique: "users_unique sample_auth_state"
  by (auto simp: user_keys_ok_def same_account_def)

lemma sample_sound: "sessions_sound sample_auth_state"
  using sample_unique by (simp add: sessions_sound_def)

section \<open>A login\<close>

definition sample_login_dto :: "string \<Rightarrow> login_dto" where
  "sample_login_dto pw = \<lparr>lg_email = ''alice@x'', lg_password = pw, lg_rememberMe = False, lg_captchaToken = None\<rparr>"

lemma sample_sync: "sync_best_effort (sample_auth now i) u s = (Inr (), s)"
proof -
  have "trim [] = []" by (simp add: trim_def)
  then show ?thesis by (simp add: sync_best_effort_def syncUserProjection_def or_opt_def try_catch_eq)
qed

lemma sample_issue:
  assumes "find_user (u_id u) s \<noteq> None" "refreshTokens s = []"
  shows "\<exists>se kv. issue_session (sample_auth 1000 i) u req s =
    (Inr se, s\<lparr>refreshTokens := [session_row (sample_auth 1000 i) (u_id u) 604801000], redis := kv\<rparr>)"
proof -
  have "insert_refresh (session_row (sample_auth 1000 i) (u_id u) 604801000) s =
      (Inr (), s\<lparr>refreshTokens := [session_row (sample_auth 1000 i) (u_id u) 604801000]\<rparr>)"
    using assms by (simp add: insert_refresh_Inr_iff session_row_def)
  from issue_session_ok [OF sample_expiry(1) this, of req] show ?thesis by blast
qed

lemma sample_login: "\<exists>se t. login (sample_auth 1000 ''s1'') (sample_login_dto ''Passw0rd!'') sample_request sample_auth_state = (Inr (LoggedIn se), t)"
proof -
  let ?D = "sample_auth 1000 ''s1''" and ?kv = "rd_del [getFailKey ''alice@x'', getLockKey ''alice@x''] Map.empty"
  let ?s = "sample_auth_state\<lparr>redis := ?kv\<rparr>"
  have "find_user ''alice'' ?s = Some (sample_account ''alice'' USER False)" "find_user ''alice'' sample_auth_state = find_user ''alice'' ?s"
    by (simp_all add: find_user_def)
  then obtain se t where "issue_session ?D (sample_account ''alice'' USER False) sample_request ?s = (Inr se, t)"
    using sample_issue [of "sample_account ''alice'' USER False" ?s "''s1''" sample_request] by auto
  moreover have "evaluateLoginAnomaly ?D ''alice'' sample_request ?s = (Inr False, ?s)"
    by (simp add: evaluateLoginAnomaly_def getPreviousLoginContext_def bnd_eq ensureRedis_up rd_get_del as_context_def)
      (simp add: rd_get_def rd_live_def)
  moreover have "rd_ttl 1000 (Map.empty :: auth_payload redis) k = - 2" for k by (simp add: rd_ttl_def rd_live_def)
  ultimately have "login ?D (sample_login_dto ''Passw0rd!'') sample_request sample_auth_state = (Inr (LoggedIn se), t)"
    by (simp add: login_def sample_login_dto_def assertNotLocked_def bnd_eq ensureRedis_up throw_if_eq assertCaptchaIfNeeded_def
        isCaptchaRequired_def check_credentials_def clearFailedLogins_def sample_sync finish_login_def truthy_def)
  then show ?thesis by blast
qed

theorem login_session_needs_witness:
  "\<exists>se t e. login (sample_auth 1000 ''s1'') (sample_login_dto ''Passw0rd!'') sample_request sample_auth_state = (Inr (LoggedIn se), t) \<and>
     refreshTokens t = [session_row (sample_auth 1000 ''s1'') ''alice'' e] \<and> u_password (se_user se) = []"
proof -
  obtain se t where l: "login (sample_auth 1000 ''s1'') (sample_login_dto ''Passw0rd!'') sample_request sample_auth_state = (Inr (LoggedIn se), t)"
    using sample_login by blast
  from login_session_needs [OF l] show ?thesis using l by (auto simp: sample_login_dto_def)
qed

section \<open>A lock\<close>

lemma sample_lock_ready: "lock_ready sample_cfg em 900"
  by (simp add: lock_ready_def seconds_arg_def progressive_seconds_def js_mul_def Math_round_def)

theorem failed_logins_lock_witness:
  "\<exists>m n. fst (login (sample_auth 2000 ''s2'') (sample_login_dto ''no'') sample_request
       (after_logins [(sample_auth 1000 ''s1'', sample_login_dto ''bad'', sample_request)] sample_auth_state)) = Inl (TooManyRequests m) \<and>
     0 < n \<and> of_int n \<le> (3600 :: rat)"
proof -
  have "list_all (bad_attempt sample_cfg ''alice@x'' 1000 900 sample_auth_state)
      ([(sample_auth 1000 ''s1'', sample_login_dto ''bad'', sample_request)] @ [(sample_auth 2000 ''s2'', sample_login_dto ''no'', sample_request)])"
    by (simp add: bad_attempt_def captcha_passed_def sample_login_dto_def)
  moreover have "no_failures 1000 ''alice@x'' sample_auth_state" by (simp add: no_failures_def rd_get_def rd_live_def)
  ultimately show ?thesis
    using failed_logins_lock [OF _ _ _ sample_lock_ready] by fastforce
qed

section \<open>A refresh\<close>

definition sample_session :: refresh_row where
  "sample_session = \<lparr>r_id = ''s0'', r_token = ''t0'', r_userId = ''alice'', r_expiresAt = 5000, r_createdAt = 0\<rparr>"

definition sample_signed_in :: auth_state where
  "sample_signed_in = sample_auth_state\<lparr>refreshTokens := [sample_session]\<rparr>"

lemma sample_claims: "\<exists>p. refresh_claims (sample_auth now i) t = Some (''alice'', ''j'', p)"
  by (simp add: refresh_claims_def truthy_def)

lemma sample_refresh:
  "\<exists>t. refreshTokens_handler (sample_auth 1000 ''s1'') ''t0'' sample_request sample_signed_in =
     (Inr (new_session (sample_auth 1000 ''s1'') (sample_account ''alice'' USER False) sample_request), t)"
proof -
  obtain p where p: "refresh_claims (sample_auth 1000 ''s1'') ''t0'' = Some (''alice'', ''j'', p)" using sample_claims by blast
  have "find_user ''alice'' sample_signed_in = Some (sample_account ''alice'' USER False)"
    "find_refresh ''t0'' sample_signed_in = Some sample_session"
    by (simp_all add: find_user_def find_refresh_def sample_signed_in_def sample_session_def)
  then have "refreshable (sample_auth 1000 ''s1'') ''t0'' sample_signed_in ''j'' p sample_session (sample_account ''alice'' USER False) 604801000"
    using p sample_expiry(1) by (simp add: refreshable_def sample_session_def sample_signed_in_def rd_get_def rd_live_def)
  then show ?thesis using refreshTokens_run by blast
qed

theorem refresh_single_use_witness:
  "\<exists>se t. refreshTokens_handler (sample_auth 1000 ''s1'') ''t0'' sample_request sample_signed_in = (Inr se, t) \<and>
     fst (refreshTokens_handler (sample_auth 2000 ''s2'') ''t0'' sample_request t) =
       Inl (Unauthorized ''Refresh token reuse detected. All sessions revoked.'')"
proof -
  obtain t where r: "refreshTokens_handler (sample_auth 1000 ''s1'') ''t0'' sample_request sample_signed_in =
     (Inr (new_session (sample_auth 1000 ''s1'') (sample_account ''alice'' USER False) sample_request), t)"
    using sample_refresh by blast
  obtain p where p: "refresh_claims (sample_auth 2000 ''s2'') ''t0'' = Some (''alice'', ''j'', p)" using sample_claims by blast
  have "new_refresh_token (sample_auth 1000 ''s1'') ''alice'' \<noteq> ''t0''" by (simp add: new_refresh_token_def)
  then show ?thesis
    using refresh_single_use [OF r _ _ _ p, of sample_request] r by (auto simp: new_session_def sample_signed_in_def)
qed

theorem refresh_ignores_deactivation_witness:
  "\<exists>se t. refreshTokens_handler (sample_auth 1000 ''s1'') ''t0'' sample_request (deactivated ''alice'' sample_signed_in) = (Inr se, t) \<and>
     \<not> u_isActive (se_user se)"
proof -
  obtain t where r: "refreshTokens_handler (sample_auth 1000 ''s1'') ''t0'' sample_request sample_signed_in =
     (Inr (new_session (sample_auth 1000 ''s1'') (sample_account ''alice'' USER False) sample_request), t)"
    using sample_refresh by blast
  show ?thesis using refresh_ignores_deactivation [OF r, of "''alice''"] by (simp add: new_session_def excludePassword_def)
qed

section \<open>A challenge\<close>

definition sample_challenge :: mfa_challenge where
  "sample_challenge = \<lparr>ch_userId = ''root'', ch_email = ''root@x'', ch_fingerprint = ''10.0.0.7|curl'', ch_rememberMe = True,
     ch_mode = Temporary, ch_code = Some ''123456''\<rparr>"

definition sample_challenged :: auth_state where
  "sample_challenged = sample_auth_state\<lparr>redis := rd_set_ex 0 (getMfaChallengeKey ''c1'') (RObj (Challenge sample_challenge)) 300 Map.empty\<rparr>"

lemma sample_verify:
  "\<exists>se t. verifyAdminMfa (sample_auth 1000 ''s1'') ''c1'' ''123456'' sample_request sample_challenged = (Inr (se, True), t)"
proof -
  let ?D = "sample_auth 1000 ''s1''" and ?u = "sample_account ''root'' ADMIN True"
  let ?s = "sample_challenged\<lparr>redis := rd_del [getMfaChallengeKey ''c1'', getMfaAttemptsKey ''c1''] (redis sample_challenged)\<rparr>"
  have u: "find_user ''root'' sample_challenged = Some ?u" "find_user ''root'' ?s = Some ?u"
    by (simp_all add: find_user_def sample_challenged_def)
  obtain se t where "issue_session ?D ?u sample_request ?s = (Inr se, t)"
    using sample_issue [of ?u ?s "''s1''" sample_request] u by (auto simp: sample_challenged_def)
  moreover have "rd_get 1000 (redis sample_challenged) (getMfaChallengeKey ''c1'') = Some (RObj (Challenge sample_challenge))"
    by (simp add: sample_challenged_def rd_get_set)
  moreover have "check_mfa_code ?D sample_challenge ?u ''123456'' sample_request sample_challenged = (Inr True, sample_challenged)"
    by (simp add: check_mfa_code_def sample_challenge_def truthy_def safeCodeEqual_def)
  moreover have "fingerprint_of ?D sample_request = ch_fingerprint sample_challenge"
    by (simp add: fingerprint_of_def buildRequestFingerprint_def sample_raw sample_challenge_def)
  moreover have "ch_userId sample_challenge = ''root''" "ch_rememberMe sample_challenge" by (simp_all add: sample_challenge_def)
  ultimately have "verifyAdminMfa ?D ''c1'' ''123456'' sample_request sample_challenged = (Inr (se, True), t)"
    using u by (simp add: verifyAdminMfa_def Let_def bnd_eq ensureRedis_up require_eq as_challenge_def)
  then show ?thesis by blast
qed

theorem challenge_single_use_witness:
  "\<exists>se t. verifyAdminMfa (sample_auth 1000 ''s1'') ''c1'' ''123456'' sample_request sample_challenged = (Inr (se, True), t) \<and>
     verifyAdminMfa (sample_auth 2000 ''s2'') ''c1'' ''123456'' sample_request t =
       (Inl (Unauthorized ''MFA challenge expired or invalid''), t)"
proof -
  obtain se t where v: "verifyAdminMfa (sample_auth 1000 ''s1'') ''c1'' ''123456'' sample_request sample_challenged = (Inr (se, True), t)"
    using sample_verify by blast
  from challenge_single_use [OF v] show ?thesis using v sample_auth_simps(4) by blast
qed

section \<open>Recovery codes\<close>

theorem recovery_codes_refine_witness:
  "\<exists>t hs. consumeRecoveryCode (sample_auth 1000 ''s1'') ''root'' ''code-0001'' sample_auth_state = (Inr True, t) \<and>
     find_user ''root'' t = Some ((sample_account ''root'' ADMIN True)\<lparr>u_mfaRecoveryCodeHashes := hs\<rparr>) \<and>
     unused_codes (\<lambda>x h. h = CHR ''#'' # x) ((sample_account ''root'' ADMIN True)\<lparr>u_mfaRecoveryCodeHashes := hs\<rparr>) [''CODE0002'']"
proof -
  have n: "normalizeRecoveryCode ''code-0001'' = ''CODE0001''" by code_simp
  have c: "au_compare (sample_auth 1000 ''s1'') = (\<lambda>x h. h = CHR ''#'' # x)" by (simp add: fun_eq_iff)
  have "unused_codes (au_compare (sample_auth 1000 ''s1'')) (sample_account ''root'' ADMIN True) [''CODE0001'', ''CODE0002'']"
    by (auto simp: unused_codes_def)
  from recovery_codes_refine [OF sample_unique sample_account_find(2) this, of "''code-0001''"] show ?thesis
    unfolding n c by auto
qed

theorem regenerated_codes_usable_witness:
  "\<exists>codes t u. regenerateRecoveryCodes (sample_auth 1000 ''s1'') ''root'' ''Passw0rd!'' sample_request sample_auth_state = (Inr codes, t) \<and>
     find_user ''root'' t = Some u \<and> unused_codes (au_compare (sample_auth 1000 ''s1'')) u (map normalizeRecoveryCode codes) \<and> length codes = 5"
proof -
  let ?D = "sample_auth 1000 ''s1''"
  have "\<not> user_clash ((sample_account ''root'' ADMIN True)\<lparr>u_mfaRecoveryCodeHashes := hs, u_mfaRecoveryCodesGeneratedAt := g\<rparr>) sample_auth_state" for hs g
    by (simp add: user_clash_def same_account_def)
  then obtain t where r: "regenerateRecoveryCodes ?D ''root'' ''Passw0rd!'' sample_request sample_auth_state = (Inr (generateRecoveryCodes ?D), t)"
    by (simp add: regenerateRecoveryCodes_def assertCurrentPassword_def bnd_eq require_eq throw_if_eq update_user_def Let_def logMfaAudit_def)
  have "map (\<lambda>i. hex_upper [word_of_nat i, 0, 0, 0]) [0..<5] = [''00000000'', ''01000000'', ''02000000'', ''03000000'', ''04000000'']"
    by code_simp
  then have "distinct (generateRecoveryCodes ?D)"
    by (simp add: generateRecoveryCodes_def Let_def upt_rec)
  then show ?thesis
    using regenerated_codes_usable [OF r sample_unique] r by fastforce
qed

section \<open>Google\<close>

theorem google_login_skips_mfa_witness:
  "\<exists>se t. findOrCreateGoogleUser (sample_auth 1000 ''s1'')
       \<lparr>gp_id = ''root'', gp_email = Some ''Root@x'', gp_displayName = [], gp_givenName = [], gp_familyName = []\<rparr> sample_request sample_auth_state =
       (Inr (GoogleSession se), t) \<and> u_mfaEnabled (se_user se) \<and> u_role (se_user se) = ADMIN"
proof -
  have e: "toLowerCase (trim ''Root@x'') = ''root@x''" by code_simp
  have c: "parseCookie sample_request ''google_intent'' = Inr None" by code_simp
  show ?thesis
    using google_login_skips_mfa [of "\<lparr>gp_id = ''root'', gp_email = Some ''Root@x'', gp_displayName = [], gp_givenName = [], gp_familyName = []\<rparr>"
      "''Root@x''" sample_auth_state "sample_account ''root'' ADMIN True" sample_request None "sample_auth 1000 ''s1''" 604801000]
      c sample_expiry(1) by (auto simp: e new_session_def excludePassword_def)
qed

section \<open>A history\<close>

text \<open>Alice logs out everywhere and logs in again; the token of her first session stays dead.\<close>

theorem ended_session_stays_ended_witness:
  "\<exists>t. refreshTokens t \<noteq> [] \<and> (auth_step (mints_other ''t0''))\<^sup>*\<^sup>* (snd (logoutAllSessions ''alice'' sample_signed_in)) t \<and> find_refresh ''t0'' t = None"
proof -
  let ?D = "sample_auth 1000 ''s1''"
  have out: "snd (logoutAllSessions ''alice'' sample_signed_in) = sample_auth_state"
    by (simp add: logoutAllSessions_def delete_refresh_def bnd_eq sample_signed_in_def sample_session_def)
  have row: "find_refresh ''t0'' sample_signed_in = Some sample_session"
    by (simp add: find_refresh_def sample_signed_in_def sample_session_def)
  have ends: "ends ''t0'' sample_signed_in (snd (logoutAllSessions ''alice'' sample_signed_in))"
    using row by (simp add: ends_def sample_session_def)
  have sound: "sessions_sound sample_signed_in"
    using sample_unique by (simp add: sessions_sound_def sample_signed_in_def sample_session_def)
  obtain se t where l: "login ?D (sample_login_dto ''Passw0rd!'') sample_request sample_auth_state = (Inr (LoggedIn se), t)"
    using sample_login by blast
  obtain u s1 where "issue_session ?D u sample_request s1 = (Inr se, t)"
    by (rule login_LoggedIn [OF l]) blast
  then have "refreshTokens t \<noteq> []" using issue_session_Inr by fastforce
  moreover have "mints_other ''t0'' ?D" by (simp add: mints_other_def new_refresh_token_def)
  then have run: "(auth_step (mints_other ''t0''))\<^sup>*\<^sup>* (snd (logoutAllSessions ''alice'' sample_signed_in)) t"
    unfolding out using l by (blast intro: auth_step.logs_in)
  ultimately show ?thesis using ended_session_stays_ended [OF sound ends run] by blast
qed

end
