(* ===== verification/Auth_Browser.thy ===== *)
theory Auth_Browser
  imports Auth_Http Auth_Witnesses
begin

text \<open>
  A browser and the services: the cookies that the auth service sets at a login come back with the
  browser's requests, where the other services accept them, a refresh renews the session and a logout
  ends it. The browser keeps the cookies by name and lists them in one header with encoded values.
\<close>

section \<open>The browser\<close>

fun browser_step :: "(string \<times> string) list \<Rightarrow> cookie_op \<Rightarrow> (string \<times> string) list" where
  "browser_step jar (SetCookie n v _) = filter (\<lambda>nv. fst nv \<noteq> n) jar @ [(n, v)]"
| "browser_step jar (ClearCookie n _) = filter (\<lambda>nv. fst nv \<noteq> n) jar"

definition browser :: "(string \<times> string) list \<Rightarrow> cookie_op list \<Rightarrow> (string \<times> string) list" where
  "browser jar out = foldl browser_step jar out"

definition with_jar :: "(string \<times> string) list \<Rightarrow> request \<Rightarrow> request" where
  "with_jar jar req = req\<lparr>cookie := Some (cookie_header jar)\<rparr>"

lemma map_of_filter_name: "map_of (filter (\<lambda>nv. fst nv \<noteq> n) jar) m = (if m = n then None else map_of jar m)"
  by (induction jar) auto

lemma browser_after:
  "browser jar (auth_cookies H req rm se) =
     filter (\<lambda>nv. fst nv \<noteq> ''refreshToken'') (filter (\<lambda>nv. fst nv \<noteq> ''accessToken'') jar) @
       [(''accessToken'', se_accessToken se), (''refreshToken'', se_refreshToken se)]"
  by (simp add: browser_def auth_cookies_def Let_def)

lemma browser_auth_cookies:
  "map_of (browser jar (auth_cookies H req rm se)) ''accessToken'' = Some (se_accessToken se)"
  "map_of (browser jar (auth_cookies H req rm se)) ''refreshToken'' = Some (se_refreshToken se)"
  "m \<notin> {''accessToken'', ''refreshToken''} \<Longrightarrow> map_of (browser jar (auth_cookies H req rm se)) m = map_of jar m"
  "browser jar (auth_cookies H req rm se) \<noteq> []"
  unfolding browser_after map_of_append map_add_def
  by (simp_all add: map_of_filter_name del: filter_filter split: option.split)

lemma browser_ok:
  assumes "list_all cookie_ok jar" "ascii (se_accessToken se)" "ascii (se_refreshToken se)"
  shows "list_all cookie_ok (browser jar (auth_cookies H req rm se))"
proof -
  have "cookie_ok (''accessToken'', x)" "cookie_ok (''refreshToken'', x)" if "ascii x" for x
    using that by (simp_all add: cookie_ok_def cookie_safe_iff)
  then show ?thesis
    using assms by (auto simp: browser_after list_all_iff)
qed

lemma with_jar_parse:
  assumes "list_all cookie_ok jar" "jar \<noteq> []"
  shows "parseCookie (with_jar jar req) n = Inr (map_of jar n)"
  using parseCookie_roundtrip [OF assms(2,1)] by (simp add: with_jar_def)

lemma with_jar_client [simp]:
  "fingerprint_raw (with_jar jar req) = fingerprint_raw req" "authorization (with_jar jar req) = authorization req"
  by (simp_all add: with_jar_def fingerprint_raw_def getClientIp_def getUserAgent_def)

section \<open>After a login\<close>

lemma http_login_opens:
  assumes "http_login H dto req (s, []) = (Inr (LoggedIn se), (t, out))"
  shows "login (hd_auth H) dto (wr_req req) s = (Inr (LoggedIn se), t)" "out = auth_cookies H req (lg_rememberMe dto) se"
  using assms by (auto simp: http_login_def validated_def io_iffs setAuthCookies_def)

lemma login_new_session:
  assumes "login D dto req s = (Inr (LoggedIn se), t)"
  obtains u e where "find_user_email (lg_email dto) s = Some u" "se = new_session D u req" "refresh_expiry D = Some e"
    "refreshTokens t = refreshTokens s @ [session_row D (u_id u) e]" "users t = users s"
    "\<And>now j. rd_get now (redis t) (getRefreshReuseKey j) = rd_get now (redis s) (getRefreshReuseKey j)"
proof -
  obtain u p s1 where u: "find_user_email (lg_email dto) s = Some u" and i: "issue_session D u req s1 = (Inr se, t)"
    and s1: "s1 = s\<lparr>redis := rd_del [getFailKey (lg_email dto), getLockKey (lg_email dto)] (redis s), projected := p\<rparr>"
    using login_LoggedIn [OF assms] by metis
  obtain e kv where "refresh_expiry D = Some e" "se = new_session D u req"
    "t = s1\<lparr>refreshTokens := refreshTokens s1 @ [session_row D (u_id u) e], redis := kv\<rparr>"
    using issue_session_Inr [OF i] by (auto simp: new_session_def session.equality)
  moreover have "rd_get now (redis t) (getRefreshReuseKey j) = rd_get now (redis s) (getRefreshReuseKey j)" for now j
    using issue_session_get [OF i, of "getRefreshReuseKey j" now]
    by (simp add: s1 rd_get_del getRefreshReuseKey_def getLoginContextKey_def getFailKey_def getLockKey_def)
  ultimately show thesis using u s1 by (intro that) simp_all
qed

text \<open>
  Who has logged in is known to every service: with the cookies of the login, a request of the same client passes
  the guard of the machine service as the account that logged in, with its address and role. The
  verification of tokens is taken to undo the signature, and the tokens to be of ASCII characters.
\<close>
theorem login_then_request:
  assumes "http_login H dto req (s, []) = (Inr (LoggedIn se), (t, out))"
    and "jwt_secret pe = Inr secret" "\<And>p. verify secret (sign_access (hd_auth H) p) = Some p" "au_sha256 (hd_auth H) (fingerprint_raw (wr_req req)) \<noteq> []"
    and "list_all cookie_ok jar" "ascii (se_accessToken se)" "ascii (se_refreshToken se)" "se_accessToken se \<noteq> []"
    and "fingerprint_raw req' = fingerprint_raw (wr_req req)" "bearer (authorization req') = None"
  shows "\<exists>u. find_user_email (lg_email dto) s = Some u \<and>
    jwt_guard (au_sha256 (hd_auth H)) verify bearer pe (with_jar (browser jar out) req') =
      Inr \<lparr>au_userId = u_id u, au_email = u_email u, au_role = role_name (u_role u)\<rparr>"
proof -
  note l = http_login_opens [OF assms(1)]
  obtain u where u: "find_user_email (lg_email dto) s = Some u" "se = new_session (hd_auth H) u (wr_req req)"
    using login_new_session [OF l(1)] by blast
  have "list_all cookie_ok (browser jar out)" using browser_ok assms(5-7) l(2) by simp
  then have "parseCookie (with_jar (browser jar out) req') ''accessToken'' = Inr (Some (se_accessToken se))"
    using with_jar_parse browser_auth_cookies by (simp add: l(2))
  then have "jwt_token bearer (with_jar (browser jar out) req') = Inr (Some (se_accessToken se))"
    using assms(8,10) by (simp add: jwt_token_def)
  then show ?thesis
    using u assms(2-4,9)
    by (simp add: jwt_guard_def new_session_def new_access_token_def jwt_validate_def buildRequestFingerprint_def
        fingerprint_of_def)
qed

section \<open>Refreshing and leaving\<close>

lemma find_refresh_last:
  assumes "refreshTokens t = rows @ [row]" "distinct (map r_token (refreshTokens t))"
  shows "find_refresh (r_token row) t = Some row"
proof -
  have "List.find (\<lambda>r. r_token r = r_token row) rows = None" using assms by (auto simp: find_None_iff image_iff)
  then show ?thesis by (simp add: find_refresh_def assms(1) find_append)
qed

lemma find_user_member:
  assumes "users_unique s" "u \<in> set (users s)"
  shows "find_user (u_id u) s = Some u"
proof (cases "find_user (u_id u) s")
  case None
  then show ?thesis using assms(2) by (auto simp: find_user_def find_None_iff)
next
  case (Some x)
  then show ?thesis using find_user_Some [OF Some] assms distinct_key_eq [of u_id "users s"] by (auto simp: user_keys_ok_def)
qed

text \<open>What a later refresh of a session takes for granted: the parameters of its own call.\<close>

definition refresh_ready :: "auth_deps \<Rightarrow> auth_state \<Rightarrow> string \<Rightarrow> id \<Rightarrow> time \<Rightarrow> bool" where
  "refresh_ready D t tok uid e \<longleftrightarrow> redis_up D \<and> au_now D \<le> e \<and> refresh_expiry D \<noteq> None \<and>
     (\<exists>jti p. refresh_claims D tok = Some (uid, jti, p) \<and> rd_get (au_now D) (redis t) (getRefreshReuseKey jti) = None) \<and>
     list_all (\<lambda>y. r_id y \<noteq> session_uuid D \<and> r_token y \<noteq> new_refresh_token D uid) (refreshTokens t)"

lemma refresh_after:
  assumes "refresh_ready D t (r_token row) (r_userId row) (r_expiresAt row)" "find_refresh (r_token row) t = Some row" "r_token row \<noteq> []"
    "find_user (r_userId row) t = Some u"
  obtains t' where "refreshTokens_handler D (r_token row) req t = (Inr (new_session D u req), t')"
proof -
  obtain jti p e where r: "refresh_claims D (r_token row) = Some (r_userId row, jti, p)"
    "rd_get (au_now D) (redis t) (getRefreshReuseKey jti) = None" "refresh_expiry D = Some e"
    using assms(1) by (auto simp: refresh_ready_def)
  then have "refreshable D (r_token row) t jti p row u e"
    using assms find_user_Some [OF assms(4)] by (auto simp: refresh_ready_def refreshable_def list_all_iff)
  from that [OF refreshTokens_run [OF this]] show thesis .
qed

text \<open>
  C35: a login can be kept up: as long as its refresh token has not expired, the browser's next refresh, which sends
  nothing but the cookies, gives a new session of the same account and sets its cookies.
\<close>
theorem login_then_refresh:
  assumes "http_login H dto req (s, []) = (Inr (LoggedIn se), (t, out))" "sessions_sound s" "se_refreshToken se \<noteq> []"
    and "refresh_expiry (hd_auth H) = Some e" "refresh_ready (hd_auth H') t (se_refreshToken se) (u_id (se_user se)) e"
    and "list_all cookie_ok jar" "ascii (se_accessToken se)" "ascii (se_refreshToken se)"
    and "wr_req req' = with_jar (browser jar out) r"
  shows "\<exists>u t'. find_user_email (lg_email dto) s = Some u \<and>
    http_refresh H' None req' (t, []) =
      (Inr (new_session (hd_auth H') u (wr_req req')), (t', auth_cookies H' req' (map_of jar ''rememberMe'' = Some ''1'') (new_session (hd_auth H') u (wr_req req'))))"
proof -
  note l = http_login_opens [OF assms(1)]
  obtain u where u: "find_user_email (lg_email dto) s = Some u" "se = new_session (hd_auth H) u (wr_req req)"
    and t: "refreshTokens t = refreshTokens s @ [session_row (hd_auth H) (u_id u) e]" "users t = users s"
    using login_new_session [OF l(1)] assms(4) by (metis option.inject)
  let ?row = "session_row (hd_auth H) (u_id u) e"
  have row: "r_token ?row = se_refreshToken se" "r_userId ?row = u_id u" "r_expiresAt ?row = e" "u_id (se_user se) = u_id u"
    by (simp_all add: session_row_def u(2) new_session_def excludePassword_def)
  have sound: "sessions_sound t" using preservesD [OF sound.kept_login(2) [OF TrueI] assms(2) l(1)] .
  then have f: "find_refresh (r_token ?row) t = Some ?row" using find_refresh_last [OF t(1)] by (simp add: sessions_sound_def)
  have ut: "u \<in> set (users t)" using find_Some_set u(1) t(2) by (fastforce simp: find_user_email_def)
  have "find_user (u_id u) t = Some u"
    using find_user_member [of t u] sound ut by (simp add: sessions_sound_def)
  then obtain t' where r: "refreshTokens_handler (hd_auth H') (se_refreshToken se) (wr_req req') t = (Inr (new_session (hd_auth H') u (wr_req req')), t')"
    using refresh_after [of "hd_auth H'" t ?row u "wr_req req'"] f row assms(3,5) by auto
  have ok: "list_all cookie_ok (browser jar out)" using browser_ok assms(6-8) l(2) by simp
  have p: "parseCookie (wr_req req') n = Inr (map_of (browser jar out) n)" for n
    using with_jar_parse [OF ok] browser_auth_cookies(4) l(2) by (simp add: assms(9))
  then show ?thesis
    using u(1) r assms(3)
    by (simp add: http_refresh_def bnd_eq presented_token_def l(2) browser_auth_cookies(2,3) service_def setAuthCookies_def emit_def)
qed

text \<open>
  C36: a logout ends the session of the browser: the token of its cookie is deleted and nothing else, the browser keeps
  every cookie but the two of the session, and the token presented again, by whoever kept a copy and from
  anywhere, gives no session.
\<close>
theorem logout_ends_session:
  assumes "parseCookie (wr_req req) ''refreshToken'' = Inr (Some tok)" "tok \<noteq> []"
    and "redis_up (hd_auth H')" "refresh_claims (hd_auth H') tok = Some claims"
    and "parseCookie (wr_req req') ''refreshToken'' = Inr c"
  shows "\<exists>t out. http_logout H None req (s, []) = (Inr ''Logged out successfully'', (t, out)) \<and>
    t = s\<lparr>refreshTokens := filter (\<lambda>r. r_token r \<noteq> tok) (refreshTokens s)\<rparr> \<and>
    map_of (browser jar out) = (map_of jar)(''accessToken'' := None, ''refreshToken'' := None) \<and>
    fst (http_refresh H' (Some tok) req' (t, [])) = Inl (Unauthorized ''Refresh token reuse detected. All sessions revoked.'')"
proof -
  let ?t = "s\<lparr>refreshTokens := filter (\<lambda>r. r_token r \<noteq> tok) (refreshTokens s)\<rparr>"
  let ?opts = "\<lparr>co_httpOnly = True, co_secure = shouldUseSecureCookies (au_env (hd_auth H)) req, co_sameSite = Strict, co_path = ''/'', co_maxAge = None\<rparr>"
  let ?out = "[ClearCookie ''accessToken'' ?opts, ClearCookie ''refreshToken'' ?opts]"
  have "http_logout H None req (s, []) = (Inr ''Logged out successfully'', (?t, ?out))"
    using assms(1,2) by (simp add: http_logout_def bnd_eq presented_token_def clearAuthCookies_def Let_def emit_def service_def logout_def
        delete_refresh_def delete_many_def)
  moreover have "map_of (browser jar ?out) = (map_of jar)(''accessToken'' := None, ''refreshToken'' := None)"
    by (simp add: browser_def fun_eq_iff map_of_filter_name del: filter_filter)
  moreover have "find_refresh tok ?t = None" by (simp add: find_refresh_def find_None_iff)
  then have "fst (http_refresh H' (Some tok) req' (?t, [])) = Inl (Unauthorized ''Refresh token reuse detected. All sessions revoked.'')"
    using assms(2-5) by (cases claims)
      (simp add: http_refresh_def bnd_eq presented_token_def service_def refreshTokens_handler_def throw_if_eq require_eq
        ensureRedis_up delete_refresh_def split: prod.split)
  ultimately show ?thesis by blast
qed

section \<open>A browser at work\<close>

definition sample_web :: "request \<Rightarrow> web_request" where
  "sample_web r = \<lparr>wr_req = r, wr_secure = False, wr_forwarded_proto = One ''https'', wr_path = ''/auth/login'', wr_intent = None\<rparr>"

definition sample_http :: "time \<Rightarrow> string \<Rightarrow> http_deps" where
  "sample_http now i = \<lparr>hd_auth = sample_auth now i, hd_verify = (\<lambda>_ t. Some (sample_payload (Some ''10.0.0.7|curl''))),
     hd_bearer = (\<lambda>_. None), hd_isEmail = (\<lambda>_. True), hd_isUUID = (\<lambda>_. True)\<rparr>"

lemma sample_http_simps [simp]:
  "hd_auth (sample_http now i) = sample_auth now i" "hd_verify (sample_http now i) k x = Some (sample_payload (Some ''10.0.0.7|curl''))"
  "hd_bearer (sample_http now i) b = None" "wr_req (sample_web r) = r"
  by (simp_all add: sample_http_def sample_web_def)

abbreviation sample_alice :: user_row where
  "sample_alice \<equiv> sample_account ''alice'' USER False"

abbreviation sample_new :: session where
  "sample_new \<equiv> new_session (sample_auth 1000 ''s1'') sample_alice sample_request"

lemma sample_login_new:
  obtains t where "login (sample_auth 1000 ''s1'') (sample_login_dto ''Passw0rd!'') sample_request sample_auth_state = (Inr (LoggedIn sample_new), t)"
    "refreshTokens t = [session_row (sample_auth 1000 ''s1'') ''alice'' 604801000]"
    "\<And>now j. rd_get now (redis t) (getRefreshReuseKey j) = None"
proof -
  obtain se t where l: "login (sample_auth 1000 ''s1'') (sample_login_dto ''Passw0rd!'') sample_request sample_auth_state = (Inr (LoggedIn se), t)"
    using sample_login by blast
  obtain u e where u: "find_user_email (lg_email (sample_login_dto ''Passw0rd!'')) sample_auth_state = Some u"
    "se = new_session (sample_auth 1000 ''s1'') u sample_request" "refresh_expiry (sample_auth 1000 ''s1'') = Some e"
    "refreshTokens t = refreshTokens sample_auth_state @ [session_row (sample_auth 1000 ''s1'') (u_id u) e]"
    and rd: "\<And>now j. rd_get now (redis t) (getRefreshReuseKey j) = rd_get now (redis sample_auth_state) (getRefreshReuseKey j)"
    using login_new_session [OF l] by blast
  have "lg_email (sample_login_dto ''Passw0rd!'') = ''alice@x''" by (simp add: sample_login_dto_def)
  then have "u = sample_alice" "e = 604801000" using u(1,3) sample_account_find(3) sample_expiry(1) by simp_all
  then show thesis using u(2,4) l that rd by (simp add: rd_get_def rd_live_def)
qed

lemma sample_http_login:
  obtains t where "http_login (sample_http 1000 ''s1'') (sample_login_dto ''Passw0rd!'') (sample_web sample_request) (sample_auth_state, []) =
      (Inr (LoggedIn sample_new), (t, auth_cookies (sample_http 1000 ''s1'') (sample_web sample_request) False sample_new))"
    "refreshTokens t = [session_row (sample_auth 1000 ''s1'') ''alice'' 604801000]"
    "\<And>now j. rd_get now (redis t) (getRefreshReuseKey j) = None"
proof -
  obtain t where l: "login (sample_auth 1000 ''s1'') (sample_login_dto ''Passw0rd!'') sample_request sample_auth_state = (Inr (LoggedIn sample_new), t)"
    and t: "refreshTokens t = [session_row (sample_auth 1000 ''s1'') ''alice'' 604801000]"
      "\<And>now j. rd_get now (redis t) (getRefreshReuseKey j) = None"
    using sample_login_new by blast
  have "password_ok ''Passw0rd!''" by code_simp
  then have "login_dto_ok (sample_http 1000 ''s1'') (sample_login_dto ''Passw0rd!'')"
    by (simp add: login_dto_ok_def sample_http_def sample_login_dto_def)
  moreover have "\<not> lg_rememberMe (sample_login_dto ''Passw0rd!'')" by (simp add: sample_login_dto_def)
  ultimately show thesis
    using l t by (intro that [of t])
      (simp_all add: http_login_def validated_def throw_if_eq bnd_eq service_def setAuthCookies_def emit_def)
qed

lemma sample_tokens:
  "se_refreshToken sample_new = ''alice.s1''" "ascii (se_accessToken sample_new)" "se_accessToken sample_new \<noteq> []"
  "se_user sample_new = excludePassword sample_alice"
proof -
  have "se_accessToken sample_new = sample_sign \<lparr>sub = ''alice'', jwt_email = ''alice@x'', jwt_role = ''USER'', fp = Some ''10.0.0.7|curl''\<rparr>"
    by (simp add: new_session_def new_access_token_def sample_auth_def fingerprint_of_def buildRequestFingerprint_def sample_raw)
  moreover have "ascii (sample_sign \<lparr>sub = ''alice'', jwt_email = ''alice@x'', jwt_role = ''USER'', fp = Some ''10.0.0.7|curl''\<rparr>)"
    by code_simp
  ultimately show "ascii (se_accessToken sample_new)" by simp
  show "se_accessToken sample_new \<noteq> []"
    by (simp add: new_session_def new_access_token_def sample_auth_def sample_sign_def counted_def)
qed (simp_all add: new_session_def new_refresh_token_def)

theorem login_then_request_witness:
  "\<exists>t out. http_login (sample_http 1000 ''s1'') (sample_login_dto ''Passw0rd!'') (sample_web sample_request) (sample_auth_state, []) =
       (Inr (LoggedIn sample_new), (t, out)) \<and>
     jwt_guard id (\<lambda>_. sample_read) (\<lambda>_. None) sample_secret_env (with_jar (browser [] out) sample_request) =
       Inr \<lparr>au_userId = ''alice'', au_email = ''alice@x'', au_role = ''USER''\<rparr>"
proof -
  obtain t where l: "http_login (sample_http 1000 ''s1'') (sample_login_dto ''Passw0rd!'') (sample_web sample_request) (sample_auth_state, []) =
      (Inr (LoggedIn sample_new), (t, auth_cookies (sample_http 1000 ''s1'') (sample_web sample_request) False sample_new))"
    using sample_http_login by blast
  have "sign_access (sample_auth 1000 ''s1'') = sample_sign" by (simp add: sample_auth_def)
  moreover have "ascii ''alice.s1''" by code_simp
  ultimately show ?thesis
    using login_then_request [OF l sample_secret, of "\<lambda>_. sample_read" "[]" sample_request "\<lambda>_. None"] l
    by (simp add: sample_read_sign sample_raw sample_tokens sample_login_dto_def)
qed

theorem login_then_refresh_witness:
  "\<exists>t out t' out'. http_login (sample_http 1000 ''s1'') (sample_login_dto ''Passw0rd!'') (sample_web sample_request) (sample_auth_state, []) =
       (Inr (LoggedIn sample_new), (t, out)) \<and>
     http_refresh (sample_http 2000 ''s2'') None (sample_web (with_jar (browser [] out) sample_request)) (t, []) =
       (Inr (new_session (sample_auth 2000 ''s2'') sample_alice (with_jar (browser [] out) sample_request)), (t', out'))"
proof -
  obtain t where l: "http_login (sample_http 1000 ''s1'') (sample_login_dto ''Passw0rd!'') (sample_web sample_request) (sample_auth_state, []) =
      (Inr (LoggedIn sample_new), (t, auth_cookies (sample_http 1000 ''s1'') (sample_web sample_request) False sample_new))"
    and t: "refreshTokens t = [session_row (sample_auth 1000 ''s1'') ''alice'' 604801000]"
      "\<And>now j. rd_get now (redis t) (getRefreshReuseKey j) = None"
    using sample_http_login by blast
  obtain p where "refresh_claims (sample_auth 2000 ''s2'') ''alice.s1'' = Some (''alice'', ''j'', p)" using sample_claims by blast
  then have "refresh_ready (sample_auth 2000 ''s2'') t ''alice.s1'' ''alice'' 604801000"
    using t sample_expiry by (simp add: refresh_ready_def session_row_def new_refresh_token_def)
  moreover have "ascii ''alice.s1''" by code_simp
  ultimately show ?thesis
    using login_then_refresh [OF l sample_sound, of 604801000 "sample_http 2000 ''s2''" "[]" "sample_web (with_jar (browser [] (auth_cookies
        (sample_http 1000 ''s1'') (sample_web sample_request) False sample_new)) sample_request)" sample_request] l
    by (simp add: sample_tokens sample_expiry excludePassword_def sample_login_dto_def) fast
qed

theorem logout_ends_session_witness:
  "\<exists>t out. http_logout (sample_http 1000 ''s1'') None (sample_web (with_jar [(''refreshToken'', ''t0'')] sample_request)) (sample_signed_in, []) =
       (Inr ''Logged out successfully'', (t, out)) \<and> refreshTokens t = [] \<and> browser [(''refreshToken'', ''t0'')] out = []"
proof -
  have "parseCookie (with_jar [(''refreshToken'', ''t0'')] sample_request) ''refreshToken'' = Inr (Some ''t0'')"
    "parseCookie sample_request ''refreshToken'' = Inr None"
    by code_simp+
  moreover obtain p where "refresh_claims (sample_auth 2000 ''s2'') ''t0'' = Some (''alice'', ''j'', p)" using sample_claims by blast
  moreover have "map_of jar = (map_of [(''refreshToken'', ''t0'')])(''accessToken'' := None, ''refreshToken'' := None) \<Longrightarrow> jar = []"
    for jar :: "(string \<times> string) list"
    by (cases jar) (auto simp: fun_eq_iff split: if_splits)
  ultimately show ?thesis
    using logout_ends_session [of "sample_web (with_jar [(''refreshToken'', ''t0'')] sample_request)" "''t0''" "sample_http 2000 ''s2''" _
        "sample_web sample_request" None "sample_http 1000 ''s1''" sample_signed_in "[(''refreshToken'', ''t0'')]"]
    by (auto simp: sample_signed_in_def sample_session_def)
qed

section \<open>Examples of the endpoints\<close>

theorem cookies_protected_witness:
  "\<exists>op. snd (snd (handle (sample_http 1000 ''s1'') GoogleAuth (sample_web sample_request) (sample_auth_state, []))) = [op] \<and>
     co_httpOnly (cookie_flags op) \<and> co_secure (cookie_flags op)"
proof -
  let ?r = "handle (sample_http 1000 ''s1'') GoogleAuth (sample_web sample_request) (sample_auth_state, [])"
  have run: "?r = (fst ?r, (fst (snd ?r), snd (snd ?r)))" by simp
  have "\<not> str_includes ''/auth/login'' ''/google/callback''" by code_simp
  then have "length (snd (snd ?r)) = 1"
    by (simp add: endpoint_defs bnd_eq google_guard_cookie_def emit_def sample_web_def)
  then obtain op where op: "snd (snd ?r) = [op]" unfolding One_nat_def length_Suc_conv length_0_conv by blast
  have "toLowerCase ''auto'' = ''auto''" by code_simp
  then have "toLowerCase (or_opt (au_env (hd_auth (sample_http 1000 ''s1'')) ''AUTH_COOKIE_SECURE'') ''auto'') = ''auto''" by simp
  moreover have "wr_forwarded_proto (sample_web sample_request) = One ''https''" by (simp add: sample_web_def)
  ultimately show ?thesis using cookies_protected [OF run, of op] op by (simp add: Let_def)
qed

theorem session_cookies_backed_witness:
  "\<exists>r t out u e rm. handle (sample_http 1000 ''s1'') (Login (sample_login_dto ''Passw0rd!'')) (sample_web sample_request) (sample_auth_state, []) = (r, (t, out)) \<and>
     session_cookies out = auth_cookies (sample_http 1000 ''s1'') (sample_web sample_request) rm (new_session (sample_auth 1000 ''s1'') u sample_request) \<and>
     session_row (sample_auth 1000 ''s1'') (u_id u) e \<in> set (refreshTokens t)"
proof -
  obtain t where l: "http_login (sample_http 1000 ''s1'') (sample_login_dto ''Passw0rd!'') (sample_web sample_request) (sample_auth_state, []) =
      (Inr (LoggedIn sample_new), (t, auth_cookies (sample_http 1000 ''s1'') (sample_web sample_request) False sample_new))"
    using sample_http_login by blast
  then have h: "handle (sample_http 1000 ''s1'') (Login (sample_login_dto ''Passw0rd!'')) (sample_web sample_request) (sample_auth_state, []) =
      (Inr (), (t, auth_cookies (sample_http 1000 ''s1'') (sample_web sample_request) False sample_new))"
    by (simp add: done_with_def bnd_eq)
  have "session_cookies (auth_cookies (sample_http 1000 ''s1'') (sample_web sample_request) False sample_new) \<noteq> []"
    unfolding session_cookies_simps by (simp add: auth_cookies_def Let_def)
  from session_cookies_backed [OF h this] show ?thesis using h unfolding sample_http_simps by blast
qed

lemma sample_http_guard:
  "auth_jwt_guard (sample_http now i) sample_request = Inr \<lparr>au_userId = ''alice'', au_email = ''a@b.c'', au_role = ''USER''\<rparr>"
proof -
  have "jwt_token (hd_bearer (sample_http now i)) sample_request = Inr (Some ''tok'')"
    using sample_token by (simp add: sample_http_def)
  then show ?thesis
    by (simp add: auth_jwt_guard_def jwt_validate_def buildRequestFingerprint_def sample_raw sample_payload_def)
qed

theorem guarded_acts_on_subject_witness:
  "account_of ''root'' (fst (snd (handle (sample_http 1000 ''s1'') LogoutAll (sample_web sample_request) (sample_signed_in, [])))) =
     account_of ''root'' sample_signed_in"
proof -
  let ?r = "handle (sample_http 1000 ''s1'') LogoutAll (sample_web sample_request) (sample_signed_in, [])"
  have "?r = (fst ?r, (fst (snd ?r), snd (snd ?r)))" by simp
  from guarded_acts_on_subject [OF _ this] show ?thesis by (simp add: sample_http_guard)
qed

theorem recovery_codes_unusable_witness:
  "http_verifyMfa (sample_http 1000 ''s1'') ''c1'' ''0000-0000'' (sample_web sample_request) (sample_challenged, []) =
     (Inl (BadRequest ''Bad Request''), (sample_challenged, []))"
proof -
  have "take 4 (hex_upper [0, 0, 0, 0]) @ ''-'' @ take 4 (drop 4 (hex_upper [0, 0, 0, 0])) = ''0000-0000''" by code_simp
  then have "''0000-0000'' \<in> set (generateRecoveryCodes (sample_auth 1000 ''s1''))"
    by (auto simp: generateRecoveryCodes_def Let_def intro!: image_eqI [of _ _ 0])
  then show ?thesis
    using recovery_codes_unusable [of "sample_http 1000 ''s1''" "''0000-0000''"] by simp
qed

theorem long_password_locks_out_witness:
  "\<exists>t. http_changePassword (sample_http 1000 ''s1'') ''Passw0rd!'' (''Passw0rd!'' @ replicate 120 (CHR ''x'')) (sample_web sample_request) (sample_auth_state, []) =
       (Inr ''Password changed successfully'', (t, [])) \<and>
     http_login (sample_http 2000 ''s2'') (sample_login_dto (''Passw0rd!'' @ replicate 120 (CHR ''x''))) (sample_web sample_request) (t, []) =
       (Inl (BadRequest ''Bad Request''), (t, []))"
proof -
  let ?new = "''Passw0rd!'' @ replicate 120 (CHR ''x'')"
  have "change_password_dto_ok ?new" by code_simp
  moreover have "128 < length ?new" by simp
  moreover have "auth_jwt_guard (sample_http 1000 ''s1'') (wr_req (sample_web sample_request)) =
      Inr \<lparr>au_userId = ''alice'', au_email = ''a@b.c'', au_role = ''USER''\<rparr>"
    using sample_http_guard by simp
  ultimately show ?thesis
    using long_password_locks_out [of ?new "sample_http 1000 ''s1''" "sample_web sample_request" _ sample_auth_state sample_alice "''Passw0rd!''" "[]"
        "sample_login_dto ?new" "sample_http 2000 ''s2''" "sample_web sample_request"] sample_unique
    by (fastforce simp: sample_login_dto_def)
qed

end
