(* ===== verification/Gateway_Limits.thy ===== *)
theory Gateway_Limits
  imports Request_Security Redis_Kv Rate_Window Js_Regex Js_Number
begin

text \<open>
  The gateway's limits on requests: the middleware of
  \<open>services/gateway/src/security/redis-rate-limit.middleware.ts\<close>, the storage of
  \<open>redis-throttler.storage.ts\<close> and the limit on terminal sockets of \<open>main.ts\<close>. All of them count in
  Redis with \<open>INCR\<close> and give the first hit an expiry.

  Every command may fail, which the parameter of faults says for one request; a failure after
  \<open>INCR\<close> leaves its effect behind. A counter with its expiry refines the window of \<open>Rate_Window\<close>.
\<close>

section \<open>One hit\<close>

record redis_faults =
  connect_fails :: bool
  incr_fails :: bool
  expire_fails :: bool
  ttl_fails :: bool

definition no_faults :: redis_faults where
  "no_faults = \<lparr>connect_fails = False, incr_fails = False, expire_fails = False, ttl_fails = False\<rparr>"

text \<open>
  \<open>incr\<close>, and \<open>expire\<close> after the first hit; the count is \<open>None\<close> where a command rejects. The server
  refuses an expiry that is no integer, which is \<open>None\<close> here.
\<close>

definition incr_expire :: "redis_faults \<Rightarrow> time \<Rightarrow> string \<Rightarrow> int option \<Rightarrow> unit redis \<Rightarrow> int option \<times> unit redis" where
  "incr_expire F now key secs kv =
     (if incr_fails F then (None, kv)
      else case rd_incr now key kv of
          None \<Rightarrow> (None, kv)
        | Some (currentHits, kv') \<Rightarrow>
            if currentHits = 1
            then (if expire_fails F then (None, kv')
                  else case secs of None \<Rightarrow> (None, kv') | Some w \<Rightarrow> (Some currentHits, rd_expire now key w kv'))
            else (Some currentHits, kv'))"

section \<open>The middleware\<close>

record rate_rule =
  rule_name :: string
  rule_method :: string
  rule_path :: regex
  rule_limit :: int
  windowSeconds :: int

definition exact_path :: "string \<Rightarrow> regex" where
  "exact_path p = seq_r [LineStart, exact p, LineEnd]"

definition defaultRule :: rate_rule where
  "defaultRule = \<lparr>rule_name = ''default'', rule_method = ''*'', rule_path = seq_r [LineStart, exact ''/api/''],
     rule_limit = 60, windowSeconds = 60\<rparr>"

definition strictRules :: "rate_rule list" where
  "strictRules =
     [\<lparr>rule_name = ''auth-login'', rule_method = ''POST'', rule_path = exact_path ''/api/auth/login'',
        rule_limit = 10, windowSeconds = 60\<rparr>,
      \<lparr>rule_name = ''auth-register'', rule_method = ''POST'', rule_path = exact_path ''/api/auth/register'',
        rule_limit = 5, windowSeconds = 60\<rparr>,
      \<lparr>rule_name = ''auth-mfa-verify'', rule_method = ''POST'', rule_path = exact_path ''/api/auth/mfa/verify'',
        rule_limit = 8, windowSeconds = 60\<rparr>,
      \<lparr>rule_name = ''ai-chat'', rule_method = ''POST'', rule_path = exact_path ''/api/ai/chat'',
        rule_limit = 20, windowSeconds = 60\<rparr>]"

record http_request = request +
  hq_method :: string
  hq_path :: string

definition limiter_ip :: "'a request_scheme \<Rightarrow> string" where
  "limiter_ip req = remove_first ''::ffff:'' (or_opt (req_ip req) (or_opt (remoteAddress req) ''unknown''))"

definition resolveRule :: "http_request \<Rightarrow> rate_rule option" where
  "resolveRule req =
     (let method = toUpperCase (hq_method req); path = hq_path req in
      case List.find (\<lambda>rule. rule_method rule = method \<and> regex_test (rule_path rule) path) strictRules of
        Some rule \<Rightarrow> Some rule
      | None \<Rightarrow> if regex_test (rule_path defaultRule) path then Some defaultRule else None)"

text \<open>The next handler runs, or an answer with a status, a message and headers is sent.\<close>

datatype gw_answer = Next | Answer nat string "(string \<times> string) list"

definition rule_key :: "rate_rule \<Rightarrow> string \<Rightarrow> string" where
  "rule_key rule ip = ''security:gateway:ratelimit:'' @ rule_name rule @ '':'' @ ip"

definition limiter_unavailable :: "process_env \<Rightarrow> gw_answer" where
  "limiter_unavailable pe =
     (let failOpen = toLowerCase (or_opt (pe ''RATELIMIT_FAIL_BEHAVIOR'') ''open'') \<noteq> ''closed'' in
      if failOpen then Next else Answer 503 ''Rate limiter unavailable. Please retry later.'' [])"

definition limiter_use :: "process_env \<Rightarrow> redis_faults \<Rightarrow> time \<Rightarrow> http_request \<Rightarrow> unit redis \<Rightarrow> gw_answer \<times> unit redis" where
  "limiter_use pe F now req kv =
     (case resolveRule req of
        None \<Rightarrow> (Next, kv)
      | Some rule \<Rightarrow>
          let key = rule_key rule (limiter_ip req) in
          if connect_fails F then (limiter_unavailable pe, kv)
          else case incr_expire F now key (Some (windowSeconds rule)) kv of
              (None, kv') \<Rightarrow> (limiter_unavailable pe, kv')
            | (Some currentHits, kv') \<Rightarrow>
                if currentHits > rule_limit rule
                then (if ttl_fails F then (limiter_unavailable pe, kv')
                      else (Answer 429 ''Too many requests. Please retry later.''
                              [(''Retry-After'', show_int (max 1 (rd_ttl now kv' key)))], kv'))
                else (Next, kv'))"

section \<open>The storage of the throttler\<close>

record throttle_state =
  totalHits :: int
  timeToExpire :: int
  isBlocked :: bool
  timeToBlockExpire :: int

text \<open>\<open>PEXPIRE\<close> and \<open>PTTL\<close>, in milliseconds.\<close>

definition rd_pexpire :: "time \<Rightarrow> string \<Rightarrow> int \<Rightarrow> 'p redis \<Rightarrow> 'p redis" where
  "rd_pexpire now k ms kv =
     (case rd_live now kv k of
        None \<Rightarrow> kv
      | Some (v, _) \<Rightarrow> if ms \<le> 0 then kv(k := None) else kv(k \<mapsto> (v, Some (now + ms))))"

definition rd_pttl :: "time \<Rightarrow> 'p redis \<Rightarrow> string \<Rightarrow> int" where
  "rd_pttl now kv k =
     (case rd_live now kv k of None \<Rightarrow> - 2 | Some (_, None) \<Rightarrow> - 1 | Some (_, Some e) \<Rightarrow> e - now)"

definition throttle_unavailable :: throttle_state where
  "throttle_unavailable = \<lparr>totalHits = 0, timeToExpire = 0, isBlocked = False, timeToBlockExpire = 0\<rparr>"

definition throttle_increment :: "redis_faults \<Rightarrow> time \<Rightarrow> string \<Rightarrow> int \<Rightarrow> int \<Rightarrow> unit redis \<Rightarrow> throttle_state \<times> unit redis" where
  "throttle_increment F now key ttl limit kv =
     (if connect_fails F then (throttle_unavailable, kv)
      else let fullKey = ''security:gateway:throttler:'' @ key in
        if incr_fails F then (throttle_unavailable, kv)
        else case rd_incr now fullKey kv of
            None \<Rightarrow> (throttle_unavailable, kv)
          | Some (hits, kv') \<Rightarrow>
              if hits = 1 \<and> expire_fails F then (throttle_unavailable, kv')
              else let kv'' = (if hits = 1 then rd_pexpire now fullKey ttl kv' else kv') in
                if ttl_fails F then (throttle_unavailable, kv'')
                else let remaining = max 0 (rd_pttl now kv'' fullKey); blocked = hits > limit in
                  (\<lparr>totalHits = hits, timeToExpire = remaining, isBlocked = blocked,
                     timeToBlockExpire = (if blocked then remaining else 0)\<rparr>, kv''))"

section \<open>The limit on terminal sockets\<close>

fun parseSingleHeader :: "header \<Rightarrow> string option" where
  "parseSingleHeader NoHeader = None"
| "parseSingleHeader (One v) = (if trim v = [] then None else Some (trim v))"
| "parseSingleHeader (Many []) = None"
| "parseSingleHeader (Many (v # _)) = (if trim v = [] then None else Some (trim v))"

definition extractClientIpFromHeaders :: "header \<Rightarrow> string" where
  "extractClientIpFromHeaders realIpHeader =
     (case parseSingleHeader realIpHeader of
        Some realIp \<Rightarrow> remove_first ''::ffff:'' realIp
      | None \<Rightarrow> ''unknown'')"

text \<open>A limit that is no number is \<open>None\<close>: every comparison with it is false, and the server refuses it as an expiry.\<close>

record ws_limits =
  terminalWsRateLimit :: "rat option"
  terminalWsRateWindowSeconds :: "rat option"
  ws_isProduction :: bool

definition load_ws_limits :: "process_env \<Rightarrow> ws_limits" where
  "load_ws_limits pe =
     \<lparr>terminalWsRateLimit = map_option (max 1) (js_Number (or_opt (pe ''TERMINAL_WS_RATE_LIMIT_PER_MINUTE'') ''30'')),
      terminalWsRateWindowSeconds = map_option (max 1) (js_Number (or_opt (pe ''TERMINAL_WS_RATE_LIMIT_WINDOW_SECONDS'') ''60'')),
      ws_isProduction = (toLowerCase (or_opt (pe ''NODE_ENV'') ''development'') = ''production'')\<rparr>"

definition expiry_arg :: "rat option \<Rightarrow> int option" where
  "expiry_arg w = (case w of None \<Rightarrow> None | Some r \<Rightarrow> if of_int \<lfloor>r\<rfloor> = r then Some \<lfloor>r\<rfloor> else None)"

record ws_decision =
  ws_allowed :: bool
  retryAfterSeconds :: "int option"
  ws_ip :: string

definition checkTerminalWsRateLimit ::
    "process_env \<Rightarrow> redis_faults \<Rightarrow> time \<Rightarrow> header \<Rightarrow> unit redis \<Rightarrow> ws_decision \<times> unit redis" where
  "checkTerminalWsRateLimit pe F now realIpHeader kv =
     (let L = load_ws_limits pe; ip = extractClientIpFromHeaders realIpHeader;
          defaultBehavior = (if ws_isProduction L then ''closed'' else ''open'');
          failOpen = toLowerCase (or_opt (pe ''WS_RATELIMIT_FAIL_BEHAVIOR'') defaultBehavior) \<noteq> ''closed'';
          failed = \<lparr>ws_allowed = failOpen, retryAfterSeconds = None, ws_ip = ip\<rparr>;
          passed = \<lparr>ws_allowed = True, retryAfterSeconds = None, ws_ip = ip\<rparr>
      in
      if ip = ''unknown'' then (passed, kv)
      else let key = ''security:gateway:ratelimit:ws-terminal:'' @ ip in
        case incr_expire F now key (expiry_arg (terminalWsRateWindowSeconds L)) kv of
          (None, kv') \<Rightarrow> (failed, kv')
        | (Some currentHits, kv') \<Rightarrow>
            if (case terminalWsRateLimit L of None \<Rightarrow> False | Some l \<Rightarrow> of_int currentHits > l)
            then (if ttl_fails F then (failed, kv')
                  else (\<lparr>ws_allowed = False, retryAfterSeconds = Some (max 1 (rd_ttl now kv' key)), ws_ip = ip\<rparr>, kv'))
            else (passed, kv'))"

section \<open>Rules\<close>

lemma rule_facts [simp]:
  "rule_name defaultRule = ''default''" "rule_limit defaultRule = 60" "windowSeconds defaultRule = 60"
  by (simp_all add: defaultRule_def)

text \<open>
  A strict limit applies to a POST of exactly its path, every other path below \<open>/api/\<close> has the default limit,
  and what is outside has none. In particular a trailing slash escapes the strict limit, while the services'
  routers do not distinguish it.
\<close>
theorem rules_by_exact_path:
  "map_option (\<lambda>r. (rule_name r, rule_limit r)) (resolveRule req) =
     (if toUpperCase (hq_method req) = ''POST'' \<and> hq_path req = ''/api/auth/login'' then Some (''auth-login'', 10)
      else if toUpperCase (hq_method req) = ''POST'' \<and> hq_path req = ''/api/auth/register'' then Some (''auth-register'', 5)
      else if toUpperCase (hq_method req) = ''POST'' \<and> hq_path req = ''/api/auth/mfa/verify'' then Some (''auth-mfa-verify'', 8)
      else if toUpperCase (hq_method req) = ''POST'' \<and> hq_path req = ''/api/ai/chat'' then Some (''ai-chat'', 20)
      else if starts_with (hq_path req) ''/api/'' then Some (''default'', 60) else None)"
  unfolding resolveRule_def Let_def strictRules_def exact_path_def defaultRule_def
  by (simp add: regex_test_whole regex_test_prefix eq_commute [of "''POST''"] del: seq_r.simps)

lemma resolveRule_cases:
  "resolveRule req = Some rule \<Longrightarrow> rule \<in> insert defaultRule (set strictRules)"
  by (auto simp: resolveRule_def Let_def dest: find_Some_set split: option.splits if_splits)

lemma rule_windows:
  "rule \<in> insert defaultRule (set strictRules) \<Longrightarrow> windowSeconds rule = 60 \<and> 1 \<le> rule_limit rule"
  by (auto simp: strictRules_def)

lemma rule_names:
  assumes "r \<in> insert defaultRule (set strictRules)" "r' \<in> insert defaultRule (set strictRules)"
  shows "CHR '':'' \<notin> set (rule_name r)" "rule_name r = rule_name r' \<longleftrightarrow> r = r'"
  using assms by (auto simp: strictRules_def defaultRule_def)

lemma append_delim:
  "d \<notin> set a \<Longrightarrow> d \<notin> set a' \<Longrightarrow> a @ d # b = a' @ d # b' \<longleftrightarrow> a = a' \<and> b = b'"
proof (induction a arbitrary: a')
  case Nil
  then show ?case by (cases a') auto
next
  case (Cons c a)
  then show ?case by (cases a') auto
qed

lemma rule_key_inject:
  "r \<in> insert defaultRule (set strictRules) \<Longrightarrow> r' \<in> insert defaultRule (set strictRules) \<Longrightarrow>
     rule_key r i = rule_key r' i' \<longleftrightarrow> r = r' \<and> i = i'"
  using rule_names [of r r'] rule_names [of r' r] by (auto simp: rule_key_def append_delim)

section \<open>A counter with its expiry is a window\<close>

interpretation minute: rate_window "window_step limit 60000" limit 60000 for limit
  by (rule rate_window_step) simp

definition counted :: "unit redis \<Rightarrow> string \<Rightarrow> bool" where
  "counted kv key \<longleftrightarrow> (case kv key of None \<Rightarrow> True | Some (RNum n, Some e) \<Rightarrow> 1 \<le> n | _ \<Rightarrow> False)"

definition window_of :: "int \<Rightarrow> unit redis \<Rightarrow> string \<Rightarrow> (int \<times> nat) option" where
  "window_of width kv key = (case kv key of Some (RNum n, Some e) \<Rightarrow> Some (e - width, nat n) | _ \<Rightarrow> None)"

lemma counted_cases [consumes 1, case_names none window]:
  assumes "counted kv key"
  obtains "kv key = None" | n e where "kv key = Some (RNum n, Some e)" "1 \<le> n"
  using assms by (auto simp: counted_def split: option.splits prod.splits rvalue.splits)

lemma incr_expire_other: "incr_expire F now key w kv = (r, kv') \<Longrightarrow> k \<noteq> key \<Longrightarrow> kv' k = kv k"
  by (auto simp: incr_expire_def rd_incr_def rd_expire_def split: option.splits prod.splits rvalue.splits if_splits)

lemma incr_expire_refines:
  assumes "counted kv key" "0 < w"
  shows "\<exists>n kv'. incr_expire no_faults now key (Some w) kv = (Some (int n), kv') \<and> counted kv' key \<and>
    window_of (w * 1000) kv' key = snd (window_step limit (w * 1000) now 1 (window_of (w * 1000) kv key)) \<and>
    (fst (window_step limit (w * 1000) now 1 (window_of (w * 1000) kv key)) \<longleftrightarrow> n \<le> limit)"
  using assms(1)
proof (cases rule: counted_cases)
  case none
  then show ?thesis using assms(2)
    by (intro exI [of _ 1]) (simp add: incr_expire_def no_faults_def rd_incr_def rd_live_def rd_expire_def counted_def window_of_def window_step_def)
next
  case (window n e)
  show ?thesis
  proof (cases "now < e")
    case True
    then show ?thesis using window assms(2)
      by (intro exI [of _ "Suc (nat n)"])
        (simp add: incr_expire_def no_faults_def rd_incr_def rd_live_def counted_def window_of_def window_step_def nat_add_distrib)
  next
    case False
    then show ?thesis using window assms(2)
      by (intro exI [of _ 1])
        (simp add: incr_expire_def no_faults_def rd_incr_def rd_live_def rd_expire_def counted_def window_of_def window_step_def)
  qed
qed

lemma limiter_window:
  assumes "resolveRule req = Some rule" "counted kv (rule_key rule (limiter_ip req))"
    "limiter_use pe no_faults now req kv = (answer, kv')"
  shows "counted kv' (rule_key rule (limiter_ip req)) \<and>
    (answer = Next, window_of 60000 kv' (rule_key rule (limiter_ip req))) =
      window_step (nat (rule_limit rule)) 60000 now 1 (window_of 60000 kv (rule_key rule (limiter_ip req))) \<and>
    (\<forall>k. k \<noteq> rule_key rule (limiter_ip req) \<longrightarrow> kv' k = kv k)"
proof -
  let ?key = "rule_key rule (limiter_ip req)"
  have r: "windowSeconds rule = 60" "1 \<le> rule_limit rule"
    using rule_windows [OF resolveRule_cases [OF assms(1)]] by auto
  obtain n s where s: "incr_expire no_faults now ?key (Some 60) kv = (Some (int n), s)" "counted s ?key"
    "window_of 60000 s ?key = snd (window_step (nat (rule_limit rule)) 60000 now 1 (window_of 60000 kv ?key))"
    "fst (window_step (nat (rule_limit rule)) 60000 now 1 (window_of 60000 kv ?key)) \<longleftrightarrow> n \<le> nat (rule_limit rule)"
    using incr_expire_refines [OF assms(2), of 60 now "nat (rule_limit rule)"] by auto
  have "kv' = s" "answer = Next \<longleftrightarrow> n \<le> nat (rule_limit rule)"
    using assms(1,3) s(1) r by (auto simp: limiter_use_def Let_def no_faults_def split: if_splits)
  then show ?thesis using s incr_expire_other [OF s(1)] by (auto simp: prod_eq_iff)
qed

text \<open>
  C27: while Redis answers, the middleware implements an abstract window of a minute for every rule and
  address: the counter in the store is the window's state, the request goes on exactly when the window accepts it, and
  no other counter changes.
\<close>
theorem limiter_refines_window:
  assumes "resolveRule req = Some rule" "counted kv (rule_key rule (limiter_ip req))"
    "limiter_use pe no_faults now req kv = (answer, kv')"
  shows "counted kv' (rule_key rule (limiter_ip req)) \<and>
    (answer = Next, window_of 60000 kv' (rule_key rule (limiter_ip req))) =
      window_step (nat (rule_limit rule)) 60000 now 1 (window_of 60000 kv (rule_key rule (limiter_ip req))) \<and>
    (\<forall>k. k \<noteq> rule_key rule (limiter_ip req) \<longrightarrow> kv' k = kv k)"
  using limiter_window [OF assms] .

section \<open>Histories\<close>

fun limiter_run :: "process_env \<Rightarrow> (time \<times> http_request) list \<Rightarrow> unit redis \<Rightarrow> (time \<times> http_request \<times> gw_answer) list \<times> unit redis" where
  "limiter_run pe [] kv = ([], kv)"
| "limiter_run pe (x # xs) kv =
     (case limiter_use pe no_faults (fst x) (snd x) kv of (answer, kv') \<Rightarrow>
      case limiter_run pe xs kv' of (trail, kv'') \<Rightarrow> ((fst x, snd x, answer) # trail, kv''))"

definition hits_rule :: "rate_rule \<Rightarrow> string \<Rightarrow> http_request \<Rightarrow> bool" where
  "hits_rule rule ip req \<longleftrightarrow> resolveRule req = Some rule \<and> limiter_ip req = ip"

text \<open>The requests of one address under one rule that went on, each with weight one.\<close>

definition passed :: "rate_rule \<Rightarrow> string \<Rightarrow> (time \<times> http_request \<times> gw_answer) list \<Rightarrow> (int \<times> nat) list" where
  "passed rule ip trail = map (\<lambda>x. (fst x, 1)) (filter (\<lambda>x. hits_rule rule ip (fst (snd x)) \<and> snd (snd x) = Next) trail)"

lemma limiter_use_other:
  assumes "limiter_use pe F now req kv = (answer, kv')" "\<not> hits_rule rule ip req" "rule \<in> insert defaultRule (set strictRules)"
  shows "kv' (rule_key rule ip) = kv (rule_key rule ip)"
proof (cases "resolveRule req")
  case (Some r)
  have "rule_key rule ip \<noteq> rule_key r (limiter_ip req)"
    using assms(2,3) Some resolveRule_cases [OF Some] by (auto simp: rule_key_inject hits_rule_def)
  then show ?thesis using assms(1) Some incr_expire_other
    by (auto simp: limiter_use_def Let_def split: if_splits prod.splits option.splits)
qed (use assms(1) in \<open>simp add: limiter_use_def\<close>)

lemma passed_let_through:
  assumes "rule \<in> insert defaultRule (set strictRules)" "counted kv (rule_key rule ip)"
  shows "passed rule ip (fst (limiter_run pe hs kv)) =
    minute.let_through (nat (rule_limit rule)) (map (\<lambda>x. (fst x, 1)) (filter (\<lambda>x. hits_rule rule ip (snd x)) hs))
      (window_of 60000 kv (rule_key rule ip))"
  using assms(2)
proof (induction hs arbitrary: kv)
  case (Cons x hs)
  obtain answer s where s: "limiter_use pe no_faults (fst x) (snd x) kv = (answer, s)" by fastforce
  have run: "fst (limiter_run pe (x # hs) kv) = (fst x, snd x, answer) # fst (limiter_run pe hs s)"
    by (simp add: s split: prod.split)
  show ?case
  proof (cases "hits_rule rule ip (snd x)")
    case True
    then have rule: "resolveRule (snd x) = Some rule" "limiter_ip (snd x) = ip" by (auto simp: hits_rule_def)
    from limiter_window [OF rule(1) _ s] rule(2) Cons.prems have
      "counted s (rule_key rule ip)" and
      "window_step (nat (rule_limit rule)) 60000 (fst x) 1 (window_of 60000 kv (rule_key rule ip)) =
         (answer = Next, window_of 60000 s (rule_key rule ip))" by auto
    then show ?thesis using Cons.IH [of s] True unfolding run by (auto simp: passed_def)
  next
    case False
    then have "s (rule_key rule ip) = kv (rule_key rule ip)" using limiter_use_other [OF s _ assms(1)] by simp
    then have "counted s (rule_key rule ip)" "window_of 60000 s (rule_key rule ip) = window_of 60000 kv (rule_key rule ip)"
      using Cons.prems by (simp_all add: counted_def window_of_def)
    then show ?thesis using Cons.IH [of s] False unfolding run by (simp add: passed_def)
  qed
qed (simp add: passed_def)

text \<open>
  C28: whatever requests arrive in whatever order, no span of a minute lets more than twice a rule's
  limit of requests of one address go on, as long as Redis answers.
\<close>
theorem gateway_rate_bounded:
  assumes "rule \<in> set (defaultRule # strictRules)" "kv (rule_key rule ip) = None" "sorted (map fst hs)"
  shows "amount_in t (t + 60000) (passed rule ip (fst (limiter_run pe hs kv))) \<le> 2 * nat (rule_limit rule)"
proof -
  have "sorted (map fst (map (\<lambda>x. (fst x, 1 :: nat)) (filter (\<lambda>x. hits_rule rule ip (snd x)) hs)))"
    using sorted_filter [OF assms(3), of "\<lambda>x. hits_rule rule ip (snd x)"] by (simp add: comp_def)
  moreover have "counted kv (rule_key rule ip)" "window_of 60000 kv (rule_key rule ip) = None"
    using assms(2) by (simp_all add: counted_def window_of_def)
  ultimately show ?thesis using assms(1) passed_let_through [of rule kv ip pe hs] minute.let_through_bound by simp
qed

section \<open>Recovery\<close>

lemma limiter_blocked:
  assumes "limiter_use pe no_faults now req kv = (Answer 429 msg hdrs, kv')" "resolveRule req = Some rule"
    "counted kv (rule_key rule (limiter_ip req))"
  obtains n e where "kv' (rule_key rule (limiter_ip req)) = Some (RNum n, Some e)" "now < e" "rule_limit rule < n"
    "kv (rule_key rule (limiter_ip req)) = Some (RNum (n - 1), Some e)"
    "hdrs = [(''Retry-After'', show_int (max 1 ((e - now + 500) div 1000)))]"
proof -
  let ?key = "rule_key rule (limiter_ip req)"
  have r: "windowSeconds rule = 60" "1 \<le> rule_limit rule"
    using rule_windows [OF resolveRule_cases [OF assms(2)]] by auto
  note d = limiter_use_def incr_expire_def no_faults_def rd_incr_def rd_live_def rd_expire_def Let_def limiter_unavailable_def
  from assms(3) show ?thesis
  proof (cases rule: counted_cases)
    case none
    then show ?thesis using assms(1,2) r by (auto simp: d)
  next
    case (window n e)
    show ?thesis
    proof (cases "now < e")
      case True
      then show ?thesis using assms(1,2) window r that [of "n + 1" e]
        by (auto simp: d rd_ttl_def split: if_splits)
    next
      case False
      then show ?thesis using assms(1,2) window r by (auto simp: d)
    qed
  qed
qed

lemma limiter_fresh:
  assumes "resolveRule req = Some rule" "rd_live now kv (rule_key rule (limiter_ip req)) = None"
  shows "fst (limiter_use pe no_faults now req kv) = Next"
  using assms rule_windows [OF resolveRule_cases [OF assms(1)]]
  by (auto simp: limiter_use_def incr_expire_def no_faults_def rd_incr_def rd_expire_def Let_def rd_live_def)

text \<open>
  A blocked client is told to wait between one second and a minute, and once that time and half a
  second (by which the server rounds the remaining time) have passed, its next request goes on.
\<close>
theorem blocked_client_recovers:
  assumes "limiter_use pe no_faults now req kv = (Answer 429 msg hdrs, kv')" "resolveRule req = Some rule"
    "counted kv (rule_key rule (limiter_ip req))"
    "\<And>n e. kv (rule_key rule (limiter_ip req)) = Some (RNum n, Some e) \<Longrightarrow> e \<le> now + 60000"
  shows "\<exists>n. hdrs = [(''Retry-After'', show_int n)] \<and> 1 \<le> n \<and> n \<le> 60 \<and>
    (\<forall>later \<ge> now + n * 1000 + 500. fst (limiter_use pe no_faults later req kv') = Next)"
proof -
  obtain n e where e: "kv' (rule_key rule (limiter_ip req)) = Some (RNum n, Some e)" "now < e"
    "kv (rule_key rule (limiter_ip req)) = Some (RNum (n - 1), Some e)"
    "hdrs = [(''Retry-After'', show_int (max 1 ((e - now + 500) div 1000)))]"
    using limiter_blocked [OF assms(1-3)] by metis
  let ?n = "max 1 ((e - now + 500) div 1000)"
  have "e \<le> now + 60000" using assms(4) e(3) by simp
  then have "(e - now + 500) div 1000 \<le> 60" by linarith
  moreover have "e \<le> later" if "later \<ge> now + ?n * 1000 + 500" for later using that by linarith
  then have "fst (limiter_use pe no_faults later req kv') = Next" if "later \<ge> now + ?n * 1000 + 500" for later
    using limiter_fresh [OF assms(2), of later kv'] e(1) that by (simp add: rd_live_def)
  ultimately show ?thesis using e(4) by (intro exI [of _ ?n]) simp
qed

section \<open>A lost expiry\<close>

lemma unlimited_counter:
  assumes "resolveRule req = Some rule" "kv (rule_key rule (limiter_ip req)) = Some (RNum n, None)" "1 \<le> n"
  shows "limiter_use pe no_faults now req kv =
    ((if n + 1 > rule_limit rule then Answer 429 ''Too many requests. Please retry later.'' [(''Retry-After'', ''1'')] else Next),
     kv(rule_key rule (limiter_ip req) \<mapsto> (RNum (n + 1), None)))"
proof -
  have "show_int 1 = ''1''" by code_simp
  then show ?thesis using assms by (simp add: limiter_use_def incr_expire_def no_faults_def rd_incr_def rd_live_def rd_ttl_def Let_def)
qed

lemma unlimited_run:
  assumes "\<forall>x \<in> set hs. hits_rule rule ip (snd x)" "kv (rule_key rule ip) = Some (RNum n, None)" "1 \<le> n"
  shows "snd (limiter_run pe hs kv) (rule_key rule ip) = Some (RNum (n + int (length hs)), None)"
  using assms
proof (induction hs arbitrary: kv n)
  case (Cons x hs)
  let ?kv = "kv(rule_key rule ip \<mapsto> (RNum (n + 1), None))"
  have "snd (limiter_use pe no_faults (fst x) (snd x) kv) = ?kv"
    using Cons.prems unlimited_counter [of "snd x" rule kv n pe "fst x"] by (simp add: hits_rule_def)
  then have "snd (limiter_run pe (x # hs) kv) = snd (limiter_run pe hs ?kv)" by (auto split: prod.split)
  moreover have "snd (limiter_run pe hs ?kv) (rule_key rule ip) = Some (RNum (n + 1 + int (length hs)), None)"
    by (rule Cons.IH) (use Cons.prems in simp_all)
  moreover have "n + 1 + int (length hs) = n + int (length (x # hs))" by simp
  ultimately show ?case by metis
qed simp

text \<open>
  When the command that sets the expiry fails on the first request, the counter stays for ever. After as many
  requests as the limit, however slowly they come, every further request of the address is refused at every time,
  always with the advice to retry after a second.
\<close>
theorem lost_expiry_blocks_forever:
  assumes "resolveRule req = Some rule" "kv (rule_key rule (limiter_ip req)) = None"
    "\<not> connect_fails F" "\<not> incr_fails F" "expire_fails F"
    "\<forall>x \<in> set hs. hits_rule rule (limiter_ip req) (snd x)" "rule_limit rule \<le> int (length hs) + 1"
  shows "fst (limiter_use pe no_faults later req (snd (limiter_run pe hs (snd (limiter_use pe F now req kv))))) =
    Answer 429 ''Too many requests. Please retry later.'' [(''Retry-After'', ''1'')]"
proof -
  have "snd (limiter_use pe F now req kv) (rule_key rule (limiter_ip req)) = Some (RNum 1, None)"
    using assms(1-5) by (simp add: limiter_use_def incr_expire_def rd_incr_def rd_live_def Let_def)
  then have "snd (limiter_run pe hs (snd (limiter_use pe F now req kv))) (rule_key rule (limiter_ip req)) =
      Some (RNum (1 + int (length hs)), None)"
    by (rule unlimited_run [OF assms(6)]) simp
  then show ?thesis using unlimited_counter [OF assms(1)] assms(7) by simp
qed

section \<open>Examples\<close>

definition sample_post :: "string \<Rightarrow> http_request" where
  "sample_post path = \<lparr>x_forwarded_for = NoHeader, x_real_ip = NoHeader, req_ip = Some ''::ffff:10.0.0.7'', remoteAddress = None,
     user_agent = NoHeader, cookie = None, authorization = None, hq_method = ''post'', hq_path = path\<rparr>"

definition register_rule :: rate_rule where
  "register_rule = strictRules ! 1"

lemma sample_register:
  "resolveRule (sample_post ''/api/auth/register'') = Some register_rule" "limiter_ip (sample_post p) = ''10.0.0.7''"
  "rule_limit register_rule = 5" "hits_rule register_rule ''10.0.0.7'' (sample_post ''/api/auth/register'')"
  by code_simp+

lemma sample_rule: "register_rule \<in> set (defaultRule # strictRules)"
  by (simp add: register_rule_def strictRules_def)

text \<open>Six registrations in five seconds: the sixth is refused.\<close>

definition six_requests :: "(time \<times> http_request) list" where
  "six_requests = map (\<lambda>i. (i * 1000, sample_post ''/api/auth/register'')) [0, 1, 2, 3, 4, 5]"

theorem gateway_rate_bounded_witness:
  "amount_in 0 60000 (passed register_rule ''10.0.0.7'' (fst (limiter_run (\<lambda>_. None) six_requests Map.empty))) \<le> 10"
  using gateway_rate_bounded [OF sample_rule, of "Map.empty :: unit redis" "''10.0.0.7''" six_requests 0 "\<lambda>_. None"] sample_register(3)
  by (simp add: six_requests_def)

theorem limiter_refines_window_witness:
  "(fst (limiter_use (\<lambda>_. None) no_faults 7 (sample_post ''/api/auth/register'') Map.empty) = Next,
    window_of 60000 (snd (limiter_use (\<lambda>_. None) no_faults 7 (sample_post ''/api/auth/register'') Map.empty))
      (rule_key register_rule ''10.0.0.7'')) = (True, Some (7, 1))"
proof -
  have "counted (Map.empty :: unit redis) (rule_key register_rule (limiter_ip (sample_post ''/api/auth/register'')))"
    by (simp add: counted_def)
  from limiter_refines_window [OF sample_register(1) this surjective_pairing, of "\<lambda>_. None" 7]
  show ?thesis by (simp add: sample_register window_of_def window_step_def)
qed

definition blocked_store :: "unit redis" where
  "blocked_store = [rule_key register_rule ''10.0.0.7'' \<mapsto> (RNum 5, Some 50000)]"

lemma blocked_answer:
  "limiter_use (\<lambda>_. None) no_faults 20000 (sample_post ''/api/auth/register'') blocked_store =
     (Answer 429 ''Too many requests. Please retry later.'' [(''Retry-After'', ''30'')],
      blocked_store(rule_key register_rule ''10.0.0.7'' \<mapsto> (RNum 6, Some 50000)))"
proof -
  have "show_int 30 = ''30''" by code_simp
  then show ?thesis
    by (simp add: limiter_use_def sample_register blocked_store_def incr_expire_def no_faults_def rd_incr_def rd_live_def rd_ttl_def Let_def)
qed

theorem blocked_client_recovers_witness:
  "fst (limiter_use (\<lambda>_. None) no_faults 50500 (sample_post ''/api/auth/register'')
     (blocked_store(rule_key register_rule ''10.0.0.7'' \<mapsto> (RNum 6, Some 50000)))) = Next"
proof -
  have "counted blocked_store (rule_key register_rule (limiter_ip (sample_post ''/api/auth/register'')))"
    by (simp add: counted_def blocked_store_def sample_register)
  from blocked_client_recovers [OF blocked_answer sample_register(1) this]
  obtain n where n: "[(''Retry-After'', ''30'')] = [(''Retry-After'', show_int n)]" "n \<le> 60" "1 \<le> n"
    "\<forall>later \<ge> 20000 + n * 1000 + 500. fst (limiter_use (\<lambda>_. None) no_faults later (sample_post ''/api/auth/register'')
       (blocked_store(rule_key register_rule ''10.0.0.7'' \<mapsto> (RNum 6, Some 50000)))) = Next"
    by (auto simp: blocked_store_def sample_register)
  have all: "list_all (\<lambda>k. show_int k = ''30'' \<longrightarrow> k = 30) [1..60]" by code_simp
  have "n \<in> set [1..60]" using n(2,3) by simp
  then have "n = 30" using all n(1) unfolding list_all_iff by auto
  then show ?thesis using n(4) by simp
qed

theorem lost_expiry_blocks_forever_witness:
  "fst (limiter_use (\<lambda>_. None) no_faults 86400000000 (sample_post ''/api/auth/register'')
     (snd (limiter_run (\<lambda>_. None) six_requests
       (snd (limiter_use (\<lambda>_. None) (no_faults\<lparr>expire_fails := True\<rparr>) 0 (sample_post ''/api/auth/register'') Map.empty))))) =
   Answer 429 ''Too many requests. Please retry later.'' [(''Retry-After'', ''1'')]"
  by (rule lost_expiry_blocks_forever [OF sample_register(1)])
    (simp_all add: sample_register no_faults_def six_requests_def)

end
