(* ===== verification/Gateway_Edge.thy ===== *)
theory Gateway_Edge
  imports Gateway_Limits
begin

text \<open>
  \<open>services/gateway/src/main.ts\<close>: what the gateway checks of a request before it is proxied (the
  protocol, the token of the edge proxy and the host) and of a socket's upgrade. \<open>new URL(origin).host\<close>
  is a parameter, \<open>None\<close> where it throws. The start-up checks of secrets and origins are those of
  \<open>Request_Security\<close>.
\<close>

section \<open>Configuration\<close>

definition parseHost :: "string option \<Rightarrow> string option" where
  "parseHost value =
     (case value of
        None \<Rightarrow> None
      | Some v \<Rightarrow> if v = [] then None
                  else let first = trim (hd (split_on CHR '','' v)) in
                    if first = [] then None else Some (toLowerCase first))"

record edge_headers =
  eh_host :: "string option"
  eh_origin :: header
  eh_forwarded_for :: header
  eh_forwarded_host :: header
  eh_forwarded_proto :: header
  eh_edge_token :: header
  eh_real_ip :: header

definition local_hosts :: "string list" where
  "local_hosts = [''localhost'', ''127.0.0.1'', ''localhost:3001'', ''127.0.0.1:3001'']"

definition isLocalFrontendDevRequest :: "edge_headers \<Rightarrow> string list \<Rightarrow> bool" where
  "isLocalFrontendDevRequest h allowedOrigins =
     (let host = parseHost (parseSingleHeader (case eh_host h of None \<Rightarrow> NoHeader | Some v \<Rightarrow> One v));
          origin = parseSingleHeader (eh_origin h);
          hasForwardedHeaders = (parseSingleHeader (eh_forwarded_for h) \<noteq> None \<or>
            parseSingleHeader (eh_forwarded_host h) \<noteq> None \<or> parseSingleHeader (eh_forwarded_proto h) \<noteq> None)
      in case (host, origin) of
           (Some hs, Some org) \<Rightarrow> hs \<in> set local_hosts \<and> org \<in> set allowedOrigins \<and> \<not> hasForwardedHeaders
         | _ \<Rightarrow> False)"

definition getTrustedHosts :: "(string \<Rightarrow> string option) \<Rightarrow> process_env \<Rightarrow> string list \<Rightarrow> string list" where
  "getTrustedHosts url_host pe allowedOrigins =
     List.map_filter (\<lambda>origin. map_option toLowerCase (url_host origin)) allowedOrigins @
     filter (\<lambda>w. w \<noteq> []) (map (\<lambda>w. toLowerCase (trim w)) (split_on CHR '','' (or_opt (pe ''TRUSTED_HOSTS'') []))) @
     local_hosts"

record edge_config =
  allowedOrigins :: "string list"
  trustedHosts :: "string list"
  edgeProxyToken :: string
  isProduction :: bool

definition load_edge_config :: "(string \<Rightarrow> string option) \<Rightarrow> process_env \<Rightarrow> edge_config" where
  "load_edge_config url_host pe =
     (let origins = getAllowedOrigins pe in
      \<lparr>allowedOrigins = origins, trustedHosts = getTrustedHosts url_host pe origins,
       edgeProxyToken = trim (or_opt (pe ''EDGE_PROXY_TOKEN'') []),
       isProduction = (toLowerCase (or_opt (pe ''NODE_ENV'') ''development'') = ''production'')\<rparr>)"

text \<open>The process does not start as root or with weak secrets.\<close>

definition gateway_starts :: "process_env \<Rightarrow> nat option \<Rightarrow> exn + unit" where
  "gateway_starts pe uid =
     (case validateJwtSecretsOrThrow pe of
        Inl e \<Rightarrow> Inl e
      | Inr _ \<Rightarrow> if uid = Some 0 then Inl (PlainError ''SECURITY: Do not run as root. Exiting.'') else Inr ())"

section \<open>The check at the edge\<close>

text \<open>
  \<open>timingSafeEqual\<close> on buffers of one length is equality of their bytes.
\<close>

definition edge_token_ok :: "edge_config \<Rightarrow> edge_headers \<Rightarrow> bool" where
  "edge_token_ok C h =
     (let allowLocalDevBypass = (\<not> isProduction C \<and> isLocalFrontendDevRequest h (allowedOrigins C)) in
      if edgeProxyToken C \<noteq> [] \<and> \<not> allowLocalDevBypass
      then (case parseSingleHeader (eh_edge_token h) of
              None \<Rightarrow> False
            | Some edgeToken \<Rightarrow> length edgeToken = length (edgeProxyToken C) \<and> edgeToken = edgeProxyToken C)
      else True)"

definition request_host :: "edge_headers \<Rightarrow> string option" where
  "request_host h =
     parseHost (case eh_forwarded_host h of
        Many vs \<Rightarrow> (case vs of [] \<Rightarrow> None | v # _ \<Rightarrow> Some v)
      | One v \<Rightarrow> if v = [] then eh_host h else Some v
      | NoHeader \<Rightarrow> eh_host h)"

definition edge_check :: "edge_config \<Rightarrow> edge_headers \<Rightarrow> gw_answer" where
  "edge_check C h =
     (let forwardedProto = parseSingleHeader (eh_forwarded_proto h) in
      if forwardedProto \<noteq> None \<and> forwardedProto \<noteq> Some ''https'' then Answer 400 ''Invalid forwarded proto'' []
      else if \<not> edge_token_ok C h then Answer 403 ''Edge verification failed'' []
      else case request_host h of
          None \<Rightarrow> Next
        | Some host \<Rightarrow> if host \<in> set (trustedHosts C) then Next else Answer 400 ''Invalid host header'' [])"

section \<open>Upgrades of sockets\<close>

text \<open>
  An upgrade goes to the proxy of a service, is refused with a status and the number of seconds to
  retry after (\<open>Some None\<close> where that is no number), or nothing is done with the socket. Which
  proxies have an upgrade handler is a parameter.
\<close>

datatype ws_service = TerminalWs | VmEventsWs | VncWs | AiChatWs

datatype upgrade_result = Forwarded ws_service | Refused nat "rat option option" | LeftOpen

definition upgrade :: "process_env \<Rightarrow> edge_config \<Rightarrow> (ws_service \<Rightarrow> bool) \<Rightarrow> redis_faults \<Rightarrow> time \<Rightarrow> edge_headers \<Rightarrow>
    string \<Rightarrow> unit redis \<Rightarrow> upgrade_result \<times> unit redis" where
  "upgrade pe C has_upgrade F now h url kv =
     (if \<not> edge_token_ok C h then (Refused 403 None, kv)
      else if starts_with url ''/terminal/'' \<and> has_upgrade TerminalWs
      then (case checkTerminalWsRateLimit pe F now (eh_real_ip h) kv of (rateDecision, kv') \<Rightarrow>
              if \<not> ws_allowed rateDecision
              then (Refused 429 (Some (case retryAfterSeconds rateDecision of
                      Some n \<Rightarrow> Some (of_int n)
                    | None \<Rightarrow> terminalWsRateWindowSeconds (load_ws_limits pe))), kv')
              else (Forwarded TerminalWs, kv'))
      else if starts_with url ''/vm-events/'' \<and> has_upgrade VmEventsWs then (Forwarded VmEventsWs, kv)
      else if starts_with url ''/vnc/'' \<and> has_upgrade VncWs then (Forwarded VncWs, kv)
      else if starts_with url ''/ai-chat/'' \<and> has_upgrade AiChatWs then (Forwarded AiChatWs, kv)
      else (LeftOpen, kv))"

section \<open>Properties\<close>

lemma edge_token_ok_iff:
  "edge_token_ok C h \<longleftrightarrow> edgeProxyToken C = [] \<or> parseSingleHeader (eh_edge_token h) = Some (edgeProxyToken C) \<or>
     \<not> isProduction C \<and> isLocalFrontendDevRequest h (allowedOrigins C)"
  by (auto simp: edge_token_ok_def Let_def split: option.splits)

text \<open>
  In production with a token of the edge configured, every request and every upgrade that gets through carries
  that token, whatever the other headers say.
\<close>
theorem edge_token_required:
  assumes "isProduction C" "edgeProxyToken C \<noteq> []" "parseSingleHeader (eh_edge_token h) \<noteq> Some (edgeProxyToken C)"
  shows "edge_check C h \<noteq> Next \<and> upgrade pe C has F now h url kv = (Refused 403 None, kv)"
proof -
  have "\<not> edge_token_ok C h" using assms by (simp add: edge_token_ok_iff)
  then show ?thesis by (simp add: edge_check_def upgrade_def Let_def)
qed

text \<open>
  A request goes on exactly when the forwarded protocol is absent or HTTPS, the token of the edge is not
  configured, correct or not needed by a local front end in development, and the host is missing or trusted; the
  status tells which check failed first.
\<close>
theorem edge_check_outcome:
  "edge_check C h =
     (if parseSingleHeader (eh_forwarded_proto h) \<notin> {None, Some ''https''} then Answer 400 ''Invalid forwarded proto'' []
      else if edgeProxyToken C \<noteq> [] \<and> parseSingleHeader (eh_edge_token h) \<noteq> Some (edgeProxyToken C) \<and>
        (isProduction C \<or> \<not> isLocalFrontendDevRequest h (allowedOrigins C)) then Answer 403 ''Edge verification failed'' []
      else if request_host h = None \<or> the (request_host h) \<in> set (trustedHosts C) then Next
      else Answer 400 ''Invalid host header'' [])"
  by (auto simp: edge_check_def edge_token_ok_iff split: option.split)

text \<open>
  A forwarded host that starts with a comma names no host, and the check of the host is skipped whatever the host
  header says.
\<close>
theorem comma_host_skips_check:
  assumes "eh_forwarded_host h = One (CHR '','' # rest)" "parseSingleHeader (eh_forwarded_proto h) = Some ''https''"
    "edge_token_ok C h"
  shows "edge_check C (h\<lparr>eh_host := Some host\<rparr>) = Next"
proof -
  have "request_host (h\<lparr>eh_host := Some host\<rparr>) = None"
    using assms(1) by (simp add: request_host_def parseHost_def trim_def)
  moreover have "parseSingleHeader (eh_forwarded_host h) \<noteq> None"
  proof -
    have "\<not> is_ws CHR '',''" by code_simp
    then show ?thesis using assms(1) by (auto simp: trim_def dropWhile_eq_Nil_conv)
  qed
  then have "edge_token_ok C (h\<lparr>eh_host := Some host\<rparr>)"
    using assms(3) by (auto simp: edge_token_ok_iff isLocalFrontendDevRequest_def Let_def split: option.splits)
  ultimately show ?thesis using assms(2) by (simp add: edge_check_def)
qed

text \<open>
  An upgrade to the terminal without the header of the client's address is never counted and never limited.
\<close>
theorem upgrade_without_ip_unlimited:
  assumes "parseSingleHeader (eh_real_ip h) = None" "edge_token_ok C h" "has TerminalWs"
  shows "upgrade pe C has F now h (''/terminal/'' @ rest) kv = (Forwarded TerminalWs, kv)"
proof -
  have "starts_with (''/terminal/'' @ rest) ''/terminal/''" by (rule starts_with_append)
  then show ?thesis using assms by (simp add: upgrade_def checkTerminalWsRateLimit_def extractClientIpFromHeaders_def Let_def del: append.simps)
qed

section \<open>Examples\<close>

definition sample_edge :: edge_config where
  "sample_edge = load_edge_config (\<lambda>w. if w = ''https://cloud.tn'' then Some ''cloud.tn'' else None)
     [''CORS_ORIGIN'' \<mapsto> ''https://cloud.tn'', ''EDGE_PROXY_TOKEN'' \<mapsto> ''secret'', ''NODE_ENV'' \<mapsto> ''production'']"

definition sample_headers :: "string \<Rightarrow> string \<Rightarrow> edge_headers" where
  "sample_headers token fwd = \<lparr>eh_host = Some ''cloud.tn'', eh_origin = NoHeader, eh_forwarded_for = NoHeader,
     eh_forwarded_host = (if fwd = [] then NoHeader else One fwd), eh_forwarded_proto = One ''https'', eh_edge_token = One token,
     eh_real_ip = NoHeader\<rparr>"

lemma sample_edge_passes: "edge_check sample_edge (sample_headers ''secret'' []) = Next"
  by code_simp

lemma sample_edge_host: "edge_check sample_edge (sample_headers ''secret'' ''evil.example'') = Answer 400 ''Invalid host header'' []"
  by code_simp

theorem edge_token_required_witness:
  "edge_check sample_edge (sample_headers ''guess'' []) \<noteq> Next \<and>
   upgrade (\<lambda>_. None) sample_edge (\<lambda>_. True) no_faults 0 (sample_headers ''guess'' []) ''/vnc/'' Map.empty = (Refused 403 None, Map.empty)"
proof -
  have "isProduction sample_edge" "edgeProxyToken sample_edge \<noteq> []"
    "parseSingleHeader (eh_edge_token (sample_headers ''guess'' [])) \<noteq> Some (edgeProxyToken sample_edge)" by code_simp+
  then show ?thesis by (rule edge_token_required)
qed

theorem comma_host_skips_check_witness:
  "edge_check sample_edge ((sample_headers ''secret'' '',x'')\<lparr>eh_host := Some ''evil.example''\<rparr>) = Next"
proof -
  have "eh_forwarded_host (sample_headers ''secret'' '',x'') = One (CHR '','' # ''x'')"
    "parseSingleHeader (eh_forwarded_proto (sample_headers ''secret'' '',x'')) = Some ''https''"
    "edge_token_ok sample_edge (sample_headers ''secret'' '',x'')" by code_simp+
  then show ?thesis by (rule comma_host_skips_check)
qed

theorem upgrade_without_ip_unlimited_witness:
  "upgrade (\<lambda>_. None) sample_edge (\<lambda>_. True) no_faults 0 (sample_headers ''secret'' []) (''/terminal/'' @ ''socket.io'') Map.empty =
   (Forwarded TerminalWs, Map.empty)"
proof -
  have "parseSingleHeader (eh_real_ip (sample_headers ''secret'' [])) = None" "edge_token_ok sample_edge (sample_headers ''secret'' [])"
    by code_simp+
  then show ?thesis by (rule upgrade_without_ip_unlimited) simp
qed

end
