(* ===== verification/Auth_Edge.thy ===== *)
theory Auth_Edge
  imports Gateway_Edge
begin

text \<open>
  \<open>services/auth/src/main.ts\<close>: the checks that the auth service makes of every request before a route
  is found: the host it names, and the origin of a request that changes state and carries a session.
  \<open>new URL(v).origin\<close> and \<open>new URL(v).host\<close> are parameters, \<open>None\<close> where they throw. The start-up check of
  the secrets and the list of allowed origins are those of \<open>Request_Security\<close>.
\<close>

section \<open>Hosts and origins\<close>

record url_parser =
  url_origin :: "string \<Rightarrow> string option"
  url_host :: "string \<Rightarrow> string option"

definition normalizeOrigin :: "url_parser \<Rightarrow> string option \<Rightarrow> string option" where
  "normalizeOrigin U value =
     (case value of None \<Rightarrow> None | Some v \<Rightarrow> if v = [] then None else url_origin U v)"

definition auth_local_hosts :: "string list" where
  "auth_local_hosts = [''localhost'', ''127.0.0.1'', ''localhost:3002'', ''127.0.0.1:3002'', ''localhost:3001'', ''127.0.0.1:3001'']"

definition auth_getTrustedHosts :: "url_parser \<Rightarrow> process_env \<Rightarrow> string list \<Rightarrow> string list" where
  "auth_getTrustedHosts U pe allowed =
     List.map_filter (\<lambda>origin. case normalizeOrigin U (Some origin) of
         None \<Rightarrow> None
       | Some normalized \<Rightarrow> if normalized = [] then None else map_option toLowerCase (url_host U normalized)) allowed @
     filter (\<lambda>w. w \<noteq> []) (map (\<lambda>w. toLowerCase (trim w)) (split_on CHR '','' (or_opt (pe ''TRUSTED_HOSTS'') []))) @
     auth_local_hosts"

record auth_headers =
  ah_method :: string
  ah_protocol :: string
  ah_host :: "string option"
  ah_forwarded_host :: header
  ah_forwarded_proto :: header
  ah_origin :: header
  ah_referer :: header

text \<open>\<open>Array.isArray(h) ? h[0] : h\<close>, and the same with \<open>|| d\<close> on the string.\<close>

fun first_of :: "header \<Rightarrow> string option" where
  "first_of NoHeader = None"
| "first_of (One v) = Some v"
| "first_of (Many vs) = (case vs of [] \<Rightarrow> None | v # _ \<Rightarrow> Some v)"

fun first_or :: "header \<Rightarrow> string option \<Rightarrow> string option" where
  "first_or NoHeader d = d"
| "first_or (One v) d = (if v = [] then d else Some v)"
| "first_or (Many vs) d = (case vs of [] \<Rightarrow> None | v # _ \<Rightarrow> Some v)"

definition buildTrustedOrigins :: "url_parser \<Rightarrow> auth_headers \<Rightarrow> string list \<Rightarrow> string list" where
  "buildTrustedOrigins U h allowed =
     (let trusted = filter (\<lambda>w. w \<noteq> []) (List.map_filter (\<lambda>origin. normalizeOrigin U (Some origin)) allowed);
          proto = nullish (first_or (ah_forwarded_proto h) (Some (or_str (ah_protocol h) ''http''))) ''undefined'';
          host = first_or (ah_forwarded_host h) (ah_host h)
      in if truthy host then trusted @ [proto @ ''://'' @ the host] else trusted)"

section \<open>The checks\<close>

definition host_check :: "string list \<Rightarrow> auth_headers \<Rightarrow> gw_answer" where
  "host_check trusted h =
     (case parseHost (first_or (ah_forwarded_host h) (ah_host h)) of
        None \<Rightarrow> Next
      | Some host \<Rightarrow> if host \<in> set trusted then Next else Answer 400 ''Invalid host header'' [])"

definition unsafe_methods :: "string list" where
  "unsafe_methods = [''POST'', ''PUT'', ''PATCH'', ''DELETE'']"

definition has_session_cookie :: "request \<Rightarrow> exn + bool" where
  "has_session_cookie req =
     (case parseCookie req ''accessToken'' of
        Inl e \<Rightarrow> Inl e
      | Inr a \<Rightarrow> if truthy a then Inr True
                 else (case parseCookie req ''refreshToken'' of Inl e \<Rightarrow> Inl e | Inr r \<Rightarrow> Inr (truthy r)))"

definition request_origin :: "url_parser \<Rightarrow> auth_headers \<Rightarrow> string option" where
  "request_origin U h =
     (let a = normalizeOrigin U (first_of (ah_origin h)) in
      if truthy a then a else normalizeOrigin U (first_of (ah_referer h)))"

definition origin_check :: "url_parser \<Rightarrow> string list \<Rightarrow> auth_headers \<Rightarrow> request \<Rightarrow> exn + gw_answer" where
  "origin_check U allowed h req =
     (if toUpperCase (ah_method h) \<notin> set unsafe_methods then Inr Next
      else case has_session_cookie req of
          Inl e \<Rightarrow> Inl e
        | Inr False \<Rightarrow> Inr Next
        | Inr True \<Rightarrow>
            if \<not> truthy (request_origin U h) then Inr Next
            else if the (request_origin U h) \<in> set (buildTrustedOrigins U h allowed) then Inr Next
            else Inr (Answer 403 ''Request origin is not allowed'' []))"

definition auth_edge :: "url_parser \<Rightarrow> process_env \<Rightarrow> auth_headers \<Rightarrow> request \<Rightarrow> exn + gw_answer" where
  "auth_edge U pe h req =
     (let allowed = getAllowedOrigins pe in
      case host_check (auth_getTrustedHosts U pe allowed) h of
        Answer st msg hs \<Rightarrow> Inr (Answer st msg hs)
      | Next \<Rightarrow> origin_check U allowed h req)"

section \<open>Properties\<close>

text \<open>The origin that a request comes from is trusted: it is allowed by the configuration or the service's own.\<close>

definition trusted_origin :: "url_parser \<Rightarrow> process_env \<Rightarrow> auth_headers \<Rightarrow> string \<Rightarrow> bool" where
  "trusted_origin U pe h org \<longleftrightarrow>
     (\<exists>a \<in> set (getAllowedOrigins pe). url_origin U a = Some org) \<or>
     (\<exists>host. first_or (ah_forwarded_host h) (ah_host h) = Some host \<and>
        org = nullish (first_or (ah_forwarded_proto h) (Some (or_str (ah_protocol h) ''http''))) ''undefined'' @ ''://'' @ host)"

lemma getAllowedOrigins_nonempty: "w \<in> set (getAllowedOrigins pe) \<Longrightarrow> w \<noteq> []"
  by (auto simp: getAllowedOrigins_def)

lemma buildTrustedOrigins_trusted:
  "org \<in> set (buildTrustedOrigins U h (getAllowedOrigins pe)) \<Longrightarrow> trusted_origin U pe h org"
  by (auto simp: buildTrustedOrigins_def Let_def List.map_filter_def normalizeOrigin_def trusted_origin_def truthy_def
      split: if_splits option.splits)

text \<open>
  A request that changes state, carries the cookie of a session and names where it comes from gets to the routes only
  from a trusted origin.
\<close>
theorem foreign_origin_refused:
  assumes "toUpperCase (ah_method h) \<in> {''POST'', ''PUT'', ''PATCH'', ''DELETE''}" "has_session_cookie req = Inr True"
    "request_origin U h = Some org" "org \<noteq> []" "\<not> trusted_origin U pe h org"
  shows "\<exists>st msg. auth_edge U pe h req = Inr (Answer st msg []) \<and> st \<in> {400, 403}"
proof -
  have "org \<notin> set (buildTrustedOrigins U h (getAllowedOrigins pe))" using assms(5) buildTrustedOrigins_trusted by blast
  moreover have "toUpperCase (ah_method h) \<in> set unsafe_methods" using assms(1) by (auto simp: unsafe_methods_def)
  ultimately have "origin_check U (getAllowedOrigins pe) h req = Inr (Answer 403 ''Request origin is not allowed'' [])"
    using assms(2-4) by (simp add: origin_check_def)
  then show ?thesis
    by (auto simp: auth_edge_def host_check_def Let_def split: option.splits)
qed

text \<open>
  The check is skipped for a page that hides its origin: a browser then sends the origin \<open>null\<close>, which is no URL,
  and without a referrer the request of a foreign page goes on with the session's cookies.
\<close>
theorem hidden_origin_accepted:
  assumes "ah_origin h = One ''null''" "ah_referer h = NoHeader" "url_origin U ''null'' = None" "has_session_cookie req = Inr True"
    "host_check (auth_getTrustedHosts U pe (getAllowedOrigins pe)) h = Next"
  shows "auth_edge U pe h req = Inr Next"
  using assms by (simp add: auth_edge_def origin_check_def request_origin_def normalizeOrigin_def Let_def)

section \<open>Examples\<close>

definition sample_urls :: url_parser where
  "sample_urls = \<lparr>url_origin = (\<lambda>w. if w = ''null'' then None else Some w), url_host = (\<lambda>w. if w = ''https://cloud.tn'' then Some ''cloud.tn'' else None)\<rparr>"

definition sample_headers :: "header \<Rightarrow> auth_headers" where
  "sample_headers org = \<lparr>ah_method = ''post'', ah_protocol = ''http'', ah_host = Some ''cloud.tn'', ah_forwarded_host = NoHeader,
     ah_forwarded_proto = One ''https'', ah_origin = org, ah_referer = NoHeader\<rparr>"

theorem foreign_origin_refused_witness:
  "\<exists>st msg. auth_edge sample_urls [''CORS_ORIGIN'' \<mapsto> ''https://cloud.tn''] (sample_headers (One ''https://evil.tn'')) sample_request =
     Inr (Answer st msg [])"
proof -
  let ?pe = "[''CORS_ORIGIN'' \<mapsto> ''https://cloud.tn'']"
  have "getAllowedOrigins ?pe = [''https://cloud.tn'']" by code_simp
  then have "\<not> trusted_origin sample_urls ?pe (sample_headers (One ''https://evil.tn'')) ''https://evil.tn''"
    by (simp add: trusted_origin_def sample_urls_def sample_headers_def)
  moreover have "has_session_cookie sample_request = Inr True"
    "toUpperCase (ah_method (sample_headers (One ''https://evil.tn''))) = ''POST''" by code_simp+
  moreover have "request_origin sample_urls (sample_headers (One ''https://evil.tn'')) = Some ''https://evil.tn''"
    by (simp add: request_origin_def normalizeOrigin_def sample_urls_def sample_headers_def)
  ultimately show ?thesis
    using foreign_origin_refused [of "sample_headers (One ''https://evil.tn'')" sample_request sample_urls "''https://evil.tn''" ?pe]
    by auto
qed

theorem hidden_origin_accepted_witness:
  "auth_edge sample_urls [''CORS_ORIGIN'' \<mapsto> ''https://cloud.tn''] (sample_headers (One ''null'')) sample_request = Inr Next"
proof -
  let ?pe = "[''CORS_ORIGIN'' \<mapsto> ''https://cloud.tn'']"
  have "has_session_cookie sample_request = Inr True"
    "host_check (auth_getTrustedHosts sample_urls ?pe (getAllowedOrigins ?pe)) (sample_headers (One ''null'')) = Next" by code_simp+
  then show ?thesis
    using hidden_origin_accepted [of "sample_headers (One ''null'')" sample_urls sample_request ?pe]
    by (simp add: sample_headers_def sample_urls_def)
qed

end
