(* ===== verification/Vnc_Gateway.thy ===== *)
theory Vnc_Gateway
  imports Terminal_State
begin

text \<open>
  \<open>services/vm/src/vnc/vnc.gateway.ts\<close>: a browser's screen of a machine. A socket that connects is
  checked, then the gateway opens a link to port 5901 of the machine, by TCP or through an SSH tunnel
  over the bastion, and relays bytes both ways.

  The links are numbered in the order they are opened. What the libraries of the network do is the
  order of their events, any order: the histories of the gateway are a step relation. A message
  that is no binary and no string is \<open>None\<close>. The dash of two messages is written as a hyphen.
  Parameters: the verification of tokens and the host name of a URL.
\<close>

section \<open>State\<close>

record vnc_bastion =
  vb_host :: string
  vb_port :: "rat option"
  vb_username :: string
  vb_privateKey :: "string option"
  vb_password :: "string option"

datatype vnc_kind = VncDirect | VncTunnel vnc_bastion

text \<open>A link is being opened, relays for a session, or is ended.\<close>

datatype link_phase = Opening | Relaying | Ended

record vnc_link =
  lk_client :: string
  lk_vm :: id
  lk_host :: string
  lk_kind :: vnc_kind
  lk_phase :: link_phase
  lk_timer :: bool
  lk_written :: "string list"

datatype vnc_event = VncError string | VncReady | VncClose string | VncData string

record vnc_state = db +
  vnc_sessions :: "(string, nat) js_map"
  vnc_links :: "vnc_link list"
  vnc_sent :: "(string \<times> vnc_event) list"
  vnc_gone :: "string list"

record vnc_deps =
  vn_env :: process_env
  vn_verify :: "string \<Rightarrow> jwt_payload option"
  vn_hostname :: "string \<Rightarrow> string option"

section \<open>Sessions\<close>

definition vnc_emit :: "string \<Rightarrow> vnc_event \<Rightarrow> vnc_state \<Rightarrow> vnc_state" where
  "vnc_emit c ev s = s\<lparr>vnc_sent := vnc_sent s @ [(c, ev)]\<rparr>"

definition update_link :: "nat \<Rightarrow> (vnc_link \<Rightarrow> vnc_link) \<Rightarrow> vnc_state \<Rightarrow> vnc_state" where
  "update_link l f s = s\<lparr>vnc_links := (if l < length (vnc_links s) then (vnc_links s)[l := f (vnc_links s ! l)] else vnc_links s)\<rparr>"

definition end_link :: "nat \<Rightarrow> vnc_state \<Rightarrow> vnc_state" where
  "end_link l = update_link l (\<lambda>k. k\<lparr>lk_phase := Ended\<rparr>)"

definition clear_timer :: "nat \<Rightarrow> vnc_state \<Rightarrow> vnc_state" where
  "clear_timer l = update_link l (\<lambda>k. k\<lparr>lk_timer := False\<rparr>)"

definition vnc_cleanupSession :: "string \<Rightarrow> vnc_state \<Rightarrow> vnc_state" where
  "vnc_cleanupSession c s =
     (case map_get (vnc_sessions s) c of
        None \<Rightarrow> s
      | Some l \<Rightarrow> (end_link l s)\<lparr>vnc_sessions := map_delete c (vnc_sessions s)\<rparr>)"

text \<open>The client leaves, by itself or because the gateway drops it.\<close>

definition vnc_handleDisconnect :: "string \<Rightarrow> vnc_state \<Rightarrow> vnc_state" where
  "vnc_handleDisconnect c s = (vnc_cleanupSession c s)\<lparr>vnc_gone := c # vnc_gone s\<rparr>"

definition vnc_refuse :: "string \<Rightarrow> string \<Rightarrow> vnc_state \<Rightarrow> vnc_state" where
  "vnc_refuse c msg s = vnc_handleDisconnect c (vnc_emit c (VncError msg) s)"

definition register_session :: "nat \<Rightarrow> vnc_state \<Rightarrow> vnc_state" where
  "register_session l s =
     (let c = lk_client (vnc_links s ! l) in
      vnc_emit c VncReady ((update_link l (\<lambda>k. k\<lparr>lk_phase := Relaying\<rparr>) s)\<lparr>vnc_sessions := map_set c l (vnc_sessions s)\<rparr>))"

section \<open>Opening a link\<close>

definition vnc_bastionHost :: "vnc_deps \<Rightarrow> string" where
  "vnc_bastionHost D =
     trim (or_opt (vn_env D ''TERMINAL_SSH_BASTION_HOST'')
       (nullish (vn_hostname D (or_opt (vn_env D ''ONE_XMLRPC'') [])) []))"

definition vnc_bastion_of :: "vnc_deps \<Rightarrow> string \<Rightarrow> vnc_bastion option" where
  "vnc_bastion_of D bastionHost =
     (let pe = vn_env D;
          bastionPort = js_Number (or_opt (pe ''TERMINAL_SSH_BASTION_PORT'') ''22'');
          bastionUser = trim (or_opt (pe ''TERMINAL_SSH_BASTION_USERNAME'') (or_opt (pe ''ONE_USERNAME'') []));
          bastionPass = trim (or_opt (pe ''TERMINAL_SSH_BASTION_PASSWORD'') (or_opt (pe ''ONE_PASSWORD'') []));
          rawKey = unescape_newlines (or_opt (pe ''TERMINAL_SSH_BASTION_PRIVATE_KEY'') [])
      in if bastionUser = [] \<or> bastionPass = [] \<and> rawKey = [] then None
         else Some \<lparr>vb_host = bastionHost, vb_port = bastionPort, vb_username = bastionUser,
           vb_privateKey = (if rawKey \<noteq> [] then Some rawKey else None),
           vb_password = (if rawKey = [] then Some bastionPass else None)\<rparr>)"

definition open_link :: "string \<Rightarrow> vm_row \<Rightarrow> vnc_kind \<Rightarrow> vnc_state \<Rightarrow> vnc_state" where
  "open_link c vm kind s =
     s\<lparr>vnc_links := vnc_links s @ [\<lparr>lk_client = c, lk_vm = v_id vm, lk_host = the (v_sshHost vm), lk_kind = kind, lk_phase = Opening,
         lk_timer = (kind \<noteq> VncDirect), lk_written = []\<rparr>]\<rparr>"

definition connectDirect :: "string \<Rightarrow> vm_row \<Rightarrow> vnc_state \<Rightarrow> vnc_state" where
  "connectDirect c vm s = open_link c vm VncDirect s"

definition connectViaBastionTunnel :: "vnc_deps \<Rightarrow> string \<Rightarrow> vm_row \<Rightarrow> string \<Rightarrow> vnc_state \<Rightarrow> vnc_state" where
  "connectViaBastionTunnel D c vm bastionHost s =
     (case vnc_bastion_of D bastionHost of
        None \<Rightarrow> connectDirect c vm s
      | Some b \<Rightarrow> open_link c vm (VncTunnel b) s)"

definition initSession :: "vnc_deps \<Rightarrow> socket \<Rightarrow> vnc_state \<Rightarrow> exn + vnc_state" where
  "initSession D client s =
     (let c = so_id client in
      case socket_token client of
        Inl e \<Rightarrow> Inl e
      | Inr token \<Rightarrow> Inr (
          if \<not> truthy token then vnc_refuse c ''Authentication required'' s
          else case vn_verify D (the token) of
              None \<Rightarrow> vnc_refuse c ''Invalid or expired session - please refresh'' s
            | Some user \<Rightarrow>
                if \<not> truthy (so_query_vmId client) then vnc_refuse c ''vmId is required'' s
                else case find_vm (the (so_query_vmId client)) s of
                    None \<Rightarrow> vnc_refuse c ''VM not found'' s
                  | Some vm \<Rightarrow>
                      if jwt_role user \<noteq> ''ADMIN'' \<and> v_userId vm \<noteq> sub user then vnc_refuse c ''Access denied'' s
                      else if v_status vm \<noteq> RUNNING then vnc_refuse c (''VM is not running (status: '' @ status_name (v_status vm) @ '')'') s
                      else if \<not> truthy (v_sshHost vm) then vnc_refuse c ''VM has no IP address yet - try again in a few seconds'' s
                      else if vnc_bastionHost D \<noteq> [] then connectViaBastionTunnel D c vm (vnc_bastionHost D) s
                      else connectDirect c vm s))"

definition vnc_handleConnection :: "vnc_deps \<Rightarrow> socket \<Rightarrow> vnc_state \<Rightarrow> vnc_state" where
  "vnc_handleConnection D client s =
     (case initSession D client s of
        Inl _ \<Rightarrow> vnc_refuse (so_id client) ''Internal server error'' s
      | Inr t \<Rightarrow> t)"

section \<open>Relaying\<close>

definition vnc_handleData :: "string \<Rightarrow> string option \<Rightarrow> vnc_state \<Rightarrow> vnc_state" where
  "vnc_handleData c data s =
     (case map_get (vnc_sessions s) c of
        None \<Rightarrow> vnc_emit c (VncError ''No active VNC session'') s
      | Some l \<Rightarrow>
          (case data of
             None \<Rightarrow> vnc_handleDisconnect c (vnc_cleanupSession c (vnc_emit c (VncError ''Failed to forward VNC data'') s))
           | Some buf \<Rightarrow> update_link l (\<lambda>k. if lk_phase k = Ended then k else k\<lparr>lk_written := lk_written k @ [buf]\<rparr>) s))"

section \<open>Events of the network\<close>

definition tcp_connect :: "nat \<Rightarrow> vnc_state \<Rightarrow> vnc_state" where
  "tcp_connect l s = register_session l s"

definition tcp_error :: "nat \<Rightarrow> string \<Rightarrow> vnc_state \<Rightarrow> vnc_state" where
  "tcp_error l msg s = vnc_refuse (lk_client (vnc_links s ! l)) (''Cannot reach VNC on VM: '' @ msg) (end_link l s)"

text \<open>Both handlers of the event run when the link has relayed, the one of the connection and the one of the session.\<close>

definition close_once :: "string \<Rightarrow> vnc_state \<Rightarrow> vnc_state" where
  "close_once c s = vnc_cleanupSession c (vnc_emit c (VncClose ''VNC session ended'') s)"

definition tcp_close :: "nat \<Rightarrow> bool \<Rightarrow> vnc_state \<Rightarrow> vnc_state" where
  "tcp_close l relayed s =
     (let c = lk_client (vnc_links s ! l); t = close_once c (end_link l s) in if relayed then close_once c t else t)"

definition link_data :: "nat \<Rightarrow> string \<Rightarrow> vnc_state \<Rightarrow> vnc_state" where
  "link_data l data s = vnc_emit (lk_client (vnc_links s ! l)) (VncData data) s"

text \<open>The bastion is connected, and the forwarding is refused with a message or has given a stream.\<close>

definition ssh_forward :: "nat \<Rightarrow> string option \<Rightarrow> vnc_state \<Rightarrow> vnc_state" where
  "ssh_forward l err s =
     (case err of
        Some msg \<Rightarrow> vnc_refuse (lk_client (vnc_links s ! l)) (''VNC tunnel failed: '' @ msg) (end_link l (clear_timer l s))
      | None \<Rightarrow> register_session l (clear_timer l s))"

definition stream_close :: "nat \<Rightarrow> vnc_state \<Rightarrow> vnc_state" where
  "stream_close l s = close_once (lk_client (vnc_links s ! l)) s"

definition stream_error :: "nat \<Rightarrow> string \<Rightarrow> vnc_state \<Rightarrow> vnc_state" where
  "stream_error l msg s =
     (let c = lk_client (vnc_links s ! l) in vnc_cleanupSession c (vnc_emit c (VncError (''VNC stream error: '' @ msg)) s))"

definition ssh_error :: "nat \<Rightarrow> string \<Rightarrow> vnc_state \<Rightarrow> vnc_state" where
  "ssh_error l msg s = vnc_refuse (lk_client (vnc_links s ! l)) (''Bastion SSH failed: '' @ msg) (end_link l (clear_timer l s))"

definition ssh_close :: "nat \<Rightarrow> vnc_state \<Rightarrow> vnc_state" where
  "ssh_close l s = vnc_cleanupSession (lk_client (vnc_links s ! l)) (end_link l (clear_timer l s))"

definition tunnel_timeout :: "nat \<Rightarrow> vnc_state \<Rightarrow> vnc_state" where
  "tunnel_timeout l s =
     vnc_handleDisconnect (lk_client (vnc_links s ! l))
       (end_link l (clear_timer l (vnc_emit (lk_client (vnc_links s ! l)) (VncError ''VNC tunnel connection timed out'') s)))"

section \<open>Histories\<close>

text \<open>
  A socket connects once. An event comes for a link that is there: a connection while it is being opened, bytes
  while it relays, an end at any time.
\<close>

definition fresh_client :: "string \<Rightarrow> vnc_state \<Rightarrow> bool" where
  "fresh_client c s \<longleftrightarrow> c \<notin> lk_client ` set (vnc_links s) \<and> c \<notin> set (vnc_gone s)"

definition is_link :: "nat \<Rightarrow> vnc_state \<Rightarrow> bool" where
  "is_link l s \<longleftrightarrow> l < length (vnc_links s)"

inductive vnc_step :: "vnc_deps \<Rightarrow> vnc_state \<Rightarrow> vnc_state \<Rightarrow> bool" for D where
  connects: "fresh_client (so_id client) s \<Longrightarrow> vnc_step D s (vnc_handleConnection D client s)"
| leaves: "vnc_step D s (vnc_handleDisconnect c s)"
| sends: "vnc_step D s (vnc_handleData c data s)"
| tcp_up: "is_link l s \<Longrightarrow> lk_phase (vnc_links s ! l) = Opening \<Longrightarrow> vnc_step D s (tcp_connect l s)"
| tcp_fails: "is_link l s \<Longrightarrow> vnc_step D s (tcp_error l msg s)"
| tcp_ends: "is_link l s \<Longrightarrow> vnc_step D s (tcp_close l relayed s)"
| receives: "is_link l s \<Longrightarrow> lk_phase (vnc_links s ! l) = Relaying \<Longrightarrow> vnc_step D s (link_data l data' s)"
| forwards: "is_link l s \<Longrightarrow> lk_phase (vnc_links s ! l) = Opening \<Longrightarrow> vnc_step D s (ssh_forward l err s)"
| stream_ends: "is_link l s \<Longrightarrow> vnc_step D s (stream_close l s)"
| stream_fails: "is_link l s \<Longrightarrow> vnc_step D s (stream_error l msg s)"
| ssh_fails: "is_link l s \<Longrightarrow> vnc_step D s (ssh_error l msg s)"
| ssh_ends: "is_link l s \<Longrightarrow> vnc_step D s (ssh_close l s)"
| times_out: "is_link l s \<Longrightarrow> lk_timer (vnc_links s ! l) \<Longrightarrow> vnc_step D s (tunnel_timeout l s)"
| machines: "vnc_step D s (s\<lparr>virtualMachines := vms\<rparr>)"

definition vnc_start :: vnc_state where
  "vnc_start = db.extend empty_db \<lparr>vnc_sessions = [], vnc_links = [], vnc_sent = [], vnc_gone = []\<rparr>"

text \<open>A session of a client is a link of that client that relays, and a client has one link at most.\<close>

definition session_ok :: "vnc_state \<Rightarrow> string \<Rightarrow> nat \<Rightarrow> bool" where
  "session_ok s c l \<longleftrightarrow> is_link l s \<and> lk_client (vnc_links s ! l) = c \<and> lk_phase (vnc_links s ! l) = Relaying"

definition vnc_ok :: "vnc_state \<Rightarrow> bool" where
  "vnc_ok s \<longleftrightarrow> (\<forall>c l. map_get (vnc_sessions s) c = Some l \<longrightarrow> session_ok s c l) \<and> distinct (map lk_client (vnc_links s))"

subsection \<open>The operations on links\<close>

lemma vnc_emit_simps [simp]:
  "vnc_links (vnc_emit c ev s) = vnc_links s" "vnc_sessions (vnc_emit c ev s) = vnc_sessions s" "vnc_gone (vnc_emit c ev s) = vnc_gone s"
  by (simp_all add: vnc_emit_def)

lemma update_link_simps [simp]:
  "length (vnc_links (update_link l f s)) = length (vnc_links s)" "vnc_sessions (update_link l f s) = vnc_sessions s"
  "vnc_gone (update_link l f s) = vnc_gone s"
  by (simp_all add: update_link_def)

lemma update_link_nth:
  "k < length (vnc_links s) \<Longrightarrow> vnc_links (update_link l f s) ! k = (if k = l then f (vnc_links s ! k) else vnc_links s ! k)"
  by (simp add: update_link_def nth_list_update)

lemma update_link_clients: "(\<And>k. lk_client (f k) = lk_client k) \<Longrightarrow> map lk_client (vnc_links (update_link l f s)) = map lk_client (vnc_links s)"
  by (intro nth_equalityI) (simp_all add: update_link_nth)

lemma end_link_simps [simp]:
  "length (vnc_links (end_link l s)) = length (vnc_links s)" "vnc_sessions (end_link l s) = vnc_sessions s" "vnc_gone (end_link l s) = vnc_gone s"
  "map lk_client (vnc_links (end_link l s)) = map lk_client (vnc_links s)"
  "k < length (vnc_links s) \<Longrightarrow> lk_client (vnc_links (end_link l s) ! k) = lk_client (vnc_links s ! k)"
  "k < length (vnc_links s) \<Longrightarrow> k \<noteq> l \<Longrightarrow> vnc_links (end_link l s) ! k = vnc_links s ! k"
  "l < length (vnc_links s) \<Longrightarrow> lk_phase (vnc_links (end_link l s) ! l) = Ended"
  by (simp_all add: end_link_def update_link_clients update_link_nth)

lemma clear_timer_simps [simp]:
  "length (vnc_links (clear_timer l s)) = length (vnc_links s)" "vnc_sessions (clear_timer l s) = vnc_sessions s" "vnc_gone (clear_timer l s) = vnc_gone s"
  "map lk_client (vnc_links (clear_timer l s)) = map lk_client (vnc_links s)"
  "k < length (vnc_links s) \<Longrightarrow> lk_client (vnc_links (clear_timer l s) ! k) = lk_client (vnc_links s ! k)"
  "k < length (vnc_links s) \<Longrightarrow> lk_phase (vnc_links (clear_timer l s) ! k) = lk_phase (vnc_links s ! k)"
  by (simp_all add: clear_timer_def update_link_clients update_link_nth)

lemma cleanup_simps [simp]:
  "length (vnc_links (vnc_cleanupSession c s)) = length (vnc_links s)" "vnc_gone (vnc_cleanupSession c s) = vnc_gone s"
  "map lk_client (vnc_links (vnc_cleanupSession c s)) = map lk_client (vnc_links s)"
  "k < length (vnc_links s) \<Longrightarrow> lk_client (vnc_links (vnc_cleanupSession c s) ! k) = lk_client (vnc_links s ! k)"
  "map_get (vnc_sessions (vnc_cleanupSession c s)) c' = (if c' = c then None else map_get (vnc_sessions s) c')"
  by (simp_all add: vnc_cleanupSession_def map_get_delete split: option.split)

lemma disconnect_simps [simp]:
  "vnc_links (vnc_handleDisconnect c s) = vnc_links (vnc_cleanupSession c s)"
  "vnc_sessions (vnc_handleDisconnect c s) = vnc_sessions (vnc_cleanupSession c s)"
  "vnc_gone (vnc_handleDisconnect c s) = c # vnc_gone s"
  by (simp_all add: vnc_handleDisconnect_def)

text \<open>Ending the session of a client touches no link but that session's.\<close>

lemma cleanup_other:
  assumes "k < length (vnc_links s)" "map_get (vnc_sessions s) c \<noteq> Some k"
  shows "vnc_links (vnc_cleanupSession c s) ! k = vnc_links s ! k"
  using assms by (auto simp: vnc_cleanupSession_def split: option.split)

lemma vnc_ok_cleanup:
  assumes "\<And>c' l. map_get (vnc_sessions s) c' = Some l \<Longrightarrow> c' \<noteq> c \<Longrightarrow> session_ok s c' l"
    "\<And>l. map_get (vnc_sessions s) c = Some l \<Longrightarrow> is_link l s \<and> lk_client (vnc_links s ! l) = c"
    "distinct (map lk_client (vnc_links s))"
  shows "vnc_ok (vnc_cleanupSession c s)"
proof -
  have "session_ok (vnc_cleanupSession c s) c' l" if "map_get (vnc_sessions s) c' = Some l" "c' \<noteq> c" for c' l
  proof -
    have ok: "session_ok s c' l" using assms(1) that by blast
    then have "map_get (vnc_sessions s) c \<noteq> Some l" using assms(2) that(2) by (auto simp: session_ok_def)
    then show ?thesis using ok cleanup_other [of l s c] by (simp add: session_ok_def is_link_def)
  qed
  then show ?thesis using assms(3) by (auto simp: vnc_ok_def split: if_splits)
qed

subsection \<open>Every event keeps the invariant\<close>

text \<open>What an event has done before it ends the session of client \<open>c\<close>: it changed phases of links of \<open>c\<close> at most.\<close>

definition ends_for :: "string \<Rightarrow> vnc_state \<Rightarrow> vnc_state \<Rightarrow> bool" where
  "ends_for c s s' \<longleftrightarrow> vnc_sessions s' = vnc_sessions s \<and> map lk_client (vnc_links s') = map lk_client (vnc_links s) \<and>
     (\<forall>k < length (vnc_links s). lk_client (vnc_links s ! k) \<noteq> c \<longrightarrow> lk_phase (vnc_links s' ! k) = lk_phase (vnc_links s ! k))"

lemma ends_for_cleanup:
  assumes "vnc_ok s" "ends_for c s s'"
  shows "vnc_ok (vnc_cleanupSession c s')"
proof -
  have e: "vnc_sessions s' = vnc_sessions s" "map lk_client (vnc_links s') = map lk_client (vnc_links s)"
    using assms(2) by (simp_all add: ends_for_def)
  have len: "length (vnc_links s') = length (vnc_links s)" using arg_cong [OF e(2), of length] by simp
  have cl: "lk_client (vnc_links s' ! k) = lk_client (vnc_links s ! k)" if "k < length (vnc_links s)" for k
    using arg_cong [OF e(2), of "\<lambda>xs. xs ! k"] that len by simp
  have ok: "session_ok s c' l" if "map_get (vnc_sessions s) c' = Some l" for c' l using assms(1) that by (simp add: vnc_ok_def)
  show ?thesis
  proof (rule vnc_ok_cleanup)
    show "session_ok s' c' l" if "map_get (vnc_sessions s') c' = Some l" "c' \<noteq> c" for c' l
      using ok [of c' l] that assms(2) e(1) cl len by (auto simp: session_ok_def is_link_def ends_for_def)
    show "is_link l s' \<and> lk_client (vnc_links s' ! l) = c" if "map_get (vnc_sessions s') c = Some l" for l
      using ok [of c l] that e(1) cl len by (auto simp: session_ok_def is_link_def)
    show "distinct (map lk_client (vnc_links s'))" using assms(1) e(2) by (simp add: vnc_ok_def)
  qed
qed

lemma ends_for_steps:
  assumes "is_link l s" "c = lk_client (vnc_links s ! l)"
  shows "ends_for c s (end_link l s)" "ends_for c s (end_link l (clear_timer l s))"
proof -
  have "lk_phase (vnc_links (end_link l s) ! k) = lk_phase (vnc_links s ! k)"
    "lk_phase (vnc_links (end_link l (clear_timer l s)) ! k) = lk_phase (vnc_links s ! k)"
    if "k < length (vnc_links s)" "lk_client (vnc_links s ! k) \<noteq> c" for k
  proof -
    have "k \<noteq> l" using assms that by auto
    then show "lk_phase (vnc_links (end_link l s) ! k) = lk_phase (vnc_links s ! k)"
      "lk_phase (vnc_links (end_link l (clear_timer l s)) ! k) = lk_phase (vnc_links s ! k)"
      using that(1) by simp_all
  qed
  then show "ends_for c s (end_link l s)" "ends_for c s (end_link l (clear_timer l s))"
    by (simp_all add: ends_for_def)
qed

lemma ends_for_emit [simp]: "ends_for c s (vnc_emit c' ev s') \<longleftrightarrow> ends_for c s s'"
  by (simp add: ends_for_def)

lemma emit_commute [simp]:
  "end_link l (vnc_emit c ev s) = vnc_emit c ev (end_link l s)" "clear_timer l (vnc_emit c ev s) = vnc_emit c ev (clear_timer l s)"
  by (simp_all add: end_link_def clear_timer_def update_link_def vnc_emit_def)

lemma ends_for_refl [simp]: "ends_for c s s"
  by (simp add: ends_for_def)

lemma ends_for_cleaned: "vnc_ok s \<Longrightarrow> ends_for c s s' \<Longrightarrow> vnc_ok (vnc_cleanupSession c (vnc_emit c' ev (vnc_cleanupSession c s')))"
  using ends_for_cleanup ends_for_emit ends_for_refl by blast

lemma vnc_ok_disconnect [simp]: "vnc_ok (vnc_handleDisconnect c s) \<longleftrightarrow> vnc_ok (vnc_cleanupSession c s)"
  by (simp add: vnc_ok_def session_ok_def is_link_def)

lemma vnc_ok_refuse: "vnc_ok s \<Longrightarrow> ends_for c s s' \<Longrightarrow> vnc_ok (vnc_refuse c msg s')"
  by (simp add: vnc_refuse_def ends_for_cleanup)

lemma vnc_ok_emit [simp]: "vnc_ok (vnc_emit c ev s) \<longleftrightarrow> vnc_ok s"
  by (simp add: vnc_ok_def session_ok_def is_link_def)

lemma vnc_ok_register:
  assumes "vnc_ok s" "is_link l s"
  shows "vnc_ok (register_session l s)" "vnc_ok (register_session l (clear_timer l s))"
proof -
  have *: "vnc_ok (register_session l s')" if "vnc_ok s'" "is_link l s'" for s'
  proof -
    let ?c = "lk_client (vnc_links s' ! l)" and ?t = "register_session l s'"
    have "session_ok ?t c' k" if "map_get (vnc_sessions ?t) c' = Some k" for c' k
    proof (cases "c' = ?c")
      case True
      then show ?thesis
        using that \<open>is_link l s'\<close> by (simp add: register_session_def Let_def map_get_set session_ok_def is_link_def update_link_nth)
    next
      case False
      then have "session_ok s' c' k" using that \<open>vnc_ok s'\<close> by (simp add: register_session_def Let_def map_get_set vnc_ok_def)
      moreover have "k \<noteq> l" using calculation False by (auto simp: session_ok_def)
      ultimately show ?thesis by (simp add: register_session_def Let_def session_ok_def is_link_def update_link_nth)
    qed
    then show ?thesis using \<open>vnc_ok s'\<close> by (simp add: vnc_ok_def register_session_def Let_def update_link_clients)
  qed
  show "vnc_ok (register_session l s)" using * assms by blast
  have "vnc_ok (clear_timer l s)" using assms by (simp add: vnc_ok_def session_ok_def is_link_def)
  then show "vnc_ok (register_session l (clear_timer l s))" using * assms(2) by (simp add: is_link_def)
qed

lemma vnc_ok_cleanup_self: "vnc_ok s \<Longrightarrow> vnc_ok (vnc_cleanupSession c s)"
  using ends_for_cleanup ends_for_refl by blast

lemma vnc_ok_data:
  assumes "vnc_ok s"
  shows "vnc_ok (vnc_handleData c data s)"
proof -
  have "vnc_ok (update_link l (\<lambda>k. if lk_phase k = Ended then k else k\<lparr>lk_written := lk_written k @ [buf]\<rparr>) s)" for l buf
    using assms by (auto simp: vnc_ok_def session_ok_def is_link_def update_link_nth update_link_clients)
  moreover have "vnc_ok (vnc_cleanupSession c (vnc_emit c ev s))" for ev using assms vnc_ok_cleanup_self by simp
  ultimately show ?thesis
    using assms vnc_ok_cleanup_self by (simp add: vnc_handleData_def split: option.split)
qed

lemma vnc_ok_open:
  assumes "vnc_ok s" "fresh_client c s"
  shows "vnc_ok (open_link c vm kind s)"
proof -
  have "session_ok (open_link c vm kind s) c' l" if "session_ok s c' l" for c' l
    using that by (simp add: open_link_def session_ok_def is_link_def nth_append)
  then show ?thesis using assms by (auto simp: vnc_ok_def open_link_def fresh_client_def)
qed

lemma vnc_ok_connect:
  assumes "vnc_ok s" "fresh_client (so_id client) s"
  shows "vnc_ok (vnc_handleConnection D client s)"
proof -
  have "vnc_ok (vnc_refuse (so_id client) msg s)" for msg using vnc_ok_refuse [OF assms(1)] by simp
  moreover have "vnc_ok (connectViaBastionTunnel D (so_id client) vm h s)" "vnc_ok (connectDirect (so_id client) vm s)" for vm h
    using vnc_ok_open assms by (simp_all add: connectViaBastionTunnel_def connectDirect_def split: option.split)
  ultimately show ?thesis
    by (simp add: vnc_handleConnection_def initSession_def Let_def split: sum.split option.split)
qed

lemma vnc_step_ok: "vnc_step D s t \<Longrightarrow> vnc_ok s \<Longrightarrow> vnc_ok t"
proof (induction rule: vnc_step.induct)
  case (machines s vms)
  then show ?case by (simp add: vnc_ok_def session_ok_def is_link_def)
qed (simp_all add: vnc_ok_connect vnc_ok_data vnc_ok_cleanup_self vnc_ok_register tcp_connect_def tcp_error_def tcp_close_def close_once_def link_data_def ssh_forward_def
      stream_close_def stream_error_def ssh_error_def ssh_close_def tunnel_timeout_def Let_def vnc_ok_refuse ends_for_steps ends_for_cleanup
      ends_for_cleaned split: option.split)

lemma vnc_reachable_ok: "(vnc_step D)\<^sup>*\<^sup>* vnc_start s \<Longrightarrow> vnc_ok s"
proof (induction rule: rtranclp_induct)
  case base
  show ?case by (simp add: vnc_ok_def vnc_start_def db.extend_def)
qed (rule vnc_step_ok)

section \<open>Properties\<close>

text \<open>The ways a connection can go: the socket is refused, or it may see the machine and a link is opened.\<close>

lemma connection_cases:
  obtains (refused) msg where "vnc_handleConnection D client s = vnc_refuse (so_id client) msg s"
  | (accepted) token user vm kind where "socket_token client = Inr (Some token)" "vn_verify D token = Some user"
    "so_query_vmId client = Some (v_id vm)" "find_vm (v_id vm) s = Some vm" "jwt_role user = ''ADMIN'' \<or> v_userId vm = sub user"
    "v_status vm = RUNNING" "truthy (v_sshHost vm)" "vnc_handleConnection D client s = open_link (so_id client) vm kind s"
proof -
  note defs = vnc_handleConnection_def initSession_def Let_def
  consider (token) token where "socket_token client = Inr (Some token)" "token \<noteq> []" | (none) "\<And>x. socket_token client = Inr x \<Longrightarrow> \<not> truthy x"
    by (cases "\<exists>x. socket_token client = Inr x \<and> truthy x") (auto simp: truthy_def split: option.splits)
  then show thesis
  proof cases
    case none
    then show thesis by (cases "socket_token client") (auto simp: defs intro: refused)
  next
    case (token token)
    show thesis
    proof (cases "vn_verify D token")
      case None
      then show thesis using token by (intro refused) (simp add: defs)
    next
      case (Some user)
      note v = Some
      show thesis
      proof (cases "truthy (so_query_vmId client) \<and> find_vm (the (so_query_vmId client)) s \<noteq> None")
        case False
        then show thesis using token v by (cases "truthy (so_query_vmId client)") (auto simp: defs intro: refused)
      next
        case True
        then obtain vm where f: "find_vm (the (so_query_vmId client)) s = Some vm" by blast
        have q: "so_query_vmId client = Some (v_id vm)" using True find_vm_Some [OF f] by (auto simp: truthy_def split: option.splits)
        show thesis
        proof (cases "(jwt_role user = ''ADMIN'' \<or> v_userId vm = sub user) \<and> v_status vm = RUNNING \<and> truthy (v_sshHost vm)")
          case False
          then have "\<exists>msg. vnc_handleConnection D client s = vnc_refuse (so_id client) msg s" using token v True f by (auto simp: defs)
          then show thesis using refused by blast
        next
          case m: True
          have "\<exists>kind. vnc_handleConnection D client s = open_link (so_id client) vm kind s"
            using token v True f m by (auto simp: defs connectViaBastionTunnel_def connectDirect_def split: option.split)
          then show thesis using token v q f m accepted by auto
        qed
      qed
    qed
  qed
qed

text \<open>
  C37: a link to a machine is opened only when a socket connects whose token is valid and names the owner of the
  machine or an administrator, while that machine runs; it leads to that machine's address and belongs to that
  socket. No other event opens one.
\<close>
theorem vnc_links_authorised:
  assumes "vnc_step D s t" "length (vnc_links t) \<noteq> length (vnc_links s)"
  shows "\<exists>client token user vm k. t = vnc_handleConnection D client s \<and> socket_token client = Inr (Some token) \<and>
    vn_verify D token = Some user \<and> so_query_vmId client = Some (v_id vm) \<and> find_vm (v_id vm) s = Some vm \<and>
    (jwt_role user = ''ADMIN'' \<or> v_userId vm = sub user) \<and> v_status vm = RUNNING \<and>
    vnc_links t = vnc_links s @ [k] \<and> lk_client k = so_id client \<and> Some (lk_host k) = v_sshHost vm \<and> lk_phase k = Opening"
  using assms
proof (cases rule: vnc_step.cases)
  case (connects client)
  show ?thesis
  proof (cases rule: connection_cases [of D client s])
    case (refused msg)
    then show ?thesis using connects(1) assms(2) by (simp add: vnc_refuse_def)
  next
    case (accepted token user vm kind)
    then show ?thesis
      using connects(1) by (intro exI [of _ client] exI [of _ token] exI [of _ user] exI [of _ vm])
        (auto simp: open_link_def truthy_def split: option.splits)
  qed
qed (simp_all add: vnc_handleData_def tcp_connect_def register_session_def tcp_error_def vnc_refuse_def tcp_close_def close_once_def link_data_def
    ssh_forward_def stream_close_def stream_error_def ssh_error_def ssh_close_def tunnel_timeout_def Let_def split: option.splits if_splits)

text \<open>
  C38: the relays of different browsers do not mix: in every history, a session of a socket is a link of that socket that
  relays, no socket has two links, and what a socket sends, of whatever kind, leaves the links of the others as they are.
\<close>
theorem vnc_relays_isolated:
  assumes "(vnc_step D)\<^sup>*\<^sup>* vnc_start s"
  shows "(\<forall>c l. map_get (vnc_sessions s) c = Some l \<longrightarrow>
      l < length (vnc_links s) \<and> lk_client (vnc_links s ! l) = c \<and> lk_phase (vnc_links s ! l) = Relaying) \<and>
    distinct (map lk_client (vnc_links s)) \<and>
    (\<forall>c data l. l < length (vnc_links s) \<longrightarrow> lk_client (vnc_links s ! l) \<noteq> c \<longrightarrow>
      vnc_links (vnc_handleData c data s) ! l = vnc_links s ! l)"
proof -
  have ok: "vnc_ok s" using vnc_reachable_ok [OF assms] .
  have "vnc_links (vnc_handleData c data s) ! l = vnc_links s ! l" if l: "l < length (vnc_links s)" "lk_client (vnc_links s ! l) \<noteq> c" for c data l
  proof -
    have no: "map_get (vnc_sessions s) c \<noteq> Some l" using ok l(2) by (auto simp: vnc_ok_def session_ok_def)
    show ?thesis
    proof (cases data)
      case None
      have "vnc_links (vnc_cleanupSession c (vnc_cleanupSession c (vnc_emit c ev s))) ! l = vnc_links s ! l" for ev
        using l no by (simp add: cleanup_other)
      then show ?thesis using None by (simp add: vnc_handleData_def split: option.split)
    next
      case (Some buf)
      then show ?thesis using l no by (auto simp: vnc_handleData_def update_link_nth split: option.split)
    qed
  qed
  then show ?thesis using ok by (auto simp: vnc_ok_def session_ok_def is_link_def)
qed

text \<open>
  A socket that leaves while its link is being opened leaves the link behind: when the machine then answers, the
  session is registered for a socket that is gone, and the link relays.
\<close>
theorem late_link_kept:
  assumes "vnc_ok s" "l < length (vnc_links s)" "lk_phase (vnc_links s ! l) = Opening" "lk_client (vnc_links s ! l) = c"
  shows "map_get (vnc_sessions (tcp_connect l (vnc_handleDisconnect c s))) c = Some l \<and>
    lk_phase (vnc_links (tcp_connect l (vnc_handleDisconnect c s)) ! l) = Relaying \<and>
    c \<in> set (vnc_gone (tcp_connect l (vnc_handleDisconnect c s)))"
  using assms by (simp add: tcp_connect_def register_session_def Let_def map_get_set update_link_nth)

text \<open>
  The token is not bound to the client that it was issued for: the outcome of a connection does not depend on
  the address or the user agent of the socket.
\<close>
theorem vnc_ignores_fingerprint:
  "vnc_handleConnection D (client\<lparr>so_forwarded_for := a, so_real_ip := b, so_user_agent := u, so_remoteAddress := r, so_address := x\<rparr>) s =
     vnc_handleConnection D client s"
proof -
  let ?c = "client\<lparr>so_forwarded_for := a, so_real_ip := b, so_user_agent := u, so_remoteAddress := r, so_address := x\<rparr>"
  have "socket_token ?c = socket_token client" "so_id ?c = so_id client" "so_query_vmId ?c = so_query_vmId client"
    by (simp_all add: socket_token_def Let_def)
  then show ?thesis unfolding vnc_handleConnection_def initSession_def by presburger
qed

section \<open>Examples\<close>

definition sample_screen :: vm_row where
  "sample_screen = \<lparr>v_id = ''m1'', v_name = ''m'', v_oneVmId = None, v_status = RUNNING, v_cpu = 1, v_ramMb = 512, v_diskGb = 5,
     v_ipAddress = None, v_osTemplate = ''ubuntu'', v_userId = ''alice'', v_planId = None, v_sshHost = Some ''10.1.0.5'', v_sshPort = None,
     v_sshUsername = None, v_sshPrivateKeyEncrypted = None, v_stoppedAt = None, v_createdAt = 0\<rparr>"

definition sample_vnc :: vnc_deps where
  "sample_vnc = \<lparr>vn_env = (\<lambda>_. None), vn_verify = (\<lambda>_. Some (sample_payload None)), vn_hostname = (\<lambda>_. None)\<rparr>"

definition sample_viewer :: socket where
  "sample_viewer = (socket_of sample_request ''w1'')\<lparr>so_query_vmId := Some ''m1''\<rparr>"

definition sample_vnc_state :: vnc_state where
  "sample_vnc_state = vnc_start\<lparr>virtualMachines := [sample_screen]\<rparr>"

lemma sample_screen_simps [simp]:
  "v_id sample_screen = ''m1''" "v_status sample_screen = RUNNING" "v_userId sample_screen = ''alice''" "v_sshHost sample_screen = Some ''10.1.0.5''"
  by (simp_all add: sample_screen_def)

lemma sample_vnc_simps [simp]:
  "vn_verify sample_vnc x = Some (sample_payload None)" "vnc_bastionHost sample_vnc = []" "so_id sample_viewer = ''w1''"
  "so_query_vmId sample_viewer = Some ''m1''" "sub (sample_payload f) = ''alice''"
  by (simp_all add: sample_vnc_def vnc_bastionHost_def trim_def sample_viewer_def socket_of_def sample_payload_def)

lemma sample_vnc_state_simps [simp]:
  "vnc_links sample_vnc_state = []" "vnc_sessions sample_vnc_state = []" "vnc_gone sample_vnc_state = []"
  "find_vm ''m1'' sample_vnc_state = Some sample_screen"
  by (simp_all add: sample_vnc_state_def vnc_start_def db.extend_def find_vm_def)

lemma sample_viewer_token: "socket_token sample_viewer = Inr (Some ''tok'')"
  by code_simp

lemma sample_vnc_opens:
  "vnc_handleConnection sample_vnc sample_viewer sample_vnc_state = open_link ''w1'' sample_screen VncDirect sample_vnc_state"
  by (simp add: vnc_handleConnection_def initSession_def sample_viewer_token connectDirect_def)

lemma sample_vnc_step: "vnc_step sample_vnc sample_vnc_state (open_link ''w1'' sample_screen VncDirect sample_vnc_state)"
  using vnc_step.connects [of sample_viewer sample_vnc_state sample_vnc] by (simp add: sample_vnc_opens fresh_client_def)

theorem vnc_links_authorised_witness:
  "\<exists>client token user. open_link ''w1'' sample_screen VncDirect sample_vnc_state = vnc_handleConnection sample_vnc client sample_vnc_state \<and>
     socket_token client = Inr (Some token) \<and> vn_verify sample_vnc token = Some user \<and> sub user = v_userId sample_screen"
proof -
  have "length (vnc_links (open_link ''w1'' sample_screen VncDirect sample_vnc_state)) \<noteq> length (vnc_links sample_vnc_state)"
    by (simp add: open_link_def)
  from vnc_links_authorised [OF sample_vnc_step this] show ?thesis by auto
qed

theorem vnc_relays_isolated_witness:
  "\<exists>s. (vnc_step sample_vnc)\<^sup>*\<^sup>* vnc_start s \<and> length (vnc_links s) = 1 \<and> vnc_links (vnc_handleData ''w2'' (Some ''x'') s) ! 0 = vnc_links s ! 0"
proof -
  have "vnc_step sample_vnc vnc_start sample_vnc_state" unfolding sample_vnc_state_def by (rule vnc_step.machines)
  then have r: "(vnc_step sample_vnc)\<^sup>*\<^sup>* vnc_start (open_link ''w1'' sample_screen VncDirect sample_vnc_state)"
    using sample_vnc_step by (meson rtranclp.rtrancl_into_rtrancl rtranclp.rtrancl_refl)
  show ?thesis
    by (rule exI [of _ "open_link ''w1'' sample_screen VncDirect sample_vnc_state"])
      (use r vnc_relays_isolated [OF r] in \<open>simp add: open_link_def\<close>)
qed

theorem late_link_kept_witness:
  "''w1'' \<in> set (vnc_gone (tcp_connect 0 (vnc_handleDisconnect ''w1'' (open_link ''w1'' sample_screen VncDirect sample_vnc_state)))) \<and>
   map_get (vnc_sessions (tcp_connect 0 (vnc_handleDisconnect ''w1'' (open_link ''w1'' sample_screen VncDirect sample_vnc_state)))) ''w1'' = Some 0"
proof -
  have "vnc_ok (open_link ''w1'' sample_screen VncDirect sample_vnc_state)"
    by (simp add: vnc_ok_def open_link_def)
  from late_link_kept [OF this, of 0 "''w1''"] show ?thesis by (simp add: open_link_def)
qed

end
