(* ===== verification/Plan_Service.thy ===== *)
theory Plan_Service
  imports Body_Checks Js_Map "HOL-Library.Multiset"
begin

text \<open>
  \<open>services/vm/src/plan\<close>: the list of plans that the vm service keeps in memory, from the environment
  at start and changed by administrators. The parsed catalogue is a parameter: the entries of the object
  in their order, \<open>None\<close> for a value that is null, and nothing where the text is no JSON. A member of
  the body of an update is absent or of the type of the record's member; the body is not validated, as
  the type \<open>Partial<CreatePlanDto>\<close> leaves no class behind to validate with, and may have members that
  the type does not name.
\<close>

section \<open>Plans\<close>

record plan_record =
  pl_id :: string
  pl_name :: string
  pl_maxVms :: rat
  pl_cpu :: rat
  pl_ramMb :: rat
  pl_diskGb :: rat
  pl_priceMonthly :: rat
  pl_isActive :: bool

record quota_cfg =
  qc_maxVms :: "rat option"
  qc_maxCpu :: "rat option"
  qc_maxRamMb :: "rat option"
  qc_maxDiskGb :: "rat option"

record plan_cfg =
  pc_amountDt :: "rat option"
  pc_quota :: "quota_cfg option"

definition capitalized :: "string \<Rightarrow> string" where
  "capitalized w = toUpperCase (take 1 w) @ drop 1 w"

definition plan_of_cfg :: "string \<Rightarrow> plan_cfg \<Rightarrow> plan_record" where
  "plan_of_cfg i cfg =
     (let q = (\<lambda>f d. nullish (Option.bind (pc_quota cfg) f) d) in
      \<lparr>pl_id = i, pl_name = capitalized i @ '' Plan'', pl_maxVms = q qc_maxVms 1, pl_cpu = q qc_maxCpu 1, pl_ramMb = q qc_maxRamMb 512,
       pl_diskGb = q qc_maxDiskGb 5, pl_priceMonthly = nullish (pc_amountDt cfg) 0, pl_isActive = True\<rparr>)"

text \<open>An empty name or a value that is null throws, and then the whole catalogue is empty.\<close>

definition loadInitialPlans :: "(string \<Rightarrow> (string \<times> plan_cfg option) list option) \<Rightarrow> process_env \<Rightarrow> plan_record list" where
  "loadInitialPlans parse pe =
     (if \<not> truthy (pe ''PLAN_CATALOG_JSON'') then []
      else case parse (the (pe ''PLAN_CATALOG_JSON'')) of
          None \<Rightarrow> []
        | Some entries \<Rightarrow>
            if \<exists>(i, cfg) \<in> set entries. i = [] \<or> cfg = None then []
            else sort_key pl_priceMonthly (map (\<lambda>(i, cfg). plan_of_cfg i (the cfg)) entries))"

type_synonym plan_store = "(string, plan_record) js_map"

definition initial_plans :: "(string \<Rightarrow> (string \<times> plan_cfg option) list option) \<Rightarrow> process_env \<Rightarrow> plan_store" where
  "initial_plans parse pe = foldl (\<lambda>m p. map_set (pl_id p) p m) [] (loadInitialPlans parse pe)"

section \<open>Operations\<close>

definition plan_findAll :: "(plan_store, plan_record list) io" where
  "plan_findAll = asks (\<lambda>m. sort_key pl_priceMonthly (filter pl_isActive (map snd m)))"

definition plan_findOne :: "string \<Rightarrow> (plan_store, plan_record) io" where
  "plan_findOne i = bnd (asks (\<lambda>m. map_get m i)) (\<lambda>r. require (NotFound ''Plan not found'') r)"

record create_plan_dto =
  cd_name :: string
  cd_maxVms :: rat
  cd_cpu :: rat
  cd_ramMb :: rat
  cd_diskGb :: rat
  cd_priceMonthly :: rat

definition plan_name_char :: "char \<Rightarrow> bool" where
  "plan_name_char c \<longleftrightarrow> is_alpha c \<or> is_digit c \<or> c = CHR ''-'' \<or> c = CHR '' ''"

definition create_plan_ok :: "create_plan_dto \<Rightarrow> bool" where
  "create_plan_ok d \<longleftrightarrow> 1 \<le> length (cd_name d) \<and> length (cd_name d) \<le> 64 \<and> list_all plan_name_char (cd_name d) \<and>
     cd_maxVms d \<in> \<int> \<and> 1 \<le> cd_maxVms d \<and> cd_cpu d \<in> \<int> \<and> 1 \<le> cd_cpu d \<and> cd_ramMb d \<in> \<int> \<and> 512 \<le> cd_ramMb d \<and>
     cd_diskGb d \<in> \<int> \<and> 5 \<le> cd_diskGb d \<and> 0 \<le> cd_priceMonthly d"

definition plan_create :: "string \<Rightarrow> create_plan_dto \<Rightarrow> (plan_store, plan_record) io" where
  "plan_create uuid dto =
     (let plan = \<lparr>pl_id = uuid, pl_name = cd_name dto, pl_maxVms = cd_maxVms dto, pl_cpu = cd_cpu dto, pl_ramMb = cd_ramMb dto,
            pl_diskGb = cd_diskGb dto, pl_priceMonthly = cd_priceMonthly dto, pl_isActive = True\<rparr>
      in bnd (modify (map_set uuid plan)) (\<lambda>_. ret plan))"

record plan_patch =
  pp_id :: "string option"
  pp_name :: "string option"
  pp_maxVms :: "rat option"
  pp_cpu :: "rat option"
  pp_ramMb :: "rat option"
  pp_diskGb :: "rat option"
  pp_priceMonthly :: "rat option"
  pp_isActive :: "bool option"

text \<open>\<open>{ ...plan, ...dto }\<close>.\<close>

definition spread :: "plan_record \<Rightarrow> plan_patch \<Rightarrow> plan_record" where
  "spread p d =
     \<lparr>pl_id = nullish (pp_id d) (pl_id p), pl_name = nullish (pp_name d) (pl_name p), pl_maxVms = nullish (pp_maxVms d) (pl_maxVms p),
      pl_cpu = nullish (pp_cpu d) (pl_cpu p), pl_ramMb = nullish (pp_ramMb d) (pl_ramMb p), pl_diskGb = nullish (pp_diskGb d) (pl_diskGb p),
      pl_priceMonthly = nullish (pp_priceMonthly d) (pl_priceMonthly p), pl_isActive = nullish (pp_isActive d) (pl_isActive p)\<rparr>"

definition plan_update :: "string \<Rightarrow> plan_patch \<Rightarrow> (plan_store, plan_record) io" where
  "plan_update i dto =
     bnd (plan_findOne i) (\<lambda>plan. bnd (modify (map_set i (spread plan dto))) (\<lambda>_. ret (spread plan dto)))"

definition plan_deactivate :: "string \<Rightarrow> (plan_store, plan_record) io" where
  "plan_deactivate i =
     bnd (plan_findOne i) (\<lambda>plan.
     let updated = plan\<lparr>pl_isActive := False\<rparr> in bnd (modify (map_set i updated)) (\<lambda>_. ret updated))"

section \<open>The endpoints\<close>

text \<open>The guards in their order: a valid token, then the role; the body is checked after them.\<close>

datatype plan_call = ListPlans | CreatePlan string create_plan_dto | UpdatePlan string plan_patch | DeactivatePlan string

definition plan_handle :: "exn + auth_user \<Rightarrow> plan_call \<Rightarrow> (plan_store, plan_record list) io" where
  "plan_handle guard c =
     (case c of
        ListPlans \<Rightarrow> plan_findAll
      | CreatePlan uuid dto \<Rightarrow>
          with_admin guard (\<lambda>_. bnd (valid_body (create_plan_ok dto)) (\<lambda>_.
            bnd (plan_create uuid dto) (\<lambda>p. ret [p])))
      | UpdatePlan i dto \<Rightarrow> with_admin guard (\<lambda>_. bnd (plan_update i dto) (\<lambda>p. ret [p]))
      | DeactivatePlan i \<Rightarrow> with_admin guard (\<lambda>_. bnd (plan_deactivate i) (\<lambda>p. ret [p])))"

section \<open>Properties\<close>

lemma plan_findOne_eq:
  "plan_findOne i m = (case map_get m i of None \<Rightarrow> (Inl (NotFound ''Plan not found''), m) | Some p \<Rightarrow> (Inr p, m))"
  by (simp add: plan_findOne_def bnd_eq require_eq split: option.split)

lemmas plan_op_eqs = plan_update_def plan_deactivate_def plan_create_def plan_findAll_def plan_findOne_eq bnd_eq throw_if_eq Let_def

text \<open>
  The list is what buyers see: the active plans, each once, from the cheapest to the dearest. Only an
  administrator's request changes the plans.
\<close>
theorem plan_changes_need_admin:
  assumes "plan_handle guard c m = (r, m')"
  shows "(m' \<noteq> m \<longrightarrow> (\<exists>u. guard = Inr u \<and> au_role u = ''ADMIN'')) \<and>
    (\<exists>ps. plan_findAll m' = (Inr ps, m') \<and> sorted (map pl_priceMonthly ps) \<and> mset ps = mset (filter pl_isActive (map snd m')))"
proof -
  have "m' = m" if "\<not> (\<exists>u. guard = Inr u \<and> au_role u = ''ADMIN'')"
    using assms that by (auto simp: plan_handle_def with_admin_eq plan_findAll_def split: plan_call.splits sum.splits if_splits)
  then show ?thesis by (auto simp: plan_findAll_def)
qed

text \<open>What a request may do to the plan stored under a name: nothing, set its record anew.\<close>

lemma plan_handle_get:
  assumes "plan_handle guard c m = (r, m')"
  shows "map_get m' i = (case c of
      CreatePlan uuid dto \<Rightarrow> if uuid = i \<and> m' \<noteq> m then map_get m' i else map_get m i
    | UpdatePlan j d \<Rightarrow> if j = i \<and> m' \<noteq> m then map_option (\<lambda>p. spread p d) (map_get m i) else map_get m i
    | DeactivatePlan j \<Rightarrow> if j = i \<and> m' \<noteq> m then map_option (\<lambda>p. p\<lparr>pl_isActive := False\<rparr>) (map_get m i) else map_get m i
    | ListPlans \<Rightarrow> map_get m i)"
  using assms
  by (auto simp: plan_handle_def with_admin_eq valid_body_eq plan_op_eqs map_get_set split: plan_call.splits sum.splits if_splits option.splits)

definition plan_run :: "(exn + auth_user) list \<Rightarrow> plan_call list \<Rightarrow> plan_store \<Rightarrow> plan_store" where
  "plan_run guards cs m = foldl (\<lambda>m gc. snd (plan_handle (fst gc) (snd gc) m)) m (zip guards cs)"

text \<open>A request that leaves a plan off the list: any but an update of it that says so, or a new plan under its name.\<close>

fun keeps_off :: "string \<Rightarrow> plan_call \<Rightarrow> bool" where
  "keeps_off i ListPlans = True"
| "keeps_off i (CreatePlan uuid dto) = (uuid \<noteq> i)"
| "keeps_off i (UpdatePlan j d) = (j \<noteq> i \<or> pp_isActive d \<noteq> Some True)"
| "keeps_off i (DeactivatePlan j) = True"

lemma keeps_off_step:
  assumes "map_get m i = Some p" "\<not> pl_isActive p" "keeps_off i c"
  shows "\<exists>q. map_get (snd (plan_handle guard c m)) i = Some q \<and> \<not> pl_isActive q"
proof -
  obtain r m' where h: "plan_handle guard c m = (r, m')" by fastforce
  from plan_handle_get [OF h, of i] have "\<exists>q. map_get m' i = Some q \<and> \<not> pl_isActive q"
    using assms by (cases c) (auto simp: spread_def nullish_def split: if_splits option.splits)
  then show ?thesis by (simp add: h)
qed

text \<open>
  A plan that an administrator deactivated stays deactivated through every later history of requests, until
  an update says that it is active again.
\<close>
theorem deactivated_plan_stays:
  assumes "plan_handle (Inr u) (DeactivatePlan i) m = (Inr ps, m')" "list_all (keeps_off i) cs" "length guards = length cs"
  shows "\<exists>p. map_get (plan_run guards cs m') i = Some p \<and> \<not> pl_isActive p"
proof -
  have start: "\<exists>p. map_get m' i = Some p \<and> \<not> pl_isActive p"
    using assms(1) by (auto simp: plan_handle_def with_admin_eq valid_body_eq plan_op_eqs map_get_set split: if_splits option.splits)
  show ?thesis
    using assms(3,2) start unfolding plan_run_def
  proof (induction guards cs arbitrary: m' rule: list_induct2)
    case (Cons g gs c cs)
    then show ?case using keeps_off_step by fastforce
  qed simp
qed

text \<open>
  The body of an update is taken as it comes: whatever it sets, also values that no new plan may have, the stored
  plan is the old one with it.
\<close>
theorem plan_update_unvalidated:
  assumes "map_get m i = Some p" "au_role u = ''ADMIN''"
  shows "plan_handle (Inr u) (UpdatePlan i d) m = (Inr [spread p d], map_set i (spread p d) m)"
  using assms by (simp add: plan_handle_def with_admin_eq valid_body_eq plan_op_eqs)

section \<open>Examples\<close>

definition sample_admin :: auth_user where
  "sample_admin = \<lparr>au_userId = ''root'', au_email = ''root@x'', au_role = ''ADMIN''\<rparr>"

definition sample_plan :: plan_record where
  "sample_plan = plan_of_cfg ''pro'' \<lparr>pc_amountDt = Some 30, pc_quota = None\<rparr>"

definition no_patch :: plan_patch where
  "no_patch = \<lparr>pp_id = None, pp_name = None, pp_maxVms = None, pp_cpu = None, pp_ramMb = None, pp_diskGb = None, pp_priceMonthly = None, pp_isActive = None\<rparr>"

theorem plan_changes_need_admin_witness:
  "\<exists>r m' ps. plan_handle (Inr sample_admin) (DeactivatePlan ''pro'') [(''pro'', sample_plan)] = (r, m') \<and> plan_findAll m' = (Inr ps, m') \<and>
     sorted (map pl_priceMonthly ps)"
  using plan_changes_need_admin [of "Inr sample_admin" "DeactivatePlan ''pro''" "[(''pro'', sample_plan)]"]
  by (metis prod.collapse)

theorem deactivated_plan_stays_witness:
  "\<exists>p. map_get (plan_run [Inr sample_admin] [UpdatePlan ''pro'' (no_patch\<lparr>pp_priceMonthly := Some 20\<rparr>)]
      (snd (plan_handle (Inr sample_admin) (DeactivatePlan ''pro'') [(''pro'', sample_plan)]))) ''pro'' = Some p \<and> \<not> pl_isActive p"
proof -
  have "plan_handle (Inr sample_admin) (DeactivatePlan ''pro'') [(''pro'', sample_plan)] =
      (Inr [sample_plan\<lparr>pl_isActive := False\<rparr>], [(''pro'', sample_plan\<lparr>pl_isActive := False\<rparr>)])"
    by (simp add: plan_handle_def with_admin_eq valid_body_eq plan_op_eqs map_get_def sample_admin_def)
  from deactivated_plan_stays [OF this, of "[UpdatePlan ''pro'' (no_patch\<lparr>pp_priceMonthly := Some 20\<rparr>)]" "[Inr sample_admin]"]
  show ?thesis using \<open>_ = _\<close> by (simp add: no_patch_def)
qed

theorem plan_update_unvalidated_witness:
  "plan_handle (Inr sample_admin) (UpdatePlan ''pro'' (no_patch\<lparr>pp_priceMonthly := Some (- 5)\<rparr>)) [(''pro'', sample_plan)] =
     (Inr [spread sample_plan (no_patch\<lparr>pp_priceMonthly := Some (- 5)\<rparr>)],
      [(''pro'', spread sample_plan (no_patch\<lparr>pp_priceMonthly := Some (- 5)\<rparr>))])"
  using plan_update_unvalidated [of "[(''pro'', sample_plan)]" "''pro''" sample_plan sample_admin] by (simp add: map_get_def sample_admin_def)

end
