(* ===== verification/Web_Client.thy ===== *)
theory Web_Client
  imports Auth_Controller Js_Map
begin

text \<open>
  The logic of the browser's side under \<open>frontend/src/lib\<close> and \<open>hooks\<close>: the session of the user interface,
  the client of the API with its refresh of a session, the private keys in the browser's storage, and
  the messages of errors. What the server answers is a parameter. So are \<open>JSON.stringify\<close> and
  \<open>JSON.parse\<close>; a key of the stored objects is no name of a member that every object has, and the storage
  is there, as it is in a browser's window, and does not overflow.
\<close>

section \<open>Origins and errors\<close>

definition normalizeApiOrigin :: "string \<Rightarrow> string" where
  "normalizeApiOrigin value = (if ends_with value ''/api'' then take (length value - 4) value else value)"

text \<open>\<open>window.location.origin\<close>, \<open>None\<close> outside a browser.\<close>

definition inferGatewayOriginFromWindow :: "string option \<Rightarrow> string" where
  "inferGatewayOriginFromWindow window = nullish window ''https://127.0.0.1''"

definition resolveApiOrigin :: "process_env \<Rightarrow> string option \<Rightarrow> string" where
  "resolveApiOrigin pe window =
     (if truthy (pe ''NEXT_PUBLIC_API_URL'') then normalizeApiOrigin (the (pe ''NEXT_PUBLIC_API_URL''))
      else inferGatewayOriginFromWindow window)"

definition resolveVmWsOrigin :: "process_env \<Rightarrow> string option \<Rightarrow> string" where
  "resolveVmWsOrigin pe window =
     (if truthy (pe ''NEXT_PUBLIC_VM_WS_URL'') then normalizeApiOrigin (the (pe ''NEXT_PUBLIC_VM_WS_URL''))
      else resolveApiOrigin pe window)"

datatype error_text = NoText | Text string | Texts "string list"

record api_error =
  ae_message :: "string option"
  ae_responseMessage :: error_text
  ae_responseError :: "string option"
  ae_statusText :: "string option"
  ae_status :: "nat option"

definition getErrorMessage :: "api_error \<Rightarrow> string \<Rightarrow> string" where
  "getErrorMessage err fallback =
     (let rest = (if truthy (ae_responseError err) then the (ae_responseError err)
            else if (case ae_message err of Some m \<Rightarrow> trim m \<noteq> [] | None \<Rightarrow> False) then the (ae_message err)
            else if truthy (ae_statusText err) then the (ae_statusText err)
            else fallback)
      in case ae_responseMessage err of
           Texts ts \<Rightarrow> if ts \<noteq> [] then join_with '', '' ts else rest
         | Text m \<Rightarrow> if trim m \<noteq> [] then m else rest
         | NoText \<Rightarrow> rest)"

section \<open>The session of the user interface\<close>

text \<open>The store of \<open>lib/auth.ts\<close> with the cookie of \<open>lib/session.ts\<close>, the one cookie that scripts can see.\<close>

record web_state =
  ws_user :: "user_row option"
  ws_isLoading :: bool
  ws_isAuthenticated :: bool
  ws_rememberMe :: "string option"

definition web_start :: "string option \<Rightarrow> web_state" where
  "web_start remember = \<lparr>ws_user = None, ws_isLoading = True, ws_isAuthenticated = False, ws_rememberMe = remember\<rparr>"

definition isRememberMeEnabled :: "web_state \<Rightarrow> bool" where
  "isRememberMeEnabled s \<longleftrightarrow> ws_rememberMe s = Some ''1''"

definition web_setAuthCookies :: "bool \<Rightarrow> web_state \<Rightarrow> web_state" where
  "web_setAuthCookies rememberMe s = s\<lparr>ws_rememberMe := Some (if rememberMe then ''1'' else ''0'')\<rparr>"

definition web_clearAuthCookies :: "web_state \<Rightarrow> web_state" where
  "web_clearAuthCookies s = s\<lparr>ws_rememberMe := None\<rparr>"

definition signed_in :: "user_row option \<Rightarrow> web_state \<Rightarrow> web_state" where
  "signed_in u s = s\<lparr>ws_user := u, ws_isAuthenticated := True, ws_isLoading := False\<rparr>"

definition signed_out :: "web_state \<Rightarrow> web_state" where
  "signed_out s = s\<lparr>ws_user := None, ws_isAuthenticated := False, ws_isLoading := False\<rparr>"

text \<open>The body of a login's answer, as the interface reads it.\<close>

record login_body =
  lb_mfaRequired :: bool
  lb_challengeId :: "string option"
  lb_devOtp :: "string option"
  lb_user :: "user_row option"

definition body_of :: "login_result \<Rightarrow> login_body" where
  "body_of r = (case r of
       LoggedIn se \<Rightarrow> \<lparr>lb_mfaRequired = False, lb_challengeId = None, lb_devOtp = None, lb_user = Some (se_user se)\<rparr>
     | MfaRequired ch otp \<Rightarrow> \<lparr>lb_mfaRequired = True, lb_challengeId = Some ch, lb_devOtp = otp, lb_user = None\<rparr>
     | MfaEnrollmentRequired \<Rightarrow> \<lparr>lb_mfaRequired = False, lb_challengeId = None, lb_devOtp = None, lb_user = None\<rparr>)"

definition web_login :: "api_error + login_body \<Rightarrow> bool \<Rightarrow> web_state \<Rightarrow> (api_error + (string option \<times> string option) option) \<times> web_state" where
  "web_login answer rememberMe s =
     (case answer of
        Inl e \<Rightarrow> (Inl e, s)
      | Inr data \<Rightarrow>
          if lb_mfaRequired data then (Inr (Some (lb_challengeId data, lb_devOtp data)), signed_out s)
          else (Inr None, signed_in (lb_user data) (web_setAuthCookies rememberMe s)))"

definition web_verifyMfa :: "api_error + session \<times> bool \<Rightarrow> web_state \<Rightarrow> (api_error + unit) \<times> web_state" where
  "web_verifyMfa answer s =
     (case answer of
        Inl e \<Rightarrow> (Inl e, s)
      | Inr (se, rememberMe) \<Rightarrow> (Inr (), signed_in (Some (se_user se)) (web_setAuthCookies rememberMe s)))"

definition web_register :: "api_error + session \<Rightarrow> web_state \<Rightarrow> (api_error + unit) \<times> web_state" where
  "web_register answer s =
     (case answer of
        Inl e \<Rightarrow> (Inl e, s)
      | Inr se \<Rightarrow> (Inr (), signed_in (Some (se_user se)) (web_setAuthCookies True s)))"

definition web_logout :: "web_state \<Rightarrow> web_state" where
  "web_logout s = signed_out (web_clearAuthCookies s)"

definition web_forceLogout :: "web_state \<Rightarrow> web_state" where
  "web_forceLogout s = signed_out (web_clearAuthCookies s)"

definition web_fetchUser :: "api_error + user_row \<Rightarrow> web_state \<Rightarrow> web_state" where
  "web_fetchUser answer s =
     (case answer of
        Inr u \<Rightarrow> signed_in (Some u) s
      | Inl e \<Rightarrow> if ae_status e = Some 401 then signed_out (web_clearAuthCookies s) else s\<lparr>ws_isLoading := False\<rparr>)"

section \<open>The client of the API\<close>

text \<open>
  A request is answered or fails with a status. When it fails with 401 the session is refreshed and the request sent
  once more, which the flag \<open>_retry\<close> remembers; \<open>send\<close> and \<open>refresh\<close> act on whatever is on the other side.
\<close>

definition isAuthFlowRequest :: "string \<Rightarrow> bool" where
  "isAuthFlowRequest url \<longleftrightarrow> str_includes url ''/auth/login'' \<or> str_includes url ''/auth/mfa/verify'' \<or>
     str_includes url ''/auth/register'' \<or> str_includes url ''/auth/refresh''"

function api_request :: "('w \<Rightarrow> (api_error + 'a) \<times> 'w) \<Rightarrow> ('w \<Rightarrow> bool \<times> 'w) \<Rightarrow> string \<Rightarrow> bool \<Rightarrow> 'w \<Rightarrow> (api_error + 'a) \<times> 'w" where
  "api_request send refresh url retry w =
     (case send w of
        (Inr a, w1) \<Rightarrow> (Inr a, w1)
      | (Inl e, w1) \<Rightarrow>
          if isAuthFlowRequest url then (Inl e, w1)
          else if ae_status e = Some 401 \<and> \<not> retry
          then (case refresh w1 of (True, w2) \<Rightarrow> api_request send refresh url True w2 | (False, w2) \<Rightarrow> (Inl e, w2))
          else (Inl e, w1))"
  by pat_completeness auto
termination by (relation "measure (\<lambda>(send, refresh, url, retry, w). if retry then 0 else 1)") (auto split: prod.splits)

declare api_request.simps [simp del]

text \<open>
  The requests of a page that wait for the one refresh in flight (\<open>refreshPromise\<close>), the refreshes sent so far, and
  the sign-outs that a failed one announces.
\<close>

record flight =
  fl_inFlight :: bool
  fl_waiting :: "nat list"
  fl_sent :: nat
  fl_finished :: nat
  fl_logouts :: nat

definition refreshSession :: "nat \<Rightarrow> flight \<Rightarrow> flight" where
  "refreshSession i f =
     (if fl_inFlight f then f\<lparr>fl_waiting := fl_waiting f @ [i]\<rparr>
      else f\<lparr>fl_inFlight := True, fl_waiting := [i], fl_sent := fl_sent f + 1\<rparr>)"

definition refresh_finished :: "bool \<Rightarrow> flight \<Rightarrow> flight" where
  "refresh_finished ok f =
     f\<lparr>fl_inFlight := False, fl_waiting := [], fl_finished := fl_finished f + 1, fl_logouts := fl_logouts f + (if ok then 0 else 1)\<rparr>"

section \<open>Private keys in the browser's storage\<close>

datatype stored_value = StoredString string | StoredBool bool | StoredOther

type_synonym stored_map = "(string, stored_value) js_map"

text \<open>\<open>read_json\<close> is \<open>None\<close> where the text is no JSON or no object.\<close>

record json_text =
  read_json :: "string \<Rightarrow> stored_map option"
  write_json :: "stored_map \<Rightarrow> string"

type_synonym storage = "string \<Rightarrow> string option"

definition VM_SSH_KEY_STORAGE :: string where "VM_SSH_KEY_STORAGE = ''cloudvm.vmSshPrivateKeys''"

definition USER_GENERATED_SSH_KEY_STORAGE :: string where
  "USER_GENERATED_SSH_KEY_STORAGE = ''cloudvm.userGeneratedSshPrivateKeys''"

definition USER_GENERATED_SSH_KEY_FILENAME_STORAGE :: string where
  "USER_GENERATED_SSH_KEY_FILENAME_STORAGE = ''cloudvm.userGeneratedSshPrivateKeyFilenames''"

definition USER_GENERATED_SSH_KEY_DOWNLOADED_STORAGE :: string where
  "USER_GENERATED_SSH_KEY_DOWNLOADED_STORAGE = ''cloudvm.userGeneratedSshPrivateKeysDownloaded''"

definition read_map :: "json_text \<Rightarrow> string \<Rightarrow> storage \<Rightarrow> stored_map" where
  "read_map J storageKey st = (if truthy (st storageKey) then nullish (read_json J (the (st storageKey))) [] else [])"

definition write_map :: "json_text \<Rightarrow> string \<Rightarrow> stored_map \<Rightarrow> storage \<Rightarrow> storage" where
  "write_map J storageKey m st = st(storageKey \<mapsto> write_json J m)"

definition store_entry :: "json_text \<Rightarrow> string \<Rightarrow> string \<Rightarrow> stored_value \<Rightarrow> storage \<Rightarrow> storage" where
  "store_entry J storageKey i v st = write_map J storageKey (map_set i v (read_map J storageKey st)) st"

definition stored_text :: "json_text \<Rightarrow> string \<Rightarrow> string \<Rightarrow> storage \<Rightarrow> string option" where
  "stored_text J storageKey i st =
     (if i = [] then None
      else case map_get (read_map J storageKey st) i of
          Some (StoredString k) \<Rightarrow> if k \<noteq> [] then Some k else None
        | _ \<Rightarrow> None)"

definition saveGeneratedVmSshPrivateKey :: "json_text \<Rightarrow> string \<Rightarrow> string \<Rightarrow> storage \<Rightarrow> storage" where
  "saveGeneratedVmSshPrivateKey J vmId privateKey st =
     (if vmId = [] \<or> privateKey = [] then st else store_entry J VM_SSH_KEY_STORAGE vmId (StoredString privateKey) st)"

definition getGeneratedVmSshPrivateKey :: "json_text \<Rightarrow> string \<Rightarrow> storage \<Rightarrow> string option" where
  "getGeneratedVmSshPrivateKey J vmId st = stored_text J VM_SSH_KEY_STORAGE vmId st"

definition saveUserGeneratedSshPrivateKey :: "json_text \<Rightarrow> string \<Rightarrow> string \<Rightarrow> string option \<Rightarrow> storage \<Rightarrow> storage" where
  "saveUserGeneratedSshPrivateKey J sshKeyId privateKey filename st =
     (if sshKeyId = [] \<or> privateKey = [] then st
      else let st1 = store_entry J USER_GENERATED_SSH_KEY_STORAGE sshKeyId (StoredString privateKey) st in
        if truthy filename then store_entry J USER_GENERATED_SSH_KEY_FILENAME_STORAGE sshKeyId (StoredString (the filename)) st1 else st1)"

definition getUserGeneratedSshPrivateKey :: "json_text \<Rightarrow> string \<Rightarrow> storage \<Rightarrow> string option" where
  "getUserGeneratedSshPrivateKey J sshKeyId st = stored_text J USER_GENERATED_SSH_KEY_STORAGE sshKeyId st"

definition getUserGeneratedSshPrivateKeyFilename :: "json_text \<Rightarrow> string \<Rightarrow> storage \<Rightarrow> string option" where
  "getUserGeneratedSshPrivateKeyFilename J sshKeyId st = stored_text J USER_GENERATED_SSH_KEY_FILENAME_STORAGE sshKeyId st"

definition hasDownloadedGeneratedSshPrivateKey :: "json_text \<Rightarrow> string \<Rightarrow> storage \<Rightarrow> bool" where
  "hasDownloadedGeneratedSshPrivateKey J sshKeyId st \<longleftrightarrow>
     sshKeyId \<noteq> [] \<and> map_get (read_map J USER_GENERATED_SSH_KEY_DOWNLOADED_STORAGE st) sshKeyId = Some (StoredBool True)"

definition markGeneratedSshPrivateKeyDownloaded :: "json_text \<Rightarrow> string \<Rightarrow> storage \<Rightarrow> storage" where
  "markGeneratedSshPrivateKeyDownloaded J sshKeyId st =
     (if sshKeyId = [] then st else store_entry J USER_GENERATED_SSH_KEY_DOWNLOADED_STORAGE sshKeyId (StoredBool True) st)"

text \<open>The handler of \<open>useVmSocket\<close> for a machine's private key.\<close>

definition on_vm_ssh_key :: "json_text \<Rightarrow> string option \<Rightarrow> string option \<Rightarrow> storage \<Rightarrow> storage" where
  "on_vm_ssh_key J vmId privateKey st =
     (if truthy vmId \<and> truthy privateKey then saveGeneratedVmSshPrivateKey J (the vmId) (the privateKey) st else st)"

section \<open>The form of the password\<close>

text \<open>What the form of the profile page sends, and the routes that the auth service has.\<close>

definition handlePasswordChange :: "string \<Rightarrow> string \<Rightarrow> string \<Rightarrow> (string \<times> string \<times> string \<times> string) option" where
  "handlePasswordChange oldPassword newPassword confirmPassword =
     (if newPassword \<noteq> confirmPassword then None else Some (''PATCH'', ''/auth/password'', oldPassword, newPassword))"

definition auth_routes :: "(string \<times> string) list" where
  "auth_routes = [(''POST'', ''/auth/register''), (''POST'', ''/auth/login''), (''GET'', ''/auth/google''), (''GET'', ''/auth/google/callback''),
     (''POST'', ''/auth/mfa/verify''), (''POST'', ''/auth/mfa/setup''), (''POST'', ''/auth/mfa/enable''), (''POST'', ''/auth/mfa/disable''),
     (''POST'', ''/auth/mfa/recovery-codes/regenerate''), (''GET'', ''/auth/mfa/status''), (''GET'', ''/auth/mfa/audit''), (''POST'', ''/auth/refresh''),
     (''POST'', ''/auth/logout''), (''POST'', ''/auth/logout-all''), (''POST'', ''/auth/password''), (''GET'', ''/auth/me''), (''GET'', ''/auth/ws-ticket'')]"

end
