(* ===== verification/Web_Safety.thy ===== *)
theory Web_Safety
  imports Web_Client Auth_Witnesses
begin

text \<open>
  What the browser's side promises: a request is sent twice at most and its refresh once, one refresh
  is in flight at a time, the interface shows a signed-in user when the auth service opened a session,
  and the stored keys are a map from machines to keys.
\<close>

section \<open>Requests and their refresh\<close>

text \<open>The two actions, counting the requests and the refreshes.\<close>

definition counted_send :: "('w \<Rightarrow> (api_error + 'a) \<times> 'w) \<Rightarrow> 'w \<times> nat \<times> nat \<Rightarrow> (api_error + 'a) \<times> 'w \<times> nat \<times> nat" where
  "counted_send send = (\<lambda>(w, n, m). case send w of (r, w') \<Rightarrow> (r, (w', n + 1, m)))"

definition counted_refresh :: "('w \<Rightarrow> bool \<times> 'w) \<Rightarrow> 'w \<times> nat \<times> nat \<Rightarrow> bool \<times> 'w \<times> nat \<times> nat" where
  "counted_refresh refresh = (\<lambda>(w, n, m). case refresh w of (ok, w') \<Rightarrow> (ok, (w', n, m + 1)))"

lemma api_request_retry:
  "api_request send refresh url True w = send w"
  by (subst api_request.simps) (simp split: prod.split sum.split)

lemma api_request_first:
  "api_request send refresh url False w =
     (case send w of
        (Inr a, w1) \<Rightarrow> (Inr a, w1)
      | (Inl e, w1) \<Rightarrow>
          if isAuthFlowRequest url \<or> ae_status e \<noteq> Some 401 then (Inl e, w1)
          else (case refresh w1 of (True, w2) \<Rightarrow> send w2 | (False, w2) \<Rightarrow> (Inl e, w2)))"
  by (subst api_request.simps) (simp add: api_request_retry split: prod.split sum.split bool.split)

text \<open>
  C39: a request of the interface ends after it was sent twice at most and the session refreshed once at most, whatever the
  other side answers; it is sent again only after a refresh, and the requests of a login are sent once and never
  refresh anything. Counting does not change what comes back.
\<close>
theorem request_sent_twice_at_most:
  assumes "api_request (counted_send send) (counted_refresh refresh) url False (w, 0, 0) = (r, (w', n, m))"
  shows "1 \<le> n \<and> n \<le> m + 1 \<and> m \<le> 1 \<and> (isAuthFlowRequest url \<longrightarrow> m = 0) \<and> api_request send refresh url False w = (r, w')"
  using assms
  by (auto simp: api_request_first counted_send_def counted_refresh_def split: prod.splits sum.splits if_splits bool.splits)

text \<open>A request of the page fails with 401 and waits for the refresh, or the refresh in flight ends.\<close>

inductive flight_step :: "flight \<Rightarrow> flight \<Rightarrow> bool" where
  waits: "flight_step f (refreshSession i f)"
| ends: "fl_inFlight f \<Longrightarrow> flight_step f (refresh_finished ok f)"

inductive_cases flight_stepE: "flight_step f g"

definition flight_start :: flight where
  "flight_start = \<lparr>fl_inFlight = False, fl_waiting = [], fl_sent = 0, fl_finished = 0, fl_logouts = 0\<rparr>"

definition flight_ok :: "flight \<Rightarrow> bool" where
  "flight_ok f \<longleftrightarrow> fl_sent f = fl_finished f + (if fl_inFlight f then 1 else 0) \<and> (fl_inFlight f \<longleftrightarrow> fl_waiting f \<noteq> [])"

lemma flight_step_ok: "flight_step f g \<Longrightarrow> flight_ok f \<Longrightarrow> flight_ok g"
  by (erule flight_stepE) (auto simp: flight_ok_def refreshSession_def refresh_finished_def)

lemma flight_reachable_ok: "flight_step\<^sup>*\<^sup>* flight_start f \<Longrightarrow> flight_ok f"
proof (induction rule: rtranclp_induct)
  case base
  show ?case by (simp add: flight_ok_def flight_start_def)
qed (rule flight_step_ok)

text \<open>
  However many requests of a page fail at the same time, one refresh is in flight at most, some request waits for it,
  and every request that fails meanwhile joins it; so one page never presents its refresh token twice at once.
\<close>
theorem one_refresh_in_flight:
  assumes "flight_step\<^sup>*\<^sup>* flight_start f"
  shows "fl_sent f - fl_finished f \<le> 1 \<and> (fl_inFlight f \<longleftrightarrow> fl_sent f - fl_finished f = 1) \<and>
    (fl_inFlight f \<longrightarrow> fl_waiting f \<noteq> [] \<and> fl_sent (refreshSession i f) = fl_sent f \<and> i \<in> set (fl_waiting (refreshSession i f)))"
  using flight_reachable_ok [OF assms] by (auto simp: flight_ok_def refreshSession_def)

section \<open>The interface and the session\<close>

text \<open>
  After a login the interface shows a user exactly when the auth service opened a session, and then the user of that
  session; a challenge of the second factor is shown as one. The exception is an administrator who has to
  enrol first: no session is opened, and the interface is signed in with no user.
\<close>
theorem interface_follows_login:
  "(\<exists>se. answer = LoggedIn se \<and> web_login (Inr (body_of answer)) rm s = (Inr None, signed_in (Some (se_user se)) (web_setAuthCookies rm s))) \<or>
   (\<exists>ch otp. answer = MfaRequired ch otp \<and> web_login (Inr (body_of answer)) rm s = (Inr (Some (Some ch, otp)), signed_out s)) \<or>
   answer = MfaEnrollmentRequired \<and> ws_isAuthenticated (snd (web_login (Inr (body_of answer)) rm s)) \<and>
     ws_user (snd (web_login (Inr (body_of answer)) rm s)) = None"
  by (cases answer) (simp_all add: web_login_def body_of_def signed_in_def)

text \<open>What the interface shows agrees with itself: a user is there exactly when it is signed in.\<close>

definition interface_ok :: "web_state \<Rightarrow> bool" where
  "interface_ok s \<longleftrightarrow> (ws_isAuthenticated s \<longleftrightarrow> ws_user s \<noteq> None)"

inductive web_step :: "web_state \<Rightarrow> web_state \<Rightarrow> bool" where
  web_logs_in: "answer \<noteq> Inr (body_of MfaEnrollmentRequired) \<Longrightarrow> (\<And>b. answer = Inr b \<Longrightarrow> \<exists>r. b = body_of r) \<Longrightarrow> web_login answer rm s = (x, t) \<Longrightarrow> web_step s t"
| web_verifies: "web_verifyMfa answer2 s = (y, t) \<Longrightarrow> web_step s t"
| web_registers: "web_register answer3 s = (z, t) \<Longrightarrow> web_step s t"
| web_leaves: "web_step s (web_logout s)"
| web_is_left: "web_step s (web_forceLogout s)"
| web_fetches: "web_step s (web_fetchUser answer4 s)"

lemma web_login_body:
  assumes "web_login (Inr (body_of r)) rm s = (x, t)" "body_of r \<noteq> body_of MfaEnrollmentRequired"
  shows "interface_ok t"
  using assms by (cases r) (auto simp: web_login_def body_of_def signed_in_def signed_out_def interface_ok_def)

lemma web_step_ok: "web_step s t \<Longrightarrow> interface_ok s \<Longrightarrow> interface_ok t"
proof (induction rule: web_step.induct)
  case (web_logs_in answer rm s x t)
  then show ?case
    using web_login_body by (cases answer) (fastforce simp: web_login_def)+
qed (auto simp: web_verifyMfa_def web_register_def web_logout_def web_forceLogout_def web_fetchUser_def signed_in_def signed_out_def
    web_setAuthCookies_def web_clearAuthCookies_def interface_ok_def split: sum.splits if_splits)

text \<open>
  Through every history of the interface, whatever the server answers but the demand to enrol, a user is shown
  exactly when the interface is signed in.
\<close>
theorem interface_stays_consistent:
  assumes "web_step\<^sup>*\<^sup>* (web_start c) s"
  shows "ws_isAuthenticated s \<longleftrightarrow> ws_user s \<noteq> None"
proof -
  have "interface_ok s"
    using assms
  proof (induction rule: rtranclp_induct)
    case base
    show ?case by (simp add: interface_ok_def web_start_def)
  qed (rule web_step_ok)
  then show ?thesis by (simp add: interface_ok_def)
qed

section \<open>Stored keys\<close>

lemma storage_names [simp]:
  "VM_SSH_KEY_STORAGE \<noteq> USER_GENERATED_SSH_KEY_STORAGE" "VM_SSH_KEY_STORAGE \<noteq> USER_GENERATED_SSH_KEY_FILENAME_STORAGE"
  "VM_SSH_KEY_STORAGE \<noteq> USER_GENERATED_SSH_KEY_DOWNLOADED_STORAGE"
  "USER_GENERATED_SSH_KEY_STORAGE \<noteq> USER_GENERATED_SSH_KEY_FILENAME_STORAGE"
  "USER_GENERATED_SSH_KEY_STORAGE \<noteq> USER_GENERATED_SSH_KEY_DOWNLOADED_STORAGE"
  "USER_GENERATED_SSH_KEY_FILENAME_STORAGE \<noteq> USER_GENERATED_SSH_KEY_DOWNLOADED_STORAGE"
  by (simp_all add: VM_SSH_KEY_STORAGE_def USER_GENERATED_SSH_KEY_STORAGE_def USER_GENERATED_SSH_KEY_FILENAME_STORAGE_def
      USER_GENERATED_SSH_KEY_DOWNLOADED_STORAGE_def)

text \<open>
  What a JSON object gives: no key twice, and an object that is written is read back with the same members, in whatever order, from a text that is not empty.
\<close>

definition json_ok :: "json_text \<Rightarrow> bool" where
  "json_ok J \<longleftrightarrow> (\<forall>w m. read_json J w = Some m \<longrightarrow> map_keys_ok m) \<and>
     (\<forall>m. map_keys_ok m \<longrightarrow> write_json J m \<noteq> [] \<and> (\<exists>m'. read_json J (write_json J m) = Some m' \<and> map_get m' = map_get m))"

lemma read_map_ok: "json_ok J \<Longrightarrow> map_keys_ok (read_map J k st)"
  by (cases "read_json J (the (st k))") (auto simp: read_map_def json_ok_def map_keys_ok_def)

lemma read_store_entry:
  assumes "json_ok J"
  shows "map_get (read_map J k' (store_entry J k i v st)) = (if k' = k then (map_get (read_map J k st))(i \<mapsto> v) else map_get (read_map J k' st))"
proof -
  let ?m = "map_set i v (read_map J k st)"
  have "map_keys_ok ?m" using read_map_ok [OF assms] by simp
  then obtain m' where "write_json J ?m \<noteq> []" "read_json J (write_json J ?m) = Some m'" "map_get m' = map_get ?m"
    using assms unfolding json_ok_def by blast
  then show ?thesis by (auto simp: read_map_def [of J k'] store_entry_def write_map_def fun_eq_iff map_get_set)
qed

lemma stored_text_entry:
  assumes "json_ok J"
  shows "stored_text J k' j (store_entry J k i v st) =
    (if k' = k \<and> j = i \<and> i \<noteq> [] then (case v of StoredString x \<Rightarrow> if x \<noteq> [] then Some x else None | _ \<Rightarrow> None) else stored_text J k' j st)"
  by (auto simp: stored_text_def read_store_entry [OF assms])

text \<open>What the storage stands for: the keys of machines, the user's own keys with their file names, and which were downloaded.\<close>

record key_book =
  kb_vm :: "string \<Rightarrow> string option"
  kb_user :: "string \<Rightarrow> string option"
  kb_file :: "string \<Rightarrow> string option"
  kb_downloaded :: "string \<Rightarrow> bool"

definition key_book :: "json_text \<Rightarrow> storage \<Rightarrow> key_book" where
  "key_book J st = \<lparr>kb_vm = (\<lambda>i. getGeneratedVmSshPrivateKey J i st), kb_user = (\<lambda>i. getUserGeneratedSshPrivateKey J i st),
     kb_file = (\<lambda>i. getUserGeneratedSshPrivateKeyFilename J i st), kb_downloaded = (\<lambda>i. hasDownloadedGeneratedSshPrivateKey J i st)\<rparr>"

lemmas key_getters = getGeneratedVmSshPrivateKey_def getUserGeneratedSshPrivateKey_def getUserGeneratedSshPrivateKeyFilename_def
  hasDownloadedGeneratedSshPrivateKey_def

text \<open>
  C40: the browser's storage implements four maps: saving a machine's key, a user's key with or without a file name, and the mark of
  a download change the one entry that they name in the maps that they are for, and reading gives what was saved last.
\<close>
theorem key_store_refines:
  assumes "json_ok J" "i \<noteq> []" "k \<noteq> []"
  shows "key_book J (saveGeneratedVmSshPrivateKey J i k st) = (key_book J st)\<lparr>kb_vm := (kb_vm (key_book J st))(i \<mapsto> k)\<rparr> \<and>
    key_book J (saveUserGeneratedSshPrivateKey J i k f st) =
      (key_book J st)\<lparr>kb_user := (kb_user (key_book J st))(i \<mapsto> k),
        kb_file := (if truthy f then (kb_file (key_book J st))(i \<mapsto> the f) else kb_file (key_book J st))\<rparr> \<and>
    key_book J (markGeneratedSshPrivateKeyDownloaded J i st) =
      (key_book J st)\<lparr>kb_downloaded := (kb_downloaded (key_book J st))(i := True)\<rparr>"
proof (intro conjI)
  note r = read_store_entry [OF assms(1)] and t = stored_text_entry [OF assms(1)]
  show "key_book J (saveGeneratedVmSshPrivateKey J i k st) = (key_book J st)\<lparr>kb_vm := (kb_vm (key_book J st))(i \<mapsto> k)\<rparr>"
    using assms(2,3) storage_names [symmetric]
    by (simp add: key_book_def key_getters saveGeneratedVmSshPrivateKey_def r t fun_eq_iff)
  show "key_book J (saveUserGeneratedSshPrivateKey J i k f st) =
      (key_book J st)\<lparr>kb_user := (kb_user (key_book J st))(i \<mapsto> k),
        kb_file := (if truthy f then (kb_file (key_book J st))(i \<mapsto> the f) else kb_file (key_book J st))\<rparr>"
    using assms(2,3) storage_names [symmetric]
    by (cases f) (simp_all add: key_book_def key_getters saveUserGeneratedSshPrivateKey_def Let_def r t fun_eq_iff)
  show "key_book J (markGeneratedSshPrivateKeyDownloaded J i st) =
      (key_book J st)\<lparr>kb_downloaded := (kb_downloaded (key_book J st))(i := True)\<rparr>"
    using assms(2) storage_names [symmetric]
    by (simp add: key_book_def key_getters markGeneratedSshPrivateKeyDownloaded_def r t fun_eq_iff map_get_set)
qed

section \<open>The form of the password\<close>

text \<open>
  The form of the profile page cannot change a password: what it sends is a request that the auth service has no route for.
\<close>
theorem password_form_not_routed:
  assumes "handlePasswordChange old new confirm = Some (meth, path, body)"
  shows "(meth, path) \<notin> set auth_routes \<and> path \<in> snd ` set auth_routes"
  using assms by (auto simp: handlePasswordChange_def auth_routes_def split: if_splits)

section \<open>Examples\<close>

text \<open>A text of an object that can be read back: its entries with the lengths of their strings.\<close>

fun sample_write :: "stored_map \<Rightarrow> string" where
  "sample_write [] = ''.''"
| "sample_write ((i, v) # m) =
     ''e'' @ counted i @ (case v of StoredString k \<Rightarrow> ''s'' @ counted k | StoredBool b \<Rightarrow> (if b then ''t'' else ''f'') | StoredOther \<Rightarrow> ''o'') @ sample_write m"

fun sample_decode :: "nat \<Rightarrow> string \<Rightarrow> stored_map option" where
  "sample_decode 0 x = None"
| "sample_decode (Suc n) x =
     (if x = ''.'' then Some []
      else case uncounted (tl x) of (i, y) \<Rightarrow>
        if hd y = CHR ''s'' then (case uncounted (tl y) of (k, z) \<Rightarrow> map_option ((#) (i, StoredString k)) (sample_decode n z))
        else map_option ((#) (i, if hd y = CHR ''t'' then StoredBool True else if hd y = CHR ''f'' then StoredBool False else StoredOther))
          (sample_decode n (tl y)))"

definition sample_json :: json_text where
  "sample_json = \<lparr>read_json = (\<lambda>x. case sample_decode (length x) x of Some m \<Rightarrow> if map_keys_ok m then Some m else None | None \<Rightarrow> None),
     write_json = sample_write\<rparr>"

lemma sample_decode_write: "length m < n \<Longrightarrow> sample_decode n (sample_write m) = Some m"
proof (induction m arbitrary: n)
  case Nil
  then show ?case by (cases n) simp_all
next
  case (Cons iv m)
  obtain i v where iv: "iv = (i, v)" by (cases iv)
  obtain n' where n: "n = Suc n'" using Cons.prems by (cases n) simp_all
  show ?case
    using Cons.IH [of n'] Cons.prems by (cases v) (simp_all add: iv n uncounted_counted)
qed

lemma sample_json_ok: "json_ok sample_json"
proof -
  have "length m < length (sample_write m)" for m by (induction m rule: sample_write.induct) auto
  moreover have "sample_write m \<noteq> []" for m by (cases m rule: sample_write.cases) simp_all
  ultimately show ?thesis by (auto simp: json_ok_def sample_json_def sample_decode_write split: option.splits if_splits)
qed

theorem key_store_refines_witness:
  "getGeneratedVmSshPrivateKey sample_json ''m1'' (saveGeneratedVmSshPrivateKey sample_json ''m1'' ''KEY'' Map.empty) = Some ''KEY'' \<and>
   getGeneratedVmSshPrivateKey sample_json ''m2'' (saveGeneratedVmSshPrivateKey sample_json ''m1'' ''KEY'' Map.empty) = None"
proof -
  have "kb_vm (key_book sample_json (saveGeneratedVmSshPrivateKey sample_json ''m1'' ''KEY'' Map.empty)) =
      (kb_vm (key_book sample_json Map.empty))(''m1'' \<mapsto> ''KEY'')"
    using key_store_refines [OF sample_json_ok, of "''m1''" "''KEY''" Map.empty] by simp
  from fun_cong [OF this, of "''m1''"] fun_cong [OF this, of "''m2''"]
  show ?thesis by (simp add: key_book_def) (simp add: key_getters stored_text_def read_map_def)
qed

definition unauthorized_error :: api_error where
  "unauthorized_error = \<lparr>ae_message = None, ae_responseMessage = NoText, ae_responseError = None, ae_statusText = None, ae_status = Some 401\<rparr>"

theorem request_sent_twice_at_most_witness:
  "\<exists>r w n m. api_request (counted_send (\<lambda>w. (if w then Inr () else Inl unauthorized_error, w))) (counted_refresh (\<lambda>w. (True, True))) ''/vms'' False (False, 0, 0) =
     (r, (w, n, m)) \<and> n \<le> 2 \<and> m \<le> 1"
proof -
  let ?r = "api_request (counted_send (\<lambda>w. (if w then Inr () else Inl unauthorized_error, w))) (counted_refresh (\<lambda>w. (True, True))) ''/vms'' False (False, 0, 0)"
  obtain r w n m where r: "?r = (r, (w, n, m))" by (cases ?r) auto
  from request_sent_twice_at_most [OF r] show ?thesis using r by (intro exI [of _ r] exI [of _ w] exI [of _ n] exI [of _ m]) simp
qed

theorem one_refresh_in_flight_witness:
  "flight_step\<^sup>*\<^sup>* flight_start (refreshSession 2 (refreshSession 1 flight_start)) \<and> fl_sent (refreshSession 2 (refreshSession 1 flight_start)) = 1"
proof -
  have r: "flight_step\<^sup>*\<^sup>* flight_start (refreshSession 2 (refreshSession 1 flight_start))"
    by (meson flight_step.waits rtranclp.rtrancl_into_rtrancl rtranclp.rtrancl_refl)
  then show ?thesis
    using one_refresh_in_flight [OF r] by (simp add: refreshSession_def flight_start_def)
qed

theorem interface_stays_consistent_witness:
  "web_step\<^sup>*\<^sup>* (web_start None) (web_fetchUser (Inr (sample_account ''alice'' USER False)) (web_start None)) \<and>
   ws_isAuthenticated (web_fetchUser (Inr (sample_account ''alice'' USER False)) (web_start None))"
proof -
  have r: "web_step\<^sup>*\<^sup>* (web_start None) (web_fetchUser (Inr (sample_account ''alice'' USER False)) (web_start None))"
    by (meson web_step.web_fetches rtranclp.rtrancl_into_rtrancl rtranclp.rtrancl_refl)
  from interface_stays_consistent [OF r] show ?thesis using r by (simp add: web_fetchUser_def signed_in_def)
qed

theorem password_form_not_routed_witness:
  "handlePasswordChange ''a'' ''b'' ''b'' = Some (''PATCH'', ''/auth/password'', ''a'', ''b'') \<and> (''PATCH'', ''/auth/password'') \<notin> set auth_routes"
proof -
  have h: "handlePasswordChange ''a'' ''b'' ''b'' = Some (''PATCH'', ''/auth/password'', ''a'', ''b'')" by (simp add: handlePasswordChange_def)
  from password_form_not_routed [OF h] show ?thesis using h by simp
qed

end
