(* ===== verification/Vm_Api.thy ===== *)
theory Vm_Api
  imports Vm_Service Body_Checks
begin

text \<open>
  The routes of the machine service: \<open>vm.controller.ts\<close> with the check of an action's body. Every route is behind the
  guard of the token; the result of the guard is an argument, and so are the check of a UUID, which is the
  framework's, and the worker's reply to a request for the templates.
\<close>

section \<open>Routes\<close>

datatype vm_call =
    CreateMachine create_dto
  | ListTemplates
  | MachineStats
  | ListMachines "string option" "string option" "string option" "string option"
  | ReadMachine id
  | ReadMachineKey id
  | ActOnMachine id string
  | RemoveMachine id

datatype vm_answer =
    Created vm_row "string option"
  | Templates "(int \<times> string) list"
  | Stats vm_stats
  | Listing "vm_row list_page"
  | Machine vm_row
  | MachineKey id string string
  | Queued string

record vm_http =
  vh_deps :: vm_deps
  vh_isUUID :: "string \<Rightarrow> bool"
  vh_templates :: "(int \<times> string) list option"

definition vm_action_ok :: "string \<Rightarrow> bool" where
  "vm_action_ok action \<longleftrightarrow> action \<in> set [''start'', ''stop'', ''restart'', ''delete'']"

definition list_query_of :: "string option \<Rightarrow> string option \<Rightarrow> string option \<Rightarrow> string option \<Rightarrow> list_query" where
  "list_query_of status search page lmt =
     \<lparr>lq_status = status, lq_search = search, lq_page = query_int page, lq_limit = map_option (\<lambda>n. js_min n 100) (query_int lmt)\<rparr>"

fun vm_route :: "vm_http \<Rightarrow> auth_user \<Rightarrow> vm_call \<Rightarrow> (vm_state, vm_answer) io" where
  "vm_route V u (CreateMachine dto) =
     bnd (valid_body (valid_create_dto dto)) (\<lambda>_.
     bnd (createVm (vh_deps V) dto (au_userId u) (au_role u)) (\<lambda>(vm, pem). ret (Created vm pem)))"
| "vm_route V u ListTemplates = bnd (getTemplates (vh_templates V)) (\<lambda>ts. ret (Templates ts))"
| "vm_route V u MachineStats = bnd (getStats (au_userId u) (au_role u)) (\<lambda>st. ret (Stats st))"
| "vm_route V u (ListMachines status search page lmt) =
     bnd (listVms (au_userId u) (au_role u) (list_query_of status search page lmt)) (\<lambda>pg. ret (Listing pg))"
| "vm_route V u (ReadMachine i) =
     bnd (valid_body (vh_isUUID V i)) (\<lambda>_. bnd (getVm i (au_userId u) (au_role u)) (\<lambda>vm. ret (Machine vm)))"
| "vm_route V u (ReadMachineKey i) =
     bnd (valid_body (vh_isUUID V i)) (\<lambda>_.
     bnd (getVmSshPrivateKey (vh_deps V) i (au_userId u) (au_role u)) (\<lambda>(j, name, key). ret (MachineKey j name key)))"
| "vm_route V u (ActOnMachine i action) =
     bnd (valid_body (vh_isUUID V i \<and> vm_action_ok action)) (\<lambda>_.
     bnd (vmAction (vh_deps V) i action (au_userId u) (au_role u)) (\<lambda>m. ret (Queued m)))"
| "vm_route V u (RemoveMachine i) =
     bnd (valid_body (vh_isUUID V i)) (\<lambda>_. bnd (deleteVm (vh_deps V) i (au_userId u) (au_role u)) (\<lambda>m. ret (Queued m)))"

definition vm_handle :: "vm_http \<Rightarrow> exn + auth_user \<Rightarrow> vm_call \<Rightarrow> (vm_state, vm_answer) io" where
  "vm_handle V guard c = with_user guard (\<lambda>u. vm_route V u c)"

section \<open>What a user's requests can do\<close>

fun msg_vm :: "vm_msg \<Rightarrow> id" where
  "msg_vm (MsgCreate i _ _ _ _ _ _ _ _ _) = i"
| "msg_vm (MsgAction i _ _ _) = i"
| "msg_vm (MsgDelete i _ _) = i"

fun msg_user :: "vm_msg \<Rightarrow> id" where
  "msg_user (MsgCreate _ _ _ _ _ _ u _ _ _) = u"
| "msg_user (MsgAction _ _ _ u) = u"
| "msg_user (MsgDelete _ _ u) = u"

text \<open>
  A step in a user's name: the machines and quotas of all others stay, and what is published is in the user's name
  and about a machine of the user.
\<close>

definition acts_for :: "id \<Rightarrow> vm_state \<Rightarrow> vm_state \<Rightarrow> bool" where
  "acts_for u s t \<longleftrightarrow>
     filter (\<lambda>v. v_userId v \<noteq> u) (virtualMachines t) = filter (\<lambda>v. v_userId v \<noteq> u) (virtualMachines s) \<and>
     (\<forall>w. w \<noteq> u \<longrightarrow> find_quota w t = find_quota w s) \<and>
     (\<exists>ms. published t = published s @ ms \<and>
        (\<forall>m \<in> set ms. msg_user m = u \<and> (\<exists>vm. find_vm (msg_vm m) t = Some vm \<and> v_userId vm = u)))"

lemma acts_for_refl [simp]: "acts_for u s s"
  by (simp add: acts_for_def)

lemma acts_for_enqueued:
  assumes "find_vm (msg_vm m) s = Some vm" "v_userId vm = u" "msg_user m = u"
  shows "acts_for u s (enqueued m s)"
  using assms by (auto simp: acts_for_def)

lemma createVm_frame:
  assumes "createVm D d u role s = (r, t)"
  shows "t = s \<or> (\<exists>adm rq enc. let vm = new_vm D d u enc; t0 = (refreshed D u adm rq s)\<lparr>virtualMachines := virtualMachines s @ [vm]\<rparr>
    in no_clash vm s \<and> (t = t0 \<or> (\<exists>pub. t = enqueued (create_msg d vm pub) t0)))"
proof (cases r)
  case (Inl e)
  then show ?thesis
    using assms unfolding createVm_def Let_def
    by (auto simp: io_iffs split: option.splits if_splits dest!: transaction_Inl_state) blast+
next
  case (Inr a)
  then obtain vm pem where "createVm D d u role s = (Inr (vm, pem), t)" using assms by (cases a) simp
  then show ?thesis by (rule createVm_InrE) (auto simp: Let_def)
qed

lemma createVm_acts_for:
  assumes "createVm D d u role s = (r, t)"
  shows "acts_for u s t"
  using createVm_frame [OF assms]
proof (elim disjE exE)
  fix adm rq enc
  let ?vm = "new_vm D d u enc" and ?t0 = "(refreshed D u adm rq s)\<lparr>virtualMachines := virtualMachines s @ [new_vm D d u enc]\<rparr>"
  assume "let vm = new_vm D d u enc; t0 = (refreshed D u adm rq s)\<lparr>virtualMachines := virtualMachines s @ [vm]\<rparr>
    in no_clash vm s \<and> (t = t0 \<or> (\<exists>pub. t = enqueued (create_msg d vm pub) t0))"
  then have nc: "no_clash ?vm s" and t: "t = ?t0 \<or> (\<exists>pub. t = enqueued (create_msg d ?vm pub) ?t0)" by (auto simp: Let_def)
  have "acts_for u s ?t0"
    using find_quota_refreshed_other [of _ u D adm rq s] by (auto simp: acts_for_def find_quota_def)
  moreover have "find_vm (v_id ?vm) ?t0 = Some ?vm" by (rule find_vm_appended [OF nc]) simp
  ultimately show ?thesis using t by (auto simp: acts_for_def create_msg_def)
qed simp

lemma find_vm_id: "find_vm i s = Some vm \<Longrightarrow> v_id vm = i"
  by (auto simp: find_vm_def find_Some_iff)

lemma vmAction_state:
  assumes "vmAction D i action u role s = (r, t)" "role \<noteq> ''ADMIN''"
  shows "t = s \<or> (\<exists>vm. find_vm i s = Some vm \<and> v_userId vm = u \<and> t = enqueued (MsgAction i (v_oneVmId vm) action u) s)"
proof (cases r)
  case (Inl e)
  then show ?thesis
    using assms by (auto simp: vmAction_def io_iffs split: if_splits dest: getVm_Inl_state check_subscription_state)
next
  case (Inr m)
  then have "vmAction D i action u role s = (Inr m, t)" using assms by simp
  then obtain vm s' where "find_vm i s = Some vm" "role = ''ADMIN'' \<or> v_userId vm = u" "t = enqueued (MsgAction (v_id vm) (v_oneVmId vm) action u) s'"
    "s' = s" unfolding vmAction_def bnd_Inr_iff start_gate getVm_Inr_iff throw_if_Inr_iff publish_Inr_iff by auto
  then show ?thesis using assms(2) find_vm_id by fastforce
qed

lemma deleteVm_state:
  assumes "deleteVm D i u role s = (r, t)" "role \<noteq> ''ADMIN''"
  shows "t = s \<or> (\<exists>vm. find_vm i s = Some vm \<and> v_userId vm = u \<and> t = enqueued (MsgDelete i (v_oneVmId vm) u) s)"
  using assms by (cases r) (auto simp: deleteVm_def io_iffs dest: getVm_Inl_state find_vm_id)

lemma key_read_only: "getVmSshPrivateKey D i u role s = (r, t) \<Longrightarrow> t = s"
  by (auto simp: getVmSshPrivateKey_def bnd_eq require_eq throw_if_eq split: option.splits if_splits sum.splits)

lemma list_read_only: "listVms u role q s = (r, t) \<Longrightarrow> t = s"
  by (auto simp: listVms_def bnd_eq throw_if_eq Let_def split: js_int.splits option.splits if_splits)

lemma list_own:
  assumes "listVms u role q s = (Inr pg, t)" "role \<noteq> ''ADMIN''" "vm \<in> set (pg_data pg)"
  shows "v_userId vm = u"
proof -
  obtain p sk lmt where p: "list_where u role q = Some p" "pg_data pg = page_rows sk lmt (sort_key (\<lambda>v. - v_createdAt v) (filter p (virtualMachines s)))"
    using assms(1) by (auto simp: listVms_def io_iffs Let_def split: js_int.splits option.splits)
  have "vm \<in> set (filter p (virtualMachines s))" using assms(3) set_page_rows p(2) by fastforce
  then show ?thesis
    using p(1) assms(2) by (auto simp: list_where_def Let_def split: if_splits option.splits)
qed

fun shown :: "vm_answer \<Rightarrow> vm_row list" where
  "shown (Created vm _) = [vm]"
| "shown (Machine vm) = [vm]"
| "shown (Listing pg) = pg_data pg"
| "shown _ = []"

lemma route_acts_for:
  assumes "vm_route V u c s = (r, t)" "au_role u \<noteq> ''ADMIN''"
  shows "acts_for (au_userId u) s t"
proof (cases c)
  case (CreateMachine dto)
  then have "t = s \<or> (\<exists>r'. createVm (vh_deps V) dto (au_userId u) (au_role u) s = (r', t))"
    using assms(1) by (cases r) (auto simp: io_iffs)
  then show ?thesis using createVm_acts_for by auto
next
  case (ActOnMachine i action)
  then have "t = s \<or> (\<exists>r'. vmAction (vh_deps V) i action (au_userId u) (au_role u) s = (r', t))"
    using assms(1) by (cases r) (auto simp: io_iffs)
  then show ?thesis using assms(2) by (auto dest!: vmAction_state intro!: acts_for_enqueued)
next
  case (RemoveMachine i)
  then have "t = s \<or> (\<exists>r'. deleteVm (vh_deps V) i (au_userId u) (au_role u) s = (r', t))"
    using assms(1) by (cases r) (auto simp: io_iffs)
  then show ?thesis using assms(2) by (auto dest!: deleteVm_state intro!: acts_for_enqueued)
next
  case (ListMachines st se pg lm)
  then have "t = s" using assms(1) by (cases r) (auto simp: io_iffs dest: list_read_only)
  then show ?thesis by simp
next
  case (ReadMachineKey i)
  then have "t = s" using assms(1) by (cases r) (auto simp: io_iffs dest: key_read_only)
  then show ?thesis by simp
next
  case (ReadMachine i)
  then have "t = s" using assms(1) by (cases r) (auto simp: io_iffs dest: getVm_Inl_state)
  then show ?thesis by simp
next
  case ListTemplates
  then have "t = s" using assms(1) by (auto simp: getTemplates_def nats_request_def bnd_eq)
  then show ?thesis by simp
next
  case MachineStats
  then have "t = s" using assms(1) by (auto simp: getStats_def bnd_eq)
  then show ?thesis by simp
qed

lemma route_shows_own:
  assumes "vm_route V u c s = (Inr a, t)" "au_role u \<noteq> ''ADMIN''" "vm \<in> set (shown a)"
  shows "v_userId vm = au_userId u"
proof (cases c)
  case (CreateMachine dto)
  then obtain vm' pem where "createVm (vh_deps V) dto (au_userId u) (au_role u) s = (Inr (vm', pem), t)" "a = Created vm' pem"
    using assms(1) by (auto simp: io_iffs)
  then show ?thesis using assms(3) by (auto elim!: createVm_InrE)
next
  case (ListMachines st se pg lm)
  then show ?thesis using assms by (auto simp: io_iffs dest: list_own)
qed (use assms in \<open>auto simp: io_iffs split: prod.splits\<close>)

lemma key_own:
  assumes "getVmSshPrivateKey D i u role s = (Inr (j, n, k), t)" "role \<noteq> ''ADMIN''"
  shows "\<exists>vm. find_vm j s = Some vm \<and> v_userId vm = u"
proof -
  obtain vm where "find_vm i s = Some vm" "v_userId vm = u" "j = v_id vm"
    using assms by (auto simp: getVmSshPrivateKey_def bnd_eq require_eq throw_if_eq split: option.splits if_splits sum.splits)
  then show ?thesis using find_vm_id by blast
qed

lemma route_key_own:
  assumes "vm_route V u c s = (Inr (MachineKey i n k), t)" "au_role u \<noteq> ''ADMIN''"
  shows "\<exists>vm. find_vm i s = Some vm \<and> v_userId vm = au_userId u"
  using assms by (cases c) (auto simp: io_iffs split: prod.splits dest: key_own)

text \<open>
  C4: whatever is asked of the machine service: a request without a valid token changes nothing, and a request of a user who
  is no administrator leaves the machines and quotas of everybody else alone, publishes only messages in the
  user's name about the user's own machines, and shows no machine and no private key of anybody else.
\<close>
theorem vm_api_confined:
  assumes "vm_handle V guard c s = (r, t)"
  shows "case guard of
      Inl e \<Rightarrow> r = Inl e \<and> t = s
    | Inr u \<Rightarrow> au_role u \<noteq> ''ADMIN'' \<longrightarrow> acts_for (au_userId u) s t \<and>
        (\<forall>a. r = Inr a \<longrightarrow> (\<forall>vm \<in> set (shown a). v_userId vm = au_userId u)) \<and>
        (\<forall>i n k. r = Inr (MachineKey i n k) \<longrightarrow> (\<exists>vm. find_vm i s = Some vm \<and> v_userId vm = au_userId u))"
proof (cases guard)
  case (Inl e)
  then show ?thesis using assms by (simp add: vm_handle_def with_user_eq)
next
  case (Inr u)
  then have "vm_route V u c s = (r, t)" using assms by (simp add: vm_handle_def)
  then show ?thesis using Inr route_acts_for route_shows_own route_key_own by fastforce
qed

section \<open>Concrete requests\<close>

definition sample_api :: vm_http where
  "sample_api = \<lparr>vh_deps = sample_deps, vh_isUUID = (\<lambda>i. i = ''vm-1''), vh_templates = None\<rparr>"

definition sample_user :: "string \<Rightarrow> auth_user" where
  "sample_user i = \<lparr>au_userId = i, au_email = i @ ''@x.org'', au_role = ''USER''\<rparr>"

lemma sample_read_request:
  "vm_handle sample_api (Inr (sample_user ''alice'')) (ReadMachine ''vm-1'') one_vm_state = (Inr (Machine sample_vm), one_vm_state)"
  using sample_find
  by (simp add: vm_handle_def sample_api_def sample_user_def valid_body_eq bnd_eq getVm_def require_eq throw_if_eq sample_vm_def)

theorem vm_api_confined_witness:
  "vm_handle sample_api (Inr (sample_user ''alice'')) (ReadMachine ''vm-1'') one_vm_state = (Inr (Machine sample_vm), one_vm_state) \<and>
   v_userId sample_vm = ''alice''"
  using vm_api_confined [OF sample_read_request] sample_read_request by (simp add: sample_user_def)

end
