(* ===== verification/User_Api.thy ===== *)
theory User_Api
  imports User_Billing Body_Checks
begin

text \<open>
  The routes of the user service: \<open>user.controller.ts\<close> for the users and administrators and
  \<open>user-internal.controller.ts\<close> for the other services, with the checks of their bodies. The guards' result, the check of
  an address and the answer of the auth service to a forwarded change of the password are arguments.
\<close>

section \<open>Bodies\<close>

record user_http =
  uh_deps :: user_deps
  uh_env :: process_env
  uh_isEmail :: "string \<Rightarrow> bool"
  uh_collation :: "string \<Rightarrow> nat"
  uh_fetch :: "string \<Rightarrow> string option \<Rightarrow> string \<times> string \<Rightarrow> string fetch_result"
  uh_fetch_error :: string
  uh_json_error :: string

definition update_profile_ok :: "user_http \<Rightarrow> profile_dto \<Rightarrow> bool" where
  "update_profile_ok U dto \<longleftrightarrow>
     pred_option (\<lambda>n. 1 \<le> length n \<and> name_ok n) (f_firstName dto) \<and>
     pred_option (\<lambda>n. 1 \<le> length n \<and> name_ok n) (f_lastName dto) \<and> pred_option (uh_isEmail U) (f_email dto)"

definition forwarded_password_ok :: "string \<Rightarrow> string \<Rightarrow> bool" where
  "forwarded_password_ok oldPassword newPassword \<longleftrightarrow>
     8 \<le> length oldPassword \<and> length oldPassword \<le> 128 \<and> password_ok newPassword"

definition university_name_ok :: "string \<Rightarrow> bool" where
  "university_name_ok n \<longleftrightarrow> 1 \<le> length n \<and> length n \<le> 200"

definition create_university_ok :: "string \<Rightarrow> string \<Rightarrow> bool" where
  "create_university_ok name emailDomain \<longleftrightarrow> university_name_ok name \<and> domain_pattern emailDomain"

definition update_university_ok :: "string option \<Rightarrow> string option \<Rightarrow> bool" where
  "update_university_ok name emailDomain \<longleftrightarrow> pred_option university_name_ok name \<and> pred_option domain_pattern emailDomain"

section \<open>The password is forwarded\<close>

text \<open>
  The handler throws inside its own \<open>try\<close>, so a refusal of the auth service is caught again and reported as one that
  could not be contacted.
\<close>

definition forward_password :: "user_http \<Rightarrow> string option \<Rightarrow> string \<Rightarrow> string \<Rightarrow> exn + string" where
  "forward_password U authHeader oldPassword newPassword =
     (let authBase = rev (dropWhile (\<lambda>c. c = CHR ''/'') (rev (or_opt (uh_env U ''AUTH_SERVICE_URL'') ''http://auth:3002'')));
          failed = (\<lambda>m. Inl (BadGateway (''Failed to contact auth service: '' @ m))) in
      case uh_fetch U (authBase @ ''/auth/password'') (if truthy authHeader then authHeader else None) (oldPassword, newPassword) of
        FetchFail \<Rightarrow> failed (uh_fetch_error U)
      | Response st text body \<Rightarrow>
          if \<not> response_ok st then failed (''Auth service responded '' @ show_nat st @ '': '' @ text)
          else (case body of None \<Rightarrow> failed (uh_json_error U) | Some b \<Rightarrow> Inr b))"

section \<open>Routes of users and administrators\<close>

datatype user_request =
    ReadProfile
  | ReadProfileSummary
  | EditProfile profile_dto
  | ForwardPassword string string
  | AskVerification
  | ConfirmVerification string
  | UserStats
  | ListUsers "string option" "string option" "string option"
  | BillingOverview "string option" "string option" "string option"
  | ListUniversities
  | AddUniversity string string
  | EditUniversity id "string option" "string option"
  | RemoveUniversity id
  | ToggleUniversity id
  | ReadUser id
  | BillingSummary id
  | SetSubscription id string
  | AdminEdit id admin_dto
  | RemoveUser id

datatype user_answer =
    AProfile profile
  | ASummary "user_row \<times> quota_limits option \<times> subscription option"
  | AUser user_row
  | AText string
  | AStats "nat \<times> nat \<times> nat"
  | AUsers "(user_row \<times> quota_row option) list_page"
  | AOverview "nat \<times> (user_row \<times> plan_id option) list"
  | AUniversities "university_row list"
  | AUniversity university_row
  | ADetail "user_row \<times> quota_row option \<times> ssh_row list \<times> vm_row list"
  | ABilling "user_row \<times> plan_id option"
  | ASubscription "plan_id \<times> quota_row"

definition assertAdmin :: "auth_user \<Rightarrow> (user_state, unit) io" where
  "assertAdmin u = throw_if (au_role u \<noteq> ''ADMIN'') (Forbidden ''Admin role required'')"

definition admin_route :: "exn + auth_user \<Rightarrow> bool \<Rightarrow> (auth_user \<Rightarrow> (user_state, 'a) io) \<Rightarrow> (user_state, 'a) io" where
  "admin_route guard body_ok k =
     with_admin guard (\<lambda>u. bnd (valid_body body_ok) (\<lambda>_. bnd (assertAdmin u) (\<lambda>_. k u)))"

definition page_or :: "string option \<Rightarrow> int \<Rightarrow> js_int" where
  "page_or q d = nullish (query_int q) (Fin d)"

fun user_handle :: "user_http \<Rightarrow> exn + auth_user \<Rightarrow> string option \<Rightarrow> user_request \<Rightarrow> (user_state, user_answer) io" where
  "user_handle U guard authHeader ReadProfile =
     with_user guard (\<lambda>u. answering AProfile (getProfile (uh_deps U) (au_userId u)))"
| "user_handle U guard authHeader ReadProfileSummary =
     with_user guard (\<lambda>u. answering ASummary (getProfileSummary (uh_deps U) (au_userId u)))"
| "user_handle U guard authHeader (EditProfile dto) =
     with_user guard (\<lambda>u. bnd (valid_body (update_profile_ok U dto)) (\<lambda>_. answering AUser (updateProfile (au_userId u) dto)))"
| "user_handle U guard authHeader (ForwardPassword oldPassword newPassword) =
     with_user guard (\<lambda>_. bnd (valid_body (forwarded_password_ok oldPassword newPassword)) (\<lambda>_.
       answering AText (lift (forward_password U authHeader oldPassword newPassword))))"
| "user_handle U guard authHeader AskVerification =
     with_user guard (\<lambda>u. answering AText (requestStudentEmailVerification (uh_deps U) (au_userId u)))"
| "user_handle U guard authHeader (ConfirmVerification code) =
     with_user guard (\<lambda>u. bnd (valid_body (six_digits code)) (\<lambda>_.
       answering AText (confirmStudentEmailVerification (uh_deps U) (au_userId u) code)))"
| "user_handle U guard authHeader UserStats =
     admin_route guard True (\<lambda>u. answering AStats (user_getStats (uh_deps U) (Some (au_role u))))"
| "user_handle U guard authHeader (ListUsers page lmt search) =
     admin_route guard True (\<lambda>u. answering AUsers (findAll (page_or page 1) (page_or lmt 10) search (Some (au_role u))))"
| "user_handle U guard authHeader (BillingOverview page lmt search) =
     admin_route guard True (\<lambda>u. answering AOverview
       (getAdminBillingOverview (uh_deps U) (Some (au_role u)) (page_or page 1) (page_or lmt 20) search))"
| "user_handle U guard authHeader ListUniversities =
     admin_route guard True (\<lambda>u. answering AUniversities (listUniversities (uh_collation U) (au_userId u)))"
| "user_handle U guard authHeader (AddUniversity name emailDomain) =
     admin_route guard (create_university_ok name emailDomain) (\<lambda>u.
       answering AUniversity (createUniversity (uh_deps U) name emailDomain (au_userId u)))"
| "user_handle U guard authHeader (EditUniversity i name emailDomain) =
     admin_route guard (update_university_ok name emailDomain) (\<lambda>u.
       answering AUniversity (updateUniversity i name emailDomain (au_userId u)))"
| "user_handle U guard authHeader (RemoveUniversity i) =
     admin_route guard True (\<lambda>u. answering AText (deleteUniversity i (au_userId u)))"
| "user_handle U guard authHeader (ToggleUniversity i) =
     admin_route guard True (\<lambda>u. answering AUniversity (toggleUniversityActive i (au_userId u)))"
| "user_handle U guard authHeader (ReadUser i) =
     admin_route guard True (\<lambda>u. answering ADetail (findById i (Some (au_role u))))"
| "user_handle U guard authHeader (BillingSummary i) =
     admin_route guard True (\<lambda>u. answering ABilling (getUserBillingSummary (uh_deps U) i (Some (au_role u))))"
| "user_handle U guard authHeader (SetSubscription i plan) =
     admin_route guard (plan_of_name plan \<noteq> None) (\<lambda>u.
       answering ASubscription (setUserSubscription (uh_deps U) i (the (plan_of_name plan)) (Some (au_role u)) (Some (au_userId u))))"
| "user_handle U guard authHeader (AdminEdit i dto) =
     admin_route guard True (\<lambda>u. answering AUser (adminUpdateUser (uh_deps U) i dto (Some (au_role u)) (Some (au_userId u))))"
| "user_handle U guard authHeader (RemoveUser i) =
     admin_route guard True (\<lambda>u. answering AText (deleteUser i (Some (au_role u))))"

section \<open>Routes of the other services\<close>

datatype internal_call =
    SyncUser sync_payload
  | SubscriptionAccess id
  | QuotaSnapshot id
  | StudentVerification id
  | ActivateSubscription id string

datatype internal_answer =
    Synced id
  | Access access_snapshot
  | Quota quota_snapshot
  | Verification "bool \<times> time option"
  | Activated "id \<times> plan_id \<times> quota_row"

text \<open>
  The plan of an activation is a string that nothing checks. For a name that is no plan the catalog has no entry,
  and reading its limits is a \<open>TypeError\<close>, unless the user is an administrator, whose plan is fixed.
\<close>

definition activate_named :: "user_deps \<Rightarrow> id \<Rightarrow> string \<Rightarrow> (user_state, id \<times> plan_id \<times> quota_row) io" where
  "activate_named D userId planId =
     (case plan_of_name planId of
        Some p \<Rightarrow> activateSubscriptionPlanFromInternal D userId p
      | None \<Rightarrow>
          bnd (asks (find_user userId)) (\<lambda>r.
          bnd (require (NotFound ''User not found'') r) (\<lambda>user.
          if u_role user = ADMIN then activateSubscriptionPlanFromInternal D userId UNLIMITED
          else bnd (getPlanCatalog (plans_of D)) (\<lambda>_. throw (PlainError ''TypeError'')))))"

fun internal_route :: "user_deps \<Rightarrow> internal_call \<Rightarrow> (user_state, internal_answer) io" where
  "internal_route D (SyncUser y) =
     bnd (throw_if (y_id y = [] \<or> y_email y = []) (BadRequest ''Missing required sync payload fields'')) (\<lambda>_.
     answering (\<lambda>u. Synced (u_id u)) (syncFromAuth D y))"
| "internal_route D (SubscriptionAccess userId) =
     bnd (throw_if (userId = []) (BadRequest ''Missing userId'')) (\<lambda>_. answering Access (getInternalSubscriptionAccess D userId))"
| "internal_route D (QuotaSnapshot userId) =
     bnd (throw_if (userId = []) (BadRequest ''Missing userId'')) (\<lambda>_. answering Quota (getInternalQuotaSnapshot userId))"
| "internal_route D (StudentVerification userId) =
     bnd (throw_if (userId = []) (BadRequest ''Missing userId'')) (\<lambda>_. answering Verification (getStudentVerificationStatus userId))"
| "internal_route D (ActivateSubscription userId planId) =
     bnd (throw_if (userId = [] \<or> planId = []) (BadRequest ''Missing userId or planId'')) (\<lambda>_.
     answering Activated (activate_named D userId planId))"

definition internal_handle :: "user_deps \<Rightarrow> process_env \<Rightarrow> string option \<Rightarrow> internal_call \<Rightarrow> (user_state, internal_answer) io" where
  "internal_handle D pe syncToken c = bnd (lift (assertSyncToken pe syncToken)) (\<lambda>_. internal_route D c)"

section \<open>What a user can change\<close>

lemma admin_route_refused:
  "au_role u \<noteq> ''ADMIN'' \<Longrightarrow> admin_route (Inr u) ok k = throw (Forbidden ''Forbidden resource'')"
  by (rule ext) (simp add: admin_route_def with_admin_eq)

text \<open>
  What stays when a user acts: every quota, the universities, the other accounts, and the user's own identity, role,
  activity and second factor.
\<close>

definition own_part :: "user_row \<Rightarrow> Role \<times> bool \<times> bool \<times> string option" where
  "own_part u = (u_role u, u_isActive u, u_mfaEnabled u, u_mfaSecret u)"

definition user_frame :: "id \<Rightarrow> user_state \<Rightarrow> user_state \<Rightarrow> bool" where
  "user_frame i s t \<longleftrightarrow>
     userQuotas t = userQuotas s \<and> universities t = universities s \<and> payments t = payments s \<and>
     (\<forall>v. v \<noteq> i \<longrightarrow> find_user v t = find_user v s) \<and> map_option own_part (find_user i t) = map_option own_part (find_user i s)"

lemma user_frame_refl [simp]: "user_frame i s s"
  by (simp add: user_frame_def)

lemma frame_catalog [preserves_intros]: "preserves (user_frame i s) (getPlanCatalog P)"
proof (rule preservesI)
  fix t r t' assume "user_frame i s t" "getPlanCatalog P t = (r, t')"
  then show "user_frame i s t'" using getPlanCatalog_keeps [of P t r t'] by (simp add: user_frame_def find_user_def)
qed

lemma frame_update [preserves_intros]:
  assumes "\<And>u. u_id (f u) = u_id u" "\<And>u. own_part (f u) = own_part u"
  shows "preserves (user_frame i s) (update_user i f)"
proof (rule preservesI)
  fix t r t' assume a: "user_frame i s t" "update_user i f t = (r, t')"
  then consider "t' = t" | "t' = t\<lparr>users := update_many (\<lambda>x. u_id x = i) f (users t)\<rparr>"
    by (auto simp: update_user_def bnd_eq require_eq throw_if_eq split: option.splits if_splits)
  then show "user_frame i s t'"
  proof cases
    case 2
    then show ?thesis
      using a(1) assms by (simp add: user_frame_def find_user_update option.map_comp comp_def)
  qed (use a in simp)
qed

lemma frame_verifications [preserves_intros]:
  "preserves (user_frame i s) (modify (\<lambda>t. t\<lparr>studentEmailVerifications := f t\<rparr>))"
  "preserves (user_frame i s) (modify (\<lambda>t. t\<lparr>outbox := g t\<rparr>))"
  by (simp_all add: preserves_def user_frame_def find_user_def)

lemma frame_profile [preserves_intros]:
  "preserves (user_frame i s) (getProfile D i)" "preserves (user_frame i s) (getProfileSummary D i)"
  "preserves (user_frame i s) (updateProfile i dto)"
  "preserves (user_frame i s) (requestStudentEmailVerification D i)"
  "preserves (user_frame i s) (confirmStudentEmailVerification D i code)"
  unfolding getProfile_def getProfileSummary_def getLatestBillingCycleStart_def updateProfile_def requestStudentEmailVerification_def
    confirmStudentEmailVerification_def
  by (intro preserves_intros; simp add: own_part_def)+

lemma user_handle_frame:
  assumes "au_role u \<noteq> ''ADMIN''"
  shows "preserves (user_frame (au_userId u) s) (user_handle U (Inr u) authHeader c)"
  using assms
  by (cases c) (simp_all add: admin_route_refused, (intro preserves_intros)+)

text \<open>
  C8: whatever is asked of the user service: a request without a valid token changes nothing, and a request of a user who is
  no administrator changes no quota, no payment, no university and no other account, nor the user's own role, activity
  and second factor; in particular nobody gets a plan or a role by a request of their own.
\<close>
theorem user_api_confined:
  assumes "user_handle U guard authHeader c s = (r, t)"
  shows "case guard of
      Inl e \<Rightarrow> r = Inl e \<and> t = s
    | Inr u \<Rightarrow> au_role u \<noteq> ''ADMIN'' \<longrightarrow> user_frame (au_userId u) s t"
proof (cases guard)
  case (Inl e)
  then show ?thesis using assms by (cases c) (auto simp: with_user_eq admin_route_def with_admin_eq)
next
  case (Inr u)
  then show ?thesis using assms preservesD [OF user_handle_frame user_frame_refl] by auto
qed

text \<open>
  The internal routes serve the holder of the shared token and nobody else: any other request is refused with the same
  answer and changes nothing, whatever it asks, and without a configured token nobody is served.
\<close>
theorem internal_needs_token:
  assumes "syncToken \<noteq> Some (trim (or_opt (pe ''INTER_SERVICE_SYNC_TOKEN'') [])) \<or> syncToken = Some []"
  shows "internal_handle D pe syncToken c s = (Inl (Unauthorized ''Invalid sync token''), s)"
proof -
  have "assertSyncToken pe syncToken = Inl (Unauthorized ''Invalid sync token'')"
    using assms by (cases syncToken) (auto simp: assertSyncToken_def Let_def truthy_def)
  then show ?thesis by (simp add: internal_handle_def bnd_eq)
qed

section \<open>Concrete requests\<close>

definition sample_users_http :: user_http where
  "sample_users_http = \<lparr>uh_deps = sample_ud, uh_env = Map.empty, uh_isEmail = (\<lambda>_. True), uh_collation = length,
     uh_fetch = (\<lambda>_ _ _. FetchFail), uh_fetch_error = ''fetch failed'', uh_json_error = ''SyntaxError''\<rparr>"

definition sample_caller :: auth_user where
  "sample_caller = \<lparr>au_userId = ''alice'', au_email = ''alice@uni.tn'', au_role = ''USER''\<rparr>"

theorem user_api_confined_witness:
  "\<exists>t. user_handle sample_users_http (Inr sample_caller) None AskVerification sample_users =
     (Inr (AText ''Verification code sent to your email.''), t) \<and> user_frame ''alice'' sample_users t"
proof -
  have r: "user_handle sample_users_http (Inr sample_caller) None AskVerification sample_users =
      (Inr (AText ''Verification code sent to your email.''), asked_state)"
    using sample_request by (simp add: answering_eq sample_users_http_def sample_caller_def)
  from user_api_confined [OF r] have "user_frame ''alice'' sample_users asked_state" by (simp add: sample_caller_def)
  then show ?thesis using r by blast
qed

theorem internal_needs_token_witness:
  "internal_handle sample_ud Map.empty (Some []) (ActivateSubscription ''alice'' ''pro'') sample_users =
     (Inl (Unauthorized ''Invalid sync token''), sample_users)"
  by (rule internal_needs_token) simp

end
