(* ===== verification/Service_Links.thy ===== *)
theory Service_Links
  imports Payment_Service Vm_Api User_Api Auth_Service
begin

text \<open>
  How the services hang together: the calls that one of them sends are requests to the routes of another. The activations
  that the payment service had accepted are delivered to the internal route of the user service, the machine service's
  question for a quota is answered by another one, and so is the auth service's projection of an account.
\<close>

section \<open>The links\<close>

fun deliver :: "user_deps \<Rightarrow> process_env \<Rightarrow> string \<Rightarrow> (id \<times> plan_id) list \<Rightarrow> (user_state, unit) io" where
  "deliver D pe token [] = ret ()"
| "deliver D pe token ((u, p) # rest) =
     bnd (internal_handle D pe (Some token) (ActivateSubscription u (plan_name p))) (\<lambda>_. deliver D pe token rest)"

text \<open>
  What the machine service asks for reaches the route of the user service, whose answers it gets with the status and the body
  that the route gives them.
\<close>

definition quota_link :: "vm_deps \<Rightarrow> user_deps \<Rightarrow> process_env \<Rightarrow> user_state \<Rightarrow> bool" where
  "quota_link V D pe s \<longleftrightarrow>
     (\<forall>base token i q t. getUserServiceUrl (penv V) = Inr base \<longrightarrow> ascii i \<longrightarrow>
        internal_handle D pe (Some token) (QuotaSnapshot i) s = (Inr (Quota q), t) \<longrightarrow>
        quota_endpoint V (base @ ''/users/internal/quota/'' @ encodeURIComponent i) token = Response 200 [] (Some q))"

section \<open>Activations\<close>

lemma deliver_append: "deliver D pe token (xs @ ys) = bnd (deliver D pe token xs) (\<lambda>_. deliver D pe token ys)"
proof (induction xs)
  case Nil
  show ?case by (rule ext) (simp add: bnd_eq)
next
  case (Cons x xs)
  obtain u p where "x = (u, p)" by (cases x)
  then show ?case using Cons by (auto simp: bnd_def fun_eq_iff split: prod.split sum.split)
qed

lemma internal_handle_Inr:
  "internal_handle D pe token c s = (Inr a, t) \<longleftrightarrow> assertSyncToken pe token = Inr () \<and> internal_route D c s = (Inr a, t)"
  by (auto simp: internal_handle_def io_iffs)

lemma activation_Inr:
  assumes "internal_handle D pe (Some token) (ActivateSubscription u (plan_name p)) s = (Inr a, t)"
    and "find_user u s = Some user" "u_role user = USER"
  obtains q cat where "u \<noteq> []" "users t = users s" "getPlanCatalog (plans_of D) t = (Inr cat, t)" "limits_match (cat p) q" "find_quota u t = Some q"
    "internal_handle D pe (Some token) (QuotaSnapshot u) t =
       (Inr (Quota \<lparr>hasActiveSubscription = True, sn_planId = Some (plan_name p), sn_quota = Some (quota_limits_of q)\<rparr>), t)"
proof -
  obtain q where u: "u \<noteq> []" "assertSyncToken pe (Some token) = Inr ()" "upsertQuota D u p s = (Inr q, t)"
    using assms by (auto simp: internal_handle_Inr activate_named_def activateSubscriptionPlanFromInternal_def io_iffs Let_def)
  from upsertQuota_Inr [OF u(3)] obtain cat where c: "getPlanCatalog (plans_of D) t = (Inr cat, t)" "limits_match (cat p) q"
    "q_planId q = Some (plan_name p)" "find_quota u t = Some q" "users t = users s" by auto
  then have "find_user u t = Some user" using assms(2) by (simp add: find_user_def)
  then have "internal_handle D pe (Some token) (QuotaSnapshot u) t =
       (Inr (Quota \<lparr>hasActiveSubscription = True, sn_planId = Some (plan_name p), sn_quota = Some (quota_limits_of q)\<rparr>), t)"
    using u c assms(3) by (simp add: internal_handle_Inr answering_eq getInternalQuotaSnapshot_def bnd_eq require_eq throw_if_eq)
  with that u c show thesis by blast
qed

lemma deliver_users:
  assumes "deliver D pe token (map (Pair u) ps) s = (Inr (), t)" "find_user u s = Some user" "u_role user = USER"
  shows "users t = users s"
  using assms(1,2)
proof (induction ps arbitrary: s)
  case (Cons p ps)
  then obtain a s1 where a: "internal_handle D pe (Some token) (ActivateSubscription u (plan_name p)) s = (Inr a, s1)"
    "deliver D pe token (map (Pair u) ps) s1 = (Inr (), t)" by (auto simp: io_iffs)
  from activation_Inr [OF a(1) Cons.prems(2) assms(3)] have s1: "users s1 = users s" by metis
  then show ?case using Cons.IH [OF a(2)] Cons.prems(2) by (simp add: find_user_def)
qed simp

text \<open>After the plans of a payment were delivered, the snapshot of the quota is that of the last of them.\<close>

lemma delivered_quota:
  assumes "deliver D pe token (map (Pair u) ps) s = (Inr (), t)" "ps \<noteq> []" "find_user u s = Some user" "u_role user = USER"
  obtains q cat where "u \<noteq> []" "getPlanCatalog (plans_of D) t = (Inr cat, t)" "limits_match (cat (last ps)) q"
    "internal_handle D pe (Some token) (QuotaSnapshot u) t =
       (Inr (Quota \<lparr>hasActiveSubscription = True, sn_planId = Some (plan_name (last ps)), sn_quota = Some (quota_limits_of q)\<rparr>), t)"
proof -
  have "map (Pair u) ps = map (Pair u) (butlast ps) @ [(u, last ps)]"
    using assms(2) by (metis append_butlast_last_id list.simps(8,9) map_append)
  then obtain s1 a where s1: "deliver D pe token (map (Pair u) (butlast ps)) s = (Inr (), s1)"
    "internal_handle D pe (Some token) (ActivateSubscription u (plan_name (last ps))) s1 = (Inr a, t)"
    using assms(1) by (auto simp: deliver_append io_iffs)
  have "find_user u s1 = Some user" using deliver_users [OF s1(1) assms(3,4)] assms(3) by (simp add: find_user_def)
  from activation_Inr [OF s1(2) this assms(4)] that show thesis by metis
qed

section \<open>The quota of the machine service\<close>

lemma linked_snapshot:
  assumes "quota_link V D pe s" "getUserServiceUrl (penv V) = Inr base" "getInterServiceSyncToken (penv V) = Inr token" "ascii u"
    and "internal_handle D pe (Some token) (QuotaSnapshot u) s = (Inr (Quota q), t)"
  shows "fetchInternalQuotaSnapshot V u = Inr (Some q)"
proof -
  have "quota_endpoint V (base @ ''/users/internal/quota/'' @ encodeURIComponent u) token = Response 200 [] (Some q)"
    using assms by (auto simp: quota_link_def)
  then show ?thesis
    using assms(2,3) by (simp add: fetchInternalQuotaSnapshot_def fetch_snapshot_def fetchWithTimeout_def response_ok_def json_body_def)
qed

text \<open>What the machines of a user take is within the limits of a plan.\<close>

definition machines_within :: "id \<Rightarrow> plan_config \<Rightarrow> vm_state \<Rightarrow> bool" where
  "machines_within u g s \<longleftrightarrow>
     int (count_rows (active_of u) (virtualMachines s)) \<le> g_maxVms g \<and>
     sum_rows v_cpu (active_of u) (virtualMachines s) \<le> g_maxCpu g \<and>
     sum_rows v_ramMb (active_of u) (virtualMachines s) \<le> g_maxRamMb g \<and>
     sum_rows v_diskGb (active_of u) (virtualMachines s) \<le> g_maxDiskGb g"

lemma created_within_snapshot:
  assumes "createVm V d u role s = (Inr (vm, pem), t)" "role \<noteq> ''ADMIN''"
    and "fetchInternalQuotaSnapshot V u = Inr (Some \<lparr>hasActiveSubscription = True, sn_planId = pl, sn_quota = Some (quota_limits_of q)\<rparr>)"
    and "limits_match g q"
  shows "machines_within u g t"
  using assms(1)
proof (rule createVm_InrE)
  fix rq pub enc
  let ?s = "refreshed V u (role = ''ADMIN'') (if role = ''ADMIN'' then None else Some rq) s"
  assume rq: "role \<noteq> ''ADMIN'' \<Longrightarrow> fetchInternalQuotaSnapshot V u = Inr (Some rq) \<and> hasActiveSubscription rq"
    and vm: "vm = new_vm V d u enc" and fit: "fits (role = ''ADMIN'') u d ?s"
    and t: "t = enqueued (create_msg d vm pub) (?s\<lparr>virtualMachines := virtualMachines s @ [vm]\<rparr>)"
  have "rq = \<lparr>hasActiveSubscription = True, sn_planId = pl, sn_quota = Some (quota_limits_of q)\<rparr>" using rq assms(2,3) by simp
  then have r: "?s = upsert_quota V u (quota_limits_of q) s" using assms(2) by (simp add: refreshed_def)
  have "within_quota u (?s\<lparr>virtualMachines := virtualMachines ?s @ [vm]\<rparr>)"
    using fits_imp_within [OF _ vm, of ?s] fit assms(2) by (simp del: refreshed_simps)
  then have "within_quota u t" by (simp add: t within_quota_def)
  moreover have "find_quota u t = find_quota u ?s" by (simp add: t find_quota_def)
  ultimately show ?thesis
    using assms(4) unfolding r
    by (auto simp: within_quota_def machines_within_def limits_match_def limit_of_def find_quota_upsert quota_limits_of_def Let_def split: option.splits)
qed

text \<open>Who serves the quotas matters only through the snapshot that is read.\<close>

lemma createVm_endpoint:
  assumes "fetchInternalQuotaSnapshot (V\<lparr>quota_endpoint := e\<rparr>) u = fetchInternalQuotaSnapshot V u"
  shows "createVm (V\<lparr>quota_endpoint := e\<rparr>) d u role s = createVm V d u role s"
proof -
  have sel: "crypto_of (V\<lparr>quota_endpoint := e\<rparr>) = crypto_of V" "rsa_pair (V\<lparr>quota_endpoint := e\<rparr>) = rsa_pair V"
    "penv (V\<lparr>quota_endpoint := e\<rparr>) = penv V" "iv_bytes (V\<lparr>quota_endpoint := e\<rparr>) = iv_bytes V" "clock (V\<lparr>quota_endpoint := e\<rparr>) = clock V"
    "vm_uuid (V\<lparr>quota_endpoint := e\<rparr>) = vm_uuid V" "quota_uuid (V\<lparr>quota_endpoint := e\<rparr>) = quota_uuid V"
    "js_refuses (V\<lparr>quota_endpoint := e\<rparr>) = js_refuses V" "tx_abort (V\<lparr>quota_endpoint := e\<rparr>) = tx_abort V"
    by simp_all
  have "ssh_key_of (V\<lparr>quota_endpoint := e\<rparr>) d = ssh_key_of V d"
    "create_tx (V\<lparr>quota_endpoint := e\<rparr>) d u adm rq enc = create_tx V d u adm rq enc"
    "publish (V\<lparr>quota_endpoint := e\<rparr>) m = publish V m" for adm rq enc m
    unfolding ssh_key_of_def create_tx_def upsert_quota_def [abs_def] new_vm_def publish_def sel by (rule refl)+
  note eqs = this
  show ?thesis unfolding createVm_def eqs assms sel by (rule refl)
qed

section \<open>The projection of an account\<close>

definition agrees :: "user_row \<Rightarrow> user_row \<Rightarrow> bool" where
  "agrees u v \<longleftrightarrow> u_id v = u_id u \<and> u_email v = u_email u \<and> u_firstName v = u_firstName u \<and> u_lastName v = u_lastName u \<and>
     u_role v = u_role u \<and> u_isActive v = u_isActive u \<and> u_mfaEnabled v = u_mfaEnabled u \<and> u_mfaEnabledAt v = u_mfaEnabledAt u"

lemma sync_role_projection [simp]: "sync_role (projection u) = u_role u"
  by (cases "u_role u") (simp_all add: sync_role_def projection_def)

lemma projection_created: "agrees u (sync_create D (projection u))" "u_password (sync_create D (projection u)) = []"
  by (simp_all add: agrees_def sync_create_def) (simp_all add: projection_def)

lemma projection_updated:
  "u_id v = u_id u \<Longrightarrow> agrees u (sync_update (projection u) v)" "u_password (sync_update (projection u) v) = u_password v"
  "u_id (sync_update (projection u) v) = u_id v"
  by (simp_all add: agrees_def sync_update_def) (simp_all add: projection_def)

lemma syncFromAuth_projection:
  assumes "syncFromAuth D (projection u) s = (Inr w, t)"
  shows "u_id w = u_id u \<and> (\<exists>v. find_user (u_id u) t = Some v \<and> agrees u v \<and>
    u_password v = (case find_user (u_id u) s of None \<Rightarrow> [] | Some old \<Rightarrow> u_password old) \<and>
    (u_role u = ADMIN \<longrightarrow> (\<exists>q. find_quota (u_id u) t = Some q \<and> q_planId q = Some ''unlimited'')))"
proof -
  have pid: "y_id (projection u) = u_id u" by (simp add: projection_def)
  obtain s1 where s1: "(if find_user (u_id u) s \<noteq> None then update_user (u_id u) (sync_update (projection u)) else insert_user (sync_create D (projection u))) s = (Inr w, s1)"
    and q: "if u_role u = ADMIN then \<exists>q. upsertQuota D (u_id w) UNLIMITED s1 = (Inr q, t) else t = s1"
    using assms unfolding syncFromAuth_def by (auto simp: io_iffs pid split: if_splits)
  have v: "find_user (u_id u) s1 = Some w \<and> agrees u w \<and> u_password w = (case find_user (u_id u) s of None \<Rightarrow> [] | Some old \<Rightarrow> u_password old)"
  proof (cases "find_user (u_id u) s")
    case None
    then show ?thesis
      using s1 projection_created(1) [of u D] projection_created(2) [of D u]
      by (auto simp: io_iffs find_user_def find_append agrees_def split: option.split)
  next
    case (Some old)
    then have "w = sync_update (projection u) old" "s1 = s\<lparr>users := update_many (\<lambda>x. u_id x = u_id u) (sync_update (projection u)) (users s)\<rparr>"
      using s1 by (auto simp: io_iffs)
    then show ?thesis
      using Some projection_updated [of old u] find_user_Some [OF Some] 
      by (simp add: find_user_update projection_updated(2,3))
  qed
  show ?thesis
  proof (cases "u_role u = ADMIN")
    case True
    then obtain q where "upsertQuota D (u_id u) UNLIMITED s1 = (Inr q, t)" using q v by (auto simp: agrees_def)
    from upsertQuota_Inr [OF this] show ?thesis using v True by (auto simp: find_user_def agrees_def)
  next
    case False
    then show ?thesis using q v by (simp add: agrees_def)
  qed
qed

end
