(* ===== verification/Payment_Api.thy ===== *)
theory Payment_Api
  imports Payment_Service Body_Checks
begin

text \<open>
  The routes of the payment service: \<open>payment.controller.ts\<close> with the checks of its bodies. The list of plans and the
  webhook are open; everything else is behind the guard of the token, and the plans are changed by administrators only.
\<close>

section \<open>Routes\<close>

definition checkout_ok :: "string \<Rightarrow> bool" where
  "checkout_ok planId \<longleftrightarrow> planId \<in> set [''student'', ''pro'', ''enterprise'']"

definition confirm_ok :: "string \<Rightarrow> bool" where
  "confirm_ok sessionId \<longleftrightarrow> 10 \<le> length sessionId"

definition update_plan_ok :: "plan_patch \<Rightarrow> bool" where
  "update_plan_ok pt \<longleftrightarrow>
     pred_option (\<lambda>x. fl (1 / 100) \<le> x) (ap_amountDt pt) \<and> pred_option (\<lambda>x. 1 \<le> x) (ap_vmHoursMonthly pt) \<and>
     pred_option (\<lambda>x. 1 \<le> x) (ap_maxVms pt) \<and> pred_option (\<lambda>x. 1 \<le> x) (ap_maxCpu pt) \<and>
     pred_option (\<lambda>x. 512 \<le> x) (ap_maxRamMb pt) \<and> pred_option (\<lambda>x. 5 \<le> x) (ap_maxDiskGb pt)"

datatype pay_request =
    Checkout string
  | ConfirmSession string
  | MyPayments
  | PublicPlans
  | AdminPlans
  | EditPlan string plan_patch
  | Webhook string "string option"

datatype pay_answer =
    CheckoutOpened checkout_result
  | Confirmed "nat \<times> plan_id list"
  | PaymentList "payment_row list"
  | PlanList "public_plan list"
  | EditedPlan plan_row
  | Received

fun pay_handle :: "pay_deps \<Rightarrow> exn + auth_user \<Rightarrow> pay_request \<Rightarrow> (payment_state, pay_answer) io" where
  "pay_handle D guard (Checkout planId) =
     with_user guard (\<lambda>u. bnd (valid_body (checkout_ok planId)) (\<lambda>_.
       answering CheckoutOpened (createCheckoutSession D (au_userId u) (au_role u) planId)))"
| "pay_handle D guard (ConfirmSession sessionId) =
     with_user guard (\<lambda>u. bnd (valid_body (confirm_ok sessionId)) (\<lambda>_.
       answering Confirmed (confirmCheckoutSession D (au_userId u) sessionId)))"
| "pay_handle D guard MyPayments = with_user guard (\<lambda>u. answering PaymentList (listPayments (au_userId u)))"
| "pay_handle D guard PublicPlans = answering PlanList (getPublicPlans D)"
| "pay_handle D guard AdminPlans = with_user guard (\<lambda>u. answering PlanList (adminGetAllPlans D (Some (au_role u))))"
| "pay_handle D guard (EditPlan planId pt) =
     with_user guard (\<lambda>u. bnd (valid_body (update_plan_ok pt)) (\<lambda>_.
       answering EditedPlan (adminUpdatePlan D (Some (au_role u)) planId pt)))"
| "pay_handle D guard (Webhook body signature) = answering (\<lambda>_. Received) (handleWebhook D body signature)"

section \<open>What a request can change\<close>

text \<open>
  A step in a buyer's name: the payments of everybody else stay, no event of the webhook is recorded, and checkouts are opened and plans activated for the
  buyer only.
\<close>

definition pay_frame :: "id \<Rightarrow> payment_state \<Rightarrow> payment_state \<Rightarrow> bool" where
  "pay_frame u s t \<longleftrightarrow>
     filter (\<lambda>p. p_userId p \<noteq> u) (payments t) = filter (\<lambda>p. p_userId p \<noteq> u) (payments s) \<and>
     stripeWebhookEvents t = stripeWebhookEvents s \<and>
     (\<exists>cs. checkouts t = checkouts s @ cs \<and> (\<forall>c \<in> set cs. co_userId c = u)) \<and> (\<exists>acts. activations t = activations s @ acts \<and> (\<forall>a \<in> set acts. fst a = u))"

lemma pay_frame_refl [simp]: "pay_frame u s s"
  by (simp add: pay_frame_def)

lemma frame_plan_rows [preserves_intros]:
  "preserves (pay_frame u s) plan_rows" "preserves (pay_frame u s) findPlanRows" "preserves (pay_frame u s) (seedPlanConfigs uuid seed)"
  by (rule preservesI, auto simp: plan_rows_eq table_there_def pay_frame_def split: if_splits)
    (unfold findPlanRows_def seedPlanConfigs_def, (intro preserves_intros preserves_modify; simp add: pay_frame_def)+)

lemma frame_shop_catalog [preserves_intros]: "preserves (pay_frame u s) (shop_getPlanCatalog D)" "preserves (pay_frame u s) (refreshPlanCatalog D)"
  unfolding shop_getPlanCatalog_def refreshPlanCatalog_def loadPlanCatalog_def
  by (intro preserves_intros preserves_modify; simp add: pay_frame_def)+

lemma frame_insert [preserves_intros]: "p_userId p = u \<Longrightarrow> preserves (pay_frame u s) (insert_payment p)"
  unfolding insert_payment_def by (intro preserves_intros preserves_modify) (simp add: pay_frame_def)

lemma frame_open: "co_userId req = u \<Longrightarrow> pay_frame u s t \<Longrightarrow> pay_frame u s (t\<lparr>checkouts := checkouts t @ [req]\<rparr>)"
  by (auto simp: pay_frame_def)

lemma frame_checkout [preserves_intros]: "preserves (pay_frame u s) (createCheckoutSession D u role planName)"
  unfolding createCheckoutSession_def Let_def by (intro preserves_intros preserves_modify; simp add: frame_open)

lemma frame_sync_plan: "preserves (pay_frame u s) (syncQuotaForPlan D u pl)"
proof (rule preservesI)
  fix t r t' assume "pay_frame u s t" "syncQuotaForPlan D u pl t = (r, t')"
  then show "pay_frame u s t'"
    by (cases r) (auto simp: pay_frame_def dest!: syncQuotaForPlan_Inl syncQuotaForPlan_Inr split: option.splits)
qed

lemma frame_sync_all: "(\<And>p. p \<in> set ps \<Longrightarrow> p_userId p = u) \<Longrightarrow> preserves (pay_frame u s) (sync_all D ps)"
proof (induction ps)
  case (Cons p ps)
  then have "p_userId p = u" by simp
  then show ?case using Cons by (auto simp: Let_def intro!: preserves_intros frame_sync_plan)
qed (simp add: preserves_intros)

lemma filter_marked:
  assumes "\<And>p. p \<in> set ps \<Longrightarrow> q p \<Longrightarrow> p_userId p = u"
  shows "filter (\<lambda>p. p_userId p \<noteq> u) (update_many q (\<lambda>p. p\<lparr>p_status := st\<rparr>) ps) = filter (\<lambda>p. p_userId p \<noteq> u) ps"
  using assms by (induction ps) (auto simp: update_many_def)

lemma frame_mark:
  assumes "u \<noteq> []" "distinct (map p_id (payments s))" "markStripeSessionAsPaid D sid (Some u) s = (r, t)"
  shows "pay_frame u s t"
proof -
  let ?m = "filter (method_matches sid) (payments s)"
  let ?f = "update_many (\<lambda>p. p_id p \<in> p_id ` set ?m \<and> p_status p \<notin> set paid_statuses) (\<lambda>p. p\<lparr>p_status := ''paid''\<rparr>)"
  consider "?m = []" | "?m \<noteq> []" "\<exists>p \<in> set ?m. p_userId p \<noteq> u" | "?m \<noteq> []" "\<forall>p \<in> set ?m. p_userId p = u" by blast
  then show ?thesis
  proof cases
    case 1
    then show ?thesis using assms(3) by (simp add: markStripeSessionAsPaid_def bnd_eq)
  next
    case 2
    then have "truthy (Some u) \<and> (\<exists>p \<in> set ?m. p_userId p \<noteq> the (Some u))" using assms(1) by simp
    then show ?thesis using assms(3) 2(1) unfolding markStripeSessionAsPaid_def by (simp only: bnd_eq asks_eq throw_if_eq if_False) (simp add: bnd_eq throw_if_eq)
  next
    case 3
    then have "\<not> (truthy (Some u) \<and> (\<exists>p \<in> set ?m. p_userId p \<noteq> the (Some u)))" by simp
    then obtain r' where r': "sync_all D ?m (s\<lparr>payments := ?f (payments s)\<rparr>) = (r', t)"
      using assms(3) 3(1) unfolding markStripeSessionAsPaid_def by (auto simp: bnd_eq throw_if_eq split: prod.splits sum.splits if_splits)
    have "p = p'" if "p \<in> set (payments s)" "p' \<in> set (payments s)" "p_id p = p_id p'" for p p'
      using assms(2) that by (meson distinct_map inj_on_def)
    then have "filter (\<lambda>p. p_userId p \<noteq> u) (?f (payments s)) = filter (\<lambda>p. p_userId p \<noteq> u) (payments s)"
      using 3(2) by (intro filter_marked) fastforce
    then have f: "pay_frame u s (s\<lparr>payments := ?f (payments s)\<rparr>)" by (simp add: pay_frame_def)
    have "preserves (pay_frame u s) (sync_all D ?m)" using 3(2) by (intro frame_sync_all) simp
    from preservesD [OF this f r'] show ?thesis .
  qed
qed

lemma confirm_frame:
  assumes "u \<noteq> []" "distinct (map p_id (payments s))" "confirmCheckoutSession D u sid s = (r, t)"
  shows "pay_frame u s t"
proof -
  have "t = s \<or> (\<exists>r'. markStripeSessionAsPaid D sid (Some u) s = (r', t))"
    using assms(3) by (auto simp: confirmCheckoutSession_def bnd_eq throw_if_eq require_eq split: if_splits sum.splits option.splits)
  then show ?thesis using frame_mark [OF assms(1,2)] by auto
qed

lemma frame_readers [preserves_intros]:
  "preserves (pay_frame u s) (listPayments w)" "preserves (pay_frame u s) (getPublicPlans D)" "preserves (pay_frame u s) (adminGetAllPlans D role)"
  unfolding listPayments_def getPublicPlans_def adminGetAllPlans_def shop_assertAdminRole_def by (intro preserves_intros)+

lemma frame_edit [preserves_intros]: "preserves (pay_frame u s) (adminUpdatePlan D role p pt)"
  unfolding adminUpdatePlan_def shop_assertAdminRole_def
  by (intro preserves_intros preserves_modify) (simp add: pay_frame_def)

lemma route_frame:
  assumes "\<forall>sid. c \<noteq> ConfirmSession sid" "\<forall>b sig. c \<noteq> Webhook b sig"
  shows "preserves (pay_frame (au_userId u) s) (pay_handle D (Inr u) c)"
  using assms by (cases c) (simp_all only: pay_handle.simps with_user_Inr, (intro preserves_intros | simp)+)

section \<open>The plans on sale\<close>

text \<open>
  Loading the catalog writes plans when there are none: those of the configuration. That is the only way a request of
  somebody who is no administrator can write a plan.
\<close>

definition configured_rows :: "pay_deps \<Rightarrow> (plan_id \<Rightarrow> seed_config) \<Rightarrow> plan_row list" where
  "configured_rows D seed = insert_skipping (map (\<lambda>p. the (seed_row (plan_uuid (shop_plans D)) p (seed p))) REQUIRED_PLAN_IDS) []"

definition configured :: "pay_deps \<Rightarrow> plan_row list \<Rightarrow> bool" where
  "configured D rows \<longleftrightarrow> (\<exists>seed. loadManagedSubscriptionCatalogFromEnv (json_of (shop_plans D)) (plan_env (shop_plans D)) = Inr seed \<and>
     rows = configured_rows D seed)"

definition plans_kept :: "pay_deps \<Rightarrow> payment_state \<Rightarrow> payment_state \<Rightarrow> bool" where
  "plans_kept D s t \<longleftrightarrow>
     (if plan_rows_present s then plan_table t \<and> planConfigs t = planConfigs s
      else planConfigs t \<in> {planConfigs s, []} \<or> configured D (planConfigs t))"

lemma plans_kept_refl [simp]: "plans_kept D s s"
  by (simp add: plans_kept_def plan_rows_present_def)

lemma plans_kept_frames [simp]:
  "plans_kept D s (t\<lparr>planCatalog := c\<rparr>) = plans_kept D s t" "plans_kept D s (t\<lparr>checkouts := x\<rparr>) = plans_kept D s t"
  "plans_kept D s (t\<lparr>payments := y\<rparr>) = plans_kept D s t" "plans_kept D s (t\<lparr>activations := z\<rparr>) = plans_kept D s t"
  by (simp_all add: plans_kept_def)

lemma load_writes:
  assumes "loadPlanCatalog D t = (r, t')"
  shows "t' = t \<or> \<not> plan_rows_present t \<and> (planConfigs t' = [] \<or> configured D (planConfigs t'))"
proof (cases "planConfigs (table_there t) = []")
  case False
  then show ?thesis using assms by (auto simp: loadPlanCatalog_def bnd_eq plan_rows_eq table_there_def split: if_splits)
next
  case True
  then have "\<not> plan_rows_present t" by (auto simp: plan_rows_present_def table_there_def split: if_splits)
  moreover have "planConfigs t' = [] \<or> configured D (planConfigs t')"
  proof (cases "loadManagedSubscriptionCatalogFromEnv (json_of (shop_plans D)) (plan_env (shop_plans D))")
    case (Inl e)
    then show ?thesis using assms True by (simp add: loadPlanCatalog_def bnd_eq plan_rows_eq)
  next
    case (Inr seed)
    obtain x t1 where 1: "seedPlanConfigs (plan_uuid (shop_plans D)) seed (table_there t) = (x, t1)" by fastforce
    have "planConfigs t' = planConfigs t1"
      using assms True Inr 1 seedPlanConfigs_cases [OF 1]
      by (auto simp: loadPlanCatalog_def bnd_eq plan_rows_eq findPlanRows_eq throw_if_eq split: if_splits)
    moreover have "planConfigs t1 = [] \<or> planConfigs t1 = configured_rows D seed"
      using seedPlanConfigs_cases [OF 1] True by (auto simp: configured_rows_def)
    ultimately show ?thesis using Inr by (auto simp: configured_def)
  qed
  ultimately show ?thesis by blast
qed

lemma kept_load [preserves_intros]: "preserves (plans_kept D s) (loadPlanCatalog D)"
proof (rule preservesI)
  fix t r t' assume kept: "plans_kept D s t" and run: "loadPlanCatalog D t = (r, t')"
  have "plan_rows_present t" if "plan_rows_present s" using kept that by (simp add: plans_kept_def plan_rows_present_def)
  then show "plans_kept D s t'" using load_writes [OF run] kept by (auto simp: plans_kept_def)
qed

lemma kept_catalog [preserves_intros]: "preserves (plans_kept D s) (shop_getPlanCatalog D)"
  unfolding shop_getPlanCatalog_def by (intro preserves_intros preserves_modify) simp

lemma kept_checkout [preserves_intros]: "preserves (plans_kept D s) (createCheckoutSession D u role planName)"
  unfolding createCheckoutSession_def insert_payment_def by (intro preserves_intros preserves_modify; simp)

lemma kept_sync_all: "preserves (plans_kept D s) (sync_all D ps)"
proof (rule preservesI)
  fix t r t' assume "plans_kept D s t" "sync_all D ps t = (r, t')"
  then show "plans_kept D s t'" using sync_all_frame [of D ps t r t'] by (auto simp: plans_kept_def)
qed

lemma kept_confirm [preserves_intros]: "preserves (plans_kept D s) (confirmCheckoutSession D u sid)"
  unfolding confirmCheckoutSession_def markStripeSessionAsPaid_def
  by (intro preserves_intros preserves_modify kept_sync_all) simp

lemma kept_readers [preserves_intros]:
  "preserves (plans_kept D s) (listPayments w)" "preserves (plans_kept D s) (getPublicPlans D)"
  unfolding listPayments_def getPublicPlans_def by (intro preserves_intros)+

lemma kept_admin [preserves_intros]:
  "role \<noteq> Some ''ADMIN'' \<Longrightarrow> preserves P (adminGetAllPlans D role)" "role \<noteq> Some ''ADMIN'' \<Longrightarrow> preserves P (adminUpdatePlan D role p pt)"
  by (simp_all add: preserves_def adminGetAllPlans_def adminUpdatePlan_def shop_assertAdminRole_def bnd_eq throw_if_eq)

lemma route_kept:
  assumes "au_role u \<noteq> ''ADMIN''" "\<forall>b sig. c \<noteq> Webhook b sig"
  shows "preserves (plans_kept D s) (pay_handle D (Inr u) c)"
  using assms by (cases c) (simp_all only: pay_handle.simps with_user_Inr, (intro preserves_intros | simp)+)

lemma open_plans_frame:
  assumes "getPublicPlans D s = (r, t)"
  shows "plans_kept D s t \<and> payments t = payments s \<and> checkouts t = checkouts s \<and> activations t = activations s"
proof -
  have "snd (shop_getPlanCatalog D s) = t"
    using assms by (auto simp: getPublicPlans_def bnd_eq split: prod.splits sum.splits)
  then have "payments t = payments s \<and> checkouts t = checkouts s \<and> activations t = activations s"
    using shop_catalog_frame [of D s "fst (shop_getPlanCatalog D s)" t] by (metis prod.collapse)
  then show ?thesis using preservesD [OF kept_readers(2) plans_kept_refl assms] by simp
qed

text \<open>
  C9: whatever is asked of the payment service, its webhook apart. Without a valid token a request is refused and changes
  nothing, unless it asks for the open list of plans, which can only put the configured plans into an empty table. With one, no payment of anybody else
  changes, checkouts are opened and plans activated for the caller only, and no event counts as delivered; and when the caller is no administrator, the plans
  on sale stay as they are, or, as long as there are none, become those of the configuration.
\<close>
theorem payment_api_confined:
  assumes "pay_handle D guard c s = (r, t)" "\<forall>b sig. c \<noteq> Webhook b sig" "distinct (map p_id (payments s))"
  shows "case guard of
      Inl e \<Rightarrow> if c = PublicPlans then plans_kept D s t \<and> payments t = payments s \<and> checkouts t = checkouts s \<and> activations t = activations s
              else r = Inl e \<and> t = s
    | Inr u \<Rightarrow> (au_userId u \<noteq> [] \<longrightarrow> pay_frame (au_userId u) s t) \<and> (au_role u \<noteq> ''ADMIN'' \<longrightarrow> plans_kept D s t)"
proof (cases guard)
  case (Inl e)
  show ?thesis
  proof (cases "c = PublicPlans")
    case True
    then obtain r' where "getPublicPlans D s = (r', t)" using assms(1) by (auto simp: answering_eq split: prod.splits sum.splits)
    from open_plans_frame [OF this] show ?thesis using True Inl by simp
  next
    case False
    then show ?thesis using Inl assms(1,2) by (cases c) (auto simp: with_user_eq)
  qed
next
  case (Inr u)
  have "pay_frame (au_userId u) s t" if "au_userId u \<noteq> []"
  proof (cases "\<exists>sid. c = ConfirmSession sid")
    case True
    then have "t = s \<or> (\<exists>sid r'. confirmCheckoutSession D (au_userId u) sid s = (r', t))"
      using assms(1) Inr by (auto simp: bnd_eq valid_body_eq answering_eq split: if_splits prod.splits sum.splits)
    then show ?thesis using confirm_frame [OF that assms(3)] by auto
  next
    case False
    then have "preserves (pay_frame (au_userId u) s) (pay_handle D (Inr u) c)" using assms(2) by (intro route_frame) auto
    from preservesD [OF this pay_frame_refl] show ?thesis using assms(1) Inr by simp
  qed
  moreover have "plans_kept D s t" if "au_role u \<noteq> ''ADMIN''"
    using preservesD [OF route_kept [OF that assms(2)] plans_kept_refl] assms(1) Inr by simp
  ultimately show ?thesis using Inr by simp
qed

section \<open>A concrete request\<close>

definition buyer :: auth_user where
  "buyer = \<lparr>au_userId = ''alice'', au_email = ''alice@uni.tn'', au_role = ''USER''\<rparr>"

lemma buyer_buys:
  "\<exists>res t. pay_handle sample_pd (Inr buyer) (Checkout ''pro'') sample_shop = (Inr (CheckoutOpened res), t) \<and> payments t \<noteq> payments sample_shop"
proof -
  obtain res t where run: "createCheckoutSession sample_pd ''alice'' ''USER'' ''pro'' sample_shop = (Inr res, t)"
    using sample_checkout by blast
  obtain pl cat s1 req where "shop_getPlanCatalog sample_pd sample_shop = (Inr cat, s1)"
    "t = s1\<lparr>checkouts := checkouts s1 @ [req], payments := payments s1 @ [pending_for sample_pd ''alice'' pl res]\<rparr>"
    using createCheckout_Inr [OF run] by metis
  then have "payments t \<noteq> payments sample_shop" by (auto dest: shop_catalog_frame)
  then show ?thesis using run by (simp add: bnd_eq valid_body_eq answering_eq checkout_ok_def buyer_def)
qed

theorem payment_api_confined_witness:
  "\<exists>res t. pay_handle sample_pd (Inr buyer) (Checkout ''pro'') sample_shop = (Inr (CheckoutOpened res), t) \<and> payments t \<noteq> payments sample_shop \<and>
     pay_frame ''alice'' sample_shop t \<and> plans_kept sample_pd sample_shop t"
proof -
  obtain res t where run: "pay_handle sample_pd (Inr buyer) (Checkout ''pro'') sample_shop = (Inr (CheckoutOpened res), t)"
    and new: "payments t \<noteq> payments sample_shop" using buyer_buys by blast
  from payment_api_confined [OF run] have "pay_frame ''alice'' sample_shop t \<and> plans_kept sample_pd sample_shop t"
    by (simp add: buyer_def)
  then show ?thesis using run new by blast
qed

end
