(* ===== verification/Ai_Api.thy ===== *)
theory Ai_Api
  imports Ai_Chat_Gateway Ai_Safety Body_Checks
begin

text \<open>
  The routes of the assistant: \<open>ai.controller.ts\<close>. All are behind the guard of the token. The streamed chat writes the
  answer as events: one with the identifiers, one for each run of characters, one at the end; a failure is an event as well.
\<close>

datatype stream_event =
    StreamMeta id id "string option" "string option" "pending_action option"
  | StreamChunk string
  | StreamDone
  | StreamError string

datatype ai_request =
    NewConversation "string option"
  | ListConversations
  | ReadMessages id
  | Chat chat_dto
  | ConfirmAction confirm_dto
  | StreamChat chat_dto

datatype ai_answer =
    AConversation conversation_row
  | AConversations "(conversation_row \<times> nat) list"
  | AMessages "conversation_row \<times> message_row list"
  | AChat chat_response
  | AConfirmed confirm_result
  | AStream "stream_event list"

definition conversation_ok :: "string option \<Rightarrow> bool" where
  "conversation_ok title \<longleftrightarrow> pred_option (\<lambda>t. length t \<le> 120) title"

definition chat_ok :: "(string \<Rightarrow> bool) \<Rightarrow> chat_dto \<Rightarrow> bool" where
  "chat_ok isUUID dto \<longleftrightarrow>
     length (cd_message dto) \<le> 8000 \<and> pred_option isUUID (cd_conversationId dto) \<and>
     pred_option (list_all (\<lambda>(_, content). length content \<le> 8000)) (cd_history dto) \<and>
     pred_option (list_all (\<lambda>i. length i \<le> 2000000)) (cd_images dto)"

definition confirm_action_ok :: "(string \<Rightarrow> bool) \<Rightarrow> confirm_dto \<Rightarrow> bool" where
  "confirm_action_ok isUUID dto \<longleftrightarrow> length (cf_token dto) \<le> 2048 \<and> pred_option isUUID (cf_conversationId dto)"

definition stream_of :: "chat_response \<Rightarrow> stream_event list" where
  "stream_of r =
     StreamMeta (rs_conversationId r) (ms_id (rs_message r)) (ms_provider (rs_message r)) (ms_model (rs_message r)) (rs_pendingAction r) #
     map StreamChunk (split_runs (ms_content (rs_message r))) @ [StreamDone]"

definition streamChat :: "ai_deps \<Rightarrow> auth_user \<Rightarrow> chat_dto \<Rightarrow> (ai_state, stream_event list) io" where
  "streamChat D user dto = try_catch (answering stream_of (chat D user dto)) (\<lambda>_. ret [StreamError ''Streaming failed''])"

fun ai_route :: "ai_deps \<Rightarrow> (string \<Rightarrow> bool) \<Rightarrow> auth_user \<Rightarrow> ai_request \<Rightarrow> (ai_state, ai_answer) io" where
  "ai_route D isUUID user (NewConversation title) =
     bnd (valid_body (conversation_ok title)) (\<lambda>_. answering AConversation (createConversation D user title))"
| "ai_route D isUUID user ListConversations = answering AConversations (listConversations user)"
| "ai_route D isUUID user (ReadMessages i) = answering AMessages (getMessages user i)"
| "ai_route D isUUID user (Chat dto) = bnd (valid_body (chat_ok isUUID dto)) (\<lambda>_. answering AChat (chat D user dto))"
| "ai_route D isUUID user (ConfirmAction dto) =
     bnd (valid_body (confirm_action_ok isUUID dto)) (\<lambda>_. answering AConfirmed (confirmAction D user dto))"
| "ai_route D isUUID user (StreamChat dto) = bnd (valid_body (chat_ok isUUID dto)) (\<lambda>_. answering AStream (streamChat D user dto))"

definition ai_handle :: "ai_deps \<Rightarrow> (string \<Rightarrow> bool) \<Rightarrow> exn + auth_user \<Rightarrow> ai_request \<Rightarrow> (ai_state, ai_answer) io" where
  "ai_handle D isUUID guard c = with_user guard (\<lambda>user. ai_route D isUUID user c)"

section \<open>The stream is the answer\<close>

fun stream_text :: "stream_event list \<Rightarrow> string" where
  "stream_text [] = []"
| "stream_text (StreamChunk w # es) = w @ stream_text es"
| "stream_text (_ # es) = stream_text es"

lemma stream_text_chunks: "stream_text (map StreamChunk ws @ es) = concat ws @ stream_text es"
  by (induction ws) simp_all

text \<open>
  A streamed chat is the chat: it leaves the same state, and its chunks put together are the text of the message that the chat
  stored, closed by one event that says so; a chat that fails is streamed as one error without any text.
\<close>
theorem stream_is_chat:
  assumes "chat D user dto s = (r, t)" "chat_ok isUUID dto"
  shows "\<exists>es. ai_handle D isUUID (Inr user) (StreamChat dto) s = (Inr (AStream es), t) \<and>
    (case r of
       Inr a \<Rightarrow> stream_text es = ms_content (rs_message a) \<and> last es = StreamDone \<and> StreamChunk [] \<notin> set es
     | Inl e \<Rightarrow> es = [StreamError ''Streaming failed''])"
proof (cases r)
  case (Inl e)
  then show ?thesis
    using assms by (simp add: ai_handle_def bnd_eq valid_body_eq answering_eq streamChat_def try_catch_eq)
next
  case (Inr a)
  have "stream_text (stream_of a) = ms_content (rs_message a)"
    by (simp add: stream_of_def stream_text_chunks concat_split_runs)
  moreover have "StreamChunk [] \<notin> set (stream_of a)"
    using split_runs_nonempty by (auto simp: stream_of_def)
  moreover have "last (stream_of a) = StreamDone" by (simp add: stream_of_def)
  ultimately show ?thesis
    using assms Inr by (simp add: ai_handle_def bnd_eq valid_body_eq answering_eq streamChat_def try_catch_eq)
qed

section \<open>What the assistant sends\<close>

definition sent_for :: "(string \<Rightarrow> bool) \<Rightarrow> ai_deps \<times> (exn + auth_user) \<times> ai_request \<Rightarrow> action_request list" where
  "sent_for isUUID call =
     (case call of (D, Inr user, ConfirmAction dto) \<Rightarrow> if confirm_action_ok isUUID dto then sent_by_confirmation D user dto else [] | _ \<Rightarrow> [])"

definition serve :: "(string \<Rightarrow> bool) \<Rightarrow> ai_deps \<times> (exn + auth_user) \<times> ai_request \<Rightarrow> ai_state \<Rightarrow> ai_state" where
  "serve isUUID call s = (case call of (D, guard, c) \<Rightarrow> snd (ai_handle D isUUID guard c s))"

lemma stream_sends_nothing [preserves_intros]: "preserves (\<lambda>t. sent_actions t = X) (streamChat D user dto)"
  unfolding streamChat_def by (intro preserves_intros)

lemma other_routes_send_nothing:
  assumes "\<forall>dto. c \<noteq> ConfirmAction dto"
  shows "preserves (\<lambda>t. sent_actions t = X) (ai_route D isUUID user c)"
  using assms by (cases c) (simp_all only: ai_route.simps, (intro preserves_intros | simp)+)

lemma serve_sends: "sent_actions (serve isUUID call s) = sent_actions s @ sent_for isUUID call"
proof -
  obtain D guard c where call: "call = (D, guard, c)" by (cases call) auto
  show ?thesis
  proof (cases guard)
    case (Inl e)
    then show ?thesis by (simp add: call serve_def sent_for_def ai_handle_def with_user_eq)
  next
    case (Inr user)
    show ?thesis
    proof (cases "\<exists>dto. c = ConfirmAction dto")
      case True
      then obtain dto where c: "c = ConfirmAction dto" by blast
      have "sent_actions (snd (answering AConfirmed (confirmAction D user dto) s)) = sent_actions s @ sent_by_confirmation D user dto"
        using confirmation_sends [of D user dto s] by (cases "confirmAction D user dto s") (simp add: answering_eq split: sum.split)
      then show ?thesis by (simp add: call Inr c serve_def sent_for_def ai_handle_def bnd_eq valid_body_eq)
    next
      case False
      then have "preserves (\<lambda>t. sent_actions t = sent_actions s) (ai_route D isUUID user c)" by (intro other_routes_send_nothing) blast
      from preservesD [OF this, of s "fst (ai_route D isUUID user c s)" "snd (ai_route D isUUID user c s)"]
      have "sent_actions (snd (ai_route D isUUID user c s)) = sent_actions s" by simp
      moreover have "sent_for isUUID call = []" using False by (cases c) (simp_all add: call Inr sent_for_def)
      ultimately show ?thesis by (simp add: call Inr serve_def ai_handle_def)
    qed
  qed
qed

lemma socket_sends_nothing: "sent_actions (gw_ai (handleAiChat G now i p g)) = sent_actions (gw_ai g)"
proof -
  have chat: "sent_actions (snd (chat D user dto s)) = sent_actions s" for D user dto s
    using preservesD [OF chat_sends_nothing [of "sent_actions s" D user dto], of s "fst (chat D user dto s)" "snd (chat D user dto s)"] by simp
  have "sent_actions (gw_ai (run_chat G i requestId user p g')) = sent_actions (gw_ai g')" for requestId user g'
    using chat [of "as_service G" user "payload_dto p" "gw_ai g'"] by (auto simp: run_chat_def ai_emit_def split: prod.split sum.split)
  then show ?thesis
    by (auto simp: handleAiChat_def Let_def ai_emit_def ai_disconnect_def ai_handleDisconnect_def allowEventRate_def split: option.split prod.split bool.split)
qed

text \<open>
  C30: the assistant asks the vm service for an action only when a confirmation was presented. Over any history of requests to its routes, by any
  users and with any outcomes, the actions sent are exactly these, in order: one for every request that presents a confirmation token which verifies
  and names the user who presents it, for the machine and the action of that token, which is a start, a stop or a restart. Chats, streamed or over a
  socket, and everything else send nothing. A confirmation is not used up: presented again while it is valid, it is sent again.
\<close>
theorem only_confirmed_actions_sent:
  "sent_actions (fold (serve isUUID) calls s) = sent_actions s @ concat (map (sent_for isUUID) calls) \<and>
   sent_actions (gw_ai (handleAiChat G now i p g)) = sent_actions (gw_ai g)"
proof
  show "sent_actions (fold (serve isUUID) calls s) = sent_actions s @ concat (map (sent_for isUUID) calls)"
    by (induction calls arbitrary: s) (simp_all add: serve_sends)
qed (rule socket_sends_nothing)

end
