(* ===== verification/Key_Api.thy ===== *)
theory Key_Api
  imports Ssh_Keys Body_Checks
begin

text \<open>
  The routes of a user's SSH keys: \<open>ssh-key.controller.ts\<close> with the checks of its bodies, all behind the guard of the token.
\<close>

datatype key_request =
    ListKeys
  | AddKey create_key_dto
  | GenerateKey "string option"
  | RemoveKey id

datatype key_answer =
    KeyList "ssh_row list"
  | AddedKey ssh_row
  | GeneratedKey generated_key
  | KeyRemoved string

definition create_key_ok :: "create_key_dto \<Rightarrow> bool" where
  "create_key_ok dto \<longleftrightarrow> 1 \<le> length (dto_name dto) \<and> name_ok (dto_name dto) \<and>
     length (dto_publicKey dto) \<le> 4096 \<and> starts_with (dto_publicKey dto) ''ssh-''"

definition generate_key_ok :: "string option \<Rightarrow> bool" where
  "generate_key_ok name \<longleftrightarrow> pred_option (\<lambda>n. 1 \<le> length n \<and> name_ok n) name"

fun key_handle :: "ssh_deps \<Rightarrow> exn + auth_user \<Rightarrow> key_request \<Rightarrow> ('a db_scheme, key_answer) io" where
  "key_handle D guard ListKeys = with_user guard (\<lambda>u. answering KeyList (findAllByUser (au_userId u)))"
| "key_handle D guard (AddKey dto) =
     with_user guard (\<lambda>u. bnd (valid_body (create_key_ok dto)) (\<lambda>_. answering AddedKey (create_key D (au_userId u) dto)))"
| "key_handle D guard (GenerateKey name) =
     with_user guard (\<lambda>u. bnd (valid_body (generate_key_ok name)) (\<lambda>_. answering GeneratedKey (generateAndCreate D (au_userId u) name)))"
| "key_handle D guard (RemoveKey i) = with_user guard (\<lambda>u. answering KeyRemoved (delete_key i (au_userId u)))"

section \<open>What a user can change\<close>

definition key_frame :: "id \<Rightarrow> 'a db_scheme \<Rightarrow> 'a db_scheme \<Rightarrow> bool" where
  "key_frame u s t \<longleftrightarrow> filter (\<lambda>k. k_userId k \<noteq> u) (sshKeys t) = filter (\<lambda>k. k_userId k \<noteq> u) (sshKeys s)"

lemma store_key_frame:
  assumes "store_key r s = (x, t)"
  shows "key_frame (k_userId r) s t"
  using assms by (auto simp: store_key_def insert_key_def key_frame_def try_catch_eq bnd_eq throw_if_eq split: if_splits)

lemma create_key_frame: "create_key D u dto s = (x, t) \<Longrightarrow> key_frame u s t"
  by (auto simp: create_key_def bnd_eq key_frame_def split: sum.splits dest!: store_key_frame)

lemma generate_frame: "generateAndCreate D u n s = (x, t) \<Longrightarrow> key_frame u s t"
  by (auto simp: generateAndCreate_def bnd_eq throw_if_eq Let_def key_frame_def split: sum.splits if_splits prod.splits dest!: store_key_frame)

lemma delete_frame:
  assumes "delete_key i u s = (x, t)" "distinct (map k_id (sshKeys s))"
  shows "key_frame u s t"
proof (cases "t = s")
  case False
  then obtain k where k: "find_key i s = Some k" "k_userId k = u" "t = s\<lparr>sshKeys := delete_many (\<lambda>k. k_id k = i) (sshKeys s)\<rparr>"
    using assms(1) by (auto simp: delete_key_def bnd_eq require_eq throw_if_eq split: option.splits if_splits)
  then have k': "k \<in> set (sshKeys s)" "k_id k = i" by (auto simp: find_key_def find_Some_iff)
  have "k_userId x = u" if "x \<in> set (sshKeys s)" "k_id x = i" for x
    using assms(2) that k' k(2) by (metis distinct_map inj_onD)
  then have "filter (\<lambda>k. k_userId k \<noteq> u) (filter (\<lambda>k. k_id k \<noteq> i) ks) = filter (\<lambda>k. k_userId k \<noteq> u) ks" if "set ks \<subseteq> set (sshKeys s)" for ks
    using that by (induction ks) auto
  then show ?thesis using k(3) by (simp add: key_frame_def delete_many_def)
qed (simp add: key_frame_def)

text \<open>
  A request about keys is refused without a valid token and changes nothing then; with one it leaves the keys of everybody
  else as they are, and lists no key but the caller's.
\<close>
theorem key_api_confined:
  assumes "key_handle D guard c s = (r, t)" "distinct (map k_id (sshKeys s))"
  shows "case guard of
      Inl e \<Rightarrow> r = Inl e \<and> t = s
    | Inr u \<Rightarrow> key_frame (au_userId u) s t \<and> (\<forall>ks. r = Inr (KeyList ks) \<longrightarrow> (\<forall>k \<in> set ks. k_userId k = au_userId u))"
proof (cases guard)
  case (Inl e)
  then show ?thesis using assms by (cases c) (auto simp: with_user_eq)
next
  case (Inr u)
  have "key_frame (au_userId u) s t"
    using assms Inr
    by (cases c) (auto simp: answering_eq bnd_eq valid_body_eq findAllByUser_def key_frame_def split: if_splits prod.splits sum.splits
        dest!: create_key_frame generate_frame delete_frame)
  moreover have "\<forall>ks. r = Inr (KeyList ks) \<longrightarrow> (\<forall>k \<in> set ks. k_userId k = au_userId u)"
    using assms(1) Inr
    by (cases c) (auto simp: answering_eq bnd_eq valid_body_eq findAllByUser_def split: if_splits prod.splits sum.splits)
  ultimately show ?thesis using Inr by simp
qed

end
