(* ===== verification/Api_Isolation.thy ===== *)
theory Api_Isolation
  imports Vm_Api User_Api Key_Api
begin

text \<open>
  The contract that the guarded interfaces of the services share, and what follows from it for whole histories of requests:
  what a service holds for a user is out of reach of everybody else who is no administrator, whatever they ask and in whatever order.
\<close>

section \<open>Histories\<close>

fun run_requests :: "(exn + auth_user \<Rightarrow> 'c \<Rightarrow> ('s, 'a) io) \<Rightarrow> ((exn + auth_user) \<times> 'c) list \<Rightarrow> 's \<Rightarrow> 's" where
  "run_requests handle [] s = s"
| "run_requests handle ((g, c) # rest) s = run_requests handle rest (snd (handle g c s))"

definition of_others :: "id \<Rightarrow> ((exn + auth_user) \<times> 'c) list \<Rightarrow> bool" where
  "of_others v reqs \<longleftrightarrow>
     list_all (\<lambda>(g, c). case g of Inl e \<Rightarrow> True | Inr u \<Rightarrow> au_role u \<noteq> ''ADMIN'' \<and> au_userId u \<noteq> v) reqs"

section \<open>The contract\<close>

locale isolated_api =
  fixes handle :: "exn + auth_user \<Rightarrow> 'c \<Rightarrow> ('s, 'a) io" and inv :: "'s \<Rightarrow> bool" and view :: "id \<Rightarrow> 's \<Rightarrow> 'v"
  assumes refused: "handle (Inl e) c s = (Inl e, s)"
    and kept: "inv s \<Longrightarrow> handle (Inr u) c s = (r, t) \<Longrightarrow> au_role u \<noteq> ''ADMIN'' \<Longrightarrow> inv t"
    and foreign: "inv s \<Longrightarrow> handle (Inr u) c s = (r, t) \<Longrightarrow> au_role u \<noteq> ''ADMIN'' \<Longrightarrow> v \<noteq> au_userId u \<Longrightarrow> view v t = view v s"
begin

lemma one_request:
  assumes "inv s" "of_others v [(g, c)]"
  shows "inv (snd (handle g c s)) \<and> view v (snd (handle g c s)) = view v s"
proof (cases g)
  case (Inl e)
  then show ?thesis using assms refused by simp
next
  case (Inr u)
  obtain r t where run: "handle (Inr u) c s = (r, t)" by (cases "handle (Inr u) c s")
  have other: "au_role u \<noteq> ''ADMIN''" "v \<noteq> au_userId u" using assms(2) Inr by (auto simp: of_others_def)
  show ?thesis using kept [OF assms(1) run other(1)] foreign [OF assms(1) run other] by (simp add: Inr run)
qed

lemma history:
  assumes "inv s" "of_others v reqs"
  shows "inv (run_requests handle reqs s) \<and> view v (run_requests handle reqs s) = view v s"
  using assms
proof (induction reqs arbitrary: s)
  case (Cons x reqs)
  obtain g c where x: "x = (g, c)" by (cases x)
  have "inv (snd (handle g c s)) \<and> view v (snd (handle g c s)) = view v s"
    using one_request [OF Cons.prems(1), of v g c] Cons.prems(2) by (simp add: x of_others_def)
  then show ?case using Cons by (simp add: x of_others_def)
qed simp

end

section \<open>The services keep it\<close>

definition vm_view :: "id \<Rightarrow> vm_state \<Rightarrow> vm_row list \<times> quota_row option \<times> vm_msg list" where
  "vm_view v s = (filter (\<lambda>m. v_userId m = v) (virtualMachines s), find_quota v s, filter (\<lambda>m. msg_user m = v) (published s))"

lemma acts_for_view:
  assumes "acts_for u s t" "v \<noteq> u"
  shows "vm_view v t = vm_view v s"
proof -
  have "filter (\<lambda>m. v_userId m = v) (filter (\<lambda>m. v_userId m \<noteq> u) ms) = filter (\<lambda>m. v_userId m = v) ms" for ms
    using assms(2) by (auto intro: filter_cong)
  then have "filter (\<lambda>m. v_userId m = v) (virtualMachines t) = filter (\<lambda>m. v_userId m = v) (virtualMachines s)"
    using assms(1) unfolding acts_for_def by metis
  moreover obtain ms where "published t = published s @ ms" "\<forall>m \<in> set ms. msg_user m = u"
    using assms(1) unfolding acts_for_def by blast
  ultimately show ?thesis using assms by (auto simp: vm_view_def acts_for_def filter_empty_conv)
qed

interpretation vm_isolated: isolated_api "vm_handle V" "\<lambda>_. True" vm_view for V
proof
  show "vm_handle V (Inl e) c s = (Inl e, s)" for e c s by (simp add: vm_handle_def with_user_eq)
next
  show "vm_view v t = vm_view v s"
    if "vm_handle V (Inr u) c s = (r, t)" "au_role u \<noteq> ''ADMIN''" "v \<noteq> au_userId u" for v u c s r t
    using that route_acts_for [of V u c s r t] acts_for_view by (simp add: vm_handle_def)
qed simp

definition user_view :: "id \<Rightarrow> user_state \<Rightarrow> user_row option \<times> quota_row option" where
  "user_view v s = (find_user v s, find_quota v s)"

interpretation user_isolated: isolated_api "\<lambda>g. user_handle U g authHeader" "\<lambda>_. True" user_view for U authHeader
proof
  show "user_handle U (Inl e) authHeader c s = (Inl e, s)" for e c s
    by (cases c) (simp_all add: with_user_eq admin_route_def with_admin_eq)
next
  show "user_view v t = user_view v s"
    if "user_handle U (Inr u) authHeader c s = (r, t)" "au_role u \<noteq> ''ADMIN''" "v \<noteq> au_userId u" for v u c s r t
    using preservesD [OF user_handle_frame [OF that(2)] user_frame_refl that(1)] that(3)
    by (simp add: user_view_def user_frame_def find_quota_def)
qed simp

definition key_view :: "id \<Rightarrow> 'a db_scheme \<Rightarrow> ssh_row list" where
  "key_view v s = filter (\<lambda>k. k_userId k = v) (sshKeys s)"

lemma key_handle_ok: "preserves ssh_keys_ok (key_handle D (Inr u) c)"
proof -
  note keep = keys_stay_unique [THEN conjunct1] keys_stay_unique [THEN conjunct2, THEN conjunct1]
    keys_stay_unique [THEN conjunct2, THEN conjunct2, THEN conjunct1] keys_stay_unique [THEN conjunct2, THEN conjunct2, THEN conjunct2]
  show ?thesis by (cases c) (simp_all add: keep preserves_intros)
qed

lemma key_frame_view:
  assumes "key_frame u s t" "v \<noteq> u"
  shows "key_view v t = key_view v s"
proof -
  have "filter (\<lambda>k. k_userId k = v) (filter (\<lambda>k. k_userId k \<noteq> u) ks) = filter (\<lambda>k. k_userId k = v) ks" for ks
    using assms(2) by (auto intro: filter_cong)
  then show ?thesis using assms(1) unfolding key_frame_def key_view_def by metis
qed

lemma key_route_frame:
  assumes "key_handle D (Inr u) c s = (r, t)" "distinct (map k_id (sshKeys s))"
  shows "key_frame (au_userId u) s t"
  using assms
  by (cases c) (auto simp: answering_eq bnd_eq valid_body_eq findAllByUser_def key_frame_def split: if_splits prod.splits sum.splits
      dest!: create_key_frame generate_frame delete_frame)

interpretation key_isolated: isolated_api "key_handle D" ssh_keys_ok key_view for D
proof
  show "key_handle D (Inl e) c s = (Inl e, s)" for e c s by (cases c) (simp_all add: with_user_eq)
next
  show "ssh_keys_ok t" if "ssh_keys_ok s" "key_handle D (Inr u) c s = (r, t)" for u c s r t
    using preservesD [OF key_handle_ok that] .
next
  show "key_view v t = key_view v s"
    if "ssh_keys_ok s" "key_handle D (Inr u) c s = (r, t)" "v \<noteq> au_userId u" for v u c s r t
    using key_route_frame [OF that(2)] that(1,3) key_frame_view by (auto simp: ssh_keys_ok_def)
qed

text \<open>
  C10: whatever other users who are no administrators ask, with or without a valid token, any number of requests in any order: a user's
  machines, quota and messages in the machine service, account and quota in the user service, and SSH keys stay as they are.
\<close>
theorem others_requests_isolated:
  assumes "of_others v vs" "of_others v us" "of_others v ks" "ssh_keys_ok k"
  shows "vm_view v (run_requests (vm_handle V) vs s) = vm_view v s \<and>
    user_view v (run_requests (\<lambda>g. user_handle U g authHeader) us t) = user_view v t \<and>
    key_view v (run_requests (key_handle D) ks k) = key_view v k"
  using vm_isolated.history [OF _ assms(1)] user_isolated.history [OF _ assms(2)] key_isolated.history [OF assms(4,3)] by blast

theorem others_requests_isolated_witness:
  "vm_view ''alice'' (run_requests (vm_handle sample_api) [(Inr (sample_user ''mallory''), RemoveMachine ''vm-1''), (Inl (Unauthorized []), MachineStats)] one_vm_state) =
     vm_view ''alice'' one_vm_state \<and>
   user_view ''alice'' (run_requests (\<lambda>g. user_handle sample_users_http g None) [(Inr (sample_user ''mallory''), SetSubscription ''alice'' ''student'')] sample_users) =
     user_view ''alice'' sample_users \<and>
   key_view ''alice'' (run_requests (key_handle sample_key_deps) [(Inr (sample_user ''mallory''), ListKeys)] sample_key_db) = key_view ''alice'' sample_key_db"
  by (rule others_requests_isolated) (simp_all add: of_others_def sample_user_def ssh_keys_ok_def sample_key_facts)

end
