(* ===== verification/Spec2Isabelle.thy ===== *)
theory Spec2Isabelle
  imports Vm_Events Payment_Service Terminal_Safety Ssh_Keys Ai_Safety Ai_Chat_Gateway
    Auth_Browser Auth_Edge Vnc_Gateway Plan_Service Web_Safety Service_Links Payment_Api Ai_Api Api_Isolation
begin

text \<open>
  CloudVM: a cloud of virtual machines sold by plans. The program is a set of services in
  TypeScript (\<open>src/services\<close>): \<open>auth\<close> keeps the accounts, second factors and sessions; \<open>user\<close> keeps
  a projection of the accounts with quotas, subscriptions, student verification and billing;
  \<open>payment\<close> sells the plans through Stripe; \<open>vm\<close> creates and operates the machines through a
  message queue that a worker serves. Every service has a database with the tables of the same
  \<open>schema.prisma\<close>; they call each other over HTTP with a shared token, and requests carry tokens
  signed by \<open>auth\<close>.

  \<^bold>\<open>How the code is read.\<close> An \<open>async\<close> method is a function from the service's state to its result
  or exception and the state it leaves (\<open>Js_Prelude\<close>, type \<open>io\<close>); what was written before a
  \<open>throw\<close> stays, a transaction that throws is undone. A table is the list of its rows in the order
  of insertion, a query an operation on lists, a violated constraint a \<open>PrismaError\<close>. A double is
  the rational it stands for with the rounding written out (\<open>Js_Number\<close>). Strings are code units
  below 256. The log lines, the \<open>updatedAt\<close> columns and the pool of connections are left out. One
  call reads the clock once.

  \<^bold>\<open>What is a parameter.\<close> Code outside the repository: the crypto primitives and \<open>bcrypt\<close>, the
  signing and verification of tokens, the HTTP client with what the other side answers, Stripe,
  the mail server, random draws and identifiers, the process environment. A theorem that needs a
  law of one of them has it as a hypothesis.

  \<^bold>\<open>Theories.\<close>
  \<^item> \<open>Js_Prelude\<close>, \<open>Js_Number\<close>, \<open>Js_Map\<close>, \<open>Js_Regex\<close>, \<open>Base64\<close>, \<open>Paging\<close>, \<open>Rate_Window\<close>: the language with its numbers, its
    \<open>Map\<close> and its regular expressions as far as they are used, the listings, and the windows in which requests are counted.
  \<^item> \<open>Cloud_Schema\<close>, \<open>Account_Rows\<close>, \<open>Internal_Api\<close>, \<open>Redis_Kv\<close>, \<open>Body_Checks\<close>: the database, the rows of the
    users, the calls between services, the key-value store, and what the controllers share.
  \<^item> \<open>Vm_Ssh_Key\<close>, \<open>Vm_Service\<close>, \<open>Vm_Api\<close>: \<open>vm-ssh-key.crypto.ts\<close>, \<open>vm.service.ts\<close> and \<open>vm.controller.ts\<close>; creation within the
    quota, atomic failure, ownership, the accepted actions, the private key's round trip, listings, and that no
    request reaches beyond its caller's machines.
  \<^item> \<open>Vm_Lifecycle\<close>: the status updates of \<open>nats.service.ts\<close> and the histories of the whole service as
    a step relation; the quota as an invariant under orderly updates, the bounds and the uniqueness of machines and of their creation
    messages as invariants under any updates, and the late update that breaks the quota.
  \<^item> \<open>Plan_Service\<close>: \<open>plan.service.ts\<close> and \<open>plan.controller.ts\<close>, the plans that the machine service keeps in memory.
  \<^item> \<open>Request_Security\<close>: \<open>request-security.util.ts\<close>, \<open>jwt.strategy.ts\<close>, \<open>roles.guard.ts\<close>, the start-up
    checks; tokens bound to the client, cookies.
  \<^item> \<open>Plan_Catalog\<close>, \<open>User_Service\<close>, \<open>User_Billing\<close>, \<open>User_Api\<close>: \<open>user.service.ts\<close>, \<open>user.controller.ts\<close> and
    \<open>user-internal.controller.ts\<close>; what a user's own requests can change, and the shared token of the internal routes.
  \<^item> \<open>Ssh_Keys\<close>, \<open>Key_Api\<close>: \<open>ssh-key.service.ts\<close> and its controller; the wire format of a generated key reads back, keys stay unique.
  \<^item> \<open>Api_Isolation\<close>: the contract of the machine, account and key routes as an interface, and over whole histories of requests that
    other users change nothing of what a service holds for a user.
  \<^item> \<open>Payment_Service\<close>, \<open>Payment_Api\<close>: \<open>payment.service.ts\<close> and its controller; what a checkout charges and
    records and by which rules, confirmation, webhook, and that requests leave the payments of others and the plans on sale alone.
  \<^item> \<open>Auth_Totp\<close>, \<open>Auth_Service\<close>: \<open>totp.util.ts\<close> and \<open>auth.service.ts\<close>. \<open>Auth_Security\<close> shows what a
    login needs and that refused logins lock an address, \<open>Auth_Sessions\<close> that refresh tokens,
    challenges and recovery codes work once, that an ended session stays ended under every operation, and
    what happens when two refreshes overlap; \<open>Auth_Witnesses\<close> instantiates these theorems.
  \<^item> \<open>Auth_Controller\<close>, \<open>Auth_Http\<close>, \<open>Auth_Browser\<close>, \<open>Auth_Edge\<close>: \<open>auth.controller.ts\<close> with its guards and bodies, what its
    routes do to accounts and cookies and how the cookies are protected, a browser that keeps the cookies over several requests, and the checks of
    \<open>auth/src/main.ts\<close> before every route.
  \<^item> \<open>Web_Socket\<close>, \<open>Vm_Events\<close>: the handshake of a socket and \<open>vm-events.gateway.ts\<close>; a private key
    reaches its owner only.
  \<^item> \<open>Terminal_Telemetry\<close>, \<open>Terminal_State\<close>, \<open>Terminal_Input\<close>, \<open>Terminal_Connect\<close>, \<open>Terminal_Safety\<close>:
    \<open>terminal.gateway.ts\<close> with its telemetry; the limits of the input, the dangerous commands, and
    the histories of connections as a step relation in which every open shell goes back to an authorised request of its socket.
  \<^item> \<open>Vnc_Gateway\<close>: \<open>vnc.gateway.ts\<close> as a step relation over the events of its sockets; links are authorised and do not mix.
  \<^item> \<open>Gateway_Limits\<close>, \<open>Gateway_Edge\<close>: the rate limits of the gateway as a refinement of an abstract window, with
    every failure of Redis, and the checks of \<open>gateway/src/main.ts\<close> on requests and upgrades.
  \<^item> \<open>Ai_Text\<close>, \<open>Ai_Service\<close>, \<open>Ai_Safety\<close>, \<open>Ai_Chat_Gateway\<close>, \<open>Ai_Api\<close>: the assistant, its text processing, providers, confirmations,
    socket and routes; over whole histories the actions sent are those
    that their users confirmed.
  \<^item> \<open>Web_Client\<close>, \<open>Web_Safety\<close>: \<open>frontend/src/lib\<close>, the session store, the client that refreshes and retries, and the stored keys.
  \<^item> \<open>Service_Links\<close> and this theory: the calls that the services send, delivered to the routes that serve them. A plan that was
    paid is the limit of the machines created afterwards, and an account is the same in both services that keep it.

  \<^bold>\<open>Interfaces.\<close> What several operations promise alike is a locale that each of them interprets: the owner's check of the
    machine handlers, the administrator's check of the user handlers, the updates that keep a key, the
    counting windows of the three limiters, the tables that sessions rest on, the guarded routes that touch their caller's data only.

  No definition needs fuel: every loop of the modelled code is over a finite list or shrinks a
  number, and the client's retry ends by its flag.

  \<^bold>\<open>Not modelled.\<close> The pages and components of the browser interface, which render; the gateway's proxying, which is
  routes handed to a library; requests to one service that overlap while they wait for the database, save the two halves of a refresh; the modules and database clients, which are wiring; the worker in Python, migrations and
  deployment files.
\<close>

section \<open>Properties that span the services\<close>

text \<open>
  C3: what was paid for is what one can use: when a confirmed payment's plans were delivered to the user service, a machine that
  the buyer then creates fits, with all the buyer's machines that are not deleted, the four limits of the last plan
  that was paid, as the user service's catalog has them. This spans the payment, user and machine services; that a
  request of one reaches the route of the other with its token is the hypothesis on the network.
\<close>
theorem bought_plan_limits_machines:
  assumes "confirmCheckoutSession P u sid ps = (Inr (n, plans), ps')" "plans \<noteq> []" "u \<noteq> []" "ascii u"
    and "getInterServiceSyncToken (shop_env P) = Inr token"
    and "deliver D pe token (drop (length (activations ps)) (activations ps')) us = (Inr (), us')"
    and "find_user u us = Some user" "u_role user = USER"
    and "quota_link V D pe us'" "getUserServiceUrl (penv V) = Inr base" "getInterServiceSyncToken (penv V) = Inr token"
    and "vm_handle W (Inr caller) (CreateMachine d) vs = (Inr (Created vm pem), vs')" "vh_deps W = V"
    and "au_userId caller = u" "au_role caller = ''USER''"
  shows "\<exists>cat. getPlanCatalog (plans_of D) us' = (Inr cat, us') \<and> machines_within u (cat (last plans)) vs' \<and>
    virtualMachines vs' = virtualMachines vs @ [vm] \<and> v_userId vm = u"
proof -
  have "drop (length (activations ps)) (activations ps') = map (Pair u) plans"
    using confirm_activations [OF assms(1,3)] by simp
  then have "deliver D pe token (map (Pair u) plans) us = (Inr (), us')" using assms(6) by simp
  then obtain q cat where q: "getPlanCatalog (plans_of D) us' = (Inr cat, us')" "limits_match (cat (last plans)) q"
    "internal_handle D pe (Some token) (QuotaSnapshot u) us' =
       (Inr (Quota \<lparr>hasActiveSubscription = True, sn_planId = Some (plan_name (last plans)), sn_quota = Some (quota_limits_of q)\<rparr>), us')"
    using assms(2,7,8) by (rule delivered_quota)
  have c: "createVm V d u ''USER'' vs = (Inr (vm, pem), vs')"
    using assms(12-15) by (auto simp: vm_handle_def io_iffs)
  then have "virtualMachines vs' = virtualMachines vs @ [vm] \<and> v_userId vm = u" by (auto elim!: createVm_InrE)
  then show ?thesis
    using created_within_snapshot [OF c _ linked_snapshot [OF assms(9,10,11,4) q(3)] q(2)] q(1) by simp
qed

text \<open>
  C11: both services agree on an account: when the auth service has sent an account and the user service took it, the row there
  has the account's identifier, address, names, role, activity and state of the second factor, an administrator has the
  unlimited plan, and the password did not travel.
\<close>
theorem account_projected:
  assumes "syncUserProjection A u s = (Inr (), t)" "trim (or_opt (au_env A ''INTER_SERVICE_SYNC_TOKEN'') []) = token" "token \<noteq> []"
    and "internal_handle D pe (Some token) (SyncUser (projection u)) us = (Inr a, us')"
  shows "projected t = projected s @ [projection u] \<and> a = Synced (u_id u) \<and>
    (\<exists>v. find_user (u_id u) us' = Some v \<and> agrees u v \<and>
       u_password v = (case find_user (u_id u) us of None \<Rightarrow> [] | Some old \<Rightarrow> u_password old) \<and>
       (u_role u = ADMIN \<longrightarrow> (\<exists>q. find_quota (u_id u) us' = Some q \<and> q_planId q = Some ''unlimited'')))"
proof -
  obtain w where w: "syncFromAuth D (projection u) us = (Inr w, us')" "a = Synced (u_id w)"
    using assms(4) by (auto simp: internal_handle_Inr io_iffs)
  have "projected t = projected s @ [projection u]"
    using assms(1-3) by (auto simp: syncUserProjection_def Let_def split: fetch_result.splits if_splits)
  then show ?thesis using syncFromAuth_projection [OF w(1)] w(2) by simp
qed

section \<open>Concrete histories\<close>

definition served_quota :: "string \<Rightarrow> user_deps \<Rightarrow> process_env \<Rightarrow> user_state \<Rightarrow> quota_snapshot endpoint" where
  "served_quota base D pe s url token =
     (case decodeURIComponent (drop (length (base @ ''/users/internal/quota/'')) url) of
        None \<Rightarrow> Response 400 [] None
      | Some i \<Rightarrow> (case internal_handle D pe (Some token) (QuotaSnapshot i) s of
          (Inr (Quota q), _) \<Rightarrow> Response 200 [] (Some q)
        | _ \<Rightarrow> Response 500 [] None))"

lemma served_quota_link:
  assumes "getUserServiceUrl (penv V) = Inr base" "quota_endpoint V = served_quota base D pe s"
  shows "quota_link V D pe s"
  using assms by (auto simp: quota_link_def served_quota_def decode_encode_uri)

definition pro_snapshot :: quota_snapshot where
  "pro_snapshot = \<lparr>hasActiveSubscription = True, sn_planId = Some ''pro'', sn_quota = Some (quota_limits_of pro_quota)\<rparr>"

definition pro_deps :: vm_deps where
  "pro_deps = sample_deps\<lparr>penv := (shop_env sample_pd)(''VM_SSH_KEY_SECRET'' \<mapsto> ''secret''), quota_endpoint := \<lambda>_ _. Response 200 [] (Some pro_snapshot)\<rparr>"

definition pro_state :: vm_state where
  "pro_state = snd (createVm pro_deps Vm_Service.sample_dto ''alice'' ''USER'' fresh_state)"

lemma pro_create: "createVm pro_deps Vm_Service.sample_dto ''alice'' ''USER'' fresh_state = (Inr (sample_vm, Some ''PEM''), pro_state)"
  by code_simp

abbreviation pro_link :: "quota_snapshot endpoint" where
  "pro_link \<equiv> served_quota ''u'' sample_ud (shop_env sample_pd) activated"

lemma shop_env_k: "getInterServiceSyncToken (shop_env sample_pd) = Inr ''k''" "getUserServiceUrl (shop_env sample_pd) = Inr ''u''"
  by (simp_all add: getInterServiceSyncToken_def getUserServiceUrl_def sample_pd_def sample_trims)

lemma pro_deps_k: "getInterServiceSyncToken (penv (pro_deps\<lparr>quota_endpoint := e\<rparr>)) = Inr ''k''" "getUserServiceUrl (penv (pro_deps\<lparr>quota_endpoint := e\<rparr>)) = Inr ''u''"
  by (simp_all add: getInterServiceSyncToken_def getUserServiceUrl_def sample_pd_def sample_trims pro_deps_def)

lemma pro_delivered: "deliver sample_ud (shop_env sample_pd) ''k'' [(''alice'', PRO)] sample_users = (Inr (), activated)"
  using sync_token_accepted [OF shop_env_k(1)] sample_activation plan_of_name [of PRO]
  by (simp add: internal_handle_def bnd_eq throw_if_eq answering_eq activate_named_def activated_def)

lemma pro_quota_read:
  "internal_handle sample_ud (shop_env sample_pd) (Some ''k'') (QuotaSnapshot ''alice'') activated = (Inr (Quota pro_snapshot), activated)"
  using sync_token_accepted [OF shop_env_k(1)]
  by (simp add: internal_handle_def bnd_eq throw_if_eq require_eq answering_eq getInternalQuotaSnapshot_def activated_find pro_snapshot_def
      account_def pro_quota_def)

lemma alice_ascii: "ascii ''alice''"
  by (simp add: ascii_def)

lemma linked_create:
  "createVm (pro_deps\<lparr>quota_endpoint := pro_link\<rparr>) Vm_Service.sample_dto ''alice'' ''USER'' fresh_state = (Inr (sample_vm, Some ''PEM''), pro_state)"
proof -
  have "fetchInternalQuotaSnapshot (pro_deps\<lparr>quota_endpoint := pro_link\<rparr>) ''alice'' = Inr (Some pro_snapshot)"
    using served_quota_link [OF pro_deps_k(2)] pro_deps_k alice_ascii pro_quota_read by (intro linked_snapshot) simp_all
  moreover have "fetchInternalQuotaSnapshot pro_deps ''alice'' = Inr (Some pro_snapshot)"
    using pro_deps_k [of "quota_endpoint pro_deps"]
    by (simp add: fetchInternalQuotaSnapshot_def fetch_snapshot_def) (simp add: pro_deps_def fetchWithTimeout_def response_ok_def json_body_def)
  ultimately show ?thesis using createVm_endpoint pro_create by metis
qed

theorem bought_plan_limits_machines_witness:
  "machines_within ''alice'' (sample_catalog PRO) pro_state \<and> v_userId sample_vm = ''alice''"
proof -
  let ?V = "pro_deps\<lparr>quota_endpoint := pro_link\<rparr>"
  let ?W = "sample_api\<lparr>vh_deps := ?V\<rparr>"
  have "valid_create_dto Vm_Service.sample_dto" by code_simp
  then have "vm_handle ?W (Inr (sample_user ''alice'')) (CreateMachine Vm_Service.sample_dto) fresh_state = (Inr (Created sample_vm (Some ''PEM'')), pro_state)"
    using linked_create by (simp add: vm_handle_def bnd_eq valid_body_eq sample_user_def)
  note v = this
  have d: "deliver sample_ud (shop_env sample_pd) ''k'' (drop (length (activations sample_shop)) (activations
      (sample_shop\<lparr>payments := [pending_pro\<lparr>p_status := ''paid''\<rparr>], activations := [(''alice'', PRO)]\<rparr>))) sample_users = (Inr (), activated)"
    using pro_delivered by simp
  have l: "quota_link ?V sample_ud (shop_env sample_pd) activated" by (rule served_quota_link [OF pro_deps_k(2)]) simp
  have r: "u_role (account ''alice'' USER) = USER" by (simp add: account_def)
  have w: "vh_deps ?W = ?V" "au_userId (sample_user ''alice'') = ''alice''" "au_role (sample_user ''alice'') = ''USER''"
    by (simp_all add: sample_user_def)
  show ?thesis
    using bought_plan_limits_machines [OF sample_confirm _ _ alice_ascii shop_env_k(1) d sample_find_user(1) r l pro_deps_k(2,1) v w]
    by (simp only: activated_catalog) simp
qed

definition syncing_auth :: auth_deps where
  "syncing_auth = (sample_auth 1000 ''x'')\<lparr>au_env := shop_env sample_pd, sync_at := \<lambda>_ _ _. Response 200 [] (Some ())\<rparr>"

lemma syncing_run:
  "syncUserProjection syncing_auth u sample_auth_state = (Inr (), sample_auth_state\<lparr>projected := projected sample_auth_state @ [projection u]\<rparr>)"
  by (simp add: syncUserProjection_def syncing_auth_def sample_pd_def sample_trims response_ok_def)

lemma alice_projection:
  "y_id (projection (sample_account ''alice'' USER False)) = ''alice''" "y_email (projection (sample_account ''alice'' USER False)) \<noteq> []"
  by (simp_all add: projection_def)

lemma alice_synced:
  "\<exists>a us. internal_handle sample_ud (shop_env sample_pd) (Some ''k'') (SyncUser (projection (sample_account ''alice'' USER False))) sample_users = (Inr a, us)"
proof -
  have "\<not> user_clash (sync_update (projection (sample_account ''alice'' USER False)) (account ''alice'' USER)) sample_users"
    by (simp add: user_clash_def same_account_def sync_update_def projection_def account_def)
  then have "\<exists>w us. syncFromAuth sample_ud (projection (sample_account ''alice'' USER False)) sample_users = (Inr w, us)"
    by (simp add: syncFromAuth_def bnd_eq update_user_def require_eq throw_if_eq alice_projection)
  then show ?thesis
    using sync_token_accepted [OF shop_env_k(1)] by (auto simp: internal_handle_def bnd_eq throw_if_eq answering_eq alice_projection)
qed

theorem account_projected_witness:
  "\<exists>a us v. internal_handle sample_ud (shop_env sample_pd) (Some ''k'') (SyncUser (projection (sample_account ''alice'' USER False))) sample_users =
     (Inr a, us) \<and> find_user ''alice'' us = Some v \<and> agrees (sample_account ''alice'' USER False) v \<and> u_password v = ''hash''"
proof -
  obtain a us where r: "internal_handle sample_ud (shop_env sample_pd) (Some ''k'') (SyncUser (projection (sample_account ''alice'' USER False)))
      sample_users = (Inr a, us)" using alice_synced by blast
  have k: "trim (or_opt (au_env syncing_auth ''INTER_SERVICE_SYNC_TOKEN'') []) = ''k''"
    by (simp add: syncing_auth_def sample_pd_def sample_trims)
  have "u_password (account ''alice'' USER) = ''hash''" by (simp add: account_def)
  with account_projected [OF syncing_run k _ r] have "\<exists>v. find_user ''alice'' us = Some v \<and> agrees (sample_account ''alice'' USER False) v \<and> u_password v = ''hash''"
    by auto
  then show ?thesis using r by blast
qed

end
